(* ===== verification/Js_Prelude.thy ===== *)
theory Js_Prelude
  imports Complex_Main "HOL-Library.List_Lexorder" "HOL-Library.Char_ord"
    "HOL-Library.Product_Lexorder" "HOL-Library.Multiset"
begin

text \<open>
  What every component of the model shares: JavaScript values and the few operations on them the
  sources use, thrown errors as values of a sum type, strings as lists of UTF-16 code units below
  256, and database tables as lists of rows in insertion order with the SQL statements the stores
  issue (select the first row by a key, update the rows that satisfy a condition, count them).
  The generic lemmas about tables, sorting and sequences of checks are here, most of them in the
  collections \<open>js_simps\<close>, \<open>table_simps\<close>.
\<close>

named_theorems js_simps "evaluation of checks, errors and JavaScript values"
named_theorems table_simps "tables: rows after an update, an insert or a select"

section \<open>Errors and sequencing\<close>

text \<open>A thrown value. Callers read only its message, so the constructors share the selector.\<close>

datatype js_error =
    Error (message: string)
  | TypeError (message: string)
  | ConstraintError (message: string)

type_synonym 'a result = "js_error + 'a"

definition rbind :: "'a result \<Rightarrow> ('a \<Rightarrow> 'b result) \<Rightarrow> 'b result" where
  "rbind m f = (case m of Inl e \<Rightarrow> Inl e | Inr x \<Rightarrow> f x)"

text \<open>A \<open>for\<close> loop or \<open>forEach\<close> whose body may throw: the first failure ends it.\<close>

fun check_all :: "('a \<Rightarrow> unit result) \<Rightarrow> 'a list \<Rightarrow> unit result" where
  "check_all f [] = Inr ()"
| "check_all f (x # xs) = (case f x of Inl e \<Rightarrow> Inl e | Inr _ \<Rightarrow> check_all f xs)"

text \<open>\<open>Array.map\<close> with a callback that may throw.\<close>

fun map_result :: "('a \<Rightarrow> 'b result) \<Rightarrow> 'a list \<Rightarrow> 'b list result" where
  "map_result f [] = Inr []"
| "map_result f (x # xs) =
     (case f x of Inl e \<Rightarrow> Inl e
      | Inr y \<Rightarrow> (case map_result f xs of Inl e \<Rightarrow> Inl e | Inr ys \<Rightarrow> Inr (y # ys)))"

text \<open>A loop over a list that threads an accumulator and may throw.\<close>

fun fold_result :: "('a \<Rightarrow> 's \<Rightarrow> 's result) \<Rightarrow> 'a list \<Rightarrow> 's \<Rightarrow> 's result" where
  "fold_result f [] s = Inr s"
| "fold_result f (x # xs) s = (case f x s of Inl e \<Rightarrow> Inl e | Inr s' \<Rightarrow> fold_result f xs s')"

abbreviation throw :: "string \<Rightarrow> 'a result" where
  "throw msg \<equiv> Inl (Error msg)"

abbreviation ok :: "'a result \<Rightarrow> bool" where
  "ok r \<equiv> (\<exists>x. r = Inr x)"

section \<open>Numbers and values\<close>

text \<open>
  A number is a finite double, read as the rational it denotes (so 0 and -0 coincide, as they do
  under \<open>===\<close> and in JSON), or one of the three non-finite values.
\<close>

datatype jnum = Fin rat | NaN | PosInf | NegInf

fun num_le :: "jnum \<Rightarrow> jnum \<Rightarrow> bool" where
  "num_le NaN _ = False"
| "num_le _ NaN = False"
| "num_le NegInf _ = True"
| "num_le _ PosInf = True"
| "num_le (Fin a) (Fin b) = (a \<le> b)"
| "num_le _ _ = False"

definition num_eq :: "jnum \<Rightarrow> jnum \<Rightarrow> bool" where
  "num_eq a b = (a \<noteq> NaN \<and> a = b)"

fun finite_num :: "jnum \<Rightarrow> bool" where
  "finite_num (Fin _) = True"
| "finite_num _ = False"

text \<open>\<open>Number.isSafeInteger\<close>; \<open>int_num\<close> reads such a number as an integer.\<close>

fun safe_integer :: "jnum \<Rightarrow> bool" where
  "safe_integer (Fin q) = (snd (quotient_of q) = 1 \<and> \<bar>q\<bar> \<le> 9007199254740991)"
| "safe_integer _ = False"

fun int_num :: "jnum \<Rightarrow> int" where
  "int_num (Fin q) = fst (quotient_of q)"
| "int_num _ = 0"

text \<open>
  A value. An object lists its own enumerable entries in enumeration order and says what its
  prototype is: \<open>Object.prototype\<close>, none, or that of a class.
\<close>

datatype proto = ObjectProto | NullProto | ClassProto

datatype jval =
    JUndefined
  | JNull
  | JBool bool
  | JNum jnum
  | JStr string
  | JArr "jval list"
  | JObj proto "(string \<times> jval) list"
  | JFun

text \<open>The names every object inherits from \<open>Object.prototype\<close>: functions, and the prototype.\<close>

definition prototype_functions :: "string list" where
  "prototype_functions =
     [''constructor'', ''hasOwnProperty'', ''isPrototypeOf'', ''propertyIsEnumerable'',
      ''toLocaleString'', ''toString'', ''valueOf'', ''__defineGetter__'',
      ''__defineSetter__'', ''__lookupGetter__'', ''__lookupSetter__'']"

fun js_get :: "jval \<Rightarrow> string \<Rightarrow> jval" where
  "js_get (JObj p kvs) k =
     (case map_of kvs k of
        Some v \<Rightarrow> v
      | None \<Rightarrow>
          if p = NullProto then JUndefined
          else if k \<in> set prototype_functions then JFun
          else if k = ''__proto__'' then JObj ObjectProto []
          else JUndefined)"
| "js_get _ _ = JUndefined"

definition is_record :: "jval \<Rightarrow> bool" where
  "is_record v = (case v of JObj _ _ \<Rightarrow> True | _ \<Rightarrow> False)"

section \<open>Strings\<close>

type_synonym timestamp = string

text \<open>White space of \<open>String.prototype.trim\<close>, restricted to code units below 256.\<close>

definition is_ws :: "char \<Rightarrow> bool" where
  "is_ws c = ((of_char c :: nat) \<in> {9, 10, 11, 12, 13, 32, 160})"

definition js_trim :: "string \<Rightarrow> string" where
  "js_trim s = rev (dropWhile is_ws (rev (dropWhile is_ws s)))"

abbreviation blank :: "string \<Rightarrow> bool" where
  "blank s \<equiv> js_trim s = []"

function show_nat :: "nat \<Rightarrow> string" where
  "show_nat n =
     (if n < 10 then [char_of (48 + n)] else show_nat (n div 10) @ [char_of (48 + n mod 10)])"
  by pat_completeness auto
termination
  by (relation "measure (\<lambda>n. n)") auto

declare show_nat.simps [simp del]

definition show_int :: "int \<Rightarrow> string" where
  "show_int i = (if i < 0 then ''-'' @ show_nat (nat (- i)) else show_nat (nat i))"

text \<open>\<open>String.prototype.includes\<close>, \<open>startsWith\<close> and \<open>split\<close> on one separator.\<close>

fun starts_with :: "string \<Rightarrow> string \<Rightarrow> bool" where
  "starts_with [] _ = True"
| "starts_with (_ # _) [] = False"
| "starts_with (p # ps) (c # cs) = (p = c \<and> starts_with ps cs)"

fun str_includes :: "string \<Rightarrow> string \<Rightarrow> bool" where
  "str_includes p [] = (p = [])"
| "str_includes p (c # cs) = (starts_with p (c # cs) \<or> str_includes p cs)"

fun split_on :: "char \<Rightarrow> string \<Rightarrow> string list" where
  "split_on d [] = [[]]"
| "split_on d (c # cs) =
     (if c = d then [] # split_on d cs
      else (case split_on d cs of [] \<Rightarrow> [[c]] | w # ws \<Rightarrow> (c # w) # ws))"

fun join :: "string \<Rightarrow> string list \<Rightarrow> string" where
  "join sep [] = []"
| "join sep [s] = s"
| "join sep (s # t # ts) = s @ sep @ join sep (t # ts)"

section \<open>Tables\<close>

text \<open>
  \<open>UPDATE t SET f WHERE p\<close> and its number of changed rows; \<open>SELECT ... ORDER BY key LIMIT 1\<close>
  (rows equal under the key come out in insertion order); \<open>SELECT ... ORDER BY key [DESC] LIMIT n\<close>.
\<close>

definition update_where :: "('r \<Rightarrow> bool) \<Rightarrow> ('r \<Rightarrow> 'r) \<Rightarrow> 'r list \<Rightarrow> 'r list" where
  "update_where p f rows = map (\<lambda>r. if p r then f r else r) rows"

definition changes :: "('r \<Rightarrow> bool) \<Rightarrow> 'r list \<Rightarrow> nat" where
  "changes p rows = length (filter p rows)"

definition first_by :: "('r \<Rightarrow> 'k::linorder) \<Rightarrow> 'r list \<Rightarrow> 'r option" where
  "first_by key rows = (case sort_key key rows of [] \<Rightarrow> None | r # _ \<Rightarrow> Some r)"

definition ascending :: "('r \<Rightarrow> 'k::linorder) \<Rightarrow> nat \<Rightarrow> 'r list \<Rightarrow> 'r list" where
  "ascending key n rows = take n (sort_key key rows)"

definition descending :: "('r \<Rightarrow> 'k::linorder) \<Rightarrow> nat \<Rightarrow> 'r list \<Rightarrow> 'r list" where
  "descending key n rows = take n (rev (sort_key key (rev rows)))"

text \<open>The row with a given primary key.\<close>

definition lookup :: "('r \<Rightarrow> 'k) \<Rightarrow> 'r list \<Rightarrow> 'k \<Rightarrow> 'r option" where
  "lookup key rows k = find (\<lambda>r. key r = k) rows"

text \<open>A comparator sort, as \<open>Array.prototype.sort\<close> with a total preorder \<open>le\<close>: stable.\<close>

fun insert_by :: "('a \<Rightarrow> 'a \<Rightarrow> bool) \<Rightarrow> 'a \<Rightarrow> 'a list \<Rightarrow> 'a list" where
  "insert_by le x [] = [x]"
| "insert_by le x (y # ys) = (if le x y then x # y # ys else y # insert_by le x ys)"

fun sort_by :: "('a \<Rightarrow> 'a \<Rightarrow> bool) \<Rightarrow> 'a list \<Rightarrow> 'a list" where
  "sort_by le [] = []"
| "sort_by le (x # xs) = insert_by le x (sort_by le xs)"

text \<open>The elements of a \<open>Set\<close> made from an array, in insertion order.\<close>

definition first_occurrences :: "'a list \<Rightarrow> 'a list" where
  "first_occurrences xs = rev (remdups (rev xs))"

text \<open>A guard that throws, and the character classes of the patterns.\<close>

definition require :: "bool \<Rightarrow> string \<Rightarrow> unit result" where
  "require c msg = (if c then Inr () else throw msg)"

definition ends_with :: "string \<Rightarrow> string \<Rightarrow> bool" where
  "ends_with suffix s = starts_with (rev suffix) (rev s)"

text \<open>\<open>toISOString\<close> throws outside the range of dates.\<close>

definition toISOString :: "(int \<Rightarrow> timestamp) \<Rightarrow> int \<Rightarrow> timestamp result" where
  "toISOString iso_text t = (if \<bar>t\<bar> \<le> 8640000000000000 then Inr (iso_text t) else throw ''Invalid time value'')"

text \<open>The first failure of a sequence of checks.\<close>

definition all_of :: "unit result list \<Rightarrow> unit result" where
  "all_of checks = check_all (\<lambda>c. c) checks"

text \<open>\<open>Array.map\<close> whose callback reads the index.\<close>

definition indexed :: "(nat \<Rightarrow> 'a \<Rightarrow> 'b) \<Rightarrow> 'a list \<Rightarrow> 'b list" where
  "indexed f xs = map (\<lambda>(i, x). f i x) (enumerate 0 xs)"

text \<open>The lower case of an ASCII letter, as a pattern that ignores case compares.\<close>

definition lower_char :: "char \<Rightarrow> char" where
  "lower_char c = (let n = (of_char c :: nat) in if 65 \<le> n \<and> n \<le> 90 then char_of (n + 32) else c)"

definition digit_char :: "char \<Rightarrow> bool" where
  "digit_char c = (48 \<le> (of_char c :: nat) \<and> (of_char c :: nat) \<le> 57)"

definition lower_letter :: "char \<Rightarrow> bool" where
  "lower_letter c = (97 \<le> (of_char c :: nat) \<and> (of_char c :: nat) \<le> 122)"

definition upper_letter :: "char \<Rightarrow> bool" where
  "upper_letter c = (65 \<le> (of_char c :: nat) \<and> (of_char c :: nat) \<le> 90)"

section \<open>Lemmas\<close>

subsection \<open>Sequencing\<close>

lemma rbind_simps [simp, js_simps]:
  "rbind (Inl e) f = Inl e"
  "rbind (Inr x) f = f x"
  by (simp_all add: rbind_def)

lemma rbind_Inr_iff [js_simps]: "rbind m f = Inr y \<longleftrightarrow> (\<exists>x. m = Inr x \<and> f x = Inr y)"
  by (cases m) simp_all

lemma rbind_Inl_iff: "rbind m f = Inl e \<longleftrightarrow> m = Inl e \<or> (\<exists>x. m = Inr x \<and> f x = Inl e)"
  by (cases m) simp_all

lemma rbind_cong [fundef_cong]:
  "m = m' \<Longrightarrow> (\<And>x. m' = Inr x \<Longrightarrow> f x = f' x) \<Longrightarrow> rbind m f = rbind m' f'"
  by (cases m') simp_all

lemma check_all_ok [js_simps]: "check_all f xs = Inr () \<longleftrightarrow> (\<forall>x\<in>set xs. f x = Inr ())"
  by (induction xs) (auto split: sum.splits)

lemma check_all_cong [fundef_cong]:
  "xs = ys \<Longrightarrow> (\<And>x. x \<in> set ys \<Longrightarrow> f x = g x) \<Longrightarrow> check_all f xs = check_all g ys"
  by (induction ys arbitrary: xs) (auto split: sum.splits)

lemma check_all_error: "check_all f xs = Inl e \<Longrightarrow> \<exists>x\<in>set xs. f x = Inl e"
  by (induction xs) (auto split: sum.splits)

lemma map_result_cong [fundef_cong]:
  "xs = ys \<Longrightarrow> (\<And>x. x \<in> set ys \<Longrightarrow> f x = g x) \<Longrightarrow> map_result f xs = map_result g ys"
  by (induction ys arbitrary: xs) (auto split: sum.splits)

lemma map_result_ok:
  "map_result f xs = Inr ys \<Longrightarrow> length ys = length xs \<and> (\<forall>i<length xs. f (xs ! i) = Inr (ys ! i))"
proof (induction xs arbitrary: ys)
  case (Cons x xs)
  then obtain y ys' where "f x = Inr y" "map_result f xs = Inr ys'" "ys = y # ys'"
    by (auto split: sum.splits)
  with Cons.IH show ?case by (auto simp: nth_Cons split: nat.splits)
qed simp

lemma map_result_set: "map_result f xs = Inr ys \<Longrightarrow> y \<in> set ys \<Longrightarrow> \<exists>x\<in>set xs. f x = Inr y"
  by (induction xs arbitrary: ys) (auto split: sum.splits)

lemma fold_result_append:
  "fold_result f (xs @ ys) s = rbind (fold_result f xs s) (fold_result f ys)"
  by (induction xs arbitrary: s) (auto split: sum.splits)

lemma fold_result_invariant:
  assumes "fold_result f xs s = Inr s'" and "P s"
    and "\<And>x u u'. x \<in> set xs \<Longrightarrow> P u \<Longrightarrow> f x u = Inr u' \<Longrightarrow> P u'"
  shows "P s'"
  using assms
proof (induction xs arbitrary: s)
  case (Cons x xs)
  then obtain u where u: "f x s = Inr u" "fold_result f xs u = Inr s'"
    by (auto split: sum.splits)
  have "P u"
    using Cons.prems(2,3) u(1) by (meson list.set_intros(1))
  with u(2) Cons.IH Cons.prems(3) show ?case
    by (meson list.set_intros(2))
qed simp

lemma unit_result_cases: obtains "(r :: unit result) = Inr ()" | e where "r = Inl e"
  by (cases r) auto

lemma require_simps [simp, js_simps]:
  "require c msg = Inr u \<longleftrightarrow> c"
  "require c msg = Inl e \<longleftrightarrow> \<not> c \<and> e = Error msg"
  by (auto simp: require_def)

lemma all_of_ok [simp, js_simps]:
  "all_of [] = Inr ()"
  "all_of (c # cs) = Inr () \<longleftrightarrow> c = Inr () \<and> all_of cs = Inr ()"
  by (auto simp: all_of_def split: sum.splits)

lemma all_of_append [simp, js_simps]: "all_of (cs @ ds) = Inr () \<longleftrightarrow> all_of cs = Inr () \<and> all_of ds = Inr ()"
  by (auto simp: all_of_def check_all_ok)

lemma all_of_indexed: "all_of (indexed f xs) = Inr () \<longleftrightarrow> (\<forall>i<length xs. f i (xs ! i) = Inr ())"
proof -
  have "set (enumerate 0 xs) = {(i, xs ! i) | i. i < length xs}"
    by (auto simp: in_set_enumerate_eq)
  then show ?thesis by (auto simp: all_of_def check_all_ok indexed_def)
qed

lemma all_of_map: "all_of (map f xs) = Inr () \<longleftrightarrow> (\<forall>x\<in>set xs. f x = Inr ())"
  by (auto simp: all_of_def check_all_ok)

lemma set_first_occurrences [simp]: "set (first_occurrences xs) = set xs"
  by (simp add: first_occurrences_def)

lemma distinct_first_occurrences [simp]: "distinct (first_occurrences xs)"
  by (simp add: first_occurrences_def)

lemma length_first_occurrences: "length (first_occurrences xs) = length xs \<longleftrightarrow> distinct xs"
  using length_remdups_eq [of "rev xs"] by (simp add: first_occurrences_def)

lemma first_occurrences_distinct: "distinct xs \<Longrightarrow> first_occurrences xs = xs"
  by (simp add: first_occurrences_def distinct_remdups_id)

subsection \<open>Strings\<close>

lemma dropWhile_rev_Nil: "dropWhile P (rev (dropWhile P s)) = [] \<longleftrightarrow> (\<forall>c\<in>set s. P c)"
proof -
  have "dropWhile P (rev (dropWhile P s)) = [] \<longleftrightarrow> (\<forall>c\<in>set (dropWhile P s). P c)"
    by (simp only: dropWhile_eq_Nil_conv set_rev)
  also have "\<dots> \<longleftrightarrow> (\<forall>c\<in>set s. P c)"
    by (induction s) auto
  finally show ?thesis .
qed

lemma blank_iff: "blank s \<longleftrightarrow> (\<forall>c\<in>set s. is_ws c)"
  by (simp only: js_trim_def rev_is_Nil_conv dropWhile_rev_Nil)

lemma blank_Nil [simp]: "blank []"
  by (simp add: js_trim_def)

lemma starts_with_iff: "starts_with p s \<longleftrightarrow> (\<exists>t. s = p @ t)"
  by (induction p s rule: starts_with.induct) auto

lemma str_includes_iff: "str_includes p s \<longleftrightarrow> (\<exists>a b. s = a @ p @ b)"
proof (induction s)
  case Nil
  then show ?case by auto
next
  case (Cons c s)
  have "(\<exists>a b. c # s = a @ p @ b) \<longleftrightarrow> (\<exists>b. c # s = p @ b) \<or> (\<exists>a b. s = a @ p @ b)"
    by (metis append_Cons append_Nil append_eq_Cons_conv)
  with Cons.IH show ?case by (simp add: starts_with_iff)
qed

lemma join_split_on: "join [d] (split_on d s) = s"
proof (induction s)
  case (Cons c s)
  have "split_on d s \<noteq> []"
    by (cases s) (auto split: list.splits)
  then obtain w ws where "split_on d s = w # ws"
    by (cases "split_on d s") auto
  with Cons.IH show ?case
    by (cases ws) auto
qed simp

subsection \<open>Tables\<close>

lemma update_where_Nil [simp, table_simps]: "update_where p f [] = []"
  by (simp add: update_where_def)

lemma update_where_Cons [simp, table_simps]:
  "update_where p f (r # rs) = (if p r then f r else r) # update_where p f rs"
  by (simp add: update_where_def)

lemma set_update_where [table_simps]:
  "set (update_where p f rows) = f ` {r \<in> set rows. p r} \<union> {r \<in> set rows. \<not> p r}"
  by (auto simp: update_where_def)

lemma length_update_where [simp, table_simps]: "length (update_where p f rows) = length rows"
  by (simp add: update_where_def)

lemma update_where_append [table_simps]:
  "update_where p f (xs @ ys) = update_where p f xs @ update_where p f ys"
  by (simp add: update_where_def)

text \<open>An update that keeps a column keeps the list of that column: primary keys stay unique.\<close>

lemma map_update_where [simp, table_simps]:
  "(\<And>r. g (f r) = g r) \<Longrightarrow> map g (update_where p f rows) = map g rows"
  by (auto simp: update_where_def)

lemma changes_eq_0 [table_simps]: "changes p rows = 0 \<longleftrightarrow> (\<forall>r\<in>set rows. \<not> p r)"
  by (auto simp: changes_def filter_empty_conv)

lemma changes_key_le_1:
  assumes "distinct (map key rows)" and "\<And>r. p r \<Longrightarrow> key r = k"
  shows "changes p rows \<le> 1"
  using assms(1)
proof (induction rows)
  case (Cons r rows)
  show ?case
  proof (cases "p r")
    case True
    with Cons.prems assms(2) have "filter p rows = []"
      by (force simp: filter_empty_conv)
    with True show ?thesis by (simp add: changes_def)
  next
    case False
    with Cons show ?thesis by (simp add: changes_def)
  qed
qed (simp add: changes_def)

lemma changes_1_iff:
  assumes "distinct (map key rows)" and "\<And>r. p r \<Longrightarrow> key r = k"
  shows "changes p rows = 1 \<longleftrightarrow> (\<exists>r\<in>set rows. p r)"
proof -
  have "changes p rows \<le> 1"
    using assms by (rule changes_key_le_1)
  moreover have "changes p rows \<noteq> 0 \<longleftrightarrow> (\<exists>r\<in>set rows. p r)"
    by (simp add: changes_eq_0)
  ultimately show ?thesis by linarith
qed

lemma distinct_key_eq:
  assumes "distinct (map key rows)" "r \<in> set rows" "r' \<in> set rows" "key r = key r'"
  shows "r = r'"
  using assms by (metis distinct_map inj_onD)

lemma find_key:
  assumes "distinct (map key rows)" "r \<in> set rows" "key r = k"
  shows "find (\<lambda>x. key x = k) rows = Some r"
  using assms
proof (induction rows)
  case (Cons a rows)
  then show ?case by (cases "a = r") (auto simp: image_iff)
qed simp

lemma find_update_where [table_simps]:
  "(\<And>r. key (f r) = key r) \<Longrightarrow>
   find (\<lambda>r. key r = k) (update_where p f rows)
     = map_option (\<lambda>r. if p r then f r else r) (find (\<lambda>r. key r = k) rows)"
  by (induction rows) auto

lemma find_append [table_simps]:
  "find p (xs @ ys) = (case find p xs of None \<Rightarrow> find p ys | Some r \<Rightarrow> Some r)"
  by (induction xs) auto

lemma find_SomeD: "find p rows = Some r \<Longrightarrow> r \<in> set rows \<and> p r"
  by (auto simp: find_Some_iff)

lemma find_NoneD: "find p rows = None \<Longrightarrow> r \<in> set rows \<Longrightarrow> \<not> p r"
  by (auto simp: find_None_iff)

lemma lookup_SomeD: "lookup key rows k = Some r \<Longrightarrow> r \<in> set rows \<and> key r = k"
  by (auto simp: lookup_def dest: find_SomeD)

lemma lookup_None_iff: "lookup key rows k = None \<longleftrightarrow> k \<notin> key ` set rows"
  by (auto simp: lookup_def find_None_iff)

lemma lookupI: "distinct (map key rows) \<Longrightarrow> r \<in> set rows \<Longrightarrow> key r = k \<Longrightarrow> lookup key rows k = Some r"
  by (simp add: lookup_def find_key)

lemma lookup_update_where [table_simps]:
  "(\<And>r. key (f r) = key r) \<Longrightarrow>
   lookup key (update_where p f rows) k = map_option (\<lambda>r. if p r then f r else r) (lookup key rows k)"
  unfolding lookup_def by (rule find_update_where)

lemma lookup_append [table_simps]:
  "lookup key (xs @ ys) k = (case lookup key xs k of None \<Rightarrow> lookup key ys k | Some r \<Rightarrow> Some r)"
  unfolding lookup_def by (rule find_append)

lemma lookup_Nil [simp, table_simps]: "lookup key [] k = None"
  by (simp add: lookup_def)

lemma lookup_Cons [simp, table_simps]:
  "lookup key (r # rs) k = (if key r = k then Some r else lookup key rs k)"
  by (simp add: lookup_def)

text \<open>An update confined to one key, seen through a view of the rows.\<close>

lemma lookup_update_one:
  assumes keep: "\<And>r. key (f r) = key r" and one: "\<And>r. p r \<Longrightarrow> key r = k"
    and "lookup key rows k = Some d" "p d"
  shows "(\<lambda>i. map_option g (lookup key (update_where p f rows) i))
    = (\<lambda>i. map_option g (lookup key rows i))(k \<mapsto> g (f d))"
proof
  fix i
  have upd: "lookup key (update_where p f rows) i
      = map_option (\<lambda>r. if p r then f r else r) (lookup key rows i)"
    by (rule lookup_update_where) (rule keep)
  show "map_option g (lookup key (update_where p f rows) i)
      = ((\<lambda>i. map_option g (lookup key rows i))(k \<mapsto> g (f d))) i"
  proof (cases "i = k")
    case True
    with assms(3,4) upd show ?thesis by simp
  next
    case False
    with one upd show ?thesis
      by (cases "lookup key rows i") (auto dest: lookup_SomeD)
  qed
qed

lemma first_by_None [simp, table_simps]: "first_by key rows = None \<longleftrightarrow> rows = []"
proof -
  have "sort_key key rows = [] \<longleftrightarrow> rows = []"
    by (metis length_0_conv length_sort)
  then show ?thesis
    by (auto simp: first_by_def split: list.splits)
qed

lemma first_by_Some:
  assumes "first_by key rows = Some r"
  shows "r \<in> set rows" and "\<forall>x\<in>set rows. key r \<le> key x"
proof -
  from assms obtain rest where rest: "sort_key key rows = r # rest"
    by (auto simp: first_by_def split: list.splits)
  from rest show "r \<in> set rows"
    by (metis list.set_intros(1) set_sort)
  have "sorted (map key (r # rest))"
    using sorted_sort_key [of key rows] by (simp add: rest)
  moreover have "set rows = set (r # rest)"
    by (metis rest set_sort)
  ultimately show "\<forall>x\<in>set rows. key r \<le> key x"
    by auto
qed

subsection \<open>Sorting by a comparator\<close>

lemma set_insert_by [simp]: "set (insert_by le x ys) = insert x (set ys)"
  by (induction ys) auto

lemma set_sort_by [simp]: "set (sort_by le xs) = set xs"
  by (induction xs) auto

lemma mset_insert_by [simp]: "mset (insert_by le x ys) = add_mset x (mset ys)"
  by (induction ys) auto

lemma mset_sort_by [simp]: "mset (sort_by le xs) = mset xs"
  by (induction xs) auto

lemma length_sort_by [simp]: "length (sort_by le xs) = length xs"
  by (metis mset_sort_by size_mset)

lemma sort_by_permutes_map:
  "mset xs = mset ys \<Longrightarrow> mset (map f xs) = mset (map f ys)"
  by (simp add: mset_map)

lemma insert_by_map:
  "(\<And>y. y \<in> set ys \<Longrightarrow> le' (f x) (f y) = le x y) \<Longrightarrow>
   map f (insert_by le x ys) = insert_by le' (f x) (map f ys)"
  by (induction ys) auto

lemma sort_by_map:
  "(\<And>x y. x \<in> set xs \<Longrightarrow> y \<in> set xs \<Longrightarrow> le' (f x) (f y) = le x y) \<Longrightarrow>
   map f (sort_by le xs) = sort_by le' (map f xs)"
proof (induction xs)
  case (Cons x xs)
  have "map f (insert_by le x (sort_by le xs)) = insert_by le' (f x) (map f (sort_by le xs))"
    by (rule insert_by_map) (use Cons.prems in auto)
  with Cons show ?case by simp
qed simp

lemma sorted_insert_by:
  assumes "sorted_wrt le ys" and "\<forall>y\<in>set ys. le x y \<or> le y x"
    and "\<And>a b c. le a b \<Longrightarrow> le b c \<Longrightarrow> le a c"
  shows "sorted_wrt le (insert_by le x ys)"
  using assms(1,2) by (induction ys) (auto dest: assms(3))

lemma sorted_sort_by:
  assumes "\<And>a b. a \<in> set xs \<Longrightarrow> b \<in> set xs \<Longrightarrow> le a b \<or> le b a"
    and "\<And>a b c. le a b \<Longrightarrow> le b c \<Longrightarrow> le a c"
  shows "sorted_wrt le (sort_by le xs)"
  using assms(1)
proof (induction xs)
  case (Cons x xs)
  have "sorted_wrt le (insert_by le x (sort_by le xs))"
  proof (rule sorted_insert_by)
    show "sorted_wrt le (sort_by le xs)"
      using Cons by simp
    show "\<forall>y\<in>set (sort_by le xs). le x y \<or> le y x"
      using Cons.prems by simp
  qed (rule assms(2))
  then show ?case by simp
qed simp

text \<open>
  Sorting forgets the input's order where the comparator separates all its elements.
\<close>

lemma sorted_wrt_mset_eq:
  assumes "sorted_wrt le xs" "sorted_wrt le ys" "mset xs = mset ys"
    and "\<And>a b. a \<in> set xs \<Longrightarrow> b \<in> set xs \<Longrightarrow> le a b \<Longrightarrow> le b a \<Longrightarrow> a = b"
  shows "xs = ys"
  using assms
proof (induction xs arbitrary: ys)
  case Nil
  then show ?case by simp
next
  case (Cons x xs)
  then obtain y ys' where ys: "ys = y # ys'"
    by (cases ys) auto
  have sets: "set (x # xs) = set (y # ys')"
    using Cons.prems(3) ys by (metis set_mset_mset)
  have "x = y"
  proof (rule ccontr)
    assume "x \<noteq> y"
    with sets have "x \<in> set ys'" "y \<in> set xs" by auto
    with Cons.prems(1,2) ys have "le x y" "le y x" by auto
    with Cons.prems(4) \<open>y \<in> set xs\<close> \<open>x \<noteq> y\<close> show False by auto
  qed
  with Cons.prems ys have "mset xs = mset ys'" by simp
  with Cons.IH [of ys'] Cons.prems ys have "xs = ys'" by auto
  with \<open>x = y\<close> ys show ?case by simp
qed

lemma sort_by_mset_eq:
  assumes "mset xs = mset ys"
    and "\<And>a b. a \<in> set xs \<Longrightarrow> b \<in> set xs \<Longrightarrow> le a b \<or> le b a"
    and "\<And>a b c. le a b \<Longrightarrow> le b c \<Longrightarrow> le a c"
    and "\<And>a b. a \<in> set xs \<Longrightarrow> b \<in> set xs \<Longrightarrow> le a b \<Longrightarrow> le b a \<Longrightarrow> a = b"
  shows "sort_by le xs = sort_by le ys"
proof (rule sorted_wrt_mset_eq)
  have sets: "set xs = set ys"
    using assms(1) by (metis set_mset_mset)
  show "sorted_wrt le (sort_by le xs)"
    using assms(2,3) by (rule sorted_sort_by)
  show "sorted_wrt le (sort_by le ys)"
    using assms(2,3) unfolding sets by (rule sorted_sort_by)
  show "mset (sort_by le xs) = mset (sort_by le ys)"
    using assms(1) by simp
  show "\<And>a b. a \<in> set (sort_by le xs) \<Longrightarrow> b \<in> set (sort_by le xs) \<Longrightarrow> le a b \<Longrightarrow> le b a \<Longrightarrow> a = b"
    using assms(4) by simp
qed

end
