(* ===== verification/Step_History.thy ===== *)
theory Step_History
  imports Main
begin

text \<open>
  What a sequence of calls keeps. A store, a journal or a queue is used by many callers, so the properties
  of a component speak about any list of calls after some point. The locale \<open>step_history\<close> is the contract:
  \<open>exec\<close> carries out one call, \<open>inv\<close> is kept by it and \<open>later\<close> relates the state before to the one after.
  Every component that runs calls interprets it on its own \<open>exec\<close>, with the law of a single call as the proof.
\<close>

locale step_history =
  fixes exec :: "'oper \<Rightarrow> 'state \<Rightarrow> 'state"
    and inv :: "'state \<Rightarrow> bool"
    and later :: "'state \<Rightarrow> 'state \<Rightarrow> bool"
  assumes exec_keeps: "inv s \<Longrightarrow> inv (exec oper s) \<and> later s (exec oper s)"
    and later_refl: "inv s \<Longrightarrow> later s s"
    and later_trans: "inv a \<Longrightarrow> inv b \<Longrightarrow> inv c \<Longrightarrow> later a b \<Longrightarrow> later b c \<Longrightarrow> later a c"
begin

lemma run_keeps: "inv s \<Longrightarrow> inv (fold exec opers s) \<and> later s (fold exec opers s)"
proof (induction opers arbitrary: s)
  case (Cons oper opers)
  from exec_keeps [OF Cons.prems] Cons.IH [of "exec oper s"] Cons.prems later_trans show ?case
    unfolding fold_simps by blast
qed (simp add: later_refl)

lemma run_extended: "inv s \<Longrightarrow> later (fold exec opers s) (fold exec (opers @ rest) s)"
  using run_keeps [of s opers] run_keeps [of "fold exec opers s" rest] by simp

end

end
