(* ===== verification/Canonical_Json.thy ===== *)
theory Canonical_Json
  imports Js_Prelude
begin

text \<open>
  JSON as the sources use it. A column with a \<open>json_valid\<close> check holds a text; the model holds
  the tree the text denotes, with object keys in text order, so two texts written by the same
  writer are equal exactly when their trees are. \<open>stringify\<close> and \<open>js_of_json\<close> are
  \<open>JSON.stringify\<close> and \<open>JSON.parse\<close> on such trees; \<open>canonicalJson\<close> is the writer of
  storage/sqlite.ts (and of storage/postgres.ts), which sorts keys by \<open>localeCompare\<close>;
  \<open>assertJsonValue\<close> is the guard domain/channel.ts and workflow/runtime.ts put before it.

  \<open>localeCompare\<close> depends on the host's collation: the comparison is a parameter \<open>lc\<close> with
  \<open>lc a b\<close> for \<open>a.localeCompare(b) <= 0\<close>, and what is assumed of it is said where it is
  used: it is a total preorder (\<open>collation\<close>) and tells the keys apart (\<open>separates\<close>).
\<close>

section \<open>Texts and values\<close>

datatype json =
    Null
  | Bool bool
  | Num rat
  | Str string
  | Arr "json list"
  | Obj "(string \<times> json) list"

text \<open>
  What a writer returns: \<open>undefined\<close>, a string that is no JSON text, or the text of a tree.
\<close>

datatype jtext = Undef | Garbled | Text json

lemma entry_size [termination_simp]:
  "(k, v) \<in> set kvs \<Longrightarrow> size v < Suc (size_list (\<lambda>x. Suc (size (snd x))) kvs)"
  by (induction kvs) auto

lemma snd_entry_size [termination_simp]:
  "kv \<in> set kvs \<Longrightarrow> size (snd kv) < Suc (size_list (\<lambda>x. Suc (size (snd x))) kvs)"
proof (induction kvs)
  case (Cons a kvs)
  then show ?case by (cases "kv = a") auto
qed simp

fun stringify :: "jval \<Rightarrow> json option" where
  "stringify JUndefined = None"
| "stringify JFun = None"
| "stringify JNull = Some Null"
| "stringify (JBool b) = Some (Bool b)"
| "stringify (JNum (Fin q)) = Some (Num q)"
| "stringify (JNum _) = Some Null"
| "stringify (JStr s) = Some (Str s)"
| "stringify (JArr xs) =
     Some (Arr (map (\<lambda>x. case stringify x of None \<Rightarrow> Null | Some j \<Rightarrow> j) xs))"
| "stringify (JObj p kvs) =
     Some (Obj (concat (map (\<lambda>kv. case stringify (snd kv) of None \<Rightarrow> []
                                     | Some j \<Rightarrow> [(fst kv, j)]) kvs)))"

fun js_of_json :: "json \<Rightarrow> jval" where
  "js_of_json Null = JNull"
| "js_of_json (Bool b) = JBool b"
| "js_of_json (Num q) = JNum (Fin q)"
| "js_of_json (Str s) = JStr s"
| "js_of_json (Arr js) = JArr (map js_of_json js)"
| "js_of_json (Obj kvs) = JObj ObjectProto (map (\<lambda>kv. (fst kv, js_of_json (snd kv))) kvs)"

fun texts :: "jtext list \<Rightarrow> json list option" where
  "texts [] = Some []"
| "texts (Text j # ts) = map_option ((#) j) (texts ts)"
| "texts (_ # ts) = None"

text \<open>
  \<open>Array.join\<close> renders an undefined element as nothing: an array of one such element becomes
  the text of the empty array, and longer arrays get a stray comma.
\<close>

definition array_text :: "jtext list \<Rightarrow> jtext" where
  "array_text ts =
     (if ts = [Undef] then Text (Arr [])
      else case texts ts of Some js \<Rightarrow> Text (Arr js) | None \<Rightarrow> Garbled)"

definition object_text :: "(string \<times> jtext) list \<Rightarrow> jtext" where
  "object_text kts =
     (case texts (map snd kts) of Some js \<Rightarrow> Text (Obj (zip (map fst kts) js)) | None \<Rightarrow> Garbled)"

fun canonicalJson :: "(string \<Rightarrow> string \<Rightarrow> bool) \<Rightarrow> jval \<Rightarrow> jtext" where
  "canonicalJson lc (JArr xs) = array_text (map (canonicalJson lc) xs)"
| "canonicalJson lc (JObj p kvs) =
     object_text (sort_by (\<lambda>l r. lc (fst l) (fst r)) (map (\<lambda>kv. (fst kv, canonicalJson lc (snd kv))) kvs))"
| "canonicalJson lc v = (case stringify v of None \<Rightarrow> Undef | Some j \<Rightarrow> Text j)"

section \<open>The guard\<close>

fun assertJsonValue :: "jval \<Rightarrow> string \<Rightarrow> unit result"
and assertItems :: "nat \<Rightarrow> jval list \<Rightarrow> string \<Rightarrow> unit result"
and assertEntries :: "(string \<times> jval) list \<Rightarrow> string \<Rightarrow> unit result" where
  "assertJsonValue JNull path = Inr ()"
| "assertJsonValue (JStr s) path = Inr ()"
| "assertJsonValue (JBool b) path = Inr ()"
| "assertJsonValue (JNum n) path =
     (if \<not> finite_num n then throw (path @ '' contains a non-finite number'') else Inr ())"
| "assertJsonValue (JArr xs) path = assertItems 0 xs path"
| "assertJsonValue (JObj p kvs) path =
     (if p \<noteq> ObjectProto \<and> p \<noteq> NullProto then throw (path @ '' contains a non-plain object'')
      else assertEntries kvs path)"
| "assertJsonValue v path = throw (path @ '' contains a non-JSON value'')"
| "assertItems i [] path = Inr ()"
| "assertItems i (x # xs) path =
     (case assertJsonValue x (path @ ''['' @ show_nat i @ '']'') of Inl e \<Rightarrow> Inl e
      | Inr _ \<Rightarrow> assertItems (Suc i) xs path)"
| "assertEntries [] path = Inr ()"
| "assertEntries ((k, v) # kvs) path =
     (case assertJsonValue v (path @ ''.'' @ k) of Inl e \<Rightarrow> Inl e
      | Inr _ \<Rightarrow> assertEntries kvs path)"

definition assertJsonObject :: "jval \<Rightarrow> string \<Rightarrow> unit result" where
  "assertJsonObject v label =
     (if \<not> is_record v then throw (label @ '' must be an object'') else assertJsonValue v label)"

section \<open>What the guard and the writer are to mean\<close>

text \<open>A value JSON can carry; a value whose objects have no key twice, as no object has.\<close>

fun json_value :: "jval \<Rightarrow> bool" where
  "json_value (JNum n) = finite_num n"
| "json_value (JArr xs) = (\<forall>x\<in>set xs. json_value x)"
| "json_value (JObj p kvs) = (p \<noteq> ClassProto \<and> (\<forall>kv\<in>set kvs. json_value (snd kv)))"
| "json_value JUndefined = False"
| "json_value JFun = False"
| "json_value _ = True"

fun unique_keys :: "jval \<Rightarrow> bool" where
  "unique_keys (JArr xs) = (\<forall>x\<in>set xs. unique_keys x)"
| "unique_keys (JObj p kvs) = (distinct (map fst kvs) \<and> (\<forall>kv\<in>set kvs. unique_keys (snd kv)))"
| "unique_keys _ = True"

fun keys_of :: "jval \<Rightarrow> string set" where
  "keys_of (JArr xs) = (\<Union>x\<in>set xs. keys_of x)"
| "keys_of (JObj p kvs) = fst ` set kvs \<union> (\<Union>kv\<in>set kvs. keys_of (snd kv))"
| "keys_of _ = {}"

text \<open>The JSON value itself: an object is a finite map, whatever the order of its entries.\<close>

datatype meaning =
    MNull | MBool bool | MNum rat | MStr string | MArr "meaning list"
  | MObj "string \<Rightarrow> meaning option" | MNone

fun meaning_of :: "jval \<Rightarrow> meaning" where
  "meaning_of JNull = MNull"
| "meaning_of (JBool b) = MBool b"
| "meaning_of (JNum (Fin q)) = MNum q"
| "meaning_of (JStr s) = MStr s"
| "meaning_of (JArr xs) = MArr (map meaning_of xs)"
| "meaning_of (JObj p kvs) = MObj (map_of (map (\<lambda>kv. (fst kv, meaning_of (snd kv))) kvs))"
| "meaning_of _ = MNone"

definition collation :: "(string \<Rightarrow> string \<Rightarrow> bool) \<Rightarrow> bool" where
  "collation lc \<longleftrightarrow> (\<forall>a b. lc a b \<or> lc b a) \<and> (\<forall>a b c. lc a b \<longrightarrow> lc b c \<longrightarrow> lc a c)"

definition separates :: "(string \<Rightarrow> string \<Rightarrow> bool) \<Rightarrow> string set \<Rightarrow> bool" where
  "separates lc K \<longleftrightarrow> (\<forall>a\<in>K. \<forall>b\<in>K. lc a b \<longrightarrow> lc b a \<longrightarrow> a = b)"

section \<open>Lemmas\<close>

lemma collation_le: "collation (\<le>)"
  by (auto simp: collation_def)

lemma separates_le: "separates (\<le>) K"
  by (auto simp: separates_def)

lemma assertJsonValue_iff:
  shows "assertJsonValue v path = Inr () \<longleftrightarrow> json_value v"
    and "assertItems i xs path = Inr () \<longleftrightarrow> (\<forall>x\<in>set xs. json_value x)"
    and "assertEntries kvs path = Inr () \<longleftrightarrow> (\<forall>kv\<in>set kvs. json_value (snd kv))"
proof (induction v path and i xs path and kvs path
    rule: assertJsonValue_assertItems_assertEntries.induct)
  case (6 p kvs path)
  then show ?case by (cases p) auto
qed (auto split: sum.splits)

lemma texts_Some: "texts ts = Some js \<longleftrightarrow> ts = map Text js"
  by (induction ts arbitrary: js rule: texts.induct) auto

lemma texts_map_Text [simp]: "texts (map Text js) = Some js"
  by (simp add: texts_Some)

lemma object_text_Text:
  "object_text (map (\<lambda>kj. (fst kj, Text (snd kj))) kjs) = Text (Obj kjs)"
proof -
  have "map snd (map (\<lambda>kj. (fst kj, Text (snd kj))) kjs) = map Text (map snd kjs)"
    by simp
  then have "texts (map snd (map (\<lambda>kj. (fst kj, Text (snd kj))) kjs)) = Some (map snd kjs)"
    by (simp only: texts_map_Text)
  then show ?thesis
    by (simp add: object_text_def zip_map_fst_snd comp_def)
qed

text \<open>A value the guard accepts has a text, and the text denotes the value.\<close>

lemma choose_texts:
  assumes "\<forall>x\<in>set xs. \<exists>j. f x = Text j \<and> P x j"
  shows "\<exists>js. map f xs = map Text js \<and> list_all2 P xs js"
  using assms
proof (induction xs)
  case (Cons x xs)
  then obtain j js where "f x = Text j \<and> P x j" "map f xs = map Text js \<and> list_all2 P xs js"
    by auto
  then show ?case by (intro exI [of _ "j # js"]) simp
qed simp

lemma map_of_sort_by:
  assumes "distinct (map fst kvs)"
  shows "map_of (sort_by le kvs) = map_of kvs"
proof (rule map_of_eqI)
  show "set (map fst (sort_by le kvs)) = set (map fst kvs)"
    by (simp add: image_set [symmetric])
next
  have "distinct (map fst (sort_by le kvs))"
    using assms by (metis mset_eq_imp_distinct_iff mset_map mset_sort_by)
  then show "\<forall>k\<in>set (map fst (sort_by le kvs)). map_of (sort_by le kvs) k = map_of kvs k"
    using assms by (auto simp: map_of_eq_Some_iff set_sort_by)
qed

lemma map_of_map_snd:
  "map_of (map (\<lambda>kv. (fst kv, g (snd kv))) kvs) = map_option g \<circ> map_of kvs"
  by (induction kvs) auto

lemma list_all2_map_eq: "list_all2 (\<lambda>x y. f x = g y) xs ys \<longleftrightarrow> map f xs = map g ys"
  by (induction xs ys rule: list_induct2') auto

lemma canonicalJson_array:
  assumes "\<forall>x\<in>set xs. \<exists>j. canonicalJson lc x = Text j \<and> meaning_of (js_of_json j) = meaning_of x"
  shows "\<exists>j. canonicalJson lc (JArr xs) = Text j \<and> meaning_of (js_of_json j) = meaning_of (JArr xs)"
proof -
  from choose_texts [OF assms] obtain js where js: "map (canonicalJson lc) xs = map Text js"
    "list_all2 (\<lambda>x j. meaning_of (js_of_json j) = meaning_of x) xs js"
    by blast
  from js(2) have "map meaning_of xs = map (\<lambda>j. meaning_of (js_of_json j)) js"
    by (induction rule: list_all2_induct) auto
  moreover have "map Text js \<noteq> [Undef]" by auto
  ultimately show ?thesis
    by (intro exI [of _ "Arr js"]) (simp add: js(1) array_text_def comp_def)
qed

lemma canonicalJson_object:
  assumes vals: "\<forall>kv\<in>set kvs. \<exists>j. canonicalJson lc (snd kv) = Text j
      \<and> meaning_of (js_of_json j) = meaning_of (snd kv)"
    and keys: "distinct (map fst kvs)"
  shows "\<exists>j. canonicalJson lc (JObj p kvs) = Text j
      \<and> meaning_of (js_of_json j) = meaning_of (JObj p kvs)"
proof -
  define le :: "string \<times> jtext \<Rightarrow> string \<times> jtext \<Rightarrow> bool" where "le = (\<lambda>l r. lc (fst l) (fst r))"
  define le' :: "string \<times> json \<Rightarrow> string \<times> json \<Rightarrow> bool" where "le' = (\<lambda>l r. lc (fst l) (fst r))"
  from choose_texts [OF vals] obtain js where js:
      "map (\<lambda>kv. canonicalJson lc (snd kv)) kvs = map Text js"
      "list_all2 (\<lambda>kv j. meaning_of (js_of_json j) = meaning_of (snd kv)) kvs js"
    by blast
  define kjs where "kjs = zip (map fst kvs) js"
  have len: "length js = length kvs"
    using js(2) by (simp add: list_all2_lengthD)
  have fsts: "map fst kjs = map fst kvs"
    by (simp add: kjs_def len)
  have pairs: "map (\<lambda>kv. (fst kv, canonicalJson lc (snd kv))) kvs
      = map (\<lambda>kj. (fst kj, Text (snd kj))) kjs"
    using js(1) len unfolding kjs_def
    by (intro nth_equalityI) (auto dest: map_eq_imp_length_eq simp: map_equality_iff)
  have means: "map (\<lambda>kj. (fst kj, meaning_of (js_of_json (snd kj)))) kjs
      = map (\<lambda>kv. (fst kv, meaning_of (snd kv))) kvs"
    using js(2) len unfolding kjs_def
    by (intro nth_equalityI) (auto simp: list_all2_conv_all_nth)
  have "sort_by le (map (\<lambda>kj. (fst kj, Text (snd kj))) kjs)
      = map (\<lambda>kj. (fst kj, Text (snd kj))) (sort_by le' kjs)"
    by (rule sort_by_map [symmetric]) (simp add: le_def le'_def)
  then have written: "canonicalJson lc (JObj p kvs) = Text (Obj (sort_by le' kjs))"
    by (simp add: pairs le_def object_text_Text [symmetric])
  have "map_of (map (\<lambda>kj. (fst kj, meaning_of (js_of_json (snd kj)))) (sort_by le' kjs))
      = map_of (map (\<lambda>kj. (fst kj, meaning_of (js_of_json (snd kj)))) kjs)"
    using map_of_sort_by [of kjs le'] keys fsts
    by (simp add: map_of_map_snd [of "\<lambda>j. meaning_of (js_of_json j)"])
  then have "meaning_of (js_of_json (Obj (sort_by le' kjs))) = meaning_of (JObj p kvs)"
    by (simp add: comp_def means)
  with written show ?thesis by blast
qed

lemma canonicalJson_text:
  "json_value v \<Longrightarrow> unique_keys v \<Longrightarrow>
   \<exists>j. canonicalJson lc v = Text j \<and> meaning_of (js_of_json j) = meaning_of v"
proof (induction v)
  case (JNum n)
  then show ?case by (cases n) auto
next
  case (JArr xs)
  then show ?case by (intro canonicalJson_array) simp
next
  case (JObj p kvs)
  then show ?case
    by (intro canonicalJson_object) (auto simp: snds.simps)
qed auto

text \<open>The text depends on the value alone, not on the order of an object's entries.\<close>

lemma meaning_objects:
  assumes eq: "meaning_of (JObj p kvs) = meaning_of (JObj q kws)"
    and keys: "distinct (map fst kvs)" "distinct (map fst kws)"
    and texts: "\<And>kv w. kv \<in> set kvs \<Longrightarrow> w \<in> snd ` set kws \<Longrightarrow>
      meaning_of (snd kv) = meaning_of w \<Longrightarrow> f (snd kv) = f w"
  shows "mset (map (\<lambda>kv. (fst kv, f (snd kv))) kvs) = mset (map (\<lambda>kv. (fst kv, f (snd kv))) kws)"
proof -
  let ?m = "map (\<lambda>kv. (fst kv, meaning_of (snd kv)))"
  let ?t = "map (\<lambda>kv. (fst kv, f (snd kv)))"
  have dist: "distinct (map fst (?m kvs))" "distinct (map fst (?m kws))"
    using keys by (simp_all add: comp_def)
  with eq have sets: "set (?m kvs) = set (?m kws)"
    by (auto simp: map_of_inject_set)
  have "set (?t kvs) = set (?t kws)"
  proof (intro equalityI subsetI)
    fix kt assume "kt \<in> set (?t kvs)"
    then obtain kv where kv: "kv \<in> set kvs" "kt = (fst kv, f (snd kv))" by auto
    then have "(fst kv, meaning_of (snd kv)) \<in> set (?m kws)"
      using sets by auto
    then obtain kw where kw: "kw \<in> set kws" "fst kw = fst kv" "meaning_of (snd kw) = meaning_of (snd kv)"
      by auto
    have "f (snd kv) = f (snd kw)"
      using texts kv(1) kw by (metis imageI)
    with kv(2) kw have "kt = (fst kw, f (snd kw))" by simp
    with kw(1) show "kt \<in> set (?t kws)" by (simp add: image_iff) blast
  next
    fix kt assume "kt \<in> set (?t kws)"
    then obtain kw where kw: "kw \<in> set kws" "kt = (fst kw, f (snd kw))" by auto
    then have "(fst kw, meaning_of (snd kw)) \<in> set (?m kvs)"
      using sets by auto
    then obtain kv where kv: "kv \<in> set kvs" "fst kv = fst kw" "meaning_of (snd kv) = meaning_of (snd kw)"
      by auto
    have "f (snd kv) = f (snd kw)"
      using texts kw(1) kv by (metis imageI)
    with kw(2) kv have "kt = (fst kv, f (snd kv))" by simp
    with kv(1) show "kt \<in> set (?t kvs)" by (simp add: image_iff) blast
  qed
  moreover have "distinct (?t kvs)" "distinct (?t kws)"
    using keys by (auto simp: distinct_map inj_on_def)
  ultimately show ?thesis
    by (simp only: set_eq_iff_mset_eq_distinct)
qed

lemma sort_entries_eq:
  assumes "mset (map (\<lambda>kv. (fst kv, f (snd kv))) kvs) = mset (map (\<lambda>kv. (fst kv, g (snd kv))) kws)"
    and "distinct (map fst kvs)" "collation lc" "separates lc (fst ` set kvs)"
  shows "sort_by (\<lambda>l r. lc (fst l) (fst r)) (map (\<lambda>kv. (fst kv, f (snd kv))) kvs)
    = sort_by (\<lambda>l r. lc (fst l) (fst r)) (map (\<lambda>kv. (fst kv, g (snd kv))) kws)"
proof (rule sort_by_mset_eq [OF assms(1)])
  show "\<And>a b. lc (fst a) (fst b) \<or> lc (fst b) (fst a)"
    using assms(3) by (simp add: collation_def)
  show "\<And>a b c. lc (fst a) (fst b) \<Longrightarrow> lc (fst b) (fst c) \<Longrightarrow> lc (fst a) (fst c)"
    using assms(3) unfolding collation_def by blast
next
  fix a b
  assume a: "a \<in> set (map (\<lambda>kv. (fst kv, f (snd kv))) kvs)"
    and b: "b \<in> set (map (\<lambda>kv. (fst kv, f (snd kv))) kvs)"
    and le: "lc (fst a) (fst b)" "lc (fst b) (fst a)"
  from a obtain x where x: "x \<in> set kvs" "a = (fst x, f (snd x))" by auto
  from b obtain y where y: "y \<in> set kvs" "b = (fst y, f (snd y))" by auto
  have "fst x = fst y"
    using assms(4) le x y by (simp add: separates_def)
  then have "x = y"
    using assms(2) x(1) y(1) by (metis distinct_map inj_onD)
  with x y show "a = b" by simp
qed

lemma canonicalJson_meaning:
  assumes "json_value v" "json_value w" "unique_keys v" "unique_keys w"
    and "collation lc" "separates lc (keys_of v)"
    and "meaning_of v = meaning_of w"
  shows "canonicalJson lc v = canonicalJson lc w"
  using assms
proof (induction v arbitrary: w)
  case (JNum n)
  then show ?case
    by (cases n; cases w rule: meaning_of.cases; simp)
next
  case (JArr xs)
  from JArr.prems(7) obtain ys where w: "w = JArr ys" and ms: "map meaning_of xs = map meaning_of ys"
    by (cases w rule: meaning_of.cases) auto
  from ms have len: "length xs = length ys" by (rule map_eq_imp_length_eq)
  have "canonicalJson lc (xs ! i) = canonicalJson lc (ys ! i)" if "i < length xs" for i
  proof (rule JArr.IH)
    show "meaning_of (xs ! i) = meaning_of (ys ! i)"
      using ms that len by (metis nth_map)
    show "separates lc (keys_of (xs ! i))"
      using JArr.prems(6) that by (fastforce simp: separates_def dest: nth_mem)
  qed (use JArr.prems w that len in auto)
  then have "map (canonicalJson lc) xs = map (canonicalJson lc) ys"
    using len by (intro nth_equalityI) auto
  with w show ?case by simp
next
  case (JObj p kvs)
  from JObj.prems(7) obtain q kws where w: "w = JObj q kws"
    by (cases w rule: meaning_of.cases) auto
  have "mset (map (\<lambda>kv. (fst kv, canonicalJson lc (snd kv))) kvs)
      = mset (map (\<lambda>kv. (fst kv, canonicalJson lc (snd kv))) kws)"
  proof (rule meaning_objects)
    fix kv v' assume kv: "kv \<in> set kvs" and v': "v' \<in> snd ` set kws"
      and m: "meaning_of (snd kv) = meaning_of v'"
    show "canonicalJson lc (snd kv) = canonicalJson lc v'"
    proof (rule JObj.IH)
      show "kv \<in> set kvs" by (rule kv)
      show "snd kv \<in> Basic_BNFs.snds kv" by (simp add: snds.simps)
      show "separates lc (keys_of (snd kv))"
        using JObj.prems(6) kv by (fastforce simp: separates_def)
    qed (use JObj.prems w kv v' m in auto)
  qed (use JObj.prems w in auto)
  moreover have "separates lc (fst ` set kvs)"
    using JObj.prems(6) by (fastforce simp: separates_def)
  ultimately have "sort_by (\<lambda>l r. lc (fst l) (fst r)) (map (\<lambda>kv. (fst kv, canonicalJson lc (snd kv))) kvs)
      = sort_by (\<lambda>l r. lc (fst l) (fst r)) (map (\<lambda>kv. (fst kv, canonicalJson lc (snd kv))) kws)"
    using JObj.prems(3,5) by (intro sort_entries_eq) simp_all
  with w show ?case by simp
next
  case JNull
  then show ?case by (cases w rule: meaning_of.cases; simp)
next
  case (JBool b)
  then show ?case by (cases w rule: meaning_of.cases; simp)
next
  case (JStr s)
  then show ?case by (cases w rule: meaning_of.cases; simp)
qed simp_all

section \<open>Properties\<close>

text \<open>C1. Two values the guard accepts get the same canonical text exactly when they are the same
JSON value, objects read as finite maps: the order in which entries were added never shows, and
nothing is lost. Every replay check of the stores compares such texts.\<close>

theorem canonicalJson_decides_equality:
  assumes "assertJsonValue v p = Inr ()" "assertJsonValue w q = Inr ()"
    and "unique_keys v" "unique_keys w"
    and "collation lc" "separates lc (keys_of v)"
  shows "canonicalJson lc v = canonicalJson lc w \<longleftrightarrow> meaning_of v = meaning_of w"
proof
  have "json_value v" "json_value w"
    using assms(1,2) by (simp_all add: assertJsonValue_iff)
  then obtain j k where "canonicalJson lc v = Text j" "meaning_of (js_of_json j) = meaning_of v"
      "canonicalJson lc w = Text k" "meaning_of (js_of_json k) = meaning_of w"
    using canonicalJson_text assms(3,4) by metis
  then show "canonicalJson lc v = canonicalJson lc w \<Longrightarrow> meaning_of v = meaning_of w"
    by simp
  show "meaning_of v = meaning_of w \<Longrightarrow> canonicalJson lc v = canonicalJson lc w"
    using \<open>json_value v\<close> \<open>json_value w\<close> assms(3-6) by (intro canonicalJson_meaning)
qed

lemma canonicalJson_decides_equality_witness:
  "canonicalJson (\<le>) (JObj ObjectProto [(''b'', JNull), (''a'', JArr [JBool True])])
     = canonicalJson (\<le>) (JObj NullProto [(''a'', JArr [JBool True]), (''b'', JNull)])
   \<longleftrightarrow> meaning_of (JObj ObjectProto [(''b'', JNull), (''a'', JArr [JBool True])])
     = meaning_of (JObj NullProto [(''a'', JArr [JBool True]), (''b'', JNull)])"
proof (rule canonicalJson_decides_equality [where p = "''x''" and q = "''y''"])
  show "assertJsonValue (JObj ObjectProto [(''b'', JNull), (''a'', JArr [JBool True])]) ''x'' = Inr ()"
    and "assertJsonValue (JObj NullProto [(''a'', JArr [JBool True]), (''b'', JNull)]) ''y'' = Inr ()"
    by simp_all
qed (rule collation_le separates_le | simp)+

end
