(* ===== verification/Channel_Domain.thy ===== *)
theory Channel_Domain
  imports Canonical_Json
begin

text \<open>
  The provider-neutral contracts of src/domain: the channel event envelope with its validation and
  record identity (channel.ts), the durable authorization evidence (authorization.ts), and the
  action and executor types (contracts.ts). Values that the code checks at run time are \<open>jval\<close>;
  a validated event is read as a \<open>channel_event\<close> with typed fields. Whether a string parses as a
  date is up to the host's \<open>Date\<close>: \<open>date_ms s\<close> is \<open>new Date(s).getTime()\<close>, None for NaN.
\<close>

section \<open>Types\<close>

text \<open>The envelope as it arrives. \<open>raw_source\<close> lists the own entries of \<open>source\<close>.\<close>

record raw_event =
  raw_kind :: jval
  raw_source :: "(string \<times> jval) list"
  raw_occurredAt :: "timestamp option"
  raw_eventKey :: jval
  raw_deduplicationKey :: jval
  raw_payload :: jval
  raw_raw :: jval

text \<open>\<open>NormalizedChannelEvent\<close> with its declared types.\<close>

record channel_event =
  ce_kind :: string
  ce_source :: "(string \<times> jval) list"
  ce_occurredAt :: "timestamp option"
  ce_eventKey :: string
  ce_deduplicationKey :: string
  ce_payload :: jval
  ce_raw :: jval

datatype action_state =
    Observed | Settling | Planned | AwaitingApproval | Executing | WaitingExternal
  | Completed | Superseded | Failed

datatype exec_mode = ReadOnly | WorkspaceWrite | ExternalWrite

record executor_request =
  rq_actionId :: string
  rq_title :: string
  rq_prompt :: string
  rq_workspace :: string
  rq_mode :: exec_mode

datatype exec_status = ExCompleted | ExNeedsInput | ExFailed

record executor_result =
  rs_actionId :: string
  rs_executor :: string
  rs_status :: exec_status
  rs_summary :: string
  rs_sessionId :: "string option"

record authorization_evidence =
  au_id :: string
  au_grantedBy :: string
  au_grantedAt :: timestamp
  au_scope :: string
  au_revision :: int
  au_source :: string

section \<open>Operations\<close>

definition nonEmpty :: "jval \<Rightarrow> string \<Rightarrow> unit result" where
  "nonEmpty v label =
     (case v of
        JStr s \<Rightarrow>
          if blank s then throw (label @ '' must be a non-empty string'')
          else if length s > 4096 then throw (label @ '' exceeds 4096 characters'')
          else Inr ()
      | _ \<Rightarrow> throw (label @ '' must be a non-empty string''))"

definition source_field :: "(string \<times> jval) list \<Rightarrow> string \<Rightarrow> jval" where
  "source_field src k = js_get (JObj ObjectProto src) k"

definition validateNormalizedChannelEvent ::
  "(string \<Rightarrow> int option) \<Rightarrow> raw_event \<Rightarrow> unit result" where
  "validateNormalizedChannelEvent date_ms event =
     rbind (nonEmpty (raw_kind event) ''event kind'') (\<lambda>_.
     rbind (nonEmpty (source_field (raw_source event) ''channel'') ''event source channel'') (\<lambda>_.
     rbind (nonEmpty (raw_eventKey event) ''event key'') (\<lambda>_.
     rbind (nonEmpty (raw_deduplicationKey event) ''event deduplication key'') (\<lambda>_.
     rbind (check_all (\<lambda>(name, value). if value = JUndefined then Inr ()
              else nonEmpty value (''event source '' @ name)) (raw_source event)) (\<lambda>_.
     rbind (case raw_occurredAt event of
              None \<Rightarrow> Inr ()
            | Some s \<Rightarrow> if date_ms s = None then throw ''event occurredAt must be a timestamp'' else Inr ()) (\<lambda>_.
     rbind (assertJsonObject (raw_payload event) ''event payload'') (\<lambda>_.
     assertJsonObject (raw_raw event) ''event raw'')))))))"

fun js_string :: "jval \<Rightarrow> string" where
  "js_string (JStr s) = s"
| "js_string _ = []"

definition eventRecordId :: "(string \<Rightarrow> int option) \<Rightarrow> raw_event \<Rightarrow> string result" where
  "eventRecordId date_ms event =
     rbind (validateNormalizedChannelEvent date_ms event) (\<lambda>_.
       Inr (''event:'' @ js_string (source_field (raw_source event) ''channel'') @ '':''
              @ js_string (raw_deduplicationKey event)))"

text \<open>A validated envelope at its declared types; nothing is computed.\<close>

definition typed_event :: "raw_event \<Rightarrow> channel_event" where
  "typed_event event =
     \<lparr> ce_kind = js_string (raw_kind event), ce_source = raw_source event,
       ce_occurredAt = raw_occurredAt event,
       ce_eventKey = js_string (raw_eventKey event),
       ce_deduplicationKey = js_string (raw_deduplicationKey event),
       ce_payload = raw_payload event, ce_raw = raw_raw event \<rparr>"

definition auth_text :: "jval \<Rightarrow> string \<Rightarrow> nat \<Rightarrow> string result" where
  "auth_text v label max_len =
     (case v of
        JStr s \<Rightarrow>
          if blank s then throw (label @ '' is required'')
          else if length s > max_len then throw (label @ '' exceeds '' @ show_nat max_len @ '' characters'')
          else Inr s
      | _ \<Rightarrow> throw (label @ '' is required''))"

definition auth_timestamp :: "(string \<Rightarrow> int option) \<Rightarrow> jval \<Rightarrow> string \<Rightarrow> (timestamp \<times> int) result" where
  "auth_timestamp date_ms v label =
     rbind (auth_text v label 100) (\<lambda>s.
       case date_ms s of None \<Rightarrow> throw (label @ '' must be a timestamp'') | Some ms \<Rightarrow> Inr (s, ms))"

definition requireAuthorizationEvidence ::
  "(string \<Rightarrow> int option) \<Rightarrow> jval \<Rightarrow> string \<Rightarrow> string \<Rightarrow> string \<Rightarrow> authorization_evidence result" where
  "requireAuthorizationEvidence date_ms value expected_scope expected_grantedBy effectiveAt =
     (if \<not> is_record value then throw ''authorization evidence is required''
      else
        rbind (auth_timestamp date_ms (js_get value ''grantedAt'') ''authorization grantedAt'') (\<lambda>(grantedAt, granted_ms).
        rbind (auth_timestamp date_ms (JStr effectiveAt) ''authorization effectiveAt'') (\<lambda>(_, effective_ms).
        if granted_ms > effective_ms then throw ''authorization cannot be granted in the future''
        else
          rbind (auth_text (JStr expected_scope) ''expected authorization scope'' 300) (\<lambda>expectedScope.
          rbind (auth_text (JStr expected_grantedBy) ''expected authorization grantor'' 300) (\<lambda>expectedGrantor.
          if js_get value ''grantedBy'' \<noteq> JStr expectedGrantor
          then throw (''authorization must be granted by '' @ expectedGrantor)
          else if js_get value ''scope'' \<noteq> JStr expectedScope
          then throw (''authorization scope must be '' @ expectedScope)
          else
            (case js_get value ''revision'' of
               JNum n \<Rightarrow>
                 if \<not> safe_integer n \<or> int_num n < 1
                 then throw ''authorization revision must be a positive integer''
                 else
                   rbind (auth_text (js_get value ''id'') ''authorization id'' 300) (\<lambda>aid.
                   rbind (auth_text (js_get value ''source'') ''authorization source'' 500) (\<lambda>src.
                   Inr \<lparr> au_id = aid, au_grantedBy = expectedGrantor, au_grantedAt = grantedAt,
                         au_scope = expectedScope, au_revision = int_num n, au_source = src \<rparr>))
             | _ \<Rightarrow> throw ''authorization revision must be a positive integer'')))))) "

section \<open>Lemmas\<close>

lemma nonEmpty_iff: "nonEmpty v label = Inr () \<longleftrightarrow> (\<exists>s. v = JStr s \<and> \<not> blank s \<and> length s \<le> 4096)"
  by (auto simp: nonEmpty_def split: jval.splits)

lemma assertJsonObject_iff: "assertJsonObject v label = Inr () \<longleftrightarrow> is_record v \<and> json_value v"
  by (auto simp: assertJsonObject_def assertJsonValue_iff)

lemma auth_text_ok:
  "auth_text v label m = Inr s \<longleftrightarrow> v = JStr s \<and> \<not> blank s \<and> length s \<le> m"
  by (auto simp: auth_text_def split: jval.splits)

lemma auth_timestamp_ok:
  "auth_timestamp date_ms v label = Inr (s, ms) \<longleftrightarrow>
   v = JStr s \<and> \<not> blank s \<and> length s \<le> 100 \<and> date_ms s = Some ms"
  by (auto simp: auth_timestamp_def rbind_Inr_iff auth_text_ok split: option.splits)

lemma validate_event_ok:
  "validateNormalizedChannelEvent date_ms event = Inr () \<longleftrightarrow>
     nonEmpty (raw_kind event) ''event kind'' = Inr ()
   \<and> nonEmpty (source_field (raw_source event) ''channel'') ''event source channel'' = Inr ()
   \<and> nonEmpty (raw_eventKey event) ''event key'' = Inr ()
   \<and> nonEmpty (raw_deduplicationKey event) ''event deduplication key'' = Inr ()
   \<and> (\<forall>(name, value)\<in>set (raw_source event). value = JUndefined
        \<or> nonEmpty value (''event source '' @ name) = Inr ())
   \<and> (\<forall>s. raw_occurredAt event = Some s \<longrightarrow> date_ms s \<noteq> None)
   \<and> assertJsonObject (raw_payload event) ''event payload'' = Inr ()
   \<and> assertJsonObject (raw_raw event) ''event raw'' = Inr ()"
  by (auto simp: validateNormalizedChannelEvent_def rbind_Inr_iff check_all_ok
      split: option.splits if_splits)

end
