(* ===== verification/Policy_Engine.thy ===== *)
theory Policy_Engine
  imports Channel_Domain
begin

text \<open>
  src/policy: the condition language (types.ts) and its evaluation and validation (engine.ts). The
  operator of a fact is the string the document carries, since \<open>validatePolicy\<close> is what rejects
  unknown ones; an absent \<open>value\<close> is \<open>JUndefined\<close>. The clause counter that \<open>walk\<close> mutates is
  passed through and returned. A product's schema is a parameter: the facts it admits and its
  check of the effect.
\<close>

section \<open>Types\<close>

datatype policy_condition =
    Fact (fact_id: string) (fact_op: string) (fact_value: jval)
  | All "policy_condition list"
  | Any "policy_condition list"
  | Not policy_condition

record policy_document =
  pd_version :: jnum
  pd_name :: string
  pd_description :: string
  pd_priority :: jnum
  pd_when :: policy_condition
  pd_effect :: jval
  pd_expiresAt :: "string option"

record policy_schema =
  ps_facts :: "string list"
  ps_validateEffect :: "jval \<Rightarrow> unit result"

section \<open>Evaluation\<close>

definition operators :: "string list" where
  "operators = [''eq'', ''neq'', ''contains'', ''in'', ''exists'', ''gte'', ''lte'']"

text \<open>\<open>===\<close> on two values that are never the same object, and \<open>includes\<close>, which finds NaN.\<close>

fun strict_eq :: "jval \<Rightarrow> jval \<Rightarrow> bool" where
  "strict_eq JUndefined JUndefined = True"
| "strict_eq JNull JNull = True"
| "strict_eq (JBool a) (JBool b) = (a = b)"
| "strict_eq (JNum a) (JNum b) = num_eq a b"
| "strict_eq (JStr a) (JStr b) = (a = b)"
| "strict_eq _ _ = False"

definition js_includes :: "jval list \<Rightarrow> jval \<Rightarrow> bool" where
  "js_includes xs v = (\<exists>x\<in>set xs. strict_eq x v \<or> (x = JNum NaN \<and> v = JNum NaN))"

fun walk_path :: "jval \<Rightarrow> string list \<Rightarrow> jval" where
  "walk_path current [] = current"
| "walk_path current (segment # path) =
     (if \<not> is_record current then JUndefined else walk_path (js_get current segment) path)"

definition valueAt :: "jval \<Rightarrow> string \<Rightarrow> jval" where
  "valueAt input path = walk_path input (split_on (CHR ''.'') path)"

definition fact_holds :: "string \<Rightarrow> jval \<Rightarrow> jval \<Rightarrow> bool" where
  "fact_holds oper actual value =
     (if oper = ''exists'' then (if value = JBool False then actual = JUndefined else actual \<noteq> JUndefined)
      else if oper = ''eq'' then strict_eq actual value
      else if oper = ''neq'' then \<not> strict_eq actual value
      else if oper = ''contains'' then
        (case (actual, value) of
           (JStr a, JStr v) \<Rightarrow> str_includes v a
         | (JArr xs, _) \<Rightarrow> js_includes xs value
         | _ \<Rightarrow> False)
      else if oper = ''in'' then (case value of JArr vs \<Rightarrow> js_includes vs actual | _ \<Rightarrow> False)
      else if oper = ''gte'' then
        (case (actual, value) of (JNum a, JNum v) \<Rightarrow> num_le v a | _ \<Rightarrow> False)
      else if oper = ''lte'' then
        (case (actual, value) of (JNum a, JNum v) \<Rightarrow> num_le a v | _ \<Rightarrow> False)
      else False)"

fun matchesPolicy :: "policy_condition \<Rightarrow> jval \<Rightarrow> bool" where
  "matchesPolicy (Fact f oper v) input = fact_holds oper (valueAt input f) v"
| "matchesPolicy (All cs) input = (\<forall>c\<in>set cs. matchesPolicy c input)"
| "matchesPolicy (Any cs) input = (\<exists>c\<in>set cs. matchesPolicy c input)"
| "matchesPolicy (Not c) input = (\<not> matchesPolicy c input)"

definition add_once :: "'a \<Rightarrow> 'a list \<Rightarrow> 'a list" where
  "add_once x xs = (if x \<in> set xs then xs else xs @ [x])"

fun policyConditionFacts :: "policy_condition \<Rightarrow> string list \<Rightarrow> string list" where
  "policyConditionFacts (Fact f oper v) result = add_once f result"
| "policyConditionFacts (All cs) result = fold policyConditionFacts cs result"
| "policyConditionFacts (Any cs) result = fold policyConditionFacts cs result"
| "policyConditionFacts (Not c) result = policyConditionFacts c result"

section \<open>Validation\<close>

definition long_text :: "jval \<Rightarrow> nat \<Rightarrow> bool" where
  "long_text v n = (case v of JStr s \<Rightarrow> length s > n | _ \<Rightarrow> False)"

fun walk :: "string list \<Rightarrow> policy_condition \<Rightarrow> nat \<Rightarrow> nat \<Rightarrow> nat result"
and walk_group :: "string list \<Rightarrow> policy_condition list \<Rightarrow> nat \<Rightarrow> nat \<Rightarrow> nat result" where
  "walk facts c depth clauses =
     (if depth > 8 then throw ''policy condition exceeds maximum depth 8''
      else if Suc clauses > 40 then throw ''policy condition exceeds maximum 40 clauses''
      else (case c of
          Fact f oper v \<Rightarrow>
            if f \<notin> set facts then throw (''unsupported policy fact: '' @ f)
            else if oper \<notin> set operators then throw (''unsupported policy operator: '' @ oper)
            else if long_text v 500 then throw ''policy value exceeds 500 characters''
            else Inr (Suc clauses)
        | All cs \<Rightarrow>
            if length cs < 1 \<or> length cs > 20 then throw ''policy boolean group must contain 1-20 clauses''
            else walk_group facts cs (Suc depth) (Suc clauses)
        | Any cs \<Rightarrow>
            if length cs < 1 \<or> length cs > 20 then throw ''policy boolean group must contain 1-20 clauses''
            else walk_group facts cs (Suc depth) (Suc clauses)
        | Not d \<Rightarrow> walk facts d (Suc depth) (Suc clauses)))"
| "walk_group facts [] depth clauses = Inr clauses"
| "walk_group facts (c # cs) depth clauses =
     (case walk facts c depth clauses of Inl e \<Rightarrow> Inl e
      | Inr clauses' \<Rightarrow> walk_group facts cs depth clauses')"

definition validatePolicy ::
  "(string \<Rightarrow> int option) \<Rightarrow> policy_document \<Rightarrow> policy_schema \<Rightarrow> unit result" where
  "validatePolicy date_ms document schema =
     (if pd_version document \<noteq> Fin 1 then throw ''policy version must be 1''
      else if blank (pd_name document) \<or> length (pd_name document) > 80
      then throw ''policy name must contain 1-80 characters''
      else if length (pd_description document) > 500 then throw ''policy description exceeds 500 characters''
      else if \<not> safe_integer (pd_priority document) \<or> int_num (pd_priority document) < 0
        \<or> int_num (pd_priority document) > 1000
      then throw ''policy priority must be an integer from 0 to 1000''
      else
        rbind (walk (ps_facts schema) (pd_when document) 1 0) (\<lambda>_.
        rbind (ps_validateEffect schema (pd_effect document)) (\<lambda>_.
        case pd_expiresAt document of
          Some t \<Rightarrow> if t \<noteq> [] \<and> date_ms t = None then throw ''expiresAt must be an ISO timestamp'' else Inr ()
        | None \<Rightarrow> Inr ())))"

section \<open>What validation is to ensure\<close>

fun clauses_of :: "policy_condition \<Rightarrow> nat" where
  "clauses_of (Fact f oper v) = 1"
| "clauses_of (All cs) = Suc (sum_list (map clauses_of cs))"
| "clauses_of (Any cs) = Suc (sum_list (map clauses_of cs))"
| "clauses_of (Not c) = Suc (clauses_of c)"

text \<open>All leaves admitted, groups of 1 to 20, and no node deeper than \<open>limit\<close> levels.\<close>

fun admitted :: "string list \<Rightarrow> nat \<Rightarrow> policy_condition \<Rightarrow> bool" where
  "admitted facts 0 c = False"
| "admitted facts (Suc limit) (Fact f oper v) =
     (f \<in> set facts \<and> oper \<in> set operators \<and> \<not> long_text v 500)"
| "admitted facts (Suc limit) (All cs) =
     (1 \<le> length cs \<and> length cs \<le> 20 \<and> (\<forall>c\<in>set cs. admitted facts limit c))"
| "admitted facts (Suc limit) (Any cs) =
     (1 \<le> length cs \<and> length cs \<le> 20 \<and> (\<forall>c\<in>set cs. admitted facts limit c))"
| "admitted facts (Suc limit) (Not c) = admitted facts limit c"

fun mentioned :: "policy_condition \<Rightarrow> string set" where
  "mentioned (Fact f oper v) = {f}"
| "mentioned (All cs) = (\<Union>c\<in>set cs. mentioned c)"
| "mentioned (Any cs) = (\<Union>c\<in>set cs. mentioned c)"
| "mentioned (Not c) = mentioned c"

section \<open>Lemmas\<close>

declare walk.simps [simp del]

lemma clauses_of_pos: "0 < clauses_of c"
  by (cases c) auto

lemma walk_iff:
  shows "walk facts c depth n = Inr m \<longleftrightarrow>
      depth \<le> 8 \<and> m = n + clauses_of c \<and> m \<le> 40 \<and> admitted facts (9 - depth) c"
    and "walk_group facts cs depth n = Inr m \<longleftrightarrow>
      m = n + sum_list (map clauses_of cs)
      \<and> (cs \<noteq> [] \<longrightarrow> depth \<le> 8 \<and> m \<le> 40 \<and> (\<forall>c\<in>set cs. admitted facts (9 - depth) c))"
proof (induction facts c depth n and facts cs depth n arbitrary: m and m rule: walk_walk_group.induct)
  case (1 facts c depth n)
  show ?case
  proof (cases "depth \<le> 8 \<and> Suc n \<le> 40")
    case False
    then show ?thesis
      using clauses_of_pos [of c] by (auto simp: walk.simps [of facts c depth n])
  next
    case True
    then have limit: "9 - depth = Suc (8 - depth)" by arith
    show ?thesis
    proof (cases c)
      case (Fact f oper v)
      with True show ?thesis
        by (auto simp: walk.simps [of facts "Fact f oper v" depth n] limit)
    next
      case (All cs)
      with True 1(1) [of cs m] show ?thesis
        by (auto simp: walk.simps [of facts "All cs" depth n] limit Suc_le_eq)
    next
      case (Any cs)
      with True 1(2) [of cs m] show ?thesis
        by (auto simp: walk.simps [of facts "Any cs" depth n] limit Suc_le_eq)
    next
      case (Not d)
      with True 1(3) [of d m] show ?thesis
        using clauses_of_pos [of d]
        by (cases "depth = 8") (auto simp: walk.simps [of facts "Not d" depth n] walk.simps [of facts "Not d" 8 n] limit)
    qed
  qed
next
  case (3 facts c cs depth n)
  show ?case
  proof (cases "walk facts c depth n")
    case (Inl e)
    with 3(1) [of "n + clauses_of c"] show ?thesis by (cases cs) auto
  next
    case (Inr n')
    with 3(1) [of n'] 3(2) [OF Inr, of m] show ?thesis by (cases cs) auto
  qed
qed auto

lemma set_policyConditionFacts:
  "set (policyConditionFacts c acc) = mentioned c \<union> set acc"
proof (induction c arbitrary: acc)
  case (All cs)
  then show ?case
    by (simp, induction cs arbitrary: acc) auto
next
  case (Any cs)
  then show ?case
    by (simp, induction cs arbitrary: acc) auto
qed (auto simp: add_once_def)

lemma distinct_policyConditionFacts:
  "distinct acc \<Longrightarrow> distinct (policyConditionFacts c acc)"
proof (induction c arbitrary: acc)
  case (All cs)
  then show ?case
    by (simp, induction cs arbitrary: acc) auto
next
  case (Any cs)
  then show ?case
    by (simp, induction cs arbitrary: acc) auto
qed (auto simp: add_once_def)

lemma matchesPolicy_mentioned:
  "(\<And>f. f \<in> mentioned c \<Longrightarrow> valueAt input f = valueAt input' f) \<Longrightarrow>
   matchesPolicy c input = matchesPolicy c input'"
proof (induction c)
  case (All cs)
  then show ?case by simp (metis UN_I mentioned.simps(2))
next
  case (Any cs)
  then show ?case by simp (metis UN_I mentioned.simps(3))
qed auto

lemma admitted_mentioned: "admitted facts n c \<Longrightarrow> mentioned c \<subseteq> set facts"
  by (induction facts n c rule: admitted.induct) auto

section \<open>Properties\<close>

text \<open>C2. A policy document passes validation exactly when its header fields are in range, its
condition is at most 8 levels deep with at most 40 clauses, groups of 1 to 20, supported facts
and operators and short values, its effect is accepted and its expiry parses.\<close>

theorem validatePolicy_iff:
  "validatePolicy date_ms d schema = Inr () \<longleftrightarrow>
     pd_version d = Fin 1 \<and> \<not> blank (pd_name d) \<and> length (pd_name d) \<le> 80
   \<and> length (pd_description d) \<le> 500
   \<and> safe_integer (pd_priority d) \<and> 0 \<le> int_num (pd_priority d) \<and> int_num (pd_priority d) \<le> 1000
   \<and> admitted (ps_facts schema) 8 (pd_when d) \<and> clauses_of (pd_when d) \<le> 40
   \<and> ps_validateEffect schema (pd_effect d) = Inr ()
   \<and> (pd_expiresAt d = None \<or> pd_expiresAt d = Some [] \<or> (\<exists>t. pd_expiresAt d = Some t \<and> date_ms t \<noteq> None))"
proof -
  have "(\<exists>m. walk (ps_facts schema) (pd_when d) 1 0 = Inr m) \<longleftrightarrow>
      admitted (ps_facts schema) 8 (pd_when d) \<and> clauses_of (pd_when d) \<le> 40"
    by (auto simp: walk_iff)
  then show ?thesis
    by (auto simp: validatePolicy_def rbind_Inr_iff split: option.splits if_splits)
qed

text \<open>The facts a validated policy lists are in its schema and without repetition, and they
are all that matching reads: inputs that agree on them match alike.\<close>

lemma matchesPolicy_reads_declared_facts:
  assumes "validatePolicy date_ms d schema = Inr ()"
  shows "set (policyConditionFacts (pd_when d) []) \<subseteq> set (ps_facts schema)
    \<and> distinct (policyConditionFacts (pd_when d) [])
    \<and> ((\<exists>f\<in>set (policyConditionFacts (pd_when d) []). valueAt input f \<noteq> valueAt input' f)
       \<or> matchesPolicy (pd_when d) input = matchesPolicy (pd_when d) input')"
proof -
  have "admitted (ps_facts schema) 8 (pd_when d)"
    using assms by (simp add: validatePolicy_iff)
  then show ?thesis
    using matchesPolicy_mentioned [of "pd_when d" input input']
    by (auto simp: set_policyConditionFacts distinct_policyConditionFacts dest: admitted_mentioned)
qed

lemma matchesPolicy_reads_declared_facts_witness:
  "set (policyConditionFacts (Not (Fact ''a'' ''eq'' JNull)) []) \<subseteq> set [''a'', ''b'']
    \<and> distinct (policyConditionFacts (Not (Fact ''a'' ''eq'' JNull)) [])
    \<and> ((\<exists>f\<in>set (policyConditionFacts (Not (Fact ''a'' ''eq'' JNull)) []).
          valueAt (JObj ObjectProto [(''b'', JNull)]) f \<noteq> valueAt (JObj ObjectProto []) f)
       \<or> matchesPolicy (Not (Fact ''a'' ''eq'' JNull)) (JObj ObjectProto [(''b'', JNull)])
         = matchesPolicy (Not (Fact ''a'' ''eq'' JNull)) (JObj ObjectProto []))"
proof -
  let ?d = "\<lparr> pd_version = Fin 1, pd_name = ''p'', pd_description = [], pd_priority = Fin 0,
      pd_when = Not (Fact ''a'' ''eq'' JNull), pd_effect = JNull, pd_expiresAt = None \<rparr>"
  let ?s = "\<lparr> ps_facts = [''a'', ''b''], ps_validateEffect = (\<lambda>_. Inr ()) \<rparr>"
  have "validatePolicy (\<lambda>_. None) ?d ?s = Inr ()"
    by (simp add: validatePolicy_def walk.simps operators_def long_text_def js_trim_def is_ws_def)
  from matchesPolicy_reads_declared_facts [OF this] show ?thesis
    by simp
qed

end
