(* ===== verification/Lease_Queue.thy ===== *)
theory Lease_Queue
  imports Js_Prelude
begin

text \<open>
  The contract the three durable queues of the store share: event deliveries, workflow effects and
  actions are claimed by one worker under a lease, settled or released by that worker, and taken
  over by another once the lease has run out. The abstract machine here knows only the lease of
  each item; \<open>lease_step\<close> says which changes are allowed and \<open>lease_trace\<close> chains them. The
  locale \<open>lease_store\<close> is the interface a store implements: an execution function for its
  operations whose every effect on the leases is such a step. Each store interprets it.
\<close>

section \<open>The abstract machine\<close>

text \<open>Points in time are texts in one store and numbers in the other: any linear order.\<close>

datatype 't lease_at =
    Fresh
  | Ready 't
  | Held string 't
  | Closed

type_synonym lease = "timestamp lease_at"

type_synonym ('k, 't) leases_at = "'k \<Rightarrow> 't lease_at option"

type_synonym 'k leases = "('k, timestamp) leases_at"

datatype ('k, 't) event_at =
    Claimed 'k string 't 't
  | Settled 'k string
  | Released 'k string 't bool
  | Quiet

type_synonym 'k lease_event = "('k, timestamp) event_at"

fun claimable :: "'t::linorder \<Rightarrow> 't lease_at option \<Rightarrow> bool" where
  "claimable now (Some Fresh) = True"
| "claimable now (Some (Ready t)) = (t \<le> now)"
| "claimable now (Some (Held w e)) = (e \<le> now)"
| "claimable now _ = False"

text \<open>What operations other than the three may do: nothing to an item that is held or closed.\<close>

definition quiet :: "('k, 't) leases_at \<Rightarrow> ('k, 't) leases_at \<Rightarrow> bool" where
  "quiet m m' \<longleftrightarrow> (\<forall>k. (case m k of
       Some (Held w e) \<Rightarrow> m' k = m k
     | Some Closed \<Rightarrow> m' k = m k
     | Some _ \<Rightarrow> (\<exists>l. m' k = Some l \<and> (\<forall>w e. l \<noteq> Held w e))
     | None \<Rightarrow> (\<forall>w e. m' k \<noteq> Some (Held w e))))"

inductive lease_step ::
  "('k, 't::linorder) leases_at \<Rightarrow> ('k, 't) event_at \<Rightarrow> ('k, 't) leases_at \<Rightarrow> bool" where
  claim: "claimable now (m k) \<Longrightarrow> lease_step m (Claimed k w now e) (m(k \<mapsto> Held w e))"
| settle: "m k = Some (Held w e) \<Longrightarrow> lease_step m (Settled k w) (m(k \<mapsto> Closed))"
| release: "m k = Some (Held w e) \<Longrightarrow>
     lease_step m (Released k w t terminal) (m(k \<mapsto> (if terminal then Closed else Ready t)))"
| quiet: "quiet m m' \<Longrightarrow> lease_step m Quiet m'"

inductive lease_trace ::
  "('k, 't::linorder) leases_at \<Rightarrow> ('k, 't) event_at list \<Rightarrow> ('k, 't) leases_at \<Rightarrow> bool" where
  Nil: "lease_trace m [] m"
| Cons: "lease_step m ev m' \<Longrightarrow> lease_trace m' evs m'' \<Longrightarrow> lease_trace m (ev # evs) m''"

inductive_cases lease_step_claimE: "lease_step m (Claimed k w now e) m'"
inductive_cases lease_step_settleE: "lease_step m (Settled k w) m'"
inductive_cases lease_step_releaseE: "lease_step m (Released k w t b) m'"
inductive_cases lease_step_quietE: "lease_step m Quiet m'"
inductive_cases lease_trace_ConsE: "lease_trace m (ev # evs) m'"
inductive_simps lease_trace_Nil_iff: "lease_trace m [] m'"

text \<open>The lease of a row whose status says it is held.\<close>

fun held_lease :: "string option \<Rightarrow> 't option \<Rightarrow> 't lease_at" where
  "held_lease (Some w) (Some e) = Held w e"
| "held_lease _ _ = Closed"

lemma held_lease_Held [simp]: "held_lease a b = Held w e \<longleftrightarrow> a = Some w \<and> b = Some e"
  by (cases a; cases b) auto

text \<open>The item an event is about, and running a list of operations with their events.\<close>

fun about :: "('k, 't) event_at \<Rightarrow> 'k option" where
  "about (Claimed k w now e) = Some k"
| "about (Settled k w) = Some k"
| "about (Released k w t b) = Some k"
| "about Quiet = None"

fun run_ops :: "('o \<Rightarrow> 's \<Rightarrow> 's \<times> ('k, 't) event_at) \<Rightarrow> 'o list \<Rightarrow> 's \<Rightarrow> 's \<times> ('k, 't) event_at list" where
  "run_ops exec [] s = (s, [])"
| "run_ops exec (oper # os) s =
     (let (s', ev) = exec oper s; (s'', evs) = run_ops exec os s' in (s'', ev # evs))"

section \<open>Lemmas on the machine\<close>

lemma release_closed: "m k = Some (Held w e) \<Longrightarrow> lease_step m (Released k w t True) (m(k \<mapsto> Closed))"
  using lease_step.release [of m k w e t True] by simp

lemma release_ready: "m k = Some (Held w e) \<Longrightarrow> lease_step m (Released k w t False) (m(k \<mapsto> Ready t))"
  using lease_step.release [of m k w e t False] by simp

lemma quiet_refl: "quiet m m"
  by (auto simp: quiet_def split: option.splits lease_at.splits)

lemma idle_step [simp, intro!]: "lease_step m Quiet m"
  by (rule lease_step.quiet) (rule quiet_refl)

lemma claim_step [intro]:
  "claimable now (m k) \<Longrightarrow> m' = m(k \<mapsto> Held w e) \<Longrightarrow> lease_step m (Claimed k w now e) m'"
  by (simp add: lease_step.claim)

lemma quiet_Held [dest]: "quiet m m' \<Longrightarrow> m k = Some (Held w e) \<Longrightarrow> m' k = Some (Held w e)"
  unfolding quiet_def by (drule spec [of _ k]) simp

lemma quiet_Closed [dest]: "quiet m m' \<Longrightarrow> m k = Some Closed \<Longrightarrow> m' k = Some Closed"
  unfolding quiet_def by (drule spec [of _ k]) simp

lemma step_other:
  "lease_step m ev m' \<Longrightarrow> m k = Some (Held w e) \<Longrightarrow> about ev \<noteq> Some k \<Longrightarrow> m' k = Some (Held w e)"
  by (auto elim!: lease_step.cases dest: quiet_Held)

lemma step_closed:
  "lease_step m ev m' \<Longrightarrow> m k = Some Closed \<Longrightarrow> m' k = Some Closed \<and> about ev \<noteq> Some k"
  by (auto elim!: lease_step.cases dest: quiet_Closed)

text \<open>A closed item stays closed and no event is about it any more.\<close>

lemma trace_closed:
  "lease_trace m evs m' \<Longrightarrow> m k = Some Closed \<Longrightarrow>
   m' k = Some Closed \<and> (\<forall>ev\<in>set evs. about ev \<noteq> Some k)"
proof (induction rule: lease_trace.induct)
  case (Cons m ev m' evs m'')
  then show ?case using step_closed [of m ev m' k] by auto
qed simp

lemma trace_append:
  "lease_trace m (xs @ ys) m'' \<longleftrightarrow> (\<exists>m'. lease_trace m xs m' \<and> lease_trace m' ys m'')"
proof (induction xs arbitrary: m)
  case Nil
  then show ?case by (auto simp: lease_trace_Nil_iff)
next
  case (Cons ev xs)
  then show ?case
    by (fastforce elim: lease_trace_ConsE intro: lease_trace.Cons)
qed

lemma trace_settled_once:
  assumes "lease_trace m (xs @ Settled k w # ys) m'"
  shows "\<forall>ev\<in>set ys. about ev \<noteq> Some k"
proof -
  from assms obtain m1 m2 where "lease_step m1 (Settled k w) m2" "lease_trace m2 ys m'"
    by (auto simp: trace_append elim: lease_trace_ConsE)
  then show ?thesis
    using trace_closed [of m2 ys m' k] by (auto elim: lease_step_settleE)
qed

text \<open>While nothing happens to an item its holder keeps it.\<close>

lemma trace_held:
  "lease_trace m evs m' \<Longrightarrow> m k = Some (Held w e) \<Longrightarrow> \<forall>ev\<in>set evs. about ev \<noteq> Some k \<Longrightarrow>
   m' k = Some (Held w e)"
proof (induction rule: lease_trace.induct)
  case (Cons m ev m' evs m'')
  then show ?case using step_other [of m ev m' k w e] by auto
qed simp

text \<open>
  The next event about a held item is its holder's, or a claim at or after the lease's expiry.
\<close>

lemma next_event_of_held:
  assumes "lease_trace m (xs @ ev # ys) m'" and "m k = Some (Held w e)"
    and "\<forall>x\<in>set xs. about x \<noteq> Some k" and "about ev = Some k"
  shows "ev = Settled k w \<or> (\<exists>t b. ev = Released k w t b) \<or> (\<exists>w' now e'. ev = Claimed k w' now e' \<and> e \<le> now)"
proof -
  from assms(1) obtain m1 m2 where "lease_trace m xs m1" "lease_step m1 ev m2"
    by (auto simp: trace_append elim: lease_trace_ConsE)
  moreover from this(1) assms(2,3) have "m1 k = Some (Held w e)"
    by (rule trace_held)
  ultimately show ?thesis
    using assms(4) by (auto elim!: lease_step.cases)
qed

lemma claim_exclusive:
  assumes "lease_trace m (xs @ Claimed k w now e # ys @ ev # zs) m'"
    and "\<forall>y\<in>set ys. about y \<noteq> Some k" and "about ev = Some k"
  shows "ev = Settled k w \<or> (\<exists>t b. ev = Released k w t b)
    \<or> (\<exists>w' now' e'. ev = Claimed k w' now' e' \<and> e \<le> now')"
proof -
  from assms(1) obtain m1 m2 where step: "lease_step m1 (Claimed k w now e) m2"
    and rest: "lease_trace m2 (ys @ ev # zs) m'"
    by (auto simp: trace_append elim: lease_trace_ConsE)
  from step have "m2 k = Some (Held w e)"
    by (auto elim: lease_step_claimE)
  with rest show ?thesis
    using assms(2,3) by (rule next_event_of_held)
qed

section \<open>The interface of a store\<close>

text \<open>
  \<open>inv\<close> is what the store keeps true of its tables; \<open>exec\<close> runs one operation and returns the
  event it caused, \<open>Quiet\<close> for one that only read, failed or did something else.
\<close>

locale lease_store =
  fixes phase :: "'s \<Rightarrow> ('k, 't::linorder) leases_at"
    and inv :: "'s \<Rightarrow> bool"
    and exec :: "'o \<Rightarrow> 's \<Rightarrow> 's \<times> ('k, 't) event_at"
  assumes exec_inv: "inv s \<Longrightarrow> exec oper s = (s', ev) \<Longrightarrow> inv s'"
    and exec_step: "inv s \<Longrightarrow> exec oper s = (s', ev) \<Longrightarrow> lease_step (phase s) ev (phase s')"
begin

lemma run_trace:
  "inv s \<Longrightarrow> run_ops exec os s = (s', evs) \<Longrightarrow> inv s' \<and> lease_trace (phase s) evs (phase s')"
proof (induction os arbitrary: s s' evs)
  case Nil
  then show ?case by (simp add: lease_trace.Nil)
next
  case (Cons oper os)
  obtain s1 ev where e: "exec oper s = (s1, ev)" by fastforce
  obtain s2 evs' where r: "run_ops exec os s1 = (s2, evs')" by fastforce
  from Cons.prems(2) e r have "s' = s2" "evs = ev # evs'" by auto
  with Cons.IH [OF exec_inv [OF Cons.prems(1) e] r] exec_step [OF Cons.prems(1) e]
  show ?case by (auto intro: lease_trace.Cons)
qed

lemma run_inv: "inv s \<Longrightarrow> run_ops exec os s = (s', evs) \<Longrightarrow> inv s'"
  using run_trace by blast

lemma run_exclusive:
  assumes "inv s" "run_ops exec os s = (s', xs @ Claimed k w now e # ys @ ev # zs)"
    and "\<forall>y\<in>set ys. about y \<noteq> Some k" "about ev = Some k"
  shows "ev = Settled k w \<or> (\<exists>t b. ev = Released k w t b)
    \<or> (\<exists>w' now' e'. ev = Claimed k w' now' e' \<and> e \<le> now')"
  by (rule claim_exclusive [OF conjunct2 [OF run_trace [OF assms(1,2)]] assms(3,4)])

lemma run_settled_once:
  assumes "inv s" "run_ops exec os s = (s', xs @ Settled k w # ys)"
  shows "\<forall>ev\<in>set ys. about ev \<noteq> Some k"
  by (rule trace_settled_once [OF conjunct2 [OF run_trace [OF assms]]])

lemma run_closed:
  assumes "inv s" "run_ops exec os s = (s', evs)" "phase s k = Some Closed"
  shows "phase s' k = Some Closed \<and> (\<forall>ev\<in>set evs. about ev \<noteq> Some k)"
  by (rule trace_closed [OF conjunct2 [OF run_trace [OF assms(1,2)]] assms(3)])

text \<open>A worker whose lease was taken over can no longer settle or release the item.\<close>

lemma fenced:
  assumes "inv s" "exec oper s = (s', ev)" "phase s k = Some (Held w e)" "w' \<noteq> w"
  shows "ev \<noteq> Settled k w' \<and> (\<forall>t b. ev \<noteq> Released k w' t b)"
  using exec_step [OF assms(1,2)] assms(3,4)
  by (auto elim: lease_step_settleE lease_step_releaseE)

end

end
