(* ===== verification/Event_Store.thy ===== *)
theory Event_Store
  imports Channel_Domain Lease_Queue
begin

text \<open>
  The event journal, the deliveries to its consumers, the signals and the checkpoints of
  storage/sqlite.ts, over the tables of migrations/sqlite. \<open>clock\<close> is the database's
  \<open>strftime('%Y-%m-%dT%H:%M:%fZ', 'now')\<close> at the statement. A transaction that throws is rolled
  back: the operation then returns the error and no new state. Rows equal under an ORDER BY come
  out in insertion order.
\<close>

section \<open>Tables\<close>

record event_row =
  ev_id :: string
  ev_kind :: string
  ev_event_key :: string
  ev_deduplication_key :: string
  ev_source :: json
  ev_payload :: json
  ev_raw :: json
  ev_occurred_at :: "timestamp option"
  ev_received_at :: timestamp

datatype delivery_status = DPending | DProcessing | DDelivered | DFailed

record delivery_row =
  dl_consumer :: string
  dl_event_id :: string
  dl_status :: delivery_status
  dl_attempt :: nat
  dl_available_at :: timestamp
  dl_worker :: "string option"
  dl_lease_expires_at :: "timestamp option"
  dl_last_error :: "string option"
  dl_delivered_at :: "timestamp option"
  dl_updated_at :: timestamp

record signal_row =
  sg_id :: string
  sg_kind :: string
  sg_occurred_at :: timestamp
  sg_scope :: json
  sg_data :: json
  sg_recorded_at :: timestamp

record checkpoint_row =
  cp_owner :: string
  cp_key :: string
  cp_value :: json
  cp_updated_at :: timestamp

record event_store =
  es_events :: "event_row list"
  es_deliveries :: "delivery_row list"
  es_signals :: "signal_row list"
  es_features :: "checkpoint_row list"
  es_consumers :: "checkpoint_row list"

record claimed_event =
  ce_id :: string
  ce_event :: channel_event
  ce_attempt :: nat

record event_release =
  rl_consumerName :: string
  rl_eventId :: string
  rl_workerId :: string
  rl_error :: string
  rl_availableAt :: timestamp
  rl_terminal :: bool

record signal_input =
  si_id :: string
  si_kind :: string
  si_occurredAt :: timestamp
  si_scope :: "jval option"
  si_data :: jval

section \<open>The journal and its deliveries\<close>

fun entries :: "jval \<Rightarrow> (string \<times> jval) list" where
  "entries (JObj p kvs) = kvs"
| "entries _ = []"

definition claimedEvent :: "event_row \<Rightarrow> nat \<Rightarrow> claimed_event" where
  "claimedEvent row attempt =
     \<lparr> ce_id = ev_id row,
       ce_event =
         \<lparr> ce_kind = ev_kind row, ce_source = entries (js_of_json (ev_source row)),
           ce_occurredAt = (case ev_occurred_at row of Some t \<Rightarrow> if t = [] then None else Some t | None \<Rightarrow> None),
           ce_eventKey = ev_event_key row, ce_deduplicationKey = ev_deduplication_key row,
           ce_payload = js_of_json (ev_payload row), ce_raw = js_of_json (ev_raw row) \<rparr>,
       ce_attempt = attempt \<rparr>"

definition appendEvent ::
  "timestamp \<Rightarrow> string \<Rightarrow> channel_event \<Rightarrow> event_store \<Rightarrow> ((string \<times> bool) \<times> event_store) result" where
  "appendEvent clock eid event st =
     (case (stringify (JObj ObjectProto (ce_source event)), stringify (ce_payload event), stringify (ce_raw event)) of
        (Some source, Some payload, Some raw) \<Rightarrow>
          (case find (\<lambda>r. ev_deduplication_key r = ce_deduplicationKey event) (es_events st) of
             Some existing \<Rightarrow> Inr ((ev_id existing, False), st)
           | None \<Rightarrow>
               if \<exists>r\<in>set (es_events st). ev_id r = eid
               then Inl (ConstraintError ''UNIQUE constraint failed: assistant_event.id'')
               else
                 Inr ((eid, True),
                   st\<lparr>es_events := es_events st @
                     [\<lparr> ev_id = eid, ev_kind = ce_kind event, ev_event_key = ce_eventKey event,
                        ev_deduplication_key = ce_deduplicationKey event, ev_source = source,
                        ev_payload = payload, ev_raw = raw, ev_occurred_at = ce_occurredAt event,
                        ev_received_at = clock \<rparr>]\<rparr>))
      | _ \<Rightarrow> Inl (TypeError ''Provided value cannot be bound to SQLite parameter''))"

definition delivery_of :: "event_store \<Rightarrow> string \<Rightarrow> string \<Rightarrow> delivery_row option" where
  "delivery_of st consumer eid =
     find (\<lambda>d. (dl_consumer d, dl_event_id d) = (consumer, eid)) (es_deliveries st)"

text \<open>The conditions of the claim query and of its upsert; a NULL lease never compares.\<close>

definition lease_over :: "timestamp \<Rightarrow> timestamp option \<Rightarrow> bool" where
  "lease_over now lease = (case lease of Some e \<Rightarrow> e \<le> now | None \<Rightarrow> False)"

definition delivery_due :: "timestamp \<Rightarrow> delivery_row \<Rightarrow> bool" where
  "delivery_due now d =
     ((dl_status d = DPending \<and> dl_available_at d \<le> now)
      \<or> (dl_status d = DProcessing \<and> lease_over now (dl_lease_expires_at d)))"

definition event_due :: "event_store \<Rightarrow> string \<Rightarrow> string list \<Rightarrow> timestamp \<Rightarrow> event_row \<Rightarrow> bool" where
  "event_due st consumer eventKeys now r =
     (ev_event_key r \<in> set eventKeys \<and>
      (case delivery_of st consumer (ev_id r) of None \<Rightarrow> True | Some d \<Rightarrow> delivery_due now d))"

definition claimNextEvent ::
  "timestamp \<Rightarrow> string \<Rightarrow> string list \<Rightarrow> string \<Rightarrow> timestamp \<Rightarrow> timestamp \<Rightarrow> event_store \<Rightarrow>
   (claimed_event option \<times> event_store) result" where
  "claimNextEvent clock consumer eventKeys worker now leaseExpiresAt st =
     (if blank consumer \<or> blank worker \<or> eventKeys = []
      then throw ''event claim requires consumer, worker, and event keys''
      else
        case first_by (\<lambda>r. (ev_received_at r, ev_id r))
               (filter (event_due st consumer eventKeys now) (es_events st)) of
          None \<Rightarrow> Inr (None, st)
        | Some row \<Rightarrow>
            (case delivery_of st consumer (ev_id row) of
               None \<Rightarrow>
                 Inr (Some (claimedEvent row 1),
                   st\<lparr>es_deliveries := es_deliveries st @
                     [\<lparr> dl_consumer = consumer, dl_event_id = ev_id row, dl_status = DProcessing,
                        dl_attempt = 1, dl_available_at = now, dl_worker = Some worker,
                        dl_lease_expires_at = Some leaseExpiresAt, dl_last_error = None,
                        dl_delivered_at = None, dl_updated_at = clock \<rparr>]\<rparr>)
             | Some d \<Rightarrow>
                 if \<not> delivery_due now d then Inr (None, st)
                 else
                   Inr (Some (claimedEvent row (dl_attempt d + 1)),
                     st\<lparr>es_deliveries :=
                       update_where (\<lambda>x. (dl_consumer x, dl_event_id x) = (consumer, ev_id row))
                         (\<lambda>x. x\<lparr>dl_status := DProcessing, dl_attempt := dl_attempt x + 1,
                            dl_worker := Some worker, dl_lease_expires_at := Some leaseExpiresAt,
                            dl_updated_at := clock\<rparr>) (es_deliveries st)\<rparr>)))"

definition delivery_held :: "string \<Rightarrow> string \<Rightarrow> string \<Rightarrow> delivery_row \<Rightarrow> bool" where
  "delivery_held consumer eid worker d =
     (dl_consumer d = consumer \<and> dl_event_id d = eid \<and> dl_status d = DProcessing
      \<and> dl_worker d = Some worker)"

definition settleEvent ::
  "timestamp \<Rightarrow> string \<Rightarrow> string \<Rightarrow> string \<Rightarrow> timestamp \<Rightarrow> event_store \<Rightarrow> event_store result" where
  "settleEvent clock consumer eid worker deliveredAt st =
     (if changes (delivery_held consumer eid worker) (es_deliveries st) \<noteq> 1
      then throw (''event '' @ eid @ '' is not claimed by '' @ worker)
      else
        Inr (st\<lparr>es_deliveries := update_where (delivery_held consumer eid worker)
               (\<lambda>d. d\<lparr>dl_status := DDelivered, dl_delivered_at := Some deliveredAt, dl_worker := None,
                  dl_lease_expires_at := None, dl_updated_at := clock\<rparr>) (es_deliveries st)\<rparr>))"

definition releaseEvent :: "timestamp \<Rightarrow> event_release \<Rightarrow> event_store \<Rightarrow> event_store result" where
  "releaseEvent clock input st =
     (let held = delivery_held (rl_consumerName input) (rl_eventId input) (rl_workerId input) in
      if changes held (es_deliveries st) \<noteq> 1
      then throw (''event '' @ rl_eventId input @ '' is not claimed by '' @ rl_workerId input)
      else
        Inr (st\<lparr>es_deliveries := update_where held
               (\<lambda>d. d\<lparr>dl_status := (if rl_terminal input then DFailed else DPending),
                  dl_available_at := rl_availableAt input,
                  dl_last_error := Some (take 4096 (rl_error input)), dl_worker := None,
                  dl_lease_expires_at := None, dl_updated_at := clock\<rparr>) (es_deliveries st)\<rparr>))"

definition recentEventPayloads :: "string \<Rightarrow> nat \<Rightarrow> event_store \<Rightarrow> (string \<times> jval \<times> jval) list" where
  "recentEventPayloads kind limit st =
     map (\<lambda>r. (ev_id r, js_of_json (ev_source r), js_of_json (ev_payload r)))
       (descending ev_received_at limit (filter (\<lambda>r. ev_kind r = kind) (es_events st)))"

definition recentEvents :: "nat \<Rightarrow> event_store \<Rightarrow>
    (string \<times> string \<times> string \<times> string \<times> jval \<times> timestamp option \<times> timestamp) list" where
  "recentEvents limit st =
     map (\<lambda>r. (ev_id r, ev_kind r, ev_event_key r, ev_deduplication_key r, js_of_json (ev_source r),
         ev_occurred_at r, ev_received_at r))
       (descending ev_received_at limit (es_events st))"

section \<open>Signals and checkpoints\<close>

definition appendSignal ::
  "(string \<Rightarrow> string \<Rightarrow> bool) \<Rightarrow> timestamp \<Rightarrow> signal_input \<Rightarrow> event_store \<Rightarrow> (bool \<times> event_store) result" where
  "appendSignal lc clock input st =
     (case (canonicalJson lc (case si_scope input of None \<Rightarrow> JObj ObjectProto [] | Some s \<Rightarrow> s),
            canonicalJson lc (si_data input)) of
        (Text scope, Text data) \<Rightarrow>
          (case find (\<lambda>r. sg_id r = si_id input) (es_signals st) of
             None \<Rightarrow>
               Inr (True, st\<lparr>es_signals := es_signals st @
                 [\<lparr> sg_id = si_id input, sg_kind = si_kind input, sg_occurred_at = si_occurredAt input,
                    sg_scope = scope, sg_data = data, sg_recorded_at = clock \<rparr>]\<rparr>)
           | Some r \<Rightarrow>
               if sg_kind r \<noteq> si_kind input \<or> sg_occurred_at r \<noteq> si_occurredAt input
                 \<or> sg_scope r \<noteq> scope \<or> sg_data r \<noteq> data
               then throw (''signal '' @ si_id input @ '' already exists with different durable content'')
               else Inr (False, st))
      | _ \<Rightarrow> Inl (ConstraintError ''CHECK constraint failed: json_valid''))"

definition recentSignals ::
  "string \<Rightarrow> nat \<Rightarrow> event_store \<Rightarrow> (string \<times> string \<times> timestamp \<times> jval \<times> jval \<times> timestamp) list" where
  "recentSignals kind limit st =
     map (\<lambda>r. (sg_id r, sg_kind r, sg_occurred_at r, js_of_json (sg_scope r), js_of_json (sg_data r),
         sg_recorded_at r))
       (descending sg_occurred_at limit (filter (\<lambda>r. sg_kind r = kind) (es_signals st)))"

definition put_checkpoint ::
  "timestamp \<Rightarrow> string \<Rightarrow> string \<Rightarrow> json \<Rightarrow> checkpoint_row list \<Rightarrow> checkpoint_row list" where
  "put_checkpoint clock owner key value rows =
     (if \<exists>r\<in>set rows. (cp_owner r, cp_key r) = (owner, key)
      then update_where (\<lambda>r. (cp_owner r, cp_key r) = (owner, key))
             (\<lambda>r. r\<lparr>cp_value := value, cp_updated_at := clock\<rparr>) rows
      else rows @ [\<lparr> cp_owner = owner, cp_key = key, cp_value = value, cp_updated_at = clock \<rparr>])"

definition readFeatureCheckpoint :: "string \<Rightarrow> string \<Rightarrow> event_store \<Rightarrow> jval option" where
  "readFeatureCheckpoint namespace key st =
     map_option (\<lambda>r. js_of_json (cp_value r))
       (find (\<lambda>r. (cp_owner r, cp_key r) = (namespace, key)) (es_features st))"

definition writeFeatureCheckpoint ::
  "(string \<Rightarrow> string \<Rightarrow> bool) \<Rightarrow> timestamp \<Rightarrow> string \<Rightarrow> string \<Rightarrow> jval \<Rightarrow> event_store \<Rightarrow> event_store result" where
  "writeFeatureCheckpoint lc clock namespace key value st =
     (case canonicalJson lc value of
        Text j \<Rightarrow> Inr (st\<lparr>es_features := put_checkpoint clock namespace key j (es_features st)\<rparr>)
      | _ \<Rightarrow> Inl (ConstraintError ''CHECK constraint failed: json_valid(value)''))"

definition updateCheckpoint ::
  "timestamp \<Rightarrow> string \<Rightarrow> string \<Rightarrow> jval \<Rightarrow> event_store \<Rightarrow> event_store result" where
  "updateCheckpoint clock consumer eventKey cursor st =
     (case stringify cursor of
        Some j \<Rightarrow> Inr (st\<lparr>es_consumers := put_checkpoint clock consumer eventKey j (es_consumers st)\<rparr>)
      | None \<Rightarrow> Inl (TypeError ''Provided value cannot be bound to SQLite parameter''))"

section \<open>Leases and the store's invariant\<close>

fun delivery_lease :: "delivery_status \<Rightarrow> timestamp \<Rightarrow> string option \<Rightarrow> timestamp option \<Rightarrow> lease" where
  "delivery_lease DPending t w e = Ready t"
| "delivery_lease DProcessing t w e = held_lease w e"
| "delivery_lease _ t w e = Closed"

definition event_phase :: "event_store \<Rightarrow> (string \<times> string) leases" where
  "event_phase st k =
     (if \<exists>r\<in>set (es_events st). ev_id r = snd k
      then Some (case delivery_of st (fst k) (snd k) of None \<Rightarrow> Fresh
                 | Some d \<Rightarrow> delivery_lease (dl_status d) (dl_available_at d) (dl_worker d) (dl_lease_expires_at d))
      else None)"

abbreviation dl_key :: "delivery_row \<Rightarrow> string \<times> string" where
  "dl_key d \<equiv> (dl_consumer d, dl_event_id d)"

definition event_inv :: "event_store \<Rightarrow> bool" where
  "event_inv st \<longleftrightarrow>
     distinct (map ev_id (es_events st))
   \<and> distinct (map ev_deduplication_key (es_events st))
   \<and> distinct (map dl_key (es_deliveries st))
   \<and> (\<forall>d\<in>set (es_deliveries st). dl_event_id d \<in> ev_id ` set (es_events st))
   \<and> (\<forall>d\<in>set (es_deliveries st). dl_status d = DProcessing \<longrightarrow>
        dl_worker d \<noteq> None \<and> dl_lease_expires_at d \<noteq> None)"

datatype event_op =
    EAppend timestamp string channel_event
  | EClaim timestamp string "string list" string timestamp timestamp
  | ESettle timestamp string string string timestamp
  | ERelease timestamp event_release

fun event_exec :: "event_op \<Rightarrow> event_store \<Rightarrow> event_store \<times> (string \<times> string) lease_event" where
  "event_exec (EAppend clock eid event) st =
     (case appendEvent clock eid event st of Inl _ \<Rightarrow> (st, Quiet) | Inr (_, st') \<Rightarrow> (st', Quiet))"
| "event_exec (EClaim clock consumer keys worker now expires) st =
     (case claimNextEvent clock consumer keys worker now expires st of
        Inl _ \<Rightarrow> (st, Quiet)
      | Inr (None, st') \<Rightarrow> (st', Quiet)
      | Inr (Some c, st') \<Rightarrow> (st', Claimed (consumer, ce_id c) worker now expires))"
| "event_exec (ESettle clock consumer eid worker deliveredAt) st =
     (case settleEvent clock consumer eid worker deliveredAt st of
        Inl _ \<Rightarrow> (st, Quiet) | Inr st' \<Rightarrow> (st', Settled (consumer, eid) worker))"
| "event_exec (ERelease clock input) st =
     (case releaseEvent clock input st of
        Inl _ \<Rightarrow> (st, Quiet)
      | Inr st' \<Rightarrow> (st', Released (rl_consumerName input, rl_eventId input) (rl_workerId input)
                            (rl_availableAt input) (rl_terminal input)))"

section \<open>Lemmas\<close>

lemma delivery_of_update:
  "(\<And>d. dl_key (f d) = dl_key d) \<Longrightarrow>
   delivery_of (st\<lparr>es_deliveries := update_where p f (es_deliveries st)\<rparr>) c e
     = map_option (\<lambda>d. if p d then f d else d) (delivery_of st c e)"
proof -
  assume "\<And>d. dl_key (f d) = dl_key d"
  then have "find (\<lambda>d. dl_key d = (c, e)) (update_where p f (es_deliveries st))
      = map_option (\<lambda>d. if p d then f d else d) (find (\<lambda>d. dl_key d = (c, e)) (es_deliveries st))"
    by (rule find_update_where)
  then show ?thesis by (simp add: delivery_of_def)
qed

lemma delivery_of_SomeD:
  "delivery_of st c e = Some d \<Longrightarrow> d \<in> set (es_deliveries st) \<and> dl_consumer d = c \<and> dl_event_id d = e"
  by (auto simp: delivery_of_def dest!: find_SomeD)

lemma delivery_ofI:
  assumes "event_inv st" "d \<in> set (es_deliveries st)" "dl_consumer d = c" "dl_event_id d = e"
  shows "delivery_of st c e = Some d"
  unfolding delivery_of_def
  by (rule find_key) (use assms in \<open>auto simp: event_inv_def\<close>)

lemma held_row:
  assumes "event_inv st"
  shows "changes (delivery_held c e w) (es_deliveries st) = 1 \<longleftrightarrow>
    (\<exists>d. delivery_of st c e = Some d \<and> delivery_held c e w d)"
proof -
  have "changes (delivery_held c e w) (es_deliveries st) = 1 \<longleftrightarrow>
      (\<exists>d\<in>set (es_deliveries st). delivery_held c e w d)"
    by (rule changes_1_iff [where key = dl_key and k = "(c, e)"])
      (use assms in \<open>auto simp: event_inv_def delivery_held_def\<close>)
  also have "\<dots> \<longleftrightarrow> (\<exists>d. delivery_of st c e = Some d \<and> delivery_held c e w d)"
    using delivery_ofI [OF assms] delivery_of_SomeD by (fastforce simp: delivery_held_def)
  finally show ?thesis .
qed

lemma event_phase_held:
  assumes "event_inv st"
  shows "event_phase st (c, e) = Some (Held w x) \<longleftrightarrow>
    (\<exists>d. delivery_of st c e = Some d \<and> delivery_held c e w d \<and> dl_lease_expires_at d = Some x)"
proof -
  have "(\<exists>r\<in>set (es_events st). ev_id r = e)" if "delivery_of st c e = Some d" for d
    using assms delivery_of_SomeD [OF that] by (fastforce simp: event_inv_def)
  moreover have "delivery_lease (dl_status d) (dl_available_at d) (dl_worker d) (dl_lease_expires_at d)
      = Held w x \<longleftrightarrow> delivery_held c e w d \<and> dl_lease_expires_at d = Some x"
    if "delivery_of st c e = Some d" for d
    using delivery_of_SomeD [OF that]
    by (cases "dl_status d"; cases "dl_worker d"; cases "dl_lease_expires_at d")
      (auto simp: delivery_held_def)
  ultimately show ?thesis
    by (auto simp: event_phase_def split: option.splits)
qed

lemma event_inv_update:
  assumes "event_inv st"
    and "\<And>d. dl_key (f d) = dl_key d"
    and "\<And>d. dl_status (f d) = DProcessing \<Longrightarrow> dl_worker (f d) \<noteq> None \<and> dl_lease_expires_at (f d) \<noteq> None"
  shows "event_inv (st\<lparr>es_deliveries := update_where p f (es_deliveries st)\<rparr>)"
proof -
  have "dl_event_id (f d) = dl_event_id d" for d
    using assms(2) [of d] by simp
  with assms show ?thesis
    by (auto simp: event_inv_def set_update_where)
qed

lemma event_phase_update:
  assumes "event_inv st" "\<And>d. dl_key (f d) = dl_key d" "\<And>d. p d \<Longrightarrow> dl_key d = (c, e)"
    and "delivery_of st c e = Some d" "p d"
  shows "event_phase (st\<lparr>es_deliveries := update_where p f (es_deliveries st)\<rparr>)
    = (event_phase st)((c, e) \<mapsto> delivery_lease (dl_status (f d)) (dl_available_at (f d))
        (dl_worker (f d)) (dl_lease_expires_at (f d)))" (is "?l = ?r")
proof
  fix k :: "string \<times> string"
  obtain a b where k: "k = (a, b)" by fastforce
  have dof: "delivery_of (st\<lparr>es_deliveries := update_where p f (es_deliveries st)\<rparr>) a b
      = map_option (\<lambda>d. if p d then f d else d) (delivery_of st a b)"
    by (rule delivery_of_update) (rule assms(2))
  show "?l k = ?r k"
  proof (cases "k = (c, e)")
    case True
    then have "\<exists>r\<in>set (es_events st). ev_id r = b"
      using assms(1,4) delivery_of_SomeD k by (fastforce simp: event_inv_def)
    with True k show ?thesis
      using assms(4,5) dof by (auto simp: event_phase_def)
  next
    case False
    have "\<not> p x" if "delivery_of st a b = Some x" for x
      using delivery_of_SomeD [OF that] assms(3) [of x] False k by auto
    then have "map_option (\<lambda>d. if p d then f d else d) (delivery_of st a b) = delivery_of st a b"
      by (cases "delivery_of st a b") auto
    then have "?l k = event_phase st k"
      using dof k by (simp add: event_phase_def)
    with False show ?thesis by simp
  qed
qed

subsection \<open>Appending\<close>

lemma appendEvent_cases:
  assumes "appendEvent clock eid event st = Inr ((i, b), st')"
  obtains (old) r where "b = False" "st' = st" "r \<in> set (es_events st)" "ev_id r = i"
      "ev_deduplication_key r = ce_deduplicationKey event"
    | (new) r where "b = True" "i = eid" "ev_id r = eid" "ev_deduplication_key r = ce_deduplicationKey event"
      "st' = st\<lparr>es_events := es_events st @ [r]\<rparr>" "ev_id r \<notin> ev_id ` set (es_events st)"
      "ev_deduplication_key r \<notin> ev_deduplication_key ` set (es_events st)"
  using assms
proof (cases "find (\<lambda>r. ev_deduplication_key r = ce_deduplicationKey event) (es_events st)")
  case (Some r)
  with assms show ?thesis
    by (intro old [of r]) (auto simp: appendEvent_def split: option.splits prod.splits dest: find_SomeD)
next
  case None
  then have "ce_deduplicationKey event \<notin> ev_deduplication_key ` set (es_events st)"
    by (auto simp: find_None_iff)
  with assms None show ?thesis
    by (auto simp: appendEvent_def split: option.splits prod.splits if_splits intro!: new)
qed

lemma appendEvent_inv:
  assumes "event_inv st" "appendEvent clock eid event st = Inr (r, st')"
  shows "event_inv st'" and "quiet (event_phase st) (event_phase st')"
proof -
  obtain i b where "r = (i, b)" by fastforce
  with assms(2) have step: "appendEvent clock eid event st = Inr ((i, b), st')" by simp
  then have both: "event_inv st' \<and> quiet (event_phase st) (event_phase st')"
  proof (cases rule: appendEvent_cases)
    case (old r)
    with assms(1) show ?thesis by (simp add: quiet_refl)
  next
    case (new r)
    have "event_inv st'"
      using assms(1) new by (auto simp: event_inv_def)
    moreover have "delivery_of st c eid = None" for c
    proof (cases "delivery_of st c eid")
      case (Some d)
      have "\<forall>d\<in>set (es_deliveries st). dl_event_id d \<in> ev_id ` set (es_events st)"
        using assms(1) by (simp add: event_inv_def)
      with delivery_of_SomeD [OF Some] have "eid \<in> ev_id ` set (es_events st)" by blast
      with new(3,6) show ?thesis by simp
    qed
    then have "event_phase st' = (\<lambda>k. if snd k = eid then Some Fresh else event_phase st k)"
      using new by (auto simp: event_phase_def delivery_of_def fun_eq_iff)
    moreover have "event_phase st k = None" if "snd k = eid" for k
      using that new(3,6) by (force simp: event_phase_def image_iff)
    ultimately show ?thesis
      by (auto simp: quiet_def split: option.splits lease_at.splits)
  qed
  then show "event_inv st'" and "quiet (event_phase st) (event_phase st')" by auto
qed

subsection \<open>Claiming\<close>

lemma claimNextEvent_None:
  assumes "claimNextEvent clock consumer keys worker now expires st = Inr (None, st')"
  shows "st' = st"
  using assms by (auto simp: claimNextEvent_def split: if_splits option.splits)

lemma delivery_due_claimable:
  assumes "delivery_due now d"
  shows "claimable now (Some (delivery_lease (dl_status d) (dl_available_at d) (dl_worker d) (dl_lease_expires_at d)))
    \<or> dl_worker d = None"
  using assms
  by (cases "dl_status d"; cases "dl_worker d"; cases "dl_lease_expires_at d")
    (auto simp: delivery_due_def lease_over_def)

text \<open>The claim as one step: the chosen row, its lease before, and the tables after.\<close>

lemma claimNextEvent_Some:
  assumes inv: "event_inv st"
    and claim: "claimNextEvent clock consumer keys worker now expires st = Inr (Some c, st')"
  shows "event_inv st'
    \<and> claimable now (event_phase st (consumer, ce_id c))
    \<and> event_phase st' = (event_phase st)((consumer, ce_id c) \<mapsto> Held worker expires)
    \<and> (\<exists>r\<in>set (es_events st). c = claimedEvent r (ce_attempt c) \<and> ev_event_key r \<in> set keys
         \<and> (\<forall>x\<in>set (es_events st). event_due st consumer keys now x \<longrightarrow>
              (ev_received_at r, ev_id r) \<le> (ev_received_at x, ev_id x)))"
proof -
  from claim obtain row where first: "first_by (\<lambda>r. (ev_received_at r, ev_id r))
      (filter (event_due st consumer keys now) (es_events st)) = Some row"
    by (auto simp: claimNextEvent_def split: if_splits option.splits)
  note row = first_by_Some [OF first]
  have id: "ce_id c = ev_id row" and c: "c = claimedEvent row (ce_attempt c)"
    using claim first by (auto simp: claimNextEvent_def claimedEvent_def split: if_splits option.splits)
  have mem: "row \<in> set (es_events st)" "ev_event_key row \<in> set keys" "event_due st consumer keys now row"
    using row(1) by (auto simp: event_due_def)
  have least: "\<forall>x\<in>set (es_events st). event_due st consumer keys now x \<longrightarrow>
      (ev_received_at row, ev_id row) \<le> (ev_received_at x, ev_id x)"
    using row(2) by auto
  have steps: "event_inv st' \<and> claimable now (event_phase st (consumer, ev_id row))
      \<and> event_phase st' = (event_phase st)((consumer, ev_id row) \<mapsto> Held worker expires)"
  proof (cases "delivery_of st consumer (ev_id row)")
    case None
    let ?d = "\<lparr> dl_consumer = consumer, dl_event_id = ev_id row, dl_status = DProcessing,
        dl_attempt = 1, dl_available_at = now, dl_worker = Some worker,
        dl_lease_expires_at = Some expires, dl_last_error = None, dl_delivered_at = None,
        dl_updated_at = clock \<rparr>"
    from claim first None have st': "st' = st\<lparr>es_deliveries := es_deliveries st @ [?d]\<rparr>"
      by (auto simp: claimNextEvent_def split: if_splits)
    have fresh: "(consumer, ev_id row) \<notin> dl_key ` set (es_deliveries st)"
      using None by (auto simp: delivery_of_def find_None_iff)
    have "event_inv st'"
      using inv mem(1) fresh unfolding st' by (auto simp: event_inv_def)
    moreover have "claimable now (event_phase st (consumer, ev_id row))"
      using None mem(1) by (auto simp: event_phase_def)
    moreover have "event_phase st' k
        = ((event_phase st)((consumer, ev_id row) \<mapsto> Held worker expires)) k" for k
      using None mem(1) unfolding st'
      by (cases k) (auto simp: event_phase_def delivery_of_def find_append split: option.splits)
    ultimately show ?thesis by auto
  next
    case (Some d)
    have due: "delivery_due now d"
      using mem(3) Some by (simp add: event_due_def)
    let ?f = "\<lambda>x. x\<lparr>dl_status := DProcessing, dl_attempt := dl_attempt x + 1,
        dl_worker := Some worker, dl_lease_expires_at := Some expires, dl_updated_at := clock\<rparr>"
    let ?p = "\<lambda>x. dl_key x = (consumer, ev_id row)"
    from claim first Some due have st': "st' = st\<lparr>es_deliveries := update_where ?p ?f (es_deliveries st)\<rparr>"
      by (auto simp: claimNextEvent_def split: if_splits)
    have "event_inv st'"
      unfolding st' by (rule event_inv_update [OF inv]) auto
    moreover have "event_phase st' = (event_phase st)((consumer, ev_id row) \<mapsto> Held worker expires)"
      unfolding st' by (subst event_phase_update [OF inv _ _ Some])
        (use delivery_of_SomeD [OF Some] in auto)
    moreover have "claimable now (event_phase st (consumer, ev_id row))"
    proof -
      have "dl_status d = DProcessing \<longrightarrow> dl_worker d \<noteq> None"
        using inv delivery_of_SomeD [OF Some] by (auto simp: event_inv_def)
      then have "claimable now (Some (delivery_lease (dl_status d) (dl_available_at d) (dl_worker d)
          (dl_lease_expires_at d)))"
        using delivery_due_claimable [OF due] due by (auto simp: delivery_due_def)
      with mem(1) Some show ?thesis by (auto simp: event_phase_def)
    qed
    ultimately show ?thesis by simp
  qed
  with id c mem least show ?thesis by auto
qed

text \<open>It returns nothing only when nothing is due.\<close>

lemma claimNextEvent_idle:
  assumes "claimNextEvent clock consumer keys worker now expires st = Inr (None, st')"
    and "r \<in> set (es_events st)"
  shows "\<not> event_due st consumer keys now r"
proof
  assume due: "event_due st consumer keys now r"
  show False
  proof (cases "first_by (\<lambda>r. (ev_received_at r, ev_id r))
      (filter (event_due st consumer keys now) (es_events st))")
    case None
    with due assms(2) show False by (auto simp: filter_empty_conv)
  next
    case (Some row)
    then have "event_due st consumer keys now row"
      using first_by_Some(1) by fastforce
    with assms(1) Some show False
      by (auto simp: claimNextEvent_def event_due_def split: if_splits option.splits)
  qed
qed

subsection \<open>Settling and releasing\<close>

lemma settleEvent_step:
  assumes inv: "event_inv st" and "settleEvent clock c e w t st = Inr st'"
  shows "event_inv st' \<and> (\<exists>x. event_phase st (c, e) = Some (Held w x))
    \<and> event_phase st' = (event_phase st)((c, e) \<mapsto> Closed)"
proof -
  let ?f = "\<lambda>d. d\<lparr>dl_status := DDelivered, dl_delivered_at := Some t, dl_worker := None,
      dl_lease_expires_at := None, dl_updated_at := clock\<rparr>"
  from assms(2) have one: "changes (delivery_held c e w) (es_deliveries st) = 1"
    and st': "st' = st\<lparr>es_deliveries := update_where (delivery_held c e w) ?f (es_deliveries st)\<rparr>"
    by (auto simp: settleEvent_def split: if_splits)
  from one held_row [OF inv] obtain d where d: "delivery_of st c e = Some d" "delivery_held c e w d"
    by auto
  then have "dl_lease_expires_at d \<noteq> None"
    using inv delivery_of_SomeD [OF d(1)] by (auto simp: event_inv_def delivery_held_def)
  with d have "\<exists>x. event_phase st (c, e) = Some (Held w x)"
    using event_phase_held [OF inv] by fast
  moreover have "event_inv st'"
    unfolding st' by (rule event_inv_update [OF inv]) auto
  moreover have "event_phase st' = (event_phase st)((c, e) \<mapsto> Closed)"
    unfolding st' by (subst event_phase_update [OF inv _ _ d(1)]) (use d in \<open>auto simp: delivery_held_def\<close>)
  ultimately show ?thesis by simp
qed

lemma releaseEvent_step:
  assumes inv: "event_inv st" and "releaseEvent clock input st = Inr st'"
  shows "event_inv st'
    \<and> (\<exists>x. event_phase st (rl_consumerName input, rl_eventId input) = Some (Held (rl_workerId input) x))
    \<and> event_phase st' = (event_phase st)((rl_consumerName input, rl_eventId input) \<mapsto>
        (if rl_terminal input then Closed else Ready (rl_availableAt input)))"
proof -
  let ?c = "rl_consumerName input" and ?e = "rl_eventId input" and ?w = "rl_workerId input"
  let ?f = "\<lambda>d. d\<lparr>dl_status := (if rl_terminal input then DFailed else DPending),
      dl_available_at := rl_availableAt input, dl_last_error := Some (take 4096 (rl_error input)),
      dl_worker := None, dl_lease_expires_at := None, dl_updated_at := clock\<rparr>"
  from assms(2) have one: "changes (delivery_held ?c ?e ?w) (es_deliveries st) = 1"
    and st': "st' = st\<lparr>es_deliveries := update_where (delivery_held ?c ?e ?w) ?f (es_deliveries st)\<rparr>"
    by (auto simp: releaseEvent_def Let_def split: if_splits)
  from one held_row [OF inv] obtain d where d: "delivery_of st ?c ?e = Some d" "delivery_held ?c ?e ?w d"
    by auto
  then have "dl_lease_expires_at d \<noteq> None"
    using inv delivery_of_SomeD [OF d(1)] by (auto simp: event_inv_def delivery_held_def)
  with d have "\<exists>x. event_phase st (?c, ?e) = Some (Held ?w x)"
    using event_phase_held [OF inv] by fast
  moreover have "event_inv st'"
    unfolding st' by (rule event_inv_update [OF inv]) (auto split: if_splits)
  moreover have "event_phase st' = (event_phase st)((?c, ?e) \<mapsto>
      (if rl_terminal input then Closed else Ready (rl_availableAt input)))"
    unfolding st' by (subst event_phase_update [OF inv _ _ d(1)]) (use d in \<open>auto simp: delivery_held_def\<close>)
  ultimately show ?thesis by simp
qed

lemma settleEvent_fails:
  assumes "event_inv st" "\<nexists>x. event_phase st (c, e) = Some (Held w x)"
  shows "settleEvent clock c e w t st = throw (''event '' @ e @ '' is not claimed by '' @ w)"
proof -
  have "changes (delivery_held c e w) (es_deliveries st) \<noteq> 1"
  proof
    assume "changes (delivery_held c e w) (es_deliveries st) = 1"
    then have "settleEvent clock c e w t st \<noteq> throw (''event '' @ e @ '' is not claimed by '' @ w)"
      by (simp add: settleEvent_def)
    then obtain st' where "settleEvent clock c e w t st = Inr st'"
      using \<open>changes _ _ = 1\<close> by (auto simp: settleEvent_def)
    with settleEvent_step [OF assms(1)] assms(2) show False by blast
  qed
  then show ?thesis by (simp add: settleEvent_def)
qed

section \<open>The store implements the lease contract\<close>

lemma event_exec_step:
  assumes inv: "event_inv st" and "event_exec oper st = (st', ev)"
  shows "event_inv st' \<and> lease_step (event_phase st) ev (event_phase st')"
proof (cases oper)
  case (EAppend clock eid event)
  with assms show ?thesis
    by (auto split: sum.splits intro: lease_step.quiet dest: appendEvent_inv)
next
  case (EClaim clock consumer keys worker now expires)
  show ?thesis
  proof (cases "claimNextEvent clock consumer keys worker now expires st")
    case (Inl e)
    with EClaim assms show ?thesis by (auto intro: lease_step.quiet)
  next
    case (Inr r)
    then obtain x st1 where r: "claimNextEvent clock consumer keys worker now expires st = Inr (x, st1)"
      by (cases r) auto
    show ?thesis
    proof (cases x)
      case None
      with r have "st1 = st" by (auto dest: claimNextEvent_None)
      with r None EClaim assms show ?thesis
        by (auto intro: lease_step.quiet)
    next
      case (Some c)
      with r have step: "claimNextEvent clock consumer keys worker now expires st = Inr (Some c, st1)"
        by simp
      with EClaim assms(2) have "st' = st1" "ev = Claimed (consumer, ce_id c) worker now expires"
        by auto
      with claimNextEvent_Some [OF inv step] show ?thesis
        by (auto intro: lease_step.claim)
    qed
  qed
next
  case (ESettle clock consumer eid worker t)
  with assms show ?thesis
    by (auto split: sum.splits intro: lease_step.quiet lease_step.settle
        dest!: settleEvent_step [OF inv])
next
  case (ERelease clock input)
  with assms show ?thesis
    by (auto split: sum.splits intro: lease_step.quiet release_closed release_ready
        dest!: releaseEvent_step [OF inv])
qed

interpretation event_queue: lease_store event_phase event_inv event_exec
  by unfold_locales (auto dest: event_exec_step)

section \<open>Properties\<close>

text \<open>C4. An event claimed for a consumer stays with its worker: in any run of the store's
operations, the next thing that happens to that delivery is this worker settling or releasing it,
or a claim made no earlier than the expiry of the lease.\<close>

theorem event_claim_exclusive:
  assumes "event_inv st"
    and "run_ops event_exec ops st = (st', xs @ Claimed k w now e # ys @ ev # zs)"
    and "\<forall>y\<in>set ys. about y \<noteq> Some k" and "about ev = Some k"
  shows "ev = Settled k w \<or> (\<exists>t b. ev = Released k w t b)
    \<or> (\<exists>w' now' e'. ev = Claimed k w' now' e' \<and> e \<le> now')"
  using assms by (rule event_queue.run_exclusive)

text \<open>A claim takes the oldest due event of the consumer's keys, with its attempt counted from
1, and finds one whenever one is due; nothing else in the store changes.\<close>

lemma claimNextEvent_takes_oldest:
  assumes "event_inv st"
    and "claimNextEvent clock consumer keys worker now expires st = Inr (result, st')"
  shows "case result of
      None \<Rightarrow> st' = st \<and> (\<forall>r\<in>set (es_events st). \<not> event_due st consumer keys now r)
    | Some c \<Rightarrow>
        (\<exists>r\<in>set (es_events st). c = claimedEvent r (ce_attempt c) \<and> ev_event_key r \<in> set keys
           \<and> (\<forall>x\<in>set (es_events st). event_due st consumer keys now x \<longrightarrow>
                (ev_received_at r, ev_id r) \<le> (ev_received_at x, ev_id x)))
        \<and> claimable now (event_phase st (consumer, ce_id c))
        \<and> event_phase st' = (event_phase st)((consumer, ce_id c) \<mapsto> Held worker expires)"
proof (cases result)
  case None
  with assms(2) show ?thesis
    using claimNextEvent_None claimNextEvent_idle by fastforce
next
  case (Some c)
  with assms(2) have "claimNextEvent clock consumer keys worker now expires st = Inr (Some c, st')"
    by simp
  from claimNextEvent_Some [OF assms(1) this] Some show ?thesis by simp
qed

text \<open>Appending is idempotent on the deduplication key: a second append under the key of an
earlier one, whatever its id and content, reports the first id and changes nothing.\<close>

lemma appendEvent_once:
  assumes "appendEvent clock eid event st = Inr ((i, b), st')"
    and "ce_deduplicationKey event' = ce_deduplicationKey event"
    and "stringify (ce_payload event') \<noteq> None" "stringify (ce_raw event') \<noteq> None"
  shows "appendEvent clock' eid' event' st' = Inr ((i, False), st')"
proof -
  have "\<exists>r. find (\<lambda>r. ev_deduplication_key r = ce_deduplicationKey event) (es_events st') = Some r \<and> ev_id r = i"
  proof (cases "find (\<lambda>r. ev_deduplication_key r = ce_deduplicationKey event) (es_events st)")
    case None
    with assms(1) show ?thesis
      by (auto simp: appendEvent_def find_append split: option.splits if_splits)
  next
    case (Some r)
    with assms(1) show ?thesis
      by (auto simp: appendEvent_def split: option.splits)
  qed
  with assms(2-4) show ?thesis
    by (auto simp: appendEvent_def)
qed

section \<open>Witnesses\<close>

definition sample_event :: channel_event where
  "sample_event = \<lparr> ce_kind = ''m'', ce_source = [(''channel'', JStr ''l'')], ce_occurredAt = None,
     ce_eventKey = ''k'', ce_deduplicationKey = ''d'', ce_payload = JObj ObjectProto [],
     ce_raw = JObj ObjectProto [] \<rparr>"

definition empty_events :: event_store where
  "empty_events = \<lparr> es_events = [], es_deliveries = [], es_signals = [], es_features = [], es_consumers = [] \<rparr>"

definition one_event :: event_store where
  "one_event = snd (projr (appendEvent ''1'' ''e'' sample_event empty_events))"

lemma one_event_eq:
  "one_event = empty_events\<lparr>es_events := [\<lparr> ev_id = ''e'', ev_kind = ''m'', ev_event_key = ''k'',
     ev_deduplication_key = ''d'', ev_source = Obj [(''channel'', Str ''l'')], ev_payload = Obj [],
     ev_raw = Obj [], ev_occurred_at = None, ev_received_at = ''1'' \<rparr>]\<rparr>"
  by (simp add: one_event_def appendEvent_def sample_event_def empty_events_def)

lemma one_event_inv: "event_inv one_event"
  by (simp add: one_event_eq empty_events_def event_inv_def)

lemma one_event_run:
  "snd (run_ops event_exec [EClaim ''2'' ''c'' [''k''] ''w'' ''2'' ''5'', EClaim ''6'' ''c'' [''k''] ''v'' ''6'' ''8''] one_event)
   = [Claimed (''c'', ''e'') ''w'' ''2'' ''5'', Claimed (''c'', ''e'') ''v'' ''6'' ''8'']"
  by code_simp

lemma event_claim_exclusive_witness:
  "Claimed (''c'', ''e'') ''v'' ''6'' ''8'' = Settled (''c'', ''e'') ''w''
   \<or> (\<exists>t b. Claimed (''c'', ''e'') ''v'' ''6'' ''8'' = Released (''c'', ''e'') ''w'' t b)
   \<or> (\<exists>w' now' e'. Claimed (''c'', ''e'') ''v'' ''6'' ''8'' = Claimed (''c'', ''e'') w' now' e' \<and> ''5'' \<le> now')"
proof (rule event_claim_exclusive [OF one_event_inv])
  let ?ops = "[EClaim ''2'' ''c'' [''k''] ''w'' ''2'' ''5'', EClaim ''6'' ''c'' [''k''] ''v'' ''6'' ''8'']"
  show "run_ops event_exec ?ops one_event = (fst (run_ops event_exec ?ops one_event),
      [] @ Claimed (''c'', ''e'') ''w'' ''2'' ''5'' # [] @ Claimed (''c'', ''e'') ''v'' ''6'' ''8'' # [])"
    by (rule prod_eqI) (simp_all add: one_event_run del: run_ops.simps)
qed simp_all

lemma claimNextEvent_takes_oldest_witness:
  "\<exists>c st'. claimNextEvent ''2'' ''c'' [''k''] ''w'' ''2'' ''5'' one_event = Inr (Some c, st')
    \<and> (\<exists>r\<in>set (es_events one_event). c = claimedEvent r (ce_attempt c) \<and> ev_event_key r \<in> set [''k''])"
proof -
  have "\<exists>c st'. claimNextEvent ''2'' ''c'' [''k''] ''w'' ''2'' ''5'' one_event = Inr (Some c, st')"
    by (simp add: one_event_eq empty_events_def claimNextEvent_def event_due_def delivery_of_def
        first_by_def js_trim_def is_ws_def)
  then obtain c st' where "claimNextEvent ''2'' ''c'' [''k''] ''w'' ''2'' ''5'' one_event = Inr (Some c, st')"
    by blast
  with claimNextEvent_takes_oldest [OF one_event_inv this] show ?thesis by auto
qed

lemma appendEvent_once_witness:
  "appendEvent ''9'' ''other'' (sample_event\<lparr>ce_kind := ''n''\<rparr>) one_event = Inr ((''e'', False), one_event)"
proof (rule appendEvent_once)
  show "appendEvent ''1'' ''e'' sample_event empty_events = Inr ((''e'', True), one_event)"
    by (simp add: one_event_def appendEvent_def sample_event_def empty_events_def)
qed (simp_all add: sample_event_def)

end
