(* ===== verification/Workflow_Store.thy ===== *)
theory Workflow_Store
  imports Channel_Domain Lease_Queue
begin

text \<open>
  Workflow instances, the events each has processed, the audit trail of their transitions and the
  outbox of their effects: storage/types.ts and storage/sqlite.ts over migrations/sqlite.
  \<open>lc\<close> is the host's \<open>localeCompare\<close>, \<open>clock\<close> the database's clock at the statement.
\<close>

section \<open>Types and tables\<close>

datatype workflow_status = WRunning | WWaiting | WCompleted | WFailed

record workflow_effect_input =
  we_id :: string
  we_kind :: string
  we_payload :: jval
  we_availableAt :: "timestamp option"

record workflow_instance =
  wf_id :: string
  wf_kind :: string
  wf_version :: int
  wf_status :: workflow_status
  wf_state :: jval
  wf_revision :: nat
  wf_wakeAt :: "timestamp option"
  wf_createdAt :: timestamp
  wf_updatedAt :: timestamp

record create_workflow_input =
  cw_id :: string
  cw_kind :: string
  cw_version :: int
  cw_status :: workflow_status
  cw_state :: jval
  cw_wakeAt :: "timestamp option"
  cw_effects :: "workflow_effect_input list"

text \<open>\<open>wakeAt?: string | null\<close>: absent keeps the wake-up, null clears it.\<close>

datatype wake_change = KeepWake | ClearWake | WakeAt timestamp

record workflow_event =
  wv_id :: string
  wv_type :: string
  wv_occurredAt :: timestamp
  wv_payload :: jval

record advance_workflow_input =
  aw_instanceId :: string
  aw_expectedRevision :: nat
  aw_event :: workflow_event
  aw_status :: workflow_status
  aw_state :: jval
  aw_wakeAt :: wake_change
  aw_effects :: "workflow_effect_input list"

record claimed_workflow_effect =
  cx_id :: string
  cx_instanceId :: string
  cx_kind :: string
  cx_payload :: jval
  cx_attempt :: nat

record instance_row =
  wi_id :: string
  wi_kind :: string
  wi_version :: int
  wi_status :: workflow_status
  wi_state :: json
  wi_revision :: nat
  wi_wake_at :: "timestamp option"
  wi_created_at :: timestamp
  wi_updated_at :: timestamp

record processed_row =
  pe_instance :: string
  pe_event_id :: string
  pe_type :: string
  pe_occurred_at :: timestamp
  pe_payload :: json
  pe_revision :: nat

record transition_row =
  tr_instance :: string
  tr_revision :: nat
  tr_event_id :: string
  tr_from :: workflow_status
  tr_to :: workflow_status
  tr_state :: json

datatype effect_status = FPending | FDispatching | FDelivered | FFailed

record effect_row =
  fx_id :: string
  fx_instance :: string
  fx_kind :: string
  fx_payload :: json
  fx_status :: effect_status
  fx_attempt :: nat
  fx_available_at :: timestamp
  fx_lease_owner :: "string option"
  fx_lease_expires_at :: "timestamp option"
  fx_last_error :: "string option"
  fx_delivered_at :: "timestamp option"
  fx_created_at :: timestamp
  fx_updated_at :: timestamp

record workflow_store =
  ws_instances :: "instance_row list"
  ws_events :: "processed_row list"
  ws_transitions :: "transition_row list"
  ws_effects :: "effect_row list"

section \<open>Operations\<close>

definition sqliteWorkflow :: "instance_row \<Rightarrow> workflow_instance" where
  "sqliteWorkflow row =
     \<lparr> wf_id = wi_id row, wf_kind = wi_kind row, wf_version = wi_version row,
       wf_status = wi_status row, wf_state = js_of_json (wi_state row), wf_revision = wi_revision row,
       wf_wakeAt = (case wi_wake_at row of Some t \<Rightarrow> if t = [] then None else Some t | None \<Rightarrow> None),
       wf_createdAt = wi_created_at row, wf_updatedAt = wi_updated_at row \<rparr>"

definition insertWorkflowEffect ::
  "(string \<Rightarrow> string \<Rightarrow> bool) \<Rightarrow> timestamp \<Rightarrow> string \<Rightarrow> workflow_effect_input \<Rightarrow> effect_row list \<Rightarrow> effect_row list result" where
  "insertWorkflowEffect lc clock instanceId effect rows =
     (case canonicalJson lc (we_payload effect) of
        Text payload \<Rightarrow>
          if \<exists>r\<in>set rows. fx_id r = we_id effect
          then Inl (ConstraintError ''UNIQUE constraint failed: workflow_effect.id'')
          else
            Inr (rows @
              [\<lparr> fx_id = we_id effect, fx_instance = instanceId, fx_kind = we_kind effect,
                 fx_payload = payload, fx_status = FPending, fx_attempt = 0,
                 fx_available_at = (case we_availableAt effect of Some t \<Rightarrow> t | None \<Rightarrow> clock),
                 fx_lease_owner = None, fx_lease_expires_at = None, fx_last_error = None,
                 fx_delivered_at = None, fx_created_at = clock, fx_updated_at = clock \<rparr>])
      | _ \<Rightarrow> Inl (ConstraintError ''CHECK constraint failed: json_valid(payload)''))"

definition insertWorkflowEffects ::
  "(string \<Rightarrow> string \<Rightarrow> bool) \<Rightarrow> timestamp \<Rightarrow> string \<Rightarrow> workflow_effect_input list \<Rightarrow> effect_row list \<Rightarrow> effect_row list result" where
  "insertWorkflowEffects lc clock instanceId effects rows =
     fold_result (insertWorkflowEffect lc clock instanceId) effects rows"

text \<open>The stored effects of an instance, read in id order, against the input's.\<close>

definition effect_matches ::
  "(string \<Rightarrow> string \<Rightarrow> bool) \<Rightarrow> effect_row \<Rightarrow> workflow_effect_input \<Rightarrow> bool" where
  "effect_matches lc stored wanted =
     (fx_id stored = we_id wanted \<and> fx_kind stored = we_kind wanted
      \<and> Text (fx_payload stored) = canonicalJson lc (we_payload wanted)
      \<and> (case we_availableAt wanted of None \<Rightarrow> True | Some t \<Rightarrow> fx_available_at stored = t))"

definition effects_match ::
  "(string \<Rightarrow> string \<Rightarrow> bool) \<Rightarrow> effect_row list \<Rightarrow> string \<Rightarrow> workflow_effect_input list \<Rightarrow> bool" where
  "effects_match lc rows instanceId wanted =
     list_all2 (effect_matches lc)
       (sort_key fx_id (filter (\<lambda>r. fx_instance r = instanceId) rows))
       (sort_by (\<lambda>l r. lc (we_id l) (we_id r)) wanted)"

definition createWorkflow ::
  "(string \<Rightarrow> string \<Rightarrow> bool) \<Rightarrow> timestamp \<Rightarrow> create_workflow_input \<Rightarrow> workflow_store \<Rightarrow>
   ((bool \<times> workflow_instance) \<times> workflow_store) result" where
  "createWorkflow lc clock input st =
     (case canonicalJson lc (cw_state input) of
        Text state \<Rightarrow>
          (case lookup wi_id (ws_instances st) (cw_id input) of
             None \<Rightarrow>
               (let row = \<lparr> wi_id = cw_id input, wi_kind = cw_kind input, wi_version = cw_version input,
                            wi_status = cw_status input, wi_state = state, wi_revision = 0,
                            wi_wake_at = cw_wakeAt input, wi_created_at = clock, wi_updated_at = clock \<rparr> in
                rbind (insertWorkflowEffects lc clock (cw_id input) (cw_effects input) (ws_effects st)) (\<lambda>effects.
                Inr ((True, sqliteWorkflow row),
                  st\<lparr>ws_instances := ws_instances st @ [row], ws_effects := effects\<rparr>)))
           | Some row \<Rightarrow>
               if wi_kind row \<noteq> cw_kind input \<or> wi_version row \<noteq> cw_version input
                 \<or> wi_status row \<noteq> cw_status input \<or> wi_state row \<noteq> state
                 \<or> wi_wake_at row \<noteq> cw_wakeAt input
               then throw (''workflow '' @ cw_id input @ '' already exists with different durable content'')
               else if \<not> effects_match lc (ws_effects st) (cw_id input) (cw_effects input)
               then throw (''workflow '' @ cw_id input @ '' already exists with different durable effects'')
               else Inr ((False, sqliteWorkflow row), st))
      | _ \<Rightarrow> Inl (ConstraintError ''CHECK constraint failed: json_valid(state)''))"

definition workflow :: "string \<Rightarrow> workflow_store \<Rightarrow> workflow_instance option" where
  "workflow wid st = map_option sqliteWorkflow (lookup wi_id (ws_instances st) wid)"

definition workflow_due :: "timestamp \<Rightarrow> instance_row \<Rightarrow> bool" where
  "workflow_due now r =
     (wi_status r \<in> {WRunning, WWaiting} \<and> (case wi_wake_at r of Some t \<Rightarrow> t \<le> now | None \<Rightarrow> False))"

definition dueWorkflows :: "timestamp \<Rightarrow> nat \<Rightarrow> workflow_store \<Rightarrow> workflow_instance list" where
  "dueWorkflows now limit st =
     map sqliteWorkflow
       (ascending (\<lambda>r. (case wi_wake_at r of Some t \<Rightarrow> t | None \<Rightarrow> [], wi_id r)) limit
         (filter (workflow_due now) (ws_instances st)))"

definition wake_after :: "wake_change \<Rightarrow> timestamp option \<Rightarrow> timestamp option" where
  "wake_after change current =
     (case change of KeepWake \<Rightarrow> current | ClearWake \<Rightarrow> None | WakeAt t \<Rightarrow> Some t)"

definition advanced_row :: "timestamp \<Rightarrow> advance_workflow_input \<Rightarrow> json \<Rightarrow> instance_row \<Rightarrow> instance_row" where
  "advanced_row clock input state r =
     r\<lparr>wi_status := aw_status input, wi_state := state, wi_revision := aw_expectedRevision input + 1,
       wi_wake_at := wake_after (aw_wakeAt input) (wi_wake_at r), wi_updated_at := clock\<rparr>"

definition event_processed :: "workflow_store \<Rightarrow> string \<Rightarrow> string \<Rightarrow> bool" where
  "event_processed st i e = (\<exists>r\<in>set (ws_events st). pe_instance r = i \<and> pe_event_id r = e)"

definition advanceWorkflow ::
  "(string \<Rightarrow> string \<Rightarrow> bool) \<Rightarrow> timestamp \<Rightarrow> advance_workflow_input \<Rightarrow> workflow_store \<Rightarrow>
   ((bool \<times> workflow_instance) \<times> workflow_store) result" where
  "advanceWorkflow lc clock input st =
     (case lookup wi_id (ws_instances st) (aw_instanceId input) of
        None \<Rightarrow> throw (''workflow '' @ aw_instanceId input @ '' does not exist'')
      | Some current \<Rightarrow>
          if event_processed st (aw_instanceId input) (wv_id (aw_event input))
          then Inr ((False, sqliteWorkflow current), st)
          else if wi_revision current \<noteq> aw_expectedRevision input
          then throw (''workflow '' @ aw_instanceId input @ '' revision conflict'')
          else
            (let revision = aw_expectedRevision input + 1 in
             case (canonicalJson lc (aw_state input), canonicalJson lc (wv_payload (aw_event input))) of
               (Text state, Text payload) \<Rightarrow>
                 if \<exists>t\<in>set (ws_transitions st). tr_instance t = aw_instanceId input \<and> tr_revision t = revision
                 then Inl (ConstraintError ''UNIQUE constraint failed: workflow_transition.instance_id, workflow_transition.revision'')
                 else
                   rbind (insertWorkflowEffects lc clock (aw_instanceId input) (aw_effects input) (ws_effects st)) (\<lambda>effects.
                   Inr ((True, sqliteWorkflow (advanced_row clock input state current)),
                     st\<lparr>ws_events := ws_events st @
                          [\<lparr> pe_instance = aw_instanceId input, pe_event_id = wv_id (aw_event input),
                             pe_type = wv_type (aw_event input), pe_occurred_at = wv_occurredAt (aw_event input),
                             pe_payload = payload, pe_revision = revision \<rparr>],
                        ws_instances := update_where (\<lambda>r. wi_id r = aw_instanceId input)
                          (advanced_row clock input state) (ws_instances st),
                        ws_transitions := ws_transitions st @
                          [\<lparr> tr_instance = aw_instanceId input, tr_revision = revision,
                             tr_event_id = wv_id (aw_event input), tr_from = wi_status current,
                             tr_to = aw_status input, tr_state = state \<rparr>],
                        ws_effects := effects\<rparr>))
             | _ \<Rightarrow> Inl (ConstraintError ''CHECK constraint failed: json_valid'')))"

definition effect_due :: "timestamp \<Rightarrow> effect_row \<Rightarrow> bool" where
  "effect_due now r =
     (fx_available_at r \<le> now \<and>
      (fx_status r = FPending \<or>
       (fx_status r = FDispatching \<and> (case fx_lease_expires_at r of Some e \<Rightarrow> e \<le> now | None \<Rightarrow> False))))"

definition claimNextWorkflowEffect ::
  "timestamp \<Rightarrow> string \<Rightarrow> timestamp \<Rightarrow> timestamp \<Rightarrow> workflow_store \<Rightarrow>
   (claimed_workflow_effect option \<times> workflow_store) result" where
  "claimNextWorkflowEffect clock worker now leaseExpiresAt st =
     (case first_by (\<lambda>r. (fx_available_at r, fx_created_at r)) (filter (effect_due now) (ws_effects st)) of
        None \<Rightarrow> Inr (None, st)
      | Some row \<Rightarrow>
          (let attempt = fx_attempt row + 1 in
           if changes (\<lambda>r. fx_id r = fx_id row) (ws_effects st) \<noteq> 1
           then throw (''workflow effect '' @ fx_id row @ '' lost its claim race'')
           else
             Inr (Some \<lparr> cx_id = fx_id row, cx_instanceId = fx_instance row, cx_kind = fx_kind row,
                         cx_payload = js_of_json (fx_payload row), cx_attempt = attempt \<rparr>,
               st\<lparr>ws_effects := update_where (\<lambda>r. fx_id r = fx_id row)
                 (\<lambda>r. r\<lparr>fx_status := FDispatching, fx_attempt := attempt, fx_lease_owner := Some worker,
                    fx_lease_expires_at := Some leaseExpiresAt, fx_updated_at := clock\<rparr>) (ws_effects st)\<rparr>)))"

definition effect_held :: "string \<Rightarrow> string \<Rightarrow> effect_row \<Rightarrow> bool" where
  "effect_held effectId worker r =
     (fx_id r = effectId \<and> fx_status r = FDispatching \<and> fx_lease_owner r = Some worker)"

definition settleWorkflowEffect ::
  "timestamp \<Rightarrow> string \<Rightarrow> string \<Rightarrow> timestamp \<Rightarrow> workflow_store \<Rightarrow> workflow_store result" where
  "settleWorkflowEffect clock effectId worker deliveredAt st =
     (if changes (effect_held effectId worker) (ws_effects st) \<noteq> 1
      then throw (''worker '' @ worker @ '' does not own workflow effect '' @ effectId)
      else
        Inr (st\<lparr>ws_effects := update_where (effect_held effectId worker)
          (\<lambda>r. r\<lparr>fx_status := FDelivered, fx_delivered_at := Some deliveredAt, fx_lease_owner := None,
             fx_lease_expires_at := None, fx_updated_at := clock\<rparr>) (ws_effects st)\<rparr>))"

definition releaseWorkflowEffect ::
  "timestamp \<Rightarrow> string \<Rightarrow> string \<Rightarrow> string \<Rightarrow> timestamp \<Rightarrow> bool \<Rightarrow> workflow_store \<Rightarrow> workflow_store result" where
  "releaseWorkflowEffect clock effectId worker err availableAt terminal st =
     (if changes (effect_held effectId worker) (ws_effects st) \<noteq> 1
      then throw (''worker '' @ worker @ '' does not own workflow effect '' @ effectId)
      else
        Inr (st\<lparr>ws_effects := update_where (effect_held effectId worker)
          (\<lambda>r. r\<lparr>fx_status := (if terminal then FFailed else FPending), fx_available_at := availableAt,
             fx_last_error := Some err, fx_lease_owner := None, fx_lease_expires_at := None,
             fx_updated_at := clock\<rparr>) (ws_effects st)\<rparr>))"

section \<open>Leases, operations as values, and the invariant\<close>

definition effect_lease :: "effect_row \<Rightarrow> lease" where
  "effect_lease r =
     (case fx_status r of
        FPending \<Rightarrow> Ready (fx_available_at r)
      | FDispatching \<Rightarrow> held_lease (fx_lease_owner r) (fx_lease_expires_at r)
      | _ \<Rightarrow> Closed)"

definition effect_phase :: "workflow_store \<Rightarrow> string leases" where
  "effect_phase st = (\<lambda>k. map_option effect_lease (lookup fx_id (ws_effects st) k))"

text \<open>The audit trail of an instance and the events it processed, in the order written.\<close>

definition history :: "workflow_store \<Rightarrow> string \<Rightarrow> transition_row list" where
  "history st i = filter (\<lambda>t. tr_instance t = i) (ws_transitions st)"

definition processed :: "workflow_store \<Rightarrow> string \<Rightarrow> processed_row list" where
  "processed st i = filter (\<lambda>e. pe_instance e = i) (ws_events st)"

definition trail_ok :: "workflow_store \<Rightarrow> instance_row \<Rightarrow> bool" where
  "trail_ok st w \<longleftrightarrow>
     map tr_revision (history st (wi_id w)) = [1..<Suc (wi_revision w)]
   \<and> map (\<lambda>e. (pe_event_id e, pe_revision e)) (processed st (wi_id w))
       = map (\<lambda>t. (tr_event_id t, tr_revision t)) (history st (wi_id w))
   \<and> successively (\<lambda>a b. tr_to a = tr_from b) (history st (wi_id w))
   \<and> (history st (wi_id w) \<noteq> [] \<longrightarrow>
        tr_to (last (history st (wi_id w))) = wi_status w \<and> tr_state (last (history st (wi_id w))) = wi_state w)"

definition workflow_inv :: "workflow_store \<Rightarrow> bool" where
  "workflow_inv st \<longleftrightarrow>
     distinct (map wi_id (ws_instances st))
   \<and> distinct (map (\<lambda>e. (pe_instance e, pe_event_id e)) (ws_events st))
   \<and> distinct (map fx_id (ws_effects st))
   \<and> (\<forall>t\<in>set (ws_transitions st). tr_instance t \<in> wi_id ` set (ws_instances st))
   \<and> (\<forall>e\<in>set (ws_events st). pe_instance e \<in> wi_id ` set (ws_instances st))
   \<and> (\<forall>r\<in>set (ws_effects st). fx_instance r \<in> wi_id ` set (ws_instances st))
   \<and> (\<forall>r\<in>set (ws_effects st). fx_status r = FDispatching \<longrightarrow>
        fx_lease_owner r \<noteq> None \<and> fx_lease_expires_at r \<noteq> None)
   \<and> (\<forall>w\<in>set (ws_instances st). trail_ok st w)"

datatype workflow_op =
    WCreate timestamp create_workflow_input
  | WAdvance timestamp advance_workflow_input
  | WClaim timestamp string timestamp timestamp
  | WSettle timestamp string string timestamp
  | WRelease timestamp string string string timestamp bool

fun workflow_exec ::
  "(string \<Rightarrow> string \<Rightarrow> bool) \<Rightarrow> workflow_op \<Rightarrow> workflow_store \<Rightarrow> workflow_store \<times> string lease_event" where
  "workflow_exec lc (WCreate clock input) st =
     (case createWorkflow lc clock input st of Inl _ \<Rightarrow> (st, Quiet) | Inr (_, st') \<Rightarrow> (st', Quiet))"
| "workflow_exec lc (WAdvance clock input) st =
     (case advanceWorkflow lc clock input st of Inl _ \<Rightarrow> (st, Quiet) | Inr (_, st') \<Rightarrow> (st', Quiet))"
| "workflow_exec lc (WClaim clock worker now expires) st =
     (case claimNextWorkflowEffect clock worker now expires st of
        Inl _ \<Rightarrow> (st, Quiet)
      | Inr (None, st') \<Rightarrow> (st', Quiet)
      | Inr (Some c, st') \<Rightarrow> (st', Claimed (cx_id c) worker now expires))"
| "workflow_exec lc (WSettle clock effectId worker deliveredAt) st =
     (case settleWorkflowEffect clock effectId worker deliveredAt st of
        Inl _ \<Rightarrow> (st, Quiet) | Inr st' \<Rightarrow> (st', Settled effectId worker))"
| "workflow_exec lc (WRelease clock effectId worker err availableAt terminal) st =
     (case releaseWorkflowEffect clock effectId worker err availableAt terminal st of
        Inl _ \<Rightarrow> (st, Quiet) | Inr st' \<Rightarrow> (st', Released effectId worker availableAt terminal))"

definition empty_workflows :: workflow_store where
  "empty_workflows = \<lparr> ws_instances = [], ws_events = [], ws_transitions = [], ws_effects = [] \<rparr>"

section \<open>Lemmas\<close>

text \<open>Inserting effects adds pending rows under fresh ids and touches no other.\<close>

definition added_effects :: "string \<Rightarrow> effect_row list \<Rightarrow> effect_row list \<Rightarrow> bool" where
  "added_effects i rows rows' \<longleftrightarrow>
     (\<exists>new. rows' = rows @ new \<and> (\<forall>r\<in>set new. fx_instance r = i \<and> fx_status r = FPending))
   \<and> (distinct (map fx_id rows) \<longrightarrow> distinct (map fx_id rows'))"

lemma insertWorkflowEffect_added:
  assumes "insertWorkflowEffect lc clock i effect rows = Inr rows'"
  shows "added_effects i rows rows'"
  using assms
  by (auto simp: insertWorkflowEffect_def added_effects_def split: jtext.splits if_splits) metis

lemma added_effects_trans:
  "added_effects i a b \<Longrightarrow> added_effects i b c \<Longrightarrow> added_effects i a c"
  by (fastforce simp: added_effects_def)

lemma insertWorkflowEffects_added:
  assumes "insertWorkflowEffects lc clock i effects rows = Inr rows'"
  shows "added_effects i rows rows'"
  using assms unfolding insertWorkflowEffects_def
proof (rule fold_result_invariant)
  show "added_effects i rows rows" by (simp add: added_effects_def)
next
  fix x u u'
  assume "added_effects i rows u" "insertWorkflowEffect lc clock i x u = Inr u'"
  then show "added_effects i rows u'"
    using insertWorkflowEffect_added added_effects_trans by blast
qed

lemma insertWorkflowEffects_ids:
  assumes "insertWorkflowEffects lc clock i effects rows = Inr rows'"
  shows "map fx_id rows' = map fx_id rows @ map we_id effects"
  using assms unfolding insertWorkflowEffects_def
proof (induction effects arbitrary: rows)
  case (Cons e effects)
  then obtain mid where mid: "insertWorkflowEffect lc clock i e rows = Inr mid"
    "fold_result (insertWorkflowEffect lc clock i) effects mid = Inr rows'"
    by (auto split: sum.splits)
  from mid(1) have "map fx_id mid = map fx_id rows @ [we_id e]"
    by (auto simp: insertWorkflowEffect_def split: jtext.splits if_splits)
  with Cons.IH [OF mid(2)] show ?case by simp
qed simp

lemma quiet_added_effects:
  assumes "added_effects i (ws_effects st) (ws_effects st')"
  shows "quiet (effect_phase st) (effect_phase st')"
proof -
  from assms obtain new where new: "ws_effects st' = ws_effects st @ new"
    "\<forall>r\<in>set new. fx_status r = FPending"
    by (auto simp: added_effects_def)
  have "effect_phase st' k = effect_phase st k" if "effect_phase st k \<noteq> None" for k
    using that by (auto simp: effect_phase_def new(1) lookup_append)
  moreover have "\<not> (\<exists>w e. effect_phase st' k = Some (Held w e))" if "effect_phase st k = None" for k
    using that new(2)
    by (auto simp: effect_phase_def new(1) lookup_append effect_lease_def dest!: lookup_SomeD)
  ultimately show ?thesis
    by (auto simp: quiet_def split: option.splits lease_at.splits)
qed

subsection \<open>Creating and advancing\<close>

lemma createWorkflow_cases:
  assumes "createWorkflow lc clock input st = Inr ((b, w), st')"
  obtains (old) row where "b = False" "st' = st" "lookup wi_id (ws_instances st) (cw_id input) = Some row"
      "w = sqliteWorkflow row" "Text (wi_state row) = canonicalJson lc (cw_state input)"
      "wi_kind row = cw_kind input" "wi_version row = cw_version input" "wi_status row = cw_status input"
      "wi_wake_at row = cw_wakeAt input"
      "effects_match lc (ws_effects st) (cw_id input) (cw_effects input)"
    | (new) row effects where "b = True" "lookup wi_id (ws_instances st) (cw_id input) = None"
      "wi_id row = cw_id input" "wi_revision row = 0" "w = sqliteWorkflow row"
      "Text (wi_state row) = canonicalJson lc (cw_state input)"
      "wi_kind row = cw_kind input" "wi_version row = cw_version input" "wi_status row = cw_status input"
      "wi_wake_at row = cw_wakeAt input"
      "insertWorkflowEffects lc clock (cw_id input) (cw_effects input) (ws_effects st) = Inr effects"
      "st' = st\<lparr>ws_instances := ws_instances st @ [row], ws_effects := effects\<rparr>"
proof (cases "lookup wi_id (ws_instances st) (cw_id input)")
  case None
  then show ?thesis
    using assms by (auto simp: createWorkflow_def Let_def rbind_Inr_iff split: jtext.splits intro!: new)
next
  case (Some row)
  then show ?thesis
    using assms by (auto simp: createWorkflow_def split: jtext.splits if_splits intro!: old)
qed

lemma createWorkflow_step:
  assumes inv: "workflow_inv st" and "createWorkflow lc clock input st = Inr (r, st')"
  shows "workflow_inv st' \<and> quiet (effect_phase st) (effect_phase st')"
proof -
  obtain b w where r: "r = (b, w)" by fastforce
  from assms(2) [unfolded r] show ?thesis
  proof (cases rule: createWorkflow_cases)
    case (old row)
    with inv show ?thesis by (simp add: quiet_refl)
  next
    case (new row effects)
    note added = insertWorkflowEffects_added [OF new(11)]
    have fresh: "cw_id input \<notin> wi_id ` set (ws_instances st)"
      using new(2) by (simp add: lookup_None_iff)
    have "\<forall>t\<in>set (ws_transitions st). tr_instance t \<noteq> cw_id input"
      "\<forall>e\<in>set (ws_events st). pe_instance e \<noteq> cw_id input"
      using inv fresh unfolding workflow_inv_def by metis+
    then have none: "history st (cw_id input) = []" "processed st (cw_id input) = []"
      by (simp_all add: history_def processed_def filter_empty_conv)
    have same: "history st' i = history st i" "processed st' i = processed st i" for i
      by (simp_all add: new(12) history_def processed_def)
    have "trail_ok st' row"
      using none new(3,4) by (simp add: trail_ok_def same)
    moreover have "trail_ok st' x" if "x \<in> set (ws_instances st)" for x
      using inv that by (simp add: workflow_inv_def trail_ok_def same)
    moreover have "\<forall>r\<in>set effects. fx_instance r \<in> insert (cw_id input) (wi_id ` set (ws_instances st))
        \<and> (fx_status r = FDispatching \<longrightarrow> fx_lease_owner r \<noteq> None \<and> fx_lease_expires_at r \<noteq> None)"
      using added inv by (auto simp: added_effects_def workflow_inv_def)
    moreover have "distinct (map fx_id effects)"
      using added inv by (simp add: added_effects_def workflow_inv_def)
    ultimately have "workflow_inv st'"
      using inv fresh new(3) by (auto simp: workflow_inv_def new(12))
    moreover have "quiet (effect_phase st) (effect_phase st')"
      by (rule quiet_added_effects) (use added in \<open>simp add: new(12)\<close>)
    ultimately show ?thesis by simp
  qed
qed

lemma advanceWorkflow_cases:
  assumes "advanceWorkflow lc clock input st = Inr ((b, w), st')"
  obtains (duplicate) current where "b = False" "st' = st" "w = sqliteWorkflow current"
      "lookup wi_id (ws_instances st) (aw_instanceId input) = Some current"
      "event_processed st (aw_instanceId input) (wv_id (aw_event input))"
    | (advanced) current state payload effects pe tr where "b = True"
      "lookup wi_id (ws_instances st) (aw_instanceId input) = Some current"
      "\<not> event_processed st (aw_instanceId input) (wv_id (aw_event input))"
      "wi_revision current = aw_expectedRevision input"
      "w = sqliteWorkflow (advanced_row clock input state current)"
      "canonicalJson lc (aw_state input) = Text state"
      "insertWorkflowEffects lc clock (aw_instanceId input) (aw_effects input) (ws_effects st) = Inr effects"
      "pe = \<lparr> pe_instance = aw_instanceId input, pe_event_id = wv_id (aw_event input),
          pe_type = wv_type (aw_event input), pe_occurred_at = wv_occurredAt (aw_event input),
          pe_payload = payload, pe_revision = aw_expectedRevision input + 1 \<rparr>"
      "tr = \<lparr> tr_instance = aw_instanceId input, tr_revision = aw_expectedRevision input + 1,
          tr_event_id = wv_id (aw_event input), tr_from = wi_status current, tr_to = aw_status input,
          tr_state = state \<rparr>"
      "st' = st\<lparr>ws_events := ws_events st @ [pe],
          ws_instances := update_where (\<lambda>r. wi_id r = aw_instanceId input) (advanced_row clock input state) (ws_instances st),
          ws_transitions := ws_transitions st @ [tr], ws_effects := effects\<rparr>"
proof (cases "lookup wi_id (ws_instances st) (aw_instanceId input)")
  case None
  with assms show ?thesis by (simp add: advanceWorkflow_def)
next
  case (Some current)
  show ?thesis
  proof (cases "event_processed st (aw_instanceId input) (wv_id (aw_event input))")
    case True
    with Some assms show ?thesis
      by (intro duplicate [of current]) (auto simp: advanceWorkflow_def)
  next
    case False
    from Some False assms have rev: "wi_revision current = aw_expectedRevision input"
      by (auto simp: advanceWorkflow_def split: if_splits)
    obtain state where state: "canonicalJson lc (aw_state input) = Text state"
      using Some False assms rev by (auto simp: advanceWorkflow_def Let_def split: jtext.splits)
    obtain payload where payload: "canonicalJson lc (wv_payload (aw_event input)) = Text payload"
      using Some False assms rev by (auto simp: advanceWorkflow_def Let_def split: jtext.splits)
    obtain effects where effects:
      "insertWorkflowEffects lc clock (aw_instanceId input) (aw_effects input) (ws_effects st) = Inr effects"
      using Some False assms rev state payload
      by (auto simp: advanceWorkflow_def Let_def rbind_Inr_iff split: if_splits)
    show ?thesis
      by (rule advanced [OF _ Some False rev _ state effects refl refl, where payload = payload])
        (use Some False assms rev state payload effects in
          \<open>simp_all add: advanceWorkflow_def Let_def split: if_splits\<close>)
  qed
qed

lemma advanceWorkflow_step:
  assumes inv: "workflow_inv st" and "advanceWorkflow lc clock input st = Inr (r, st')"
  shows "workflow_inv st' \<and> quiet (effect_phase st) (effect_phase st')"
proof -
  obtain b w where r: "r = (b, w)" by fastforce
  from assms(2) [unfolded r] show ?thesis
  proof (cases rule: advanceWorkflow_cases)
    case (duplicate current)
    with inv show ?thesis by (simp add: quiet_refl)
  next
    case (advanced current state payload effects pe tr)
    let ?i = "aw_instanceId input"
    note added = insertWorkflowEffects_added [OF advanced(7)]
    have cur: "current \<in> set (ws_instances st)" "wi_id current = ?i"
      using advanced(2) by (auto dest: lookup_SomeD)
    have ids: "map wi_id (ws_instances st') = map wi_id (ws_instances st)"
      by (simp add: advanced(10) advanced_row_def)
    then have idset: "wi_id ` set (ws_instances st') = wi_id ` set (ws_instances st)"
      by (metis set_map)
    have hist: "history st' i = (if i = ?i then history st i @ [tr] else history st i)"
      and proc: "processed st' i = (if i = ?i then processed st i @ [pe] else processed st i)" for i
      by (simp_all add: history_def processed_def advanced(8-10))
    have old: "trail_ok st x" if "x \<in> set (ws_instances st)" for x
      using inv that by (simp add: workflow_inv_def)
    have "trail_ok st' x" if x: "x \<in> set (ws_instances st')" for x
    proof (cases "wi_id x = ?i")
      case True
      from x obtain y where y: "y \<in> set (ws_instances st)"
          "x = (if wi_id y = ?i then advanced_row clock input state y else y)"
        by (auto simp: advanced(10) update_where_def)
      with True have "wi_id y = ?i" by (auto split: if_splits)
      with y(1) cur inv have "y = current"
        by (auto simp: workflow_inv_def intro: distinct_key_eq [where key = wi_id])
      with y cur have x': "x = advanced_row clock input state current" by simp
      show ?thesis
        using old [OF cur(1)] advanced(4) cur(2)
        by (cases "history st ?i = []")
          (auto simp: trail_ok_def x' hist proc advanced_row_def advanced(8,9) successively_append_iff)
    next
      case False
      with x have "x \<in> set (ws_instances st)"
        by (auto simp: advanced(10) update_where_def advanced_row_def split: if_splits)
      with old False show ?thesis by (simp add: trail_ok_def hist proc)
    qed
    moreover have owner: "?i \<in> wi_id ` set (ws_instances st)"
      using cur by force
    then have "\<forall>r\<in>set effects. fx_instance r \<in> wi_id ` set (ws_instances st)
        \<and> (fx_status r = FDispatching \<longrightarrow> fx_lease_owner r \<noteq> None \<and> fx_lease_expires_at r \<noteq> None)"
      using added inv by (auto simp: added_effects_def workflow_inv_def)
    moreover have "distinct (map fx_id effects)"
      using added inv by (simp add: added_effects_def workflow_inv_def)
    moreover have "distinct (map (\<lambda>e. (pe_instance e, pe_event_id e)) (ws_events st'))"
      using inv advanced(3) by (auto simp: workflow_inv_def event_processed_def advanced(8,10))
    moreover have "\<forall>t\<in>set (ws_transitions st'). tr_instance t \<in> wi_id ` set (ws_instances st)"
      "\<forall>e\<in>set (ws_events st'). pe_instance e \<in> wi_id ` set (ws_instances st)"
      using inv owner by (auto simp: workflow_inv_def advanced(8-10))
    moreover have "ws_effects st' = effects"
      by (simp add: advanced(10))
    ultimately have "workflow_inv st'"
      using inv by (simp add: workflow_inv_def ids idset)
    moreover have "quiet (effect_phase st) (effect_phase st')"
      by (rule quiet_added_effects) (use added in \<open>simp add: advanced(10)\<close>)
    ultimately show ?thesis by simp
  qed
qed

subsection \<open>The outbox\<close>

lemma effect_row_unique:
  "workflow_inv st \<Longrightarrow> r \<in> set (ws_effects st) \<Longrightarrow> lookup fx_id (ws_effects st) (fx_id r) = Some r"
  by (simp add: workflow_inv_def lookupI)

lemma workflow_inv_effects:
  assumes "workflow_inv st"
    and "\<And>r. fx_id (f r) = fx_id r" "\<And>r. fx_instance (f r) = fx_instance r"
    and "\<And>r. fx_status (f r) = FDispatching \<Longrightarrow> fx_lease_owner (f r) \<noteq> None \<and> fx_lease_expires_at (f r) \<noteq> None"
  shows "workflow_inv (st\<lparr>ws_effects := update_where p f (ws_effects st)\<rparr>)"
proof -
  have "trail_ok (st\<lparr>ws_effects := rows\<rparr>) = trail_ok st" for rows
    by (simp add: fun_eq_iff trail_ok_def history_def processed_def)
  with assms show ?thesis
    by (auto simp: workflow_inv_def set_update_where)
qed

lemma claimNextWorkflowEffect_None:
  "claimNextWorkflowEffect clock worker now expires st = Inr (None, st') \<Longrightarrow>
   st' = st \<and> (\<forall>r\<in>set (ws_effects st). \<not> effect_due now r)"
  by (auto simp: claimNextWorkflowEffect_def Let_def filter_empty_conv split: option.splits if_splits)

lemma claimNextWorkflowEffect_Some:
  assumes inv: "workflow_inv st"
    and claim: "claimNextWorkflowEffect clock worker now expires st = Inr (Some c, st')"
  shows "workflow_inv st'
    \<and> (\<exists>r\<in>set (ws_effects st). cx_id c = fx_id r \<and> cx_attempt c = fx_attempt r + 1 \<and> effect_due now r
         \<and> cx_instanceId c = fx_instance r \<and> cx_kind c = fx_kind r \<and> cx_payload c = js_of_json (fx_payload r)
         \<and> (\<forall>x\<in>set (ws_effects st). effect_due now x \<longrightarrow>
              (fx_available_at r, fx_created_at r) \<le> (fx_available_at x, fx_created_at x)))
    \<and> claimable now (effect_phase st (cx_id c))
    \<and> effect_phase st' = (effect_phase st)(cx_id c \<mapsto> Held worker expires)"
proof -
  from claim obtain row where first: "first_by (\<lambda>r. (fx_available_at r, fx_created_at r))
      (filter (effect_due now) (ws_effects st)) = Some row"
    by (auto simp: claimNextWorkflowEffect_def split: option.splits)
  note row = first_by_Some [OF first]
  let ?f = "\<lambda>r. r\<lparr>fx_status := FDispatching, fx_attempt := fx_attempt row + 1,
      fx_lease_owner := Some worker, fx_lease_expires_at := Some expires, fx_updated_at := clock\<rparr>"
  from claim first have st': "st' = st\<lparr>ws_effects := update_where (\<lambda>r. fx_id r = fx_id row) ?f (ws_effects st)\<rparr>"
    and c: "cx_id c = fx_id row" "cx_attempt c = fx_attempt row + 1" "cx_instanceId c = fx_instance row"
      "cx_kind c = fx_kind row" "cx_payload c = js_of_json (fx_payload row)"
    by (auto simp: claimNextWorkflowEffect_def Let_def split: if_splits)
  have mem: "row \<in> set (ws_effects st)" and due: "effect_due now row"
    using row(1) by auto
  note look = effect_row_unique [OF inv mem]
  have "workflow_inv st'"
    unfolding st' by (rule workflow_inv_effects [OF inv]) auto
  moreover have "effect_phase st' = (effect_phase st)(fx_id row \<mapsto> Held worker expires)"
    unfolding effect_phase_def st' workflow_store.select_convs
    by (simp add: lookup_update_one [OF _ _ look] effect_lease_def)
  moreover have "fx_status row = FDispatching \<longrightarrow> fx_lease_owner row \<noteq> None"
    using inv mem by (simp add: workflow_inv_def)
  then have "claimable now (effect_phase st (fx_id row))"
    using due look by (auto simp: effect_phase_def effect_lease_def effect_due_def split: option.splits)
  ultimately show ?thesis
    using mem due row(2) c by auto
qed

lemma effect_held_row:
  assumes "workflow_inv st"
  shows "changes (effect_held k w) (ws_effects st) = 1 \<longleftrightarrow>
    (\<exists>r. lookup fx_id (ws_effects st) k = Some r \<and> effect_held k w r)"
proof -
  have dist: "distinct (map fx_id (ws_effects st))"
    using assms by (simp add: workflow_inv_def)
  then have "changes (effect_held k w) (ws_effects st) = 1 \<longleftrightarrow>
      (\<exists>r\<in>set (ws_effects st). effect_held k w r)"
    by (rule changes_1_iff) (simp add: effect_held_def)
  also have "\<dots> \<longleftrightarrow> (\<exists>r. lookup fx_id (ws_effects st) k = Some r \<and> effect_held k w r)"
    using lookupI [OF dist] lookup_SomeD [of fx_id "ws_effects st"]
    by (fastforce simp: effect_held_def)
  finally show ?thesis .
qed

lemma effect_phase_held:
  "effect_phase st k = Some (Held w e) \<longleftrightarrow>
    (\<exists>r. lookup fx_id (ws_effects st) k = Some r \<and> effect_held k w r \<and> fx_lease_expires_at r = Some e)"
proof -
  have "effect_lease r = Held w e \<longleftrightarrow> effect_held k w r \<and> fx_lease_expires_at r = Some e"
    if "lookup fx_id (ws_effects st) k = Some r" for r
    using lookup_SomeD [OF that] by (auto simp: effect_lease_def effect_held_def split: effect_status.splits)
  then show ?thesis
    by (auto simp: effect_phase_def)
qed

lemma held_effect_phase:
  assumes "workflow_inv st" "lookup fx_id (ws_effects st) k = Some r" "effect_held k w r"
  shows "\<exists>e. effect_phase st k = Some (Held w e)"
proof -
  have "fx_lease_expires_at r \<noteq> None"
    using assms lookup_SomeD [OF assms(2)] by (auto simp: workflow_inv_def effect_held_def)
  with assms(2,3) show ?thesis by (auto simp: effect_phase_held)
qed

lemma finish_effect:
  assumes inv: "workflow_inv st" and one: "changes (effect_held k w) (ws_effects st) = 1"
    and keep: "\<And>r. fx_id (f r) = fx_id r" "\<And>r. fx_instance (f r) = fx_instance r"
    and off: "\<And>r. fx_status (f r) \<noteq> FDispatching" and lease: "\<And>r. effect_lease (f r) = l"
    and st': "st' = st\<lparr>ws_effects := update_where (effect_held k w) f (ws_effects st)\<rparr>"
  shows "workflow_inv st' \<and> (\<exists>e. effect_phase st k = Some (Held w e))
    \<and> effect_phase st' = (effect_phase st)(k \<mapsto> l)"
proof -
  from one effect_held_row [OF inv] obtain r where r: "lookup fx_id (ws_effects st) k = Some r" "effect_held k w r"
    by auto
  have "workflow_inv st'"
    unfolding st' by (rule workflow_inv_effects [OF inv]) (use keep off in auto)
  moreover have "effect_phase st' = (effect_phase st)(k \<mapsto> l)"
    using lookup_update_one [where key = fx_id and f = f and p = "effect_held k w" and g = effect_lease,
        OF keep(1) _ r]
    by (simp add: effect_phase_def st' lease effect_held_def)
  ultimately show ?thesis
    using held_effect_phase [OF inv r] by simp
qed

lemma settleWorkflowEffect_step:
  assumes "workflow_inv st" "settleWorkflowEffect clock k w t st = Inr st'"
  shows "workflow_inv st' \<and> (\<exists>e. effect_phase st k = Some (Held w e))
    \<and> effect_phase st' = (effect_phase st)(k \<mapsto> Closed)"
proof -
  from assms(2) have one: "changes (effect_held k w) (ws_effects st) = 1"
    and st': "st' = st\<lparr>ws_effects := update_where (effect_held k w)
      (\<lambda>r. r\<lparr>fx_status := FDelivered, fx_delivered_at := Some t, fx_lease_owner := None,
         fx_lease_expires_at := None, fx_updated_at := clock\<rparr>) (ws_effects st)\<rparr>"
    by (auto simp: settleWorkflowEffect_def split: if_splits)
  show ?thesis
    by (rule finish_effect [OF assms(1) one _ _ _ _ st']) (simp_all add: effect_lease_def)
qed

lemma releaseWorkflowEffect_step:
  assumes "workflow_inv st" "releaseWorkflowEffect clock k w err t terminal st = Inr st'"
  shows "workflow_inv st' \<and> (\<exists>e. effect_phase st k = Some (Held w e))
    \<and> effect_phase st' = (effect_phase st)(k \<mapsto> (if terminal then Closed else Ready t))"
proof -
  from assms(2) have one: "changes (effect_held k w) (ws_effects st) = 1"
    and st': "st' = st\<lparr>ws_effects := update_where (effect_held k w)
      (\<lambda>r. r\<lparr>fx_status := (if terminal then FFailed else FPending), fx_available_at := t,
         fx_last_error := Some err, fx_lease_owner := None, fx_lease_expires_at := None,
         fx_updated_at := clock\<rparr>) (ws_effects st)\<rparr>"
    by (auto simp: releaseWorkflowEffect_def split: if_splits)
  show ?thesis
    by (rule finish_effect [OF assms(1) one _ _ _ _ st']) (simp_all add: effect_lease_def)
qed

section \<open>The store implements the lease contract\<close>

lemma workflow_exec_step:
  assumes inv: "workflow_inv st" and "workflow_exec lc oper st = (st', ev)"
  shows "workflow_inv st' \<and> lease_step (effect_phase st) ev (effect_phase st')"
proof (cases oper)
  case (WCreate clock input)
  with assms show ?thesis
    by (auto split: sum.splits intro: lease_step.quiet dest: createWorkflow_step)
next
  case (WAdvance clock input)
  with assms show ?thesis
    by (auto split: sum.splits intro: lease_step.quiet dest: advanceWorkflow_step)
next
  case (WClaim clock worker now expires)
  with assms show ?thesis
    by (auto split: sum.splits option.splits intro: lease_step.quiet lease_step.claim
        dest!: claimNextWorkflowEffect_None claimNextWorkflowEffect_Some [OF inv])
next
  case (WSettle clock effectId worker t)
  with assms show ?thesis
    by (auto split: sum.splits intro: lease_step.quiet lease_step.settle
        dest!: settleWorkflowEffect_step [OF inv])
next
  case (WRelease clock effectId worker err t terminal)
  with assms show ?thesis
    by (auto split: sum.splits if_splits intro: lease_step.quiet release_closed release_ready
        dest!: releaseWorkflowEffect_step [OF inv])
qed

interpretation effect_queue: lease_store effect_phase workflow_inv "workflow_exec lc" for lc
  by unfold_locales (auto dest: workflow_exec_step)

lemma empty_workflows_inv: "workflow_inv empty_workflows"
  by (simp add: workflow_inv_def empty_workflows_def)

subsection \<open>What every operation keeps of an instance\<close>

lemma createWorkflow_keeps:
  assumes "createWorkflow lc clock input st = Inr (r, st')" and "lookup wi_id (ws_instances st) i = Some row"
  shows "lookup wi_id (ws_instances st') i = Some row \<and> ws_events st' = ws_events st"
proof -
  obtain b w where r: "r = (b, w)" by fastforce
  from assms(1) [unfolded r] show ?thesis
    by (cases rule: createWorkflow_cases) (use assms(2) in \<open>auto simp: lookup_append\<close>)
qed

lemma advanceWorkflow_keeps:
  assumes "advanceWorkflow lc clock input st = Inr (r, st')" and "lookup wi_id (ws_instances st) i = Some row"
  shows "\<exists>row'. lookup wi_id (ws_instances st') i = Some row' \<and> wi_revision row \<le> wi_revision row'"
    and "event_processed st i e \<Longrightarrow> event_processed st' i e"
proof -
  obtain b w where r: "r = (b, w)" by fastforce
  from assms(1) [unfolded r] have "(\<exists>row'. lookup wi_id (ws_instances st') i = Some row' \<and> wi_revision row \<le> wi_revision row')
      \<and> (event_processed st i e \<longrightarrow> event_processed st' i e)"
  proof (cases rule: advanceWorkflow_cases)
    case (duplicate current)
    with assms(2) show ?thesis by auto
  next
    case (advanced current state payload effects pe tr)
    have "lookup wi_id (ws_instances st') i
        = map_option (\<lambda>r. if wi_id r = aw_instanceId input then advanced_row clock input state r else r)
            (lookup wi_id (ws_instances st) i)"
      unfolding advanced(10) by (simp add: lookup_update_where advanced_row_def)
    moreover have "wi_revision row \<le> wi_revision (advanced_row clock input state row)"
      if "wi_id row = aw_instanceId input"
    proof -
      have "i = aw_instanceId input"
        using that assms(2) by (auto dest: lookup_SomeD)
      with assms(2) advanced(2,4) show ?thesis
        by (simp add: advanced_row_def)
    qed
    ultimately show ?thesis
      using assms(2) by (auto simp: event_processed_def advanced(10))
  qed
  then show "\<exists>row'. lookup wi_id (ws_instances st') i = Some row' \<and> wi_revision row \<le> wi_revision row'"
    and "event_processed st i e \<Longrightarrow> event_processed st' i e"
    by auto
qed

lemma outbox_keeps:
  "claimNextWorkflowEffect clock worker now expires st = Inr (c, st') \<Longrightarrow>
     ws_instances st' = ws_instances st \<and> ws_events st' = ws_events st"
  "settleWorkflowEffect clock k worker t st = Inr st' \<Longrightarrow>
     ws_instances st' = ws_instances st \<and> ws_events st' = ws_events st"
  "releaseWorkflowEffect clock k worker err t terminal st = Inr st' \<Longrightarrow>
     ws_instances st' = ws_instances st \<and> ws_events st' = ws_events st"
  by (auto simp: claimNextWorkflowEffect_def settleWorkflowEffect_def releaseWorkflowEffect_def Let_def
      split: option.splits if_splits)

lemma workflow_exec_keeps:
  assumes "workflow_exec lc oper st = (st', ev)" and "lookup wi_id (ws_instances st) i = Some row"
  shows "(\<exists>row'. lookup wi_id (ws_instances st') i = Some row' \<and> wi_revision row \<le> wi_revision row')
    \<and> (event_processed st i e \<longrightarrow> event_processed st' i e)"
proof (cases oper)
  case (WCreate clock input)
  with assms show ?thesis
    by (auto split: sum.splits simp: event_processed_def dest!: createWorkflow_keeps)
next
  case (WAdvance clock input)
  show ?thesis
  proof (cases "advanceWorkflow lc clock input st")
    case (Inl e)
    with WAdvance assms show ?thesis by simp
  next
    case (Inr r)
    then obtain x where "advanceWorkflow lc clock input st = Inr (x, st')"
      using WAdvance assms(1) by (cases r) auto
    from advanceWorkflow_keeps [OF this assms(2)] show ?thesis by blast
  qed
next
  case (WClaim clock worker now expires)
  with assms show ?thesis
    by (auto split: sum.splits option.splits simp: event_processed_def dest!: outbox_keeps)
next
  case (WSettle clock k worker t)
  with assms show ?thesis
    by (auto split: sum.splits simp: event_processed_def dest!: outbox_keeps)
next
  case (WRelease clock k worker err t terminal)
  with assms show ?thesis
    by (auto split: sum.splits simp: event_processed_def dest!: outbox_keeps)
qed

lemma workflow_run_keeps:
  assumes "run_ops (workflow_exec lc) ops st = (st', evs)" and "lookup wi_id (ws_instances st) i = Some row"
  shows "(\<exists>row'. lookup wi_id (ws_instances st') i = Some row' \<and> wi_revision row \<le> wi_revision row')
    \<and> (event_processed st i e \<longrightarrow> event_processed st' i e)"
  using assms
proof (induction ops arbitrary: st evs row)
  case (Cons oper ops)
  obtain s1 ev where e: "workflow_exec lc oper st = (s1, ev)" by fastforce
  obtain s2 evs' where r: "run_ops (workflow_exec lc) ops s1 = (s2, evs')" by fastforce
  from Cons.prems(1) e r have "run_ops (workflow_exec lc) ops s1 = (st', evs')" by auto
  moreover from workflow_exec_keeps [OF e Cons.prems(2)] obtain row1 where
    "lookup wi_id (ws_instances s1) i = Some row1" "wi_revision row \<le> wi_revision row1"
    "event_processed st i e \<longrightarrow> event_processed s1 i e" by blast
  ultimately show ?case
    using Cons.IH [of s1 evs' row1] by fastforce
qed auto

lemma advanceWorkflow_after:
  assumes "advanceWorkflow lc clock input st = Inr ((b, w), st')"
  shows "event_processed st' (aw_instanceId input) (wv_id (aw_event input))"
    and "\<exists>row. lookup wi_id (ws_instances st') (aw_instanceId input) = Some row
      \<and> (b \<longrightarrow> wi_revision row = aw_expectedRevision input + 1)"
proof -
  from assms have "event_processed st' (aw_instanceId input) (wv_id (aw_event input))
    \<and> (\<exists>row. lookup wi_id (ws_instances st') (aw_instanceId input) = Some row
      \<and> (b \<longrightarrow> wi_revision row = aw_expectedRevision input + 1))"
  proof (cases rule: advanceWorkflow_cases)
    case (duplicate current)
    then show ?thesis by simp
  next
    case (advanced current state payload effects pe tr)
    have "lookup wi_id (ws_instances st') (aw_instanceId input)
        = map_option (\<lambda>r. if wi_id r = aw_instanceId input then advanced_row clock input state r else r)
            (lookup wi_id (ws_instances st) (aw_instanceId input))"
      unfolding advanced(10) by (simp add: lookup_update_where advanced_row_def)
    with advanced(2) have "lookup wi_id (ws_instances st') (aw_instanceId input)
        = Some (advanced_row clock input state current)"
      by (auto dest: lookup_SomeD)
    then show ?thesis
      by (simp add: event_processed_def advanced(8,10) advanced_row_def)
  qed
  then show "event_processed st' (aw_instanceId input) (wv_id (aw_event input))"
    and "\<exists>row. lookup wi_id (ws_instances st') (aw_instanceId input) = Some row
      \<and> (b \<longrightarrow> wi_revision row = aw_expectedRevision input + 1)"
    by auto
qed

subsection \<open>Replaying a creation\<close>

definition stored_effect ::
  "(string \<Rightarrow> string \<Rightarrow> bool) \<Rightarrow> string \<Rightarrow> workflow_effect_input \<Rightarrow> effect_row \<Rightarrow> bool" where
  "stored_effect lc i wanted r \<longleftrightarrow> fx_instance r = i \<and> effect_matches lc r wanted"

lemma insertWorkflowEffects_stored:
  assumes "insertWorkflowEffects lc clock i effects rows = Inr rows'"
  shows "\<exists>new. rows' = rows @ new \<and> list_all2 (\<lambda>r w. stored_effect lc i w r) new effects"
  using assms unfolding insertWorkflowEffects_def
proof (induction effects arbitrary: rows)
  case (Cons e effects)
  then obtain mid where mid: "insertWorkflowEffect lc clock i e rows = Inr mid"
    "fold_result (insertWorkflowEffect lc clock i) effects mid = Inr rows'"
    by (auto split: sum.splits)
  from mid(1) obtain r where r: "mid = rows @ [r]" "stored_effect lc i e r"
    by (auto simp: insertWorkflowEffect_def stored_effect_def effect_matches_def
        split: jtext.splits if_splits option.splits)
  from Cons.IH [OF mid(2)] obtain new where
    "rows' = mid @ new" "list_all2 (\<lambda>r w. stored_effect lc i w r) new effects"
    by blast
  with r show ?case by (intro exI [of _ "r # new"]) simp
qed simp

lemma list_all2_insert_by:
  assumes "R x y" "list_all2 R xs ys"
    and "\<And>a b. R a b \<Longrightarrow> key a = kex b"
    and "\<And>b. b \<in> set ys \<Longrightarrow> le y b \<longleftrightarrow> kex y \<le> kex b"
  shows "list_all2 R (insort_key key x xs) (insert_by le y ys)"
  using assms(2,4)
proof (induction xs ys rule: list_all2_induct)
  case Nil
  with assms(1) show ?case by simp
next
  case (Cons a as b bs)
  have "key x = kex y" "key a = kex b" "le y b \<longleftrightarrow> kex y \<le> kex b"
    using assms(1,3) Cons by simp_all
  with Cons assms(1) show ?case by simp
qed

lemma list_all2_sort_by:
  assumes "list_all2 R xs ys"
    and "\<And>a b. R a b \<Longrightarrow> key a = kex b"
    and "\<And>a b. a \<in> set ys \<Longrightarrow> b \<in> set ys \<Longrightarrow> le a b \<longleftrightarrow> kex a \<le> kex b"
  shows "list_all2 R (sort_key key xs) (sort_by le ys)"
  using assms
proof (induction xs ys rule: list_all2_induct)
  case (Cons x xs y ys)
  have "list_all2 R (sort_key key xs) (sort_by le ys)"
    using Cons by simp
  then have "list_all2 R (insort_key key x (sort_key key xs)) (insert_by le y (sort_by le ys))"
    by (rule list_all2_insert_by [rotated, where kex = kex]) (use Cons in auto)
  then show ?case by (simp add: sort_key_simps)
qed simp

lemma createWorkflow_replay:
  assumes inv: "workflow_inv st" and run: "createWorkflow lc clock input st = Inr ((True, w), st')"
    and agree: "\<forall>a\<in>we_id ` set (cw_effects input). \<forall>b\<in>we_id ` set (cw_effects input). lc a b \<longleftrightarrow> a \<le> b"
  shows "createWorkflow lc clock' input st' = Inr ((False, w), st')"
  using run
proof (cases rule: createWorkflow_cases)
  case (new row effects)
  let ?i = "cw_id input"
  have look: "lookup wi_id (ws_instances st') ?i = Some row"
    using new(2,3) by (simp add: new(12) lookup_append)
  have "\<forall>r\<in>set (ws_effects st). fx_instance r \<noteq> ?i"
    using inv new(2) unfolding workflow_inv_def lookup_None_iff by metis
  moreover from insertWorkflowEffects_stored [OF new(11)] obtain added where
    added: "effects = ws_effects st @ added" "list_all2 (\<lambda>r w. stored_effect lc ?i w r) added (cw_effects input)"
    by blast
  moreover from added(2) have "\<forall>r\<in>set added. fx_instance r = ?i"
    by (induction rule: list_all2_induct) (auto simp: stored_effect_def)
  ultimately have rows: "filter (\<lambda>r. fx_instance r = ?i) (ws_effects st') = added"
    by (simp add: new(12) filter_empty_conv)
  from added(2) have "list_all2 (effect_matches lc) added (cw_effects input)"
    by (rule list_all2_mono) (simp add: stored_effect_def)
  then have "list_all2 (effect_matches lc) (sort_key fx_id added)
      (sort_by (\<lambda>l r. lc (we_id l) (we_id r)) (cw_effects input))"
    by (rule list_all2_sort_by [where kex = we_id]) (use agree in \<open>auto simp: effect_matches_def\<close>)
  then have "effects_match lc (ws_effects st') ?i (cw_effects input)"
    by (simp add: effects_match_def rows)
  with look new(5,7-10) show ?thesis
    by (simp add: createWorkflow_def new(6) [symmetric])
qed simp

section \<open>Properties\<close>


text \<open>C8. No update is lost: once an advance from a revision has been applied, every later advance
that expects the same or an older revision and carries a new event is refused with a revision
conflict, whatever has run in between.\<close>

theorem advanceWorkflow_refuses_stale:
  assumes "advanceWorkflow lc clock input st = Inr ((True, w), st1)"
    and "run_ops (workflow_exec lc) ops st1 = (st2, evs)"
    and "aw_instanceId input' = aw_instanceId input"
    and "aw_expectedRevision input' \<le> aw_expectedRevision input"
    and "\<not> event_processed st2 (aw_instanceId input) (wv_id (aw_event input'))"
  shows "advanceWorkflow lc clock' input' st2
    = throw (''workflow '' @ aw_instanceId input @ '' revision conflict'')"
proof -
  from advanceWorkflow_after(2) [OF assms(1)] obtain row where
    row: "lookup wi_id (ws_instances st1) (aw_instanceId input) = Some row"
      "wi_revision row = aw_expectedRevision input + 1" by auto
  from workflow_run_keeps [OF assms(2) row(1), of "wv_id (aw_event input')"] obtain row2 where
    "lookup wi_id (ws_instances st2) (aw_instanceId input) = Some row2" "wi_revision row \<le> wi_revision row2"
    by blast
  with row(2) assms(3-5) show ?thesis by (simp add: advanceWorkflow_def)
qed

text \<open>C9. The audit trail is complete: in every store reached by its operations, the transitions of
an instance carry the revisions 1 to its current one without gap, each with the event recorded as
processed at that revision, each starts in the status the one before ended in, and the last one
holds the status and state the instance has.\<close>

theorem workflow_trail_complete:
  assumes "run_ops (workflow_exec lc) ops empty_workflows = (st, evs)" and "w \<in> set (ws_instances st)"
  shows "map tr_revision (history st (wi_id w)) = [1..<Suc (wi_revision w)]
   \<and> map (\<lambda>e. (pe_event_id e, pe_revision e)) (processed st (wi_id w))
       = map (\<lambda>t. (tr_event_id t, tr_revision t)) (history st (wi_id w))
   \<and> successively (\<lambda>a b. tr_to a = tr_from b) (history st (wi_id w))
   \<and> (wi_revision w = 0
      \<or> tr_to (last (history st (wi_id w))) = wi_status w \<and> tr_state (last (history st (wi_id w))) = wi_state w)"
proof -
  have "workflow_inv st"
    using effect_queue.run_inv [OF empty_workflows_inv assms(1)] .
  with assms(2) have ok: "trail_ok st w" by (simp add: workflow_inv_def)
  moreover have "history st (wi_id w) = [] \<Longrightarrow> wi_revision w = 0"
    using ok by (auto simp: trail_ok_def split: if_splits)
  ultimately show ?thesis by (auto simp: trail_ok_def)
qed

text \<open>An effect claimed from the outbox stays with its worker until that worker settles or
releases it or the lease has expired.\<close>

lemma effect_claim_exclusive:
  assumes "workflow_inv st"
    and "run_ops (workflow_exec lc) ops st = (st', xs @ Claimed k w now e # ys @ ev # zs)"
    and "\<forall>y\<in>set ys. about y \<noteq> Some k" and "about ev = Some k"
  shows "ev = Settled k w \<or> (\<exists>t b. ev = Released k w t b)
    \<or> (\<exists>w' now' e'. ev = Claimed k w' now' e' \<and> e \<le> now')"
  using assms by (rule effect_queue.run_exclusive)

text \<open>Creating a workflow is idempotent where the collation orders the ids of its effects as
the database does: repeating the call that created it reports the same instance, not inserted, and
changes nothing.\<close>

lemma createWorkflow_idempotent:
  assumes "workflow_inv st" and "createWorkflow lc clock input st = Inr ((True, w), st')"
    and "\<forall>a\<in>we_id ` set (cw_effects input). \<forall>b\<in>we_id ` set (cw_effects input). lc a b \<longleftrightarrow> a \<le> b"
  shows "createWorkflow lc clock' input st' = Inr ((False, w), st')"
  using assms by (rule createWorkflow_replay)

section \<open>Witnesses\<close>

definition sample_create :: create_workflow_input where
  "sample_create = \<lparr> cw_id = ''i'', cw_kind = ''k'', cw_version = 1, cw_status = WRunning,
     cw_state = JObj ObjectProto [], cw_wakeAt = None,
     cw_effects = [\<lparr> we_id = ''x'', we_kind = ''n'', we_payload = JObj ObjectProto [], we_availableAt = Some ''1'' \<rparr>] \<rparr>"

definition sample_advance :: "string \<Rightarrow> advance_workflow_input" where
  "sample_advance e = \<lparr> aw_instanceId = ''i'', aw_expectedRevision = 0,
     aw_event = \<lparr> wv_id = e, wv_type = ''t'', wv_occurredAt = ''2'', wv_payload = JObj ObjectProto [] \<rparr>,
     aw_status = WWaiting, aw_state = JObj ObjectProto [], aw_wakeAt = KeepWake, aw_effects = [] \<rparr>"

definition created_store :: workflow_store where
  "created_store = snd (projr (createWorkflow (\<le>) ''1'' sample_create empty_workflows))"

definition advanced_store :: workflow_store where
  "advanced_store = snd (projr (advanceWorkflow (\<le>) ''2'' (sample_advance ''e'') created_store))"

definition created_instance :: workflow_instance where
  "created_instance = \<lparr> wf_id = ''i'', wf_kind = ''k'', wf_version = 1, wf_status = WRunning,
     wf_state = JObj ObjectProto [], wf_revision = 0, wf_wakeAt = None, wf_createdAt = ''1'', wf_updatedAt = ''1'' \<rparr>"

lemma created_run: "createWorkflow (\<le>) ''1'' sample_create empty_workflows = Inr ((True, created_instance), created_store)"
  by (simp add: created_store_def created_instance_def createWorkflow_def sample_create_def empty_workflows_def
      object_text_def insertWorkflowEffects_def insertWorkflowEffect_def sqliteWorkflow_def)

lemma created_store_inv: "workflow_inv created_store"
  using createWorkflow_step [OF empty_workflows_inv created_run] by simp

lemma created_store_eq:
  "created_store = \<lparr> ws_instances = [\<lparr> wi_id = ''i'', wi_kind = ''k'', wi_version = 1, wi_status = WRunning,
       wi_state = Obj [], wi_revision = 0, wi_wake_at = None, wi_created_at = ''1'', wi_updated_at = ''1'' \<rparr>],
     ws_events = [], ws_transitions = [],
     ws_effects = [\<lparr> fx_id = ''x'', fx_instance = ''i'', fx_kind = ''n'', fx_payload = Obj [], fx_status = FPending,
       fx_attempt = 0, fx_available_at = ''1'', fx_lease_owner = None, fx_lease_expires_at = None,
       fx_last_error = None, fx_delivered_at = None, fx_created_at = ''1'', fx_updated_at = ''1'' \<rparr>] \<rparr>"
  by (simp add: created_store_def createWorkflow_def sample_create_def empty_workflows_def
      object_text_def insertWorkflowEffects_def insertWorkflowEffect_def Let_def)

lemma advanced_run:
  "\<exists>w. advanceWorkflow (\<le>) ''2'' (sample_advance ''e'') created_store = Inr ((True, w), advanced_store)"
  by (simp add: advanced_store_def advanceWorkflow_def created_store_eq sample_advance_def event_processed_def
      object_text_def insertWorkflowEffects_def)


lemma advanceWorkflow_refuses_stale_witness:
  "advanceWorkflow (\<le>) ''9'' (sample_advance ''f'') advanced_store = throw (''workflow '' @ ''i'' @ '' revision conflict'')"
proof -
  obtain w where run: "advanceWorkflow (\<le>) ''2'' (sample_advance ''e'') created_store = Inr ((True, w), advanced_store)"
    using advanced_run by blast
  have fresh: "\<not> event_processed advanced_store (aw_instanceId (sample_advance ''e''))
      (wv_id (aw_event (sample_advance ''f'')))"
    by (simp add: advanced_store_def advanceWorkflow_def created_store_eq sample_advance_def event_processed_def
        object_text_def insertWorkflowEffects_def)
  have "advanceWorkflow (\<le>) ''9'' (sample_advance ''f'') advanced_store
      = throw (''workflow '' @ aw_instanceId (sample_advance ''e'') @ '' revision conflict'')"
    by (rule advanceWorkflow_refuses_stale [OF run, where ops = "[]" and evs = "[]"])
      (use fresh in \<open>simp_all add: sample_advance_def\<close>)
  then show ?thesis by (simp add: sample_advance_def)
qed

lemma workflow_trail_complete_witness:
  "\<exists>w\<in>set (ws_instances advanced_store).
     wi_revision w = 1 \<and> map tr_revision (history advanced_store (wi_id w)) = [1..<Suc (wi_revision w)]"
proof -
  let ?ops = "[WCreate ''1'' sample_create, WAdvance ''2'' (sample_advance ''e'')]"
  have run: "run_ops (workflow_exec (\<le>)) ?ops empty_workflows = (advanced_store, [Quiet, Quiet])"
    using created_run advanced_run by (auto split: sum.splits)
  have "\<exists>w\<in>set (ws_instances advanced_store). wi_revision w = 1"
    by (simp add: advanced_store_def advanceWorkflow_def created_store_eq sample_advance_def event_processed_def
        object_text_def insertWorkflowEffects_def advanced_row_def)
  then obtain w where "w \<in> set (ws_instances advanced_store)" "wi_revision w = 1" by blast
  with workflow_trail_complete [OF run this(1)] show ?thesis by blast
qed

lemma effect_run:
  "snd (run_ops (workflow_exec (\<le>)) [WClaim ''2'' ''w'' ''2'' ''5'', WClaim ''4'' ''v'' ''4'' ''9'', WClaim ''6'' ''v'' ''6'' ''9''] created_store)
   = [Claimed ''x'' ''w'' ''2'' ''5'', Quiet, Claimed ''x'' ''v'' ''6'' ''9'']"
  unfolding created_store_eq by code_simp

lemma effect_claim_exclusive_witness:
  "Claimed ''x'' ''v'' ''6'' ''9'' = Settled ''x'' ''w''
   \<or> (\<exists>t b. Claimed ''x'' ''v'' ''6'' ''9'' = Released ''x'' ''w'' t b)
   \<or> (\<exists>w' now' e'. Claimed ''x'' ''v'' ''6'' ''9'' = Claimed ''x'' w' now' e' \<and> ''5'' \<le> now')"
proof (rule effect_claim_exclusive [OF created_store_inv])
  let ?ops = "[WClaim ''2'' ''w'' ''2'' ''5'', WClaim ''4'' ''v'' ''4'' ''9'', WClaim ''6'' ''v'' ''6'' ''9'']"
  show "run_ops (workflow_exec (\<le>)) ?ops created_store = (fst (run_ops (workflow_exec (\<le>)) ?ops created_store),
      [] @ Claimed ''x'' ''w'' ''2'' ''5'' # [Quiet] @ Claimed ''x'' ''v'' ''6'' ''9'' # [])"
    by (rule prod_eqI) (simp_all add: effect_run del: run_ops.simps)
qed simp_all

lemma createWorkflow_idempotent_witness:
  "createWorkflow (\<le>) ''9'' sample_create created_store = Inr ((False, created_instance), created_store)"
  by (rule createWorkflow_idempotent [OF empty_workflows_inv created_run]) simp





end
