(* ===== verification/Action_Store.thy ===== *)
theory Action_Store
  imports Channel_Domain Lease_Queue
begin

text \<open>
  Durable actions: the matter an action belongs to, its record, its request to an executor, the
  approval it may need and the audit trail of its transitions (storage/types.ts and
  storage/sqlite.ts over migrations/sqlite). A transaction that throws is rolled back, so an
  operation returns either an error or its answer with the new store. \<open>lc\<close> is the host's
  \<open>localeCompare\<close>, \<open>clock\<close> the database's clock at the statement.
\<close>

section \<open>Types and tables\<close>

record request_body =
  rb_title :: string
  rb_prompt :: string
  rb_workspace :: string
  rb_mode :: exec_mode

text \<open>\<open>DurableActionInput\<close>; the approval is its id and prompt.\<close>

record action_input =
  da_actionId :: string
  da_matterId :: string
  da_matterTitle :: string
  da_matterSummary :: string
  da_intent :: string
  da_source :: jval
  da_request :: request_body
  da_requestedExecutor :: "string option"
  da_approval :: "(string \<times> string) option"

record claimed_action =
  ca_actionId :: string
  ca_request :: jval
  ca_requestedExecutor :: "string option"
  ca_approvalGranted :: bool
  ca_attempt :: nat

datatype disposition = Retry | GiveUp

record action_release =
  al_actionId :: string
  al_workerId :: string
  al_disposition :: disposition
  al_error :: string
  al_availableAt :: "timestamp option"

datatype decision = Approve | Reject

datatype matter_status = MOpen | MWaiting | MCompleted | MIgnored | MSuperseded

record matter_row =
  mt_id :: string
  mt_status :: matter_status
  mt_title :: string
  mt_latest_summary :: string
  mt_updated_at :: timestamp

record action_row =
  ar_id :: string
  ar_matter_id :: string
  ar_state :: action_state
  ar_intent :: string
  ar_source :: json
  ar_executor :: "string option"
  ar_approval_id :: "string option"
  ar_updated_at :: timestamp

datatype execution_status = XPending | XExecuting | XCompleted | XNeedsInput | XFailed

record execution_row =
  xe_action :: string
  xe_request :: json
  xe_requested_executor :: "string option"
  xe_status :: execution_status
  xe_lease_owner :: "string option"
  xe_lease_expires_at :: "timestamp option"
  xe_attempt :: nat
  xe_available_at :: timestamp
  xe_result :: "json option"
  xe_last_error :: "string option"
  xe_created_at :: timestamp
  xe_updated_at :: timestamp

datatype approval_status = ApPending | ApApproved | ApRejected | ApExpired | ApCancelled

record approval_row =
  ap_id :: string
  ap_action :: string
  ap_status :: approval_status
  ap_prompt :: string
  ap_decision :: "json option"
  ap_requested_at :: timestamp
  ap_decided_at :: "timestamp option"

record action_transition_row =
  at_action :: string
  at_from :: "action_state option"
  at_to :: action_state
  at_reason :: string
  at_metadata :: json
  at_key :: string

record action_store =
  as_matters :: "matter_row list"
  as_actions :: "action_row list"
  as_approvals :: "approval_row list"
  as_executions :: "execution_row list"
  as_transitions :: "action_transition_row list"

section \<open>Texts of the columns\<close>

fun mode_text :: "exec_mode \<Rightarrow> string" where
  "mode_text ReadOnly = ''read-only''"
| "mode_text WorkspaceWrite = ''workspace-write''"
| "mode_text ExternalWrite = ''external-write''"

fun exec_status_text :: "exec_status \<Rightarrow> string" where
  "exec_status_text ExCompleted = ''completed''"
| "exec_status_text ExNeedsInput = ''needs-input''"
| "exec_status_text ExFailed = ''failed''"

fun approval_text :: "approval_status \<Rightarrow> string" where
  "approval_text ApPending = ''pending''"
| "approval_text ApApproved = ''approved''"
| "approval_text ApRejected = ''rejected''"
| "approval_text ApExpired = ''expired''"
| "approval_text ApCancelled = ''cancelled''"

fun disposition_text :: "disposition \<Rightarrow> string" where
  "disposition_text Retry = ''retry''"
| "disposition_text GiveUp = ''failed''"

fun decision_status :: "decision \<Rightarrow> approval_status" where
  "decision_status Approve = ApApproved"
| "decision_status Reject = ApRejected"

text \<open>\<open>{ actionId: input.actionId, ...input.request }\<close>\<close>

definition request_object :: "string \<Rightarrow> request_body \<Rightarrow> jval" where
  "request_object actionId r =
     JObj ObjectProto
       [(''actionId'', JStr actionId), (''title'', JStr (rb_title r)), (''prompt'', JStr (rb_prompt r)),
        (''workspace'', JStr (rb_workspace r)), (''mode'', JStr (mode_text (rb_mode r)))]"

definition result_json :: "executor_result \<Rightarrow> json" where
  "result_json r =
     Obj ([(''actionId'', Str (rs_actionId r)), (''executor'', Str (rs_executor r)),
           (''status'', Str (exec_status_text (rs_status r))), (''summary'', Str (rs_summary r))]
          @ (case rs_sessionId r of None \<Rightarrow> [] | Some s \<Rightarrow> [(''sessionId'', Str s)]))"

text \<open>\<open>json_extract(request, '$.key')\<close> where it is a string.\<close>

definition json_extract_text :: "json \<Rightarrow> string \<Rightarrow> string option" where
  "json_extract_text j key =
     (case j of
        Obj kvs \<Rightarrow> (case map_of kvs key of Some (Str s) \<Rightarrow> Some s | _ \<Rightarrow> None)
      | _ \<Rightarrow> None)"

section \<open>Operations\<close>

definition add_transition ::
  "action_transition_row \<Rightarrow> action_store \<Rightarrow> action_store result" where
  "add_transition t st =
     (if \<exists>r\<in>set (as_transitions st). at_key r = at_key t
      then Inl (ConstraintError ''UNIQUE constraint failed: action_transition.idempotency_key'')
      else Inr (st\<lparr>as_transitions := as_transitions st @ [t]\<rparr>))"

definition insert_matter :: "timestamp \<Rightarrow> action_input \<Rightarrow> matter_row list \<Rightarrow> matter_row list" where
  "insert_matter clock input rows =
     (if lookup mt_id rows (da_matterId input) = None
      then rows @ [\<lparr> mt_id = da_matterId input, mt_status = MOpen, mt_title = da_matterTitle input,
                     mt_latest_summary = da_matterSummary input, mt_updated_at = clock \<rparr>]
      else rows)"

definition insert_approval ::
  "timestamp \<Rightarrow> action_input \<Rightarrow> approval_row list \<Rightarrow> approval_row list result" where
  "insert_approval clock input rows =
     (case da_approval input of
        None \<Rightarrow> Inr rows
      | Some (approvalId, prompt) \<Rightarrow>
          if \<exists>r\<in>set rows. ap_id r = approvalId
          then Inl (ConstraintError ''UNIQUE constraint failed: approval_request.id'')
          else if \<exists>r\<in>set rows. ap_action r = da_actionId input \<and> ap_status r = ApPending
          then Inl (ConstraintError ''UNIQUE constraint failed: approval_request.action_id'')
          else Inr (rows @ [\<lparr> ap_id = approvalId, ap_action = da_actionId input, ap_status = ApPending,
                              ap_prompt = prompt, ap_decision = None, ap_requested_at = clock,
                              ap_decided_at = None \<rparr>]))"

definition new_action :: "timestamp \<Rightarrow> action_input \<Rightarrow> json \<Rightarrow> action_row" where
  "new_action clock input source =
     \<lparr> ar_id = da_actionId input, ar_matter_id = da_matterId input,
       ar_state = (if da_approval input = None then Planned else AwaitingApproval),
       ar_intent = da_intent input, ar_source = source, ar_executor = None,
       ar_approval_id = map_option fst (da_approval input), ar_updated_at = clock \<rparr>"

definition new_execution :: "timestamp \<Rightarrow> action_input \<Rightarrow> json \<Rightarrow> execution_row" where
  "new_execution clock input request =
     \<lparr> xe_action = da_actionId input, xe_request = request,
       xe_requested_executor = da_requestedExecutor input, xe_status = XPending,
       xe_lease_owner = None, xe_lease_expires_at = None, xe_attempt = 0, xe_available_at = clock,
       xe_result = None, xe_last_error = None, xe_created_at = clock, xe_updated_at = clock \<rparr>"

definition enqueueAction ::
  "(string \<Rightarrow> string \<Rightarrow> bool) \<Rightarrow> timestamp \<Rightarrow> action_input \<Rightarrow> action_store \<Rightarrow> (bool \<times> action_store) result" where
  "enqueueAction lc clock input st =
     (if rb_mode (da_request input) \<noteq> ReadOnly \<and> da_approval input = None
      then throw (mode_text (rb_mode (da_request input)) @ '' action requires an approval request'')
      else
        case (canonicalJson lc (request_object (da_actionId input) (da_request input)),
              stringify (da_source input)) of
          (Text request, Some source) \<Rightarrow>
            (let matters = insert_matter clock input (as_matters st) in
             case lookup ar_id (as_actions st) (da_actionId input) of
               Some a \<Rightarrow>
                 (case lookup xe_action (as_executions st) (da_actionId input) of
                    None \<Rightarrow> throw (''action '' @ da_actionId input @ '' already exists with different durable content'')
                  | Some x \<Rightarrow>
                      if xe_request x \<noteq> request \<or> ar_matter_id a \<noteq> da_matterId input \<or> ar_intent a \<noteq> da_intent input
                      then throw (''action '' @ da_actionId input @ '' already exists with different durable content'')
                      else Inr (False, st\<lparr>as_matters := matters\<rparr>))
             | None \<Rightarrow>
                 rbind (insert_approval clock input (as_approvals st)) (\<lambda>approvals.
                 if \<exists>x\<in>set (as_executions st). xe_action x = da_actionId input
                 then Inl (ConstraintError ''UNIQUE constraint failed: action_execution.action_id'')
                 else
                   rbind (add_transition
                     \<lparr> at_action = da_actionId input, at_from = None,
                       at_to = (if da_approval input = None then Planned else AwaitingApproval),
                       at_reason = ''durable action enqueued'', at_metadata = Obj [],
                       at_key = da_actionId input @ '':enqueue'' \<rparr>
                     (st\<lparr>as_matters := matters,
                         as_actions := as_actions st @ [new_action clock input source],
                         as_approvals := approvals,
                         as_executions := as_executions st @ [new_execution clock input request]\<rparr>)) (\<lambda>st'.
                   Inr (True, st'))))
        | _ \<Rightarrow> Inl (TypeError ''Provided value cannot be bound to SQLite parameter''))"

definition decideApproval ::
  "timestamp \<Rightarrow> string \<Rightarrow> decision \<Rightarrow> jval \<Rightarrow> timestamp \<Rightarrow> action_store \<Rightarrow> action_store result" where
  "decideApproval clock approvalId d metadata decidedAt st =
     (case lookup ap_id (as_approvals st) approvalId of
        None \<Rightarrow> throw (''approval '' @ approvalId @ '' does not exist'')
      | Some approval \<Rightarrow>
          if ap_status approval \<noteq> ApPending
          then (if ap_status approval = decision_status d then Inr st
                else throw (''approval '' @ approvalId @ '' is already '' @ approval_text (ap_status approval)))
          else
            (case stringify metadata of
               None \<Rightarrow> Inl (TypeError ''Provided value cannot be bound to SQLite parameter'')
             | Some meta \<Rightarrow>
                 (let actionState = (if d = Approve then Planned else Failed) in
                  add_transition
                    \<lparr> at_action = ap_action approval, at_from = Some AwaitingApproval, at_to = actionState,
                      at_reason = ''approval '' @ approval_text (decision_status d) @ '' action'',
                      at_metadata = meta,
                      at_key = ap_action approval @ '':approval:'' @ approvalId @ '':''
                        @ approval_text (decision_status d) \<rparr>
                    (st\<lparr>as_approvals := update_where (\<lambda>p. ap_id p = approvalId)
                          (\<lambda>p. p\<lparr>ap_status := decision_status d, ap_decision := Some meta,
                             ap_decided_at := Some decidedAt\<rparr>) (as_approvals st),
                        as_actions := update_where (\<lambda>a. ar_id a = ap_action approval)
                          (\<lambda>a. a\<lparr>ar_state := actionState, ar_updated_at := clock\<rparr>) (as_actions st),
                        as_executions :=
                          (if d = Reject
                           then update_where (\<lambda>x. xe_action x = ap_action approval)
                             (\<lambda>x. x\<lparr>xe_status := XFailed, xe_last_error := Some ''approval rejected'',
                                xe_updated_at := clock\<rparr>) (as_executions st)
                           else as_executions st)\<rparr>))))"

text \<open>The two conditions the claim query and the claim update repeat.\<close>

definition approval_granted :: "action_store \<Rightarrow> action_row \<Rightarrow> bool" where
  "approval_granted st a =
     (\<exists>p\<in>set (as_approvals st).
        ar_approval_id a = Some (ap_id p) \<and> ap_action p = ar_id a \<and> ap_status p = ApApproved)"

definition execution_open :: "timestamp \<Rightarrow> execution_row \<Rightarrow> bool" where
  "execution_open now x =
     (xe_status x = XPending \<or>
      (xe_status x = XExecuting \<and> (case xe_lease_expires_at x of Some e \<Rightarrow> e \<le> now | None \<Rightarrow> False)))"

definition action_due :: "action_store \<Rightarrow> string \<Rightarrow> timestamp \<Rightarrow> execution_row \<Rightarrow> bool" where
  "action_due st workspace now x =
     (case lookup ar_id (as_actions st) (xe_action x) of
        None \<Rightarrow> False
      | Some a \<Rightarrow>
          json_extract_text (xe_request x) ''workspace'' = Some workspace
          \<and> xe_available_at x \<le> now
          \<and> execution_open now x
          \<and> (ar_approval_id a = None \<or> approval_granted st a))"

definition claimNextAction ::
  "timestamp \<Rightarrow> string \<Rightarrow> string \<Rightarrow> timestamp \<Rightarrow> timestamp \<Rightarrow> action_store \<Rightarrow>
   (claimed_action option \<times> action_store) result" where
  "claimNextAction clock worker workspace now leaseExpiresAt st =
     (case first_by (\<lambda>x. (xe_available_at x, xe_created_at x))
             (filter (action_due st workspace now) (as_executions st)) of
        None \<Rightarrow> Inr (None, st)
      | Some row \<Rightarrow>
          (case lookup ar_id (as_actions st) (xe_action row) of
             None \<Rightarrow> Inr (None, st)
           | Some a \<Rightarrow>
               (let attempt = xe_attempt row + 1;
                    open_row = (\<lambda>x. xe_action x = xe_action row \<and> execution_open now x) in
                if changes open_row (as_executions st) \<noteq> 1
                then throw (''action '' @ xe_action row @ '' lost its claim race'')
                else
                  rbind (add_transition
                    \<lparr> at_action = xe_action row, at_from = Some (ar_state a), at_to = Executing,
                      at_reason = ''worker claimed durable action'',
                      at_metadata = Obj [(''workerId'', Str worker), (''attempt'', Num (of_nat attempt)),
                                         (''leaseExpiresAt'', Str leaseExpiresAt)],
                      at_key = xe_action row @ '':claim:'' @ show_nat attempt \<rparr>
                    (st\<lparr>as_executions := update_where open_row
                          (\<lambda>x. x\<lparr>xe_status := XExecuting, xe_lease_owner := Some worker,
                             xe_lease_expires_at := Some leaseExpiresAt, xe_attempt := attempt,
                             xe_updated_at := clock\<rparr>) (as_executions st),
                        as_actions := update_where (\<lambda>r. ar_id r = xe_action row)
                          (\<lambda>r. r\<lparr>ar_state := Executing, ar_updated_at := clock\<rparr>) (as_actions st)\<rparr>)) (\<lambda>st'.
                  Inr (Some
                    \<lparr> ca_actionId = xe_action row, ca_request = js_of_json (xe_request row),
                      ca_requestedExecutor =
                        (case xe_requested_executor row of
                           Some e \<Rightarrow> if e = [] then None else Some e | None \<Rightarrow> None),
                      ca_approvalGranted = (ar_approval_id a \<noteq> None \<and> approval_granted st a),
                      ca_attempt = attempt \<rparr>, st')))))"

definition execution_held :: "string \<Rightarrow> string \<Rightarrow> execution_row \<Rightarrow> bool" where
  "execution_held actionId worker x =
     (xe_action x = actionId \<and> xe_status x = XExecuting \<and> xe_lease_owner x = Some worker)"

fun settled_status :: "exec_status \<Rightarrow> execution_status" where
  "settled_status ExCompleted = XCompleted"
| "settled_status ExNeedsInput = XNeedsInput"
| "settled_status ExFailed = XFailed"

fun settled_state :: "exec_status \<Rightarrow> action_state" where
  "settled_state ExCompleted = Completed"
| "settled_state ExNeedsInput = WaitingExternal"
| "settled_state ExFailed = Failed"

definition settleAction ::
  "timestamp \<Rightarrow> string \<Rightarrow> string \<Rightarrow> executor_result \<Rightarrow> action_store \<Rightarrow> action_store result" where
  "settleAction clock actionId worker res st =
     (case find (execution_held actionId worker) (as_executions st) of
        None \<Rightarrow> throw (''worker '' @ worker @ '' does not own action '' @ actionId)
      | Some execution \<Rightarrow>
          add_transition
            \<lparr> at_action = actionId, at_from = Some Executing, at_to = settled_state (rs_status res),
              at_reason = ''executor settled durable action'',
              at_metadata = Obj [(''workerId'', Str worker), (''result'', result_json res)],
              at_key = actionId @ '':settle:'' @ show_nat (xe_attempt execution) \<rparr>
            (st\<lparr>as_executions := update_where (\<lambda>x. xe_action x = actionId)
                  (\<lambda>x. x\<lparr>xe_status := settled_status (rs_status res), xe_result := Some (result_json res),
                     xe_last_error := (if rs_status res = ExFailed then Some (rs_summary res) else None),
                     xe_lease_owner := None, xe_lease_expires_at := None, xe_updated_at := clock\<rparr>)
                  (as_executions st),
                as_actions := update_where (\<lambda>a. ar_id a = actionId)
                  (\<lambda>a. a\<lparr>ar_state := settled_state (rs_status res), ar_executor := Some (rs_executor res),
                     ar_updated_at := clock\<rparr>) (as_actions st)\<rparr>))"

definition releaseActionClaim ::
  "timestamp \<Rightarrow> timestamp \<Rightarrow> action_release \<Rightarrow> action_store \<Rightarrow> action_store result" where
  "releaseActionClaim clock js_now input st =
     (case find (execution_held (al_actionId input) (al_workerId input)) (as_executions st) of
        None \<Rightarrow> throw (''worker '' @ al_workerId input @ '' does not own action '' @ al_actionId input)
      | Some execution \<Rightarrow>
          (let status = (if al_disposition input = Retry then XPending else XFailed);
               actionState = (if al_disposition input = Retry then Planned else Failed) in
           add_transition
             \<lparr> at_action = al_actionId input, at_from = Some Executing, at_to = actionState,
               at_reason = al_error input,
               at_metadata = Obj ([(''workerId'', Str (al_workerId input)),
                   (''disposition'', Str (disposition_text (al_disposition input)))]
                 @ (case al_availableAt input of None \<Rightarrow> [] | Some t \<Rightarrow> [(''availableAt'', Str t)])),
               at_key = al_actionId input @ '':release:'' @ show_nat (xe_attempt execution) @ '':''
                 @ disposition_text (al_disposition input) \<rparr>
             (st\<lparr>as_executions := update_where (\<lambda>x. xe_action x = al_actionId input)
                   (\<lambda>x. x\<lparr>xe_status := status, xe_lease_owner := None, xe_lease_expires_at := None,
                      xe_available_at := (case al_availableAt input of Some t \<Rightarrow> t | None \<Rightarrow> js_now),
                      xe_last_error := Some (al_error input), xe_updated_at := clock\<rparr>) (as_executions st),
                 as_actions := update_where (\<lambda>a. ar_id a = al_actionId input)
                   (\<lambda>a. a\<lparr>ar_state := actionState, ar_updated_at := clock\<rparr>) (as_actions st)\<rparr>)))"

section \<open>Leases, operations as values, and the invariant\<close>

definition execution_lease :: "execution_row \<Rightarrow> lease" where
  "execution_lease x =
     (case xe_status x of
        XPending \<Rightarrow> Ready (xe_available_at x)
      | XExecuting \<Rightarrow> held_lease (xe_lease_owner x) (xe_lease_expires_at x)
      | _ \<Rightarrow> Closed)"

definition action_phase :: "action_store \<Rightarrow> string leases" where
  "action_phase st = (\<lambda>k. map_option execution_lease (lookup xe_action (as_executions st) k))"

definition trail :: "action_store \<Rightarrow> string \<Rightarrow> action_transition_row list" where
  "trail st i = filter (\<lambda>t. at_action t = i) (as_transitions st)"

text \<open>
  What the record, its execution and its approval say of each other. An action without an approval
  only reads; one with an approval has not been claimed unless that approval was granted.
\<close>

fun state_of_execution :: "execution_status \<Rightarrow> action_state" where
  "state_of_execution XPending = Planned"
| "state_of_execution XExecuting = Executing"
| "state_of_execution XCompleted = Completed"
| "state_of_execution XNeedsInput = WaitingExternal"
| "state_of_execution XFailed = Failed"

definition read_only_request :: "json \<Rightarrow> bool" where
  "read_only_request j = (json_extract_text j ''mode'' = Some ''read-only'')"

fun approved_so_far :: "approval_status \<Rightarrow> action_row \<Rightarrow> execution_row \<Rightarrow> bool" where
  "approved_so_far ApPending a x = (xe_status x = XPending \<and> ar_state a = AwaitingApproval)"
| "approved_so_far ApApproved a x = (ar_state a = state_of_execution (xe_status x))"
| "approved_so_far ApRejected a x = (xe_status x = XFailed \<and> ar_state a = Failed)"
| "approved_so_far _ a x = False"

definition coherent :: "action_store \<Rightarrow> action_row \<Rightarrow> execution_row \<Rightarrow> bool" where
  "coherent st a x \<longleftrightarrow>
     (case ar_approval_id a of
        None \<Rightarrow> read_only_request (xe_request x) \<and> ar_state a = state_of_execution (xe_status x)
      | Some i \<Rightarrow> (\<exists>p. lookup ap_id (as_approvals st) i = Some p \<and> ap_action p = ar_id a
                     \<and> approved_so_far (ap_status p) a x))"

text \<open>The moves between states the audit trail may record.\<close>

fun legal_move :: "action_state \<Rightarrow> action_state \<Rightarrow> bool" where
  "legal_move AwaitingApproval s = (s \<in> {Planned, Failed})"
| "legal_move Planned s = (s = Executing)"
| "legal_move Executing s = (s \<in> {Executing, Planned, Completed, WaitingExternal, Failed})"
| "legal_move _ s = False"

definition trail_sound :: "action_store \<Rightarrow> action_row \<Rightarrow> bool" where
  "trail_sound st a \<longleftrightarrow>
     trail st (ar_id a) \<noteq> []
   \<and> at_from (hd (trail st (ar_id a))) = None
   \<and> successively (\<lambda>s t. at_from t = Some (at_to s) \<and> legal_move (at_to s) (at_to t)) (trail st (ar_id a))
   \<and> at_to (last (trail st (ar_id a))) = ar_state a"

definition action_ok :: "action_store \<Rightarrow> action_row \<Rightarrow> bool" where
  "action_ok st a \<longleftrightarrow>
     (\<exists>x. lookup xe_action (as_executions st) (ar_id a) = Some x \<and> coherent st a x) \<and> trail_sound st a"

definition action_inv :: "action_store \<Rightarrow> bool" where
  "action_inv st \<longleftrightarrow>
     distinct (map ar_id (as_actions st))
   \<and> distinct (map xe_action (as_executions st))
   \<and> distinct (map ap_id (as_approvals st))
   \<and> (\<forall>x\<in>set (as_executions st). xe_action x \<in> ar_id ` set (as_actions st))
   \<and> (\<forall>x\<in>set (as_executions st). xe_status x = XExecuting \<longrightarrow>
        xe_lease_owner x \<noteq> None \<and> xe_lease_expires_at x \<noteq> None)
   \<and> (\<forall>p\<in>set (as_approvals st). \<exists>a\<in>set (as_actions st).
        ar_id a = ap_action p \<and> ar_approval_id a = Some (ap_id p))
   \<and> (\<forall>t\<in>set (as_transitions st). at_action t \<in> ar_id ` set (as_actions st))
   \<and> (\<forall>a\<in>set (as_actions st). action_ok st a)"

datatype action_op =
    AEnqueue timestamp action_input
  | ADecide timestamp string decision jval timestamp
  | AClaim timestamp string string timestamp timestamp
  | ASettle timestamp string string executor_result
  | ARelease timestamp timestamp action_release

fun action_exec ::
  "(string \<Rightarrow> string \<Rightarrow> bool) \<Rightarrow> action_op \<Rightarrow> action_store \<Rightarrow> action_store \<times> string lease_event" where
  "action_exec lc (AEnqueue clock input) st =
     (case enqueueAction lc clock input st of Inr (_, st') \<Rightarrow> (st', Quiet) | Inl _ \<Rightarrow> (st, Quiet))"
| "action_exec lc (ADecide clock i d meta t) st =
     (case decideApproval clock i d meta t st of Inr st' \<Rightarrow> (st', Quiet) | Inl _ \<Rightarrow> (st, Quiet))"
| "action_exec lc (AClaim clock worker workspace now expires) st =
     (case claimNextAction clock worker workspace now expires st of
        Inr (Some c, st') \<Rightarrow> (st', Claimed (ca_actionId c) worker now expires)
      | Inr (None, st') \<Rightarrow> (st', Quiet)
      | Inl _ \<Rightarrow> (st, Quiet))"
| "action_exec lc (ASettle clock i worker res) st =
     (case settleAction clock i worker res st of
        Inr st' \<Rightarrow> (st', Settled i worker) | Inl _ \<Rightarrow> (st, Quiet))"
| "action_exec lc (ARelease clock js_now input) st =
     (case releaseActionClaim clock js_now input st of
        Inr st' \<Rightarrow> (st', Released (al_actionId input) (al_workerId input)
          (case al_availableAt input of Some t \<Rightarrow> t | None \<Rightarrow> js_now) (al_disposition input = GiveUp))
      | Inl _ \<Rightarrow> (st, Quiet))"

definition empty_actions :: action_store where
  "empty_actions = \<lparr> as_matters = [], as_actions = [], as_approvals = [], as_executions = [], as_transitions = [] \<rparr>"

section \<open>Lemmas\<close>

subsection \<open>Requests\<close>

lemma texts_Text: "texts (map (\<lambda>x. Text (f x)) xs) = Some (map f xs)"
  by (induction xs) auto

lemma canonical_flat_object:
  assumes "distinct (map fst kvs)"
  shows "\<exists>es. canonicalJson lc (JObj p (map (\<lambda>kv. (fst kv, JStr (snd kv))) kvs)) = Text (Obj es)
    \<and> map_of es = map_of (map (\<lambda>kv. (fst kv, Str (snd kv))) kvs)"
proof -
  let ?le = "\<lambda>l r. lc (fst l) (fst r)"
  let ?es = "sort_by ?le (map (\<lambda>kv. (fst kv, Str (snd kv))) kvs)"
  have "map (\<lambda>e. (fst e, Text (snd e))) ?es
      = sort_by ?le (map (\<lambda>e. (fst e, Text (snd e))) (map (\<lambda>kv. (fst kv, Str (snd kv))) kvs))"
    by (rule sort_by_map) simp
  then have sorted: "sort_by ?le (map (\<lambda>kv. (fst kv, Text (Str (snd kv)))) kvs) = map (\<lambda>e. (fst e, Text (snd e))) ?es"
    by (simp add: comp_def)
  have "canonicalJson lc (JObj p (map (\<lambda>kv. (fst kv, JStr (snd kv))) kvs))
      = object_text (sort_by ?le (map (\<lambda>kv. (fst kv, Text (Str (snd kv)))) kvs))"
    by (simp add: comp_def)
  also have "\<dots> = Text (Obj (zip (map fst ?es) (map snd ?es)))"
    by (simp add: object_text_def sorted comp_def texts_Text)
  finally show ?thesis
    using map_of_sort_by [of "map (\<lambda>kv. (fst kv, Str (snd kv))) kvs" ?le] assms
    by (auto simp: zip_map_fst_snd comp_def)
qed

lemma request_text:
  "\<exists>es. canonicalJson lc (request_object i r) = Text (Obj es) \<and> map_of es = map_of
     [(''actionId'', Str i), (''title'', Str (rb_title r)), (''prompt'', Str (rb_prompt r)),
      (''workspace'', Str (rb_workspace r)), (''mode'', Str (mode_text (rb_mode r)))]"
  using canonical_flat_object [of "[(''actionId'', i), (''title'', rb_title r), (''prompt'', rb_prompt r),
      (''workspace'', rb_workspace r), (''mode'', mode_text (rb_mode r))]" lc ObjectProto]
  by (simp add: request_object_def)

lemma request_mode:
  "canonicalJson lc (request_object i r) = Text j \<Longrightarrow> json_extract_text j ''mode'' = Some (mode_text (rb_mode r))"
  using request_text [of lc i r] by (auto simp: json_extract_text_def)

lemma json_extract_js_get:
  "json_extract_text j k = Some s \<Longrightarrow> js_get (js_of_json j) k = JStr s"
proof (cases j)
  case (Obj kvs)
  moreover have "map_of (map (\<lambda>kv. (fst kv, js_of_json (snd kv))) kvs) k = map_option js_of_json (map_of kvs k)"
    by (induction kvs) auto
  ultimately show "json_extract_text j k = Some s \<Longrightarrow> js_get (js_of_json j) k = JStr s"
    by (auto simp: json_extract_text_def split: option.splits json.splits)
qed (simp_all add: json_extract_text_def)

subsection \<open>Steps confined to one action\<close>

lemma add_transition_Inr:
  "add_transition t st = Inr st' \<longleftrightarrow> (\<forall>r\<in>set (as_transitions st). at_key r \<noteq> at_key t)
     \<and> st' = st\<lparr>as_transitions := as_transitions st @ [t]\<rparr>"
  by (auto simp: add_transition_def)

lemma update_where_cong:
  "(\<And>r. r \<in> set rows \<Longrightarrow> p r = q r) \<Longrightarrow> update_where p f rows = update_where q f rows"
  by (simp add: update_where_def)

lemma update_where_id: "update_where p (\<lambda>r. r) rows = rows"
  by (simp add: update_where_def)

text \<open>
  The effect every operation but \<open>enqueueAction\<close> has: it changes the record, the execution and the
  approvals of one action and appends one transition.
\<close>

definition touch ::
  "string \<Rightarrow> (action_row \<Rightarrow> action_row) \<Rightarrow> (execution_row \<Rightarrow> execution_row) \<Rightarrow> (approval_row \<Rightarrow> bool) \<Rightarrow>
   (approval_row \<Rightarrow> approval_row) \<Rightarrow> action_transition_row \<Rightarrow> action_store \<Rightarrow> action_store" where
  "touch k fa fx pp fp t st =
     st\<lparr>as_actions := update_where (\<lambda>a. ar_id a = k) fa (as_actions st),
        as_executions := update_where (\<lambda>x. xe_action x = k) fx (as_executions st),
        as_approvals := update_where pp fp (as_approvals st),
        as_transitions := as_transitions st @ [t]\<rparr>"

lemma coherent_cong:
  assumes "\<And>i. ar_approval_id a = Some i \<Longrightarrow> lookup ap_id (as_approvals st') i = lookup ap_id (as_approvals st) i"
  shows "coherent st' a x = coherent st a x"
  using assms by (auto simp: coherent_def split: option.splits)

definition one_action ::
  "string \<Rightarrow> (action_row \<Rightarrow> action_row) \<Rightarrow> (execution_row \<Rightarrow> execution_row) \<Rightarrow> (approval_row \<Rightarrow> bool) \<Rightarrow>
   (approval_row \<Rightarrow> approval_row) \<Rightarrow> action_transition_row \<Rightarrow> action_store \<Rightarrow> action_store \<Rightarrow>
   action_row \<Rightarrow> execution_row \<Rightarrow> bool" where
  "one_action k fa fx pp fp t st st' a x \<longleftrightarrow>
     action_inv st \<and> st' = touch k fa fx pp fp t st
   \<and> lookup ar_id (as_actions st) k = Some a \<and> lookup xe_action (as_executions st) k = Some x
   \<and> (\<forall>r. ar_id (fa r) = ar_id r \<and> ar_approval_id (fa r) = ar_approval_id r)
   \<and> (\<forall>r. xe_action (fx r) = xe_action r)
   \<and> (\<forall>r. ap_id (fp r) = ap_id r \<and> ap_action (fp r) = ap_action r) \<and> (\<forall>r. pp r \<longrightarrow> ap_action r = k)
   \<and> at_action t = k \<and> at_from t = Some (ar_state a) \<and> at_to t = ar_state (fa a) \<and> legal_move (ar_state a) (ar_state (fa a))
   \<and> (xe_status (fx x) = XExecuting \<longrightarrow> xe_lease_owner (fx x) \<noteq> None \<and> xe_lease_expires_at (fx x) \<noteq> None)
   \<and> coherent st' (fa a) (fx x)"

lemma one_actionD:
  assumes "one_action k fa fx pp fp t st st' a x"
  shows "action_inv st" and "st' = touch k fa fx pp fp t st"
    and "lookup ar_id (as_actions st) k = Some a" and "lookup xe_action (as_executions st) k = Some x"
    and "\<And>r. ar_id (fa r) = ar_id r" and "\<And>r. ar_approval_id (fa r) = ar_approval_id r"
    and "\<And>r. xe_action (fx r) = xe_action r"
    and "\<And>r. ap_id (fp r) = ap_id r" and "\<And>r. ap_action (fp r) = ap_action r" and "\<And>r. pp r \<Longrightarrow> ap_action r = k"
    and "at_action t = k" and "at_from t = Some (ar_state a)" and "at_to t = ar_state (fa a)"
    and "xe_status (fx x) = XExecuting \<Longrightarrow> xe_lease_owner (fx x) \<noteq> None \<and> xe_lease_expires_at (fx x) \<noteq> None"
    and "coherent st' (fa a) (fx x)" and "legal_move (ar_state a) (ar_state (fa a))"
  using assms unfolding one_action_def by blast+

lemma one_keys:
  assumes h: "one_action k fa fx pp fp t st st' a x"
  shows "ar_id a = k" "a \<in> set (as_actions st)" "xe_action x = k" "x \<in> set (as_executions st)"
  using one_actionD(3,4) [OF h] by (auto dest: lookup_SomeD)

lemma one_the_action:
  assumes h: "one_action k fa fx pp fp t st st' a x" and "r \<in> set (as_actions st)" "ar_id r = k"
  shows "r = a"
  using one_actionD(1) [OF h] one_keys(1,2) [OF h] assms(2,3) by (auto simp: action_inv_def dest: distinct_key_eq)

lemma one_the_execution:
  assumes h: "one_action k fa fx pp fp t st st' a x" and "r \<in> set (as_executions st)" "xe_action r = k"
  shows "r = x"
  using one_actionD(1) [OF h] one_keys(3,4) [OF h] assms(2,3) by (auto simp: action_inv_def dest: distinct_key_eq)

lemma one_find_execution:
  assumes h: "one_action k fa fx pp fp t st st' a x"
  shows "lookup xe_action (as_executions st') i
    = (if i = k then Some (fx x) else lookup xe_action (as_executions st) i)"
proof -
  note H = one_actionD [OF h]
  have "lookup xe_action (as_executions st') i
      = map_option (\<lambda>r. if xe_action r = k then fx r else r) (lookup xe_action (as_executions st) i)"
    by (simp add: H(2) touch_def lookup_update_where H(7))
  with H(4) show ?thesis
    by (cases "lookup xe_action (as_executions st) i") (auto dest: lookup_SomeD)
qed

lemma one_find_approval:
  assumes h: "one_action k fa fx pp fp t st st' a x"
    and "r \<in> set (as_actions st)" "ar_id r \<noteq> k" "ar_approval_id r = Some i"
  shows "lookup ap_id (as_approvals st') i = lookup ap_id (as_approvals st) i"
proof -
  note H = one_actionD [OF h]
  have "\<exists>x. coherent st r x"
    using H(1) assms(2) by (auto simp: action_inv_def action_ok_def)
  then obtain p where p: "lookup ap_id (as_approvals st) i = Some p" "ap_action p = ar_id r"
    using assms(4) by (auto simp: coherent_def)
  moreover have "\<not> pp p"
    using p(2) assms(3) H(10) by auto
  ultimately show ?thesis
    by (simp add: H(2) touch_def lookup_update_where H(8))
qed

lemma one_trail:
  assumes h: "one_action k fa fx pp fp t st st' a x"
  shows "trail st' i = (if i = k then trail st i @ [t] else trail st i)"
  using one_actionD(2,11) [OF h] by (auto simp: trail_def touch_def)

lemma one_ok:
  assumes h: "one_action k fa fx pp fp t st st' a x" and mem': "r \<in> set (as_actions st')"
  shows "action_ok st' r"
proof (cases "ar_id r = k")
  note H = one_actionD [OF h]
  case True
  then have r: "r = fa a"
    using mem' one_the_action [OF h] by (auto simp: H(2,5) touch_def set_update_where)
  have "trail_sound st a"
    using H(1) one_keys(2) [OF h] by (auto simp: action_inv_def action_ok_def)
  then have "trail_sound st' (fa a)"
    using H(11-13,16) one_keys(1) [OF h] by (auto simp: trail_sound_def H(5) one_trail [OF h] successively_append_iff)
  with H(15) one_keys(1) [OF h] show ?thesis
    by (simp add: action_ok_def r H(5) one_find_execution [OF h])
next
  note H = one_actionD [OF h]
  case False
  then have mem: "r \<in> set (as_actions st)"
    using mem' by (auto simp: H(2,5) touch_def set_update_where)
  then have "action_ok st r"
    using H(1) by (simp add: action_inv_def)
  moreover have "coherent st' r y = coherent st r y" for y
    by (rule coherent_cong) (rule one_find_approval [OF h mem False])
  moreover have "trail_sound st' r = trail_sound st r"
    using False by (simp add: trail_sound_def one_trail [OF h])
  ultimately show ?thesis
    using False by (simp add: action_ok_def one_find_execution [OF h])
qed

lemma one_inv:
  assumes h: "one_action k fa fx pp fp t st st' a x"
  shows "action_inv st'"
proof -
  note H = one_actionD [OF h]
  have ids: "map ar_id (as_actions st') = map ar_id (as_actions st)"
    "map xe_action (as_executions st') = map xe_action (as_executions st)"
    "map ap_id (as_approvals st') = map ap_id (as_approvals st)"
    by (simp_all add: H(2) touch_def H(5,7,8))
  then have idset: "ar_id ` set (as_actions st') = ar_id ` set (as_actions st)"
    by (metis set_map)
  have "\<forall>x\<in>set (as_executions st'). xe_action x \<in> ar_id ` set (as_actions st')"
    using H(1) unfolding idset by (auto simp: action_inv_def H(2,7) touch_def set_update_where)
  moreover have "\<forall>x\<in>set (as_executions st'). xe_status x = XExecuting \<longrightarrow>
        xe_lease_owner x \<noteq> None \<and> xe_lease_expires_at x \<noteq> None"
    using H(1,14) one_the_execution [OF h] by (auto simp: action_inv_def H(2) touch_def set_update_where)
  moreover have "\<exists>a\<in>set (as_actions st'). ar_id a = ap_action p \<and> ar_approval_id a = Some (ap_id p)"
    if "p \<in> set (as_approvals st')" for p
  proof -
    from that obtain q where "q \<in> set (as_approvals st)" "ap_id p = ap_id q" "ap_action p = ap_action q"
      by (auto simp: H(2,8,9) touch_def set_update_where)
    then obtain b where "b \<in> set (as_actions st)" "ar_id b = ap_action p" "ar_approval_id b = Some (ap_id p)"
      using H(1) by (auto simp: action_inv_def)
    then show ?thesis
      by (intro bexI [of _ "if ar_id b = k then fa b else b"])
        (auto simp: H(2,5,6) touch_def set_update_where)
  qed
  moreover have "at_action t \<in> ar_id ` set (as_actions st)"
    using H(11) one_keys(1,2) [OF h] by (metis image_eqI)
  then have "\<forall>t\<in>set (as_transitions st'). at_action t \<in> ar_id ` set (as_actions st')"
    using H(1) unfolding idset by (auto simp: action_inv_def H(2) touch_def)
  ultimately show ?thesis
    using H(1) one_ok [OF h] by (simp add: action_inv_def ids)
qed

lemma one_phase:
  assumes h: "one_action k fa fx pp fp t st st' a x"
  shows "action_phase st' = (action_phase st)(k \<mapsto> execution_lease (fx x))"
  by (auto simp: action_phase_def fun_eq_iff one_find_execution [OF h])

subsection \<open>The operations\<close>

definition cleared :: "action_store \<Rightarrow> action_row \<Rightarrow> bool" where
  "cleared st a \<longleftrightarrow> (\<forall>i. ar_approval_id a = Some i \<longrightarrow>
     (\<exists>p. lookup ap_id (as_approvals st) i = Some p \<and> ap_action p = ar_id a \<and> ap_status p = ApApproved))"

lemma coherent_progress:
  assumes "coherent st a x" "cleared st a" "as_approvals st' = as_approvals st"
    and "ar_id a' = ar_id a" "ar_approval_id a' = ar_approval_id a" "xe_request x' = xe_request x"
    and "ar_state a' = state_of_execution (xe_status x')"
  shows "coherent st' a' x'"
  using assms by (auto simp: coherent_def cleared_def split: option.splits)

lemma executing_cleared:
  assumes "coherent st a x" "xe_status x = XExecuting"
  shows "cleared st a" and "ar_state a = Executing"
proof -
  have "cleared st a \<and> ar_state a = Executing"
  proof (cases "ar_approval_id a")
    case None
    with assms show ?thesis by (simp add: coherent_def cleared_def)
  next
    case (Some i)
    with assms(1) obtain p where p: "lookup ap_id (as_approvals st) i = Some p" "ap_action p = ar_id a"
      "approved_so_far (ap_status p) a x"
      by (auto simp: coherent_def)
    with assms(2) Some show ?thesis
      by (cases "ap_status p") (auto simp: cleared_def)
  qed
  then show "cleared st a" and "ar_state a = Executing" by auto
qed

lemma cleared_state:
  "coherent st a x \<Longrightarrow> cleared st a \<Longrightarrow> ar_state a = state_of_execution (xe_status x)"
  by (auto simp: coherent_def cleared_def split: option.splits)

lemma granted_cleared:
  assumes "action_inv st" "ar_approval_id a = None \<or> approval_granted st a"
  shows "cleared st a"
proof -
  have "distinct (map ap_id (as_approvals st))"
    using assms(1) by (simp add: action_inv_def)
  then have "lookup ap_id (as_approvals st) (ap_id p) = Some p" if "p \<in> set (as_approvals st)" for p
    using that by (simp add: lookupI)
  with assms(2) show ?thesis
    by (auto simp: cleared_def approval_granted_def)
qed

lemma action_rows:
  assumes "action_inv st" "lookup ar_id (as_actions st) k = Some a" "lookup xe_action (as_executions st) k = Some x"
  shows "coherent st a x"
proof -
  have "a \<in> set (as_actions st)" "ar_id a = k"
    using assms(2) by (auto dest: lookup_SomeD)
  with assms(1,3) show ?thesis
    by (auto simp: action_inv_def action_ok_def)
qed

lemma action_of_execution:
  assumes "action_inv st" "x \<in> set (as_executions st)"
  shows "lookup xe_action (as_executions st) (xe_action x) = Some x"
    and "\<exists>a. lookup ar_id (as_actions st) (xe_action x) = Some a"
proof -
  show "lookup xe_action (as_executions st) (xe_action x) = Some x"
    using assms by (simp add: action_inv_def lookupI)
  have "xe_action x \<in> ar_id ` set (as_actions st)"
    using assms by (simp add: action_inv_def)
  then have "lookup ar_id (as_actions st) (xe_action x) \<noteq> None"
    by (simp add: lookup_None_iff)
  then show "\<exists>a. lookup ar_id (as_actions st) (xe_action x) = Some a"
    by simp
qed

lemma claimNextAction_None:
  "claimNextAction clock worker workspace now expires st = Inr (None, st') \<Longrightarrow> st' = st"
  by (auto simp: claimNextAction_def Let_def rbind_def split: option.splits if_splits sum.splits)

lemma claimNextAction_Some:
  assumes inv: "action_inv st"
    and claim: "claimNextAction clock worker workspace now expires st = Inr (Some c, st')"
  obtains a row fa fx t where "one_action (ca_actionId c) fa fx (\<lambda>_. False) (\<lambda>p. p) t st st' a row"
    and "action_due st workspace now row"
    and "\<forall>x\<in>set (as_executions st). action_due st workspace now x \<longrightarrow>
           (xe_available_at row, xe_created_at row) \<le> (xe_available_at x, xe_created_at x)"
    and "ca_request c = js_of_json (xe_request row)" and "ca_attempt c = xe_attempt row + 1"
    and "ca_approvalGranted c = (ar_approval_id a \<noteq> None \<and> approval_granted st a)"
    and "execution_lease (fx row) = Held worker expires" and "cleared st a"
    and "fx row = row\<lparr>xe_status := XExecuting, xe_lease_owner := Some worker,
           xe_lease_expires_at := Some expires, xe_attempt := xe_attempt row + 1, xe_updated_at := clock\<rparr>"
proof -
  from claim obtain row where first: "first_by (\<lambda>x. (xe_available_at x, xe_created_at x))
      (filter (action_due st workspace now) (as_executions st)) = Some row"
    by (auto simp: claimNextAction_def split: option.splits)
  note row = first_by_Some [OF first]
  have mem: "row \<in> set (as_executions st)" and due: "action_due st workspace now row"
    using row(1) by auto
  from action_of_execution [OF inv mem] obtain a where
    look: "lookup xe_action (as_executions st) (xe_action row) = Some row"
      "lookup ar_id (as_actions st) (xe_action row) = Some a" by blast
  have due': "execution_open now row" "ar_approval_id a = None \<or> approval_granted st a"
    using due look(2) by (auto simp: action_due_def)
  let ?k = "xe_action row" and ?fa = "\<lambda>r. r\<lparr>ar_state := Executing, ar_updated_at := clock\<rparr>"
  let ?fx = "\<lambda>x. x\<lparr>xe_status := XExecuting, xe_lease_owner := Some worker,
      xe_lease_expires_at := Some expires, xe_attempt := xe_attempt row + 1, xe_updated_at := clock\<rparr>"
  let ?open = "\<lambda>x. xe_action x = ?k \<and> execution_open now x"
  define t where "t = \<lparr> at_action = ?k, at_from = Some (ar_state a), at_to = Executing,
      at_reason = ''worker claimed durable action'',
      at_metadata = Obj [(''workerId'', Str worker), (''attempt'', Num (of_nat (xe_attempt row + 1))),
                         (''leaseExpiresAt'', Str expires)],
      at_key = ?k @ '':claim:'' @ show_nat (xe_attempt row + 1) \<rparr>"
  have "update_where ?open ?fx (as_executions st) = update_where (\<lambda>x. xe_action x = ?k) ?fx (as_executions st)"
  proof (rule update_where_cong)
    fix r assume "r \<in> set (as_executions st)"
    with mem inv have "xe_action r = ?k \<Longrightarrow> r = row"
      by (auto simp: action_inv_def dest: distinct_key_eq)
    with due'(1) show "?open r = (xe_action r = ?k)" by auto
  qed
  moreover from claim first look(2) have st': "st' = (st\<lparr>as_executions := update_where ?open ?fx (as_executions st),
        as_actions := update_where (\<lambda>r. ar_id r = ?k) ?fa (as_actions st)\<rparr>)\<lparr>as_transitions := as_transitions st @ [t]\<rparr>"
    and c: "ca_actionId c = ?k" "ca_request c = js_of_json (xe_request row)" "ca_attempt c = xe_attempt row + 1"
      "ca_approvalGranted c = (ar_approval_id a \<noteq> None \<and> approval_granted st a)"
    by (auto simp: claimNextAction_def Let_def t_def rbind_Inr_iff add_transition_Inr split: if_splits)
  ultimately have touched: "st' = touch ?k ?fa ?fx (\<lambda>_. False) (\<lambda>p. p) t st"
    by (simp add: touch_def update_where_id)
  have cleared: "cleared st a"
    using granted_cleared [OF inv due'(2)] .
  have "coherent st' (?fa a) (?fx row)"
    by (rule coherent_progress [OF action_rows [OF inv look(2,1)] cleared])
      (simp_all add: touched touch_def update_where_id)
  moreover have "ar_state a = state_of_execution (xe_status row)"
    by (rule cleared_state [OF action_rows [OF inv look(2,1)] cleared])
  then have "legal_move (ar_state a) Executing"
    using due'(1) by (auto simp: execution_open_def)
  ultimately have "one_action ?k ?fa ?fx (\<lambda>_. False) (\<lambda>p. p) t st st' a row"
    using inv look touched by (simp add: one_action_def t_def)
  then have "one_action (ca_actionId c) ?fa ?fx (\<lambda>_. False) (\<lambda>p. p) t st st' a row"
    by (simp only: c(1))
  then show thesis
    by (rule that) (use due row(2) c cleared in \<open>auto simp: execution_lease_def\<close>)
qed

lemma execution_heldD:
  assumes "action_inv st" "find (execution_held k w) (as_executions st) = Some x"
  shows "lookup xe_action (as_executions st) k = Some x" and "xe_status x = XExecuting"
    and "xe_lease_owner x = Some w" and "\<exists>e. action_phase st k = Some (Held w e)"
proof -
  from assms(2) have x: "x \<in> set (as_executions st)" "xe_action x = k" "xe_status x = XExecuting" "xe_lease_owner x = Some w"
    by (auto dest!: find_SomeD simp: execution_held_def)
  with action_of_execution(1) [OF assms(1) x(1)] show look: "lookup xe_action (as_executions st) k = Some x"
    and "xe_status x = XExecuting" and "xe_lease_owner x = Some w"
    by simp_all
  have "xe_lease_expires_at x \<noteq> None"
    using assms(1) x by (simp add: action_inv_def)
  with look x show "\<exists>e. action_phase st k = Some (Held w e)"
    by (auto simp: action_phase_def execution_lease_def)
qed

text \<open>Ending a claim: what \<open>settleAction\<close> and \<open>releaseActionClaim\<close> share.\<close>

lemma finish_execution:
  assumes inv: "action_inv st" and held: "find (execution_held k w) (as_executions st) = Some x"
    and st': "st' = st\<lparr>as_executions := update_where (\<lambda>x. xe_action x = k) fx (as_executions st),
        as_actions := update_where (\<lambda>a. ar_id a = k) fa (as_actions st),
        as_transitions := as_transitions st @ [t]\<rparr>"
    and keep: "\<And>r. ar_id (fa r) = ar_id r" "\<And>r. ar_approval_id (fa r) = ar_approval_id r"
      "\<And>r. xe_action (fx r) = xe_action r" "\<And>r. xe_request (fx r) = xe_request r"
    and off: "\<And>r. xe_status (fx r) = s" "s \<noteq> XExecuting" "\<And>r. ar_state (fa r) = state_of_execution s"
    and t: "at_action t = k" "at_from t = Some Executing" "at_to t = state_of_execution s"
  shows "\<exists>a. one_action k fa fx (\<lambda>_. False) (\<lambda>p. p) t st st' a x \<and> cleared st a"
proof -
  note x = execution_heldD(1,2) [OF inv held]
  have "x \<in> set (as_executions st)" "xe_action x = k"
    using x(1) by (auto dest: lookup_SomeD)
  with action_of_execution(2) [OF inv] obtain a where a: "lookup ar_id (as_actions st) k = Some a"
    by blast
  note co = action_rows [OF inv a x(1)]
  note go = executing_cleared [OF co x(2)]
  have touched: "st' = touch k fa fx (\<lambda>_. False) (\<lambda>p. p) t st"
    by (simp add: st' touch_def update_where_id)
  have "coherent st' (fa a) (fx x)"
    by (rule coherent_progress [OF co go(1)]) (simp_all add: st' keep off)
  moreover have "legal_move Executing (state_of_execution s)"
    using off(2) by (cases s) simp_all
  ultimately show ?thesis
    using inv touched a x(1) keep off t go by (auto simp: one_action_def)
qed

lemma settleAction_step:
  assumes inv: "action_inv st" and run: "settleAction clock k w res st = Inr st'"
  shows "\<exists>a x fa fx t. one_action k fa fx (\<lambda>_. False) (\<lambda>p. p) t st st' a x \<and> cleared st a
    \<and> execution_lease (fx x) = Closed \<and> xe_attempt (fx x) = xe_attempt x
    \<and> (\<exists>e. action_phase st k = Some (Held w e))"
proof -
  from run obtain x where held: "find (execution_held k w) (as_executions st) = Some x"
    by (auto simp: settleAction_def split: option.splits)
  let ?s = "rs_status res"
  let ?fx = "\<lambda>x. x\<lparr>xe_status := settled_status ?s, xe_result := Some (result_json res),
      xe_last_error := (if ?s = ExFailed then Some (rs_summary res) else None),
      xe_lease_owner := None, xe_lease_expires_at := None, xe_updated_at := clock\<rparr>"
  let ?fa = "\<lambda>a. a\<lparr>ar_state := settled_state ?s, ar_executor := Some (rs_executor res), ar_updated_at := clock\<rparr>"
  define t where "t = \<lparr> at_action = k, at_from = Some Executing, at_to = settled_state ?s,
      at_reason = ''executor settled durable action'',
      at_metadata = Obj [(''workerId'', Str w), (''result'', result_json res)],
      at_key = k @ '':settle:'' @ show_nat (xe_attempt x) \<rparr>"
  have st': "st' = st\<lparr>as_executions := update_where (\<lambda>x. xe_action x = k) ?fx (as_executions st),
        as_actions := update_where (\<lambda>a. ar_id a = k) ?fa (as_actions st), as_transitions := as_transitions st @ [t]\<rparr>"
    using run held by (auto simp: settleAction_def add_transition_Inr t_def)
  have state: "settled_state ?s = state_of_execution (settled_status ?s)" "settled_status ?s \<notin> {XExecuting, XPending}"
    by (cases ?s; simp)+
  have "\<exists>a. one_action k ?fa ?fx (\<lambda>_. False) (\<lambda>p. p) t st st' a x \<and> cleared st a"
    by (rule finish_execution [OF inv held st', where s = "settled_status ?s"]) (use state in \<open>simp_all add: t_def\<close>)
  moreover have "execution_lease (?fx x) = Closed"
    by (cases ?s) (simp_all add: execution_lease_def)
  moreover have "xe_attempt (?fx x) = xe_attempt x"
    by simp
  ultimately show ?thesis
    using execution_heldD(4) [OF inv held] by blast
qed

lemma releaseActionClaim_step:
  assumes inv: "action_inv st" and run: "releaseActionClaim clock js_now input st = Inr st'"
  shows "\<exists>a x fa fx t. one_action (al_actionId input) fa fx (\<lambda>_. False) (\<lambda>p. p) t st st' a x \<and> cleared st a
    \<and> execution_lease (fx x) = (if al_disposition input = GiveUp then Closed
         else Ready (case al_availableAt input of Some t \<Rightarrow> t | None \<Rightarrow> js_now))
    \<and> xe_attempt (fx x) = xe_attempt x
    \<and> (\<exists>e. action_phase st (al_actionId input) = Some (Held (al_workerId input) e))"
proof -
  let ?k = "al_actionId input" and ?w = "al_workerId input"
  from run obtain x where held: "find (execution_held ?k ?w) (as_executions st) = Some x"
    by (auto simp: releaseActionClaim_def split: option.splits)
  let ?retry = "al_disposition input = Retry"
  let ?fx = "\<lambda>x. x\<lparr>xe_status := (if ?retry then XPending else XFailed), xe_lease_owner := None,
      xe_lease_expires_at := None, xe_available_at := (case al_availableAt input of Some t \<Rightarrow> t | None \<Rightarrow> js_now),
      xe_last_error := Some (al_error input), xe_updated_at := clock\<rparr>"
  let ?fa = "\<lambda>a. a\<lparr>ar_state := (if ?retry then Planned else Failed), ar_updated_at := clock\<rparr>"
  define t where "t = \<lparr> at_action = ?k, at_from = Some Executing, at_to = (if ?retry then Planned else Failed),
      at_reason = al_error input,
      at_metadata = Obj ([(''workerId'', Str ?w), (''disposition'', Str (disposition_text (al_disposition input)))]
        @ (case al_availableAt input of None \<Rightarrow> [] | Some t \<Rightarrow> [(''availableAt'', Str t)])),
      at_key = ?k @ '':release:'' @ show_nat (xe_attempt x) @ '':'' @ disposition_text (al_disposition input) \<rparr>"
  have st': "st' = st\<lparr>as_executions := update_where (\<lambda>x. xe_action x = ?k) ?fx (as_executions st),
        as_actions := update_where (\<lambda>a. ar_id a = ?k) ?fa (as_actions st), as_transitions := as_transitions st @ [t]\<rparr>"
    using run held by (auto simp: releaseActionClaim_def add_transition_Inr t_def Let_def)
  have "\<exists>a. one_action ?k ?fa ?fx (\<lambda>_. False) (\<lambda>p. p) t st st' a x \<and> cleared st a"
    by (rule finish_execution [OF inv held st', where s = "if ?retry then XPending else XFailed"]) (simp_all add: t_def)
  moreover have "execution_lease (?fx x) = (if al_disposition input = GiveUp then Closed
      else Ready (case al_availableAt input of Some t \<Rightarrow> t | None \<Rightarrow> js_now))"
    by (cases "al_disposition input") (simp_all add: execution_lease_def)
  moreover have "xe_attempt (?fx x) = xe_attempt x"
    by simp
  ultimately show ?thesis
    using execution_heldD(4) [OF inv held] by blast
qed

text \<open>An approval is decided once; the decision touches only its own action.\<close>

lemma decideApproval_cases:
  assumes inv: "action_inv st" and run: "decideApproval clock i d meta decidedAt st = Inr st'"
  obtains (same) p where "st' = st" "lookup ap_id (as_approvals st) i = Some p" "ap_status p = decision_status d"
  | (decided) p a x fa fx pp fp t where "one_action (ap_action p) fa fx pp fp t st st' a x"
      "lookup ap_id (as_approvals st) i = Some p" "ap_status p = ApPending"
      "ar_approval_id a = Some i" "xe_status x = XPending"
      "execution_lease (fx x) = (if d = Reject then Closed else execution_lease x)"
      "lookup ap_id (as_approvals st') i = Some (fp p)" "ap_status (fp p) = decision_status d"
proof -
  from run obtain p where p: "lookup ap_id (as_approvals st) i = Some p"
    by (auto simp: decideApproval_def split: option.splits)
  show thesis
  proof (cases "ap_status p = ApPending")
    case False
    with run p same show thesis
      by (auto simp: decideApproval_def split: if_splits)
  next
    case True
    let ?k = "ap_action p"
    have pmem: "p \<in> set (as_approvals st)" "ap_id p = i"
      using p by (auto dest: lookup_SomeD)
    then obtain a where a: "a \<in> set (as_actions st)" "ar_id a = ?k" "ar_approval_id a = Some i"
      using inv by (auto simp: action_inv_def)
    then have looka: "lookup ar_id (as_actions st) ?k = Some a"
      using inv by (simp add: action_inv_def lookupI)
    obtain x where x: "lookup xe_action (as_executions st) ?k = Some x" "coherent st a x"
      using inv a by (auto simp: action_inv_def action_ok_def)
    have pend: "xe_status x = XPending" "ar_state a = AwaitingApproval"
      using x(2) a(3) p True by (auto simp: coherent_def)
    from run p True obtain m where m: "stringify meta = Some m"
      by (auto simp: decideApproval_def split: option.splits)
    let ?state = "if d = Approve then Planned else Failed"
    let ?fa = "\<lambda>a. a\<lparr>ar_state := ?state, ar_updated_at := clock\<rparr>"
    let ?fx = "\<lambda>x. if d = Reject then x\<lparr>xe_status := XFailed, xe_last_error := Some ''approval rejected'',
        xe_updated_at := clock\<rparr> else x"
    let ?fp = "\<lambda>p. p\<lparr>ap_status := decision_status d, ap_decision := Some m, ap_decided_at := Some decidedAt\<rparr>"
    define t where "t = \<lparr> at_action = ?k, at_from = Some AwaitingApproval, at_to = ?state,
        at_reason = ''approval '' @ approval_text (decision_status d) @ '' action'', at_metadata = m,
        at_key = ?k @ '':approval:'' @ i @ '':'' @ approval_text (decision_status d) \<rparr>"
    let ?pp = "\<lambda>q. ap_id q = i \<and> ap_action q = ?k"
    have "update_where (\<lambda>q. ap_id q = i) ?fp (as_approvals st) = update_where ?pp ?fp (as_approvals st)"
    proof (rule update_where_cong)
      fix q assume "q \<in> set (as_approvals st)"
      with inv pmem have "ap_id q = i \<Longrightarrow> q = p"
        by (auto simp: action_inv_def dest: distinct_key_eq)
      then show "(ap_id q = i) = ?pp q" by auto
    qed
    with run p True m have touched: "st' = touch ?k ?fa ?fx ?pp ?fp t st"
      by (cases d) (auto simp: decideApproval_def touch_def t_def add_transition_Inr Let_def update_where_id)
    have look': "lookup ap_id (as_approvals st') i = Some (?fp p)"
      using p pmem by (simp add: touched touch_def lookup_update_where)
    have "coherent st' (?fa a) (?fx x)"
      using a x pend look' by (cases d) (auto simp: coherent_def)
    then have "one_action ?k ?fa ?fx ?pp ?fp t st st' a x"
      using inv touched looka x(1) pend by (cases d) (simp_all add: one_action_def t_def)
    then show thesis
      by (rule decided) (use p True a(3) pend(1) look' in \<open>simp_all add: execution_lease_def\<close>)
  qed
qed

definition first_transition :: "action_input \<Rightarrow> action_transition_row" where
  "first_transition input =
     \<lparr> at_action = da_actionId input, at_from = None,
       at_to = (if da_approval input = None then Planned else AwaitingApproval),
       at_reason = ''durable action enqueued'', at_metadata = Obj [],
       at_key = da_actionId input @ '':enqueue'' \<rparr>"

definition new_approval :: "timestamp \<Rightarrow> action_input \<Rightarrow> approval_row list" where
  "new_approval clock input =
     (case da_approval input of
        None \<Rightarrow> []
      | Some (i, prompt) \<Rightarrow>
          [\<lparr> ap_id = i, ap_action = da_actionId input, ap_status = ApPending, ap_prompt = prompt,
             ap_decision = None, ap_requested_at = clock, ap_decided_at = None \<rparr>])"

lemma insert_approval_Inr:
  "insert_approval clock input rows = Inr rows' \<Longrightarrow>
     rows' = rows @ new_approval clock input
   \<and> (\<forall>i p. da_approval input = Some (i, p) \<longrightarrow> i \<notin> ap_id ` set rows)"
  by (auto simp: insert_approval_def new_approval_def split: option.splits if_splits)

lemma enqueueAction_cases:
  assumes "enqueueAction lc clock input st = Inr (b, st')"
  obtains (replay) a x where "\<not> b" "lookup ar_id (as_actions st) (da_actionId input) = Some a"
      "lookup xe_action (as_executions st) (da_actionId input) = Some x"
      "canonicalJson lc (request_object (da_actionId input) (da_request input)) = Text (xe_request x)"
      "ar_matter_id a = da_matterId input" "ar_intent a = da_intent input"
      "st' = st\<lparr>as_matters := insert_matter clock input (as_matters st)\<rparr>"
  | (new) request source where "b" "lookup ar_id (as_actions st) (da_actionId input) = None"
      "rb_mode (da_request input) = ReadOnly \<or> da_approval input \<noteq> None"
      "canonicalJson lc (request_object (da_actionId input) (da_request input)) = Text request"
      "stringify (da_source input) = Some source"
      "\<forall>i p. da_approval input = Some (i, p) \<longrightarrow> i \<notin> ap_id ` set (as_approvals st)"
      "st' = st\<lparr>as_matters := insert_matter clock input (as_matters st),
         as_actions := as_actions st @ [new_action clock input source],
         as_approvals := as_approvals st @ new_approval clock input,
         as_executions := as_executions st @ [new_execution clock input request],
         as_transitions := as_transitions st @ [first_transition input]\<rparr>"
proof -
  from assms have gate: "rb_mode (da_request input) = ReadOnly \<or> da_approval input \<noteq> None"
    by (auto simp: enqueueAction_def split: if_splits)
  from assms gate obtain request source where texts:
      "canonicalJson lc (request_object (da_actionId input) (da_request input)) = Text request"
      "stringify (da_source input) = Some source"
    by (auto simp: enqueueAction_def split: if_splits jtext.splits option.splits)
  show thesis
  proof (cases "lookup ar_id (as_actions st) (da_actionId input)")
    case (Some a)
    with assms gate texts obtain x where "lookup xe_action (as_executions st) (da_actionId input) = Some x"
      "xe_request x = request" "ar_matter_id a = da_matterId input" "ar_intent a = da_intent input" "\<not> b"
      "st' = st\<lparr>as_matters := insert_matter clock input (as_matters st)\<rparr>"
      by (auto simp: enqueueAction_def Let_def split: option.splits if_splits)
    with Some texts replay show thesis by blast
  next
    case None
    with assms gate texts obtain approvals where "insert_approval clock input (as_approvals st) = Inr approvals"
      "b" "st' = st\<lparr>as_matters := insert_matter clock input (as_matters st),
         as_actions := as_actions st @ [new_action clock input source],
         as_approvals := approvals,
         as_executions := as_executions st @ [new_execution clock input request],
         as_transitions := as_transitions st @ [first_transition input]\<rparr>"
      by (auto simp: enqueueAction_def Let_def rbind_Inr_iff add_transition_Inr first_transition_def split: if_splits)
    with None gate texts new insert_approval_Inr show thesis by blast
  qed
qed

lemma action_inv_matters: "action_inv (st\<lparr>as_matters := ms\<rparr>) = action_inv st"
proof -
  have "coherent (st\<lparr>as_matters := ms\<rparr>) = coherent st"
    by (intro ext coherent_cong) simp
  then show ?thesis
    by (simp add: action_inv_def action_ok_def trail_sound_def trail_def)
qed

lemma action_phase_matters: "action_phase (st\<lparr>as_matters := ms\<rparr>) = action_phase st"
  by (simp add: action_phase_def)

lemma enqueue_new_inv:
  assumes inv: "action_inv st" and fresh: "lookup ar_id (as_actions st) (da_actionId input) = None"
    and gate: "rb_mode (da_request input) = ReadOnly \<or> da_approval input \<noteq> None"
    and request: "canonicalJson lc (request_object (da_actionId input) (da_request input)) = Text request"
    and newp: "\<forall>i p. da_approval input = Some (i, p) \<longrightarrow> i \<notin> ap_id ` set (as_approvals st)"
    and st': "st' = st\<lparr>as_matters := ms, as_actions := as_actions st @ [new_action clock input source],
         as_approvals := as_approvals st @ new_approval clock input,
         as_executions := as_executions st @ [new_execution clock input request],
         as_transitions := as_transitions st @ [first_transition input]\<rparr>"
  shows "action_inv st'" and "quiet (action_phase st) (action_phase st')"
proof -
  let ?k = "da_actionId input"
  have no_action: "?k \<notin> ar_id ` set (as_actions st)"
    using fresh by (simp add: lookup_None_iff)
  then have no_execution: "?k \<notin> xe_action ` set (as_executions st)"
    using inv by (auto simp: action_inv_def)
  have "\<forall>t\<in>set (as_transitions st). at_action t \<in> ar_id ` set (as_actions st)"
    using inv by (simp add: action_inv_def)
  then have no_trail: "trail st ?k = []"
    using no_action unfolding trail_def filter_empty_conv by metis
  have find: "lookup xe_action (as_executions st') i = (if i = ?k then Some (new_execution clock input request)
      else lookup xe_action (as_executions st) i)" for i
    using no_execution by (auto simp: st' lookup_append new_execution_def lookup_None_iff [symmetric] split: option.splits)
  have trails: "trail st' i = (if i = ?k then [first_transition input] else trail st i)" for i
    using no_trail by (auto simp: st' trail_def first_transition_def)
  have approvals: "lookup ap_id (as_approvals st') i = Some p"
    if "lookup ap_id (as_approvals st) i = Some p" for i p
    using that by (simp add: st' lookup_append)
  have old: "action_ok st' b" if b: "b \<in> set (as_actions st)" for b
  proof -
    from inv b obtain x where x: "lookup xe_action (as_executions st) (ar_id b) = Some x" "coherent st b x"
      "trail_sound st b" by (auto simp: action_inv_def action_ok_def)
    have other: "ar_id b \<noteq> ?k"
      using no_action b by (metis image_eqI)
    have "coherent st' b x"
      using x(2) approvals by (auto simp: coherent_def split: option.splits)
    with x other show ?thesis
      by (auto simp: action_ok_def find trail_sound_def trails)
  qed
  moreover have "action_ok st' (new_action clock input source)"
  proof -
    have "coherent st' (new_action clock input source) (new_execution clock input request)"
    proof (cases "da_approval input")
      case None
      with gate request_mode [OF request] show ?thesis
        by (simp add: coherent_def new_action_def new_execution_def read_only_request_def)
    next
      case (Some ip)
      obtain i p where ip: "ip = (i, p)" by fastforce
      with newp Some have "lookup ap_id (as_approvals st) i = None"
        by (simp add: lookup_None_iff)
      with Some ip show ?thesis
        by (simp add: coherent_def new_action_def new_execution_def st' lookup_append new_approval_def)
    qed
    moreover have "ar_id (new_action clock input source) = ?k"
      by (simp add: new_action_def)
    ultimately show ?thesis
      by (simp add: action_ok_def find trail_sound_def trails) (simp add: first_transition_def new_action_def)
  qed
  moreover have "distinct (map ap_id (as_approvals st'))"
    using inv newp by (auto simp: action_inv_def st' new_approval_def split: option.splits)
  moreover have "\<exists>a\<in>set (as_actions st'). ar_id a = ap_action p \<and> ar_approval_id a = Some (ap_id p)"
    if "p \<in> set (as_approvals st')" for p
    using that inv by (cases "da_approval input") (auto simp: action_inv_def st' new_approval_def new_action_def)
  ultimately show "action_inv st'"
    using inv no_action no_execution
    by (auto simp: action_inv_def st' new_action_def new_execution_def first_transition_def)
  show "quiet (action_phase st) (action_phase st')"
    using no_execution unfolding quiet_def action_phase_def
    by (auto simp: find lookup_None_iff [symmetric] execution_lease_def new_execution_def
        split: option.splits lease_at.splits)
qed

lemma enqueueAction_step:
  assumes "action_inv st" "enqueueAction lc clock input st = Inr (b, st')"
  shows "action_inv st' \<and> quiet (action_phase st) (action_phase st')"
  using assms(2)
proof (cases rule: enqueueAction_cases)
  case (replay a x)
  with assms(1) show ?thesis
    by (simp add: action_inv_matters action_phase_matters quiet_refl)
next
  case (new request source)
  show ?thesis
    by (intro conjI enqueue_new_inv [OF assms(1) new(2-4,6,7)])
qed

lemma decideApproval_step:
  assumes "action_inv st" "decideApproval clock i d meta decidedAt st = Inr st'"
  shows "action_inv st' \<and> quiet (action_phase st) (action_phase st')"
  using assms
proof (cases rule: decideApproval_cases)
  case (same p)
  with assms(1) show ?thesis by (simp add: quiet_refl)
next
  case (decided p a x fa fx pp fp t)
  have "action_phase st (ap_action p) = Some (Ready (xe_available_at x))"
    using one_actionD(4) [OF decided(1)] decided(5) by (simp add: action_phase_def execution_lease_def)
  moreover have "action_phase st' = (action_phase st)(ap_action p \<mapsto> execution_lease (fx x))"
    by (rule one_phase [OF decided(1)])
  ultimately have "quiet (action_phase st) (action_phase st')"
    using decided(5,6) by (auto simp: quiet_def execution_lease_def split: option.splits lease_at.splits)
  with one_inv [OF decided(1)] show ?thesis by simp
qed

section \<open>The store implements the lease contract\<close>

lemma claimed_execution:
  assumes "action_inv st" "claimNextAction clock worker workspace now expires st = Inr (Some c, st')"
  shows "action_inv st' \<and> claimable now (action_phase st (ca_actionId c))
    \<and> action_phase st' = (action_phase st)(ca_actionId c \<mapsto> Held worker expires)"
  using assms
proof (cases rule: claimNextAction_Some)
  case (1 a row fa fx t)
  note H = one_actionD [OF 1(1)]
  have "execution_open now row" "xe_available_at row \<le> now"
    using 1(2) by (auto simp: action_due_def split: option.splits)
  moreover have "xe_status row = XExecuting \<longrightarrow> xe_lease_owner row \<noteq> None"
    using assms(1) one_keys(4) [OF 1(1)] by (simp add: action_inv_def)
  ultimately have "claimable now (action_phase st (ca_actionId c))"
    using H(4) by (auto simp: action_phase_def execution_lease_def execution_open_def split: option.splits)
  with one_inv [OF 1(1)] one_phase [OF 1(1)] 1(7) show ?thesis by simp
qed

lemma action_exec_step:
  assumes inv: "action_inv st" and "action_exec lc oper st = (st', ev)"
  shows "action_inv st' \<and> lease_step (action_phase st) ev (action_phase st')"
proof (cases oper)
  case (AEnqueue clock input)
  with assms show ?thesis
    by (auto split: sum.splits intro: lease_step.quiet dest: enqueueAction_step)
next
  case (ADecide clock i d meta t)
  with assms show ?thesis
    by (auto split: sum.splits intro: lease_step.quiet dest: decideApproval_step)
next
  case (AClaim clock worker workspace now expires)
  with assms show ?thesis
    by (auto split: sum.splits option.splits intro: lease_step.claim
        dest!: claimNextAction_None claimed_execution [OF inv])
next
  case (ASettle clock i worker res)
  show ?thesis
  proof (cases "settleAction clock i worker res st")
    case (Inr s)
    from settleAction_step [OF inv this] obtain a x fa fx t e where
      step: "one_action i fa fx (\<lambda>_. False) (\<lambda>p. p) t st s a x" "execution_lease (fx x) = Closed"
        "action_phase st i = Some (Held worker e)" by blast
    from one_inv [OF step(1)] one_phase [OF step(1)] step(2,3) Inr ASettle assms(2) show ?thesis
      by (auto intro: lease_step.settle)
  qed (use ASettle assms in auto)
next
  case (ARelease clock js_now input)
  show ?thesis
  proof (cases "releaseActionClaim clock js_now input st")
    case (Inr s)
    let ?t = "case al_availableAt input of Some t \<Rightarrow> t | None \<Rightarrow> js_now"
    from releaseActionClaim_step [OF inv Inr] obtain a x fa fx t e where
      step: "one_action (al_actionId input) fa fx (\<lambda>_. False) (\<lambda>p. p) t st s a x"
        "execution_lease (fx x) = (if al_disposition input = GiveUp then Closed else Ready ?t)"
        "action_phase st (al_actionId input) = Some (Held (al_workerId input) e)" by blast
    have "ev = Released (al_actionId input) (al_workerId input) ?t (al_disposition input = GiveUp)" "st' = s"
      using Inr ARelease assms(2) by auto
    with one_inv [OF step(1)] one_phase [OF step(1)] step(2)
      lease_step.release [where m = "action_phase st" and k = "al_actionId input", OF step(3),
        of ?t "al_disposition input = GiveUp"] show ?thesis
      by auto
  qed (use ARelease assms in auto)
qed

interpretation action_queue: lease_store action_phase action_inv "action_exec lc" for lc
  by unfold_locales (auto dest: action_exec_step)

lemma empty_actions_inv: "action_inv empty_actions"
  by (simp add: action_inv_def empty_actions_def)

subsection \<open>What every operation keeps\<close>

definition kept :: "action_store \<Rightarrow> action_store \<Rightarrow> bool" where
  "kept st st' \<longleftrightarrow> (\<forall>i.
     (\<forall>a. lookup ar_id (as_actions st) i = Some a \<longrightarrow>
        (\<exists>b. lookup ar_id (as_actions st') i = Some b \<and> ar_matter_id b = ar_matter_id a \<and> ar_intent b = ar_intent a))
   \<and> (\<forall>x. lookup xe_action (as_executions st) i = Some x \<longrightarrow>
        (\<exists>y. lookup xe_action (as_executions st') i = Some y \<and> xe_request y = xe_request x))
   \<and> (lookup mt_id (as_matters st) i \<noteq> None \<longrightarrow> lookup mt_id (as_matters st') i \<noteq> None)
   \<and> (\<forall>p. lookup ap_id (as_approvals st) i = Some p \<longrightarrow> ap_status p \<noteq> ApPending \<longrightarrow>
        lookup ap_id (as_approvals st') i = Some p))"

lemma kept_refl: "kept st st"
  by (simp add: kept_def)

lemma kept_trans:
  assumes "kept st st'" "kept st' st''"
  shows "kept st st''"
proof -
  note H = assms(1) [unfolded kept_def, THEN spec] assms(2) [unfolded kept_def, THEN spec]
  show ?thesis
    unfolding kept_def
  proof (intro allI conjI impI)
    fix i a assume "lookup ar_id (as_actions st) i = Some a"
    with H [of i] show "\<exists>b. lookup ar_id (as_actions st'') i = Some b \<and> ar_matter_id b = ar_matter_id a \<and> ar_intent b = ar_intent a"
      by fastforce
  next
    fix i x assume "lookup xe_action (as_executions st) i = Some x"
    with H [of i] show "\<exists>y. lookup xe_action (as_executions st'') i = Some y \<and> xe_request y = xe_request x"
      by fastforce
  qed (use H in blast)+
qed

lemma matter_kept:
  "lookup mt_id rows i = Some m \<Longrightarrow> lookup mt_id (insert_matter clock input rows) i = Some m"
  by (simp add: insert_matter_def lookup_append)

lemma enqueueAction_kept:
  assumes "enqueueAction lc clock input st = Inr (b, st')"
  shows "kept st st'"
  using assms
proof (cases rule: enqueueAction_cases)
  case (replay a x)
  then show ?thesis by (auto simp: kept_def dest: matter_kept)
next
  case (new request source)
  show ?thesis
    unfolding kept_def new(7) by (auto simp: lookup_append dest: matter_kept)
qed

lemma decideApproval_kept:
  assumes "decideApproval clock i d meta t st = Inr st'"
  shows "kept st st'"
proof -
  from assms obtain p where p: "lookup ap_id (as_approvals st) i = Some p"
    by (auto simp: decideApproval_def split: option.splits)
  show ?thesis
  proof (cases "ap_status p = ApPending")
    case True
    from assms p True obtain m where m: "stringify meta = Some m"
      by (auto simp: decideApproval_def split: option.splits)
    have other: "ap_id q \<noteq> i"
      if "lookup ap_id (as_approvals st) j = Some q" "ap_status q \<noteq> ApPending" for j q
    proof -
      have "ap_id q = j"
        using that(1) by (auto dest: lookup_SomeD)
      with that p True show ?thesis by auto
    qed
    show ?thesis
      using assms p True m other
      by (cases d) (auto simp: decideApproval_def add_transition_Inr Let_def kept_def lookup_update_where)
  qed (use assms p in \<open>auto simp: decideApproval_def kept_refl split: if_splits\<close>)
qed

lemma claimNextAction_kept:
  assumes "action_inv st" "claimNextAction clock worker workspace now expires st = Inr (c, st')"
  shows "kept st st'"
proof (cases c)
  case None
  with assms show ?thesis by (auto dest!: claimNextAction_None simp: kept_refl)
next
  case (Some c')
  from assms(2) show ?thesis
    unfolding Some
    by (auto simp: claimNextAction_def Let_def rbind_Inr_iff add_transition_Inr lookup_update_where kept_def
        split: option.splits if_splits)
qed

lemma settleAction_kept: "settleAction clock i w res st = Inr st' \<Longrightarrow> kept st st'"
  by (auto simp: settleAction_def add_transition_Inr kept_def lookup_update_where split: option.splits)

lemma releaseActionClaim_kept: "releaseActionClaim clock js_now input st = Inr st' \<Longrightarrow> kept st st'"
  by (auto simp: releaseActionClaim_def Let_def add_transition_Inr kept_def lookup_update_where split: option.splits)

lemma action_exec_kept:
  assumes "action_inv st" "action_exec lc oper st = (st', ev)"
  shows "kept st st'"
proof (cases oper)
  case (AEnqueue clock input)
  with assms show ?thesis by (auto split: sum.splits simp: kept_refl dest: enqueueAction_kept)
next
  case (ADecide clock i d meta t)
  with assms show ?thesis by (auto split: sum.splits simp: kept_refl dest: decideApproval_kept)
next
  case (AClaim clock worker workspace now expires)
  with assms show ?thesis
    by (auto split: sum.splits option.splits simp: kept_refl dest: claimNextAction_kept [OF assms(1)])
next
  case (ASettle clock i worker res)
  with assms show ?thesis by (auto split: sum.splits simp: kept_refl dest: settleAction_kept)
next
  case (ARelease clock js_now input)
  with assms show ?thesis by (auto split: sum.splits simp: kept_refl dest: releaseActionClaim_kept)
qed

lemma action_run_kept:
  "action_inv st \<Longrightarrow> run_ops (action_exec lc) ops st = (st', evs) \<Longrightarrow> kept st st'"
proof (induction ops arbitrary: st evs)
  case (Cons oper ops)
  obtain s1 ev where e: "action_exec lc oper st = (s1, ev)" by fastforce
  obtain s2 evs' where r: "run_ops (action_exec lc) ops s1 = (s2, evs')" by fastforce
  have "action_inv s1"
    using action_exec_step [OF Cons.prems(1) e] by simp
  moreover from Cons.prems(2) e r have "run_ops (action_exec lc) ops s1 = (st', evs')" by auto
  ultimately have "kept s1 st'" by (rule Cons.IH)
  with action_exec_kept [OF Cons.prems(1) e] show ?case by (rule kept_trans)
qed (simp add: kept_refl)

lemma enqueue_stored:
  assumes "action_inv st" "enqueueAction lc clock input st = Inr (b, st')"
  shows "\<exists>a x. lookup ar_id (as_actions st') (da_actionId input) = Some a
    \<and> lookup xe_action (as_executions st') (da_actionId input) = Some x
    \<and> canonicalJson lc (request_object (da_actionId input) (da_request input)) = Text (xe_request x)
    \<and> ar_matter_id a = da_matterId input \<and> ar_intent a = da_intent input
    \<and> lookup mt_id (as_matters st') (da_matterId input) \<noteq> None"
  using assms(2)
proof (cases rule: enqueueAction_cases)
  case (replay a x)
  then show ?thesis
    by (auto simp: insert_matter_def lookup_append split: option.splits)
next
  case (new request source)
  have "da_actionId input \<notin> ar_id ` set (as_actions st)"
    using new(2) by (simp add: lookup_None_iff)
  then have "lookup xe_action (as_executions st) (da_actionId input) = None"
    using assms(1) by (auto simp: action_inv_def lookup_None_iff)
  with new(2,4) show ?thesis
    unfolding new(7)
    by (auto simp: insert_matter_def lookup_append new_action_def new_execution_def split: option.splits)
qed

lemma enqueue_still_stored:
  assumes "action_inv st" and "enqueueAction lc clock input st = Inr (b, st1)"
    and "run_ops (action_exec lc) ops st1 = (st2, evs)"
  shows "\<exists>a x. lookup ar_id (as_actions st2) (da_actionId input) = Some a
    \<and> lookup xe_action (as_executions st2) (da_actionId input) = Some x
    \<and> canonicalJson lc (request_object (da_actionId input) (da_request input)) = Text (xe_request x)
    \<and> ar_matter_id a = da_matterId input \<and> ar_intent a = da_intent input
    \<and> lookup mt_id (as_matters st2) (da_matterId input) \<noteq> None"
proof -
  have "action_inv st1"
    using enqueueAction_step [OF assms(1,2)] by simp
  from action_run_kept [OF this assms(3)] have kept: "kept st1 st2" .
  from enqueue_stored [OF assms(1,2)] kept show ?thesis
    unfolding kept_def by metis
qed

text \<open>The same action with a different request, matter or intent is refused.\<close>

lemma enqueueAction_conflict:
  assumes "action_inv st" and "enqueueAction lc clock input st = Inr (b, st1)"
    and "run_ops (action_exec lc) ops st1 = (st2, evs)" and "da_actionId other = da_actionId input"
    and "canonicalJson lc (request_object (da_actionId other) (da_request other))
        \<noteq> canonicalJson lc (request_object (da_actionId input) (da_request input))
      \<or> da_matterId other \<noteq> da_matterId input \<or> da_intent other \<noteq> da_intent input"
  shows "\<not> ok (enqueueAction lc clock' other st2)"
  using enqueue_still_stored [OF assms(1-3)] assms(4,5)
  by (auto simp: enqueueAction_def Let_def split: jtext.splits option.splits)

section \<open>Properties\<close>

text \<open>An action claimed by a worker stays with it until that worker settles or releases it or
its lease has expired, whatever other workers, approvals and enqueues do in between.\<close>

lemma action_claim_exclusive:
  assumes "action_inv st"
    and "run_ops (action_exec lc) ops st = (st', xs @ Claimed k w now e # ys @ ev # zs)"
    and "\<forall>y\<in>set ys. about y \<noteq> Some k" and "about ev = Some k"
  shows "ev = Settled k w \<or> (\<exists>t b. ev = Released k w t b)
    \<or> (\<exists>w' now' e'. ev = Claimed k w' now' e' \<and> e \<le> now')"
  using assms by (rule action_queue.run_exclusive)

text \<open>C14. No action that writes runs without its approval: in every store reached by the
operations, a claimed action has a read-only request, or its claim says that approval was granted
and an approval of that very action stands approved.\<close>

theorem claimed_action_approved:
  assumes "run_ops (action_exec lc) ops empty_actions = (st, evs)"
    and "claimNextAction clock worker workspace now expires st = Inr (Some c, st')"
  shows "js_get (ca_request c) ''mode'' = JStr ''read-only''
    \<or> ca_approvalGranted c
      \<and> (\<exists>p\<in>set (as_approvals st). ap_action p = ca_actionId c \<and> ap_status p = ApApproved)"
proof -
  have inv: "action_inv st"
    using action_queue.run_inv [OF empty_actions_inv assms(1)] .
  from inv assms(2) show ?thesis
  proof (cases rule: claimNextAction_Some)
    case (1 a row fa fx t)
    note rows = one_actionD(3,4) [OF 1(1)]
    note co = action_rows [OF inv rows]
    show ?thesis
    proof (cases "ar_approval_id a")
      case None
      with co 1(4) show ?thesis
        by (simp add: coherent_def read_only_request_def json_extract_js_get)
    next
      case (Some i)
      with 1(2) rows one_keys [OF 1(1)] have "approval_granted st a"
        by (auto simp: action_due_def)
      moreover have "ar_id a = ca_actionId c"
        using one_keys [OF 1(1)] by simp
      ultimately show ?thesis
        using 1(6) Some by (auto simp: approval_granted_def)
    qed
  qed
qed

text \<open>C15. The audit trail of an action is complete and legal: in every store reached by the
operations it starts with the enqueueing, each transition starts in the state the one before ended
in and is one of the legal moves (out of awaiting approval only by a decision, to executing only
from planned or executing, never out of a final state), and the last one holds the state of the
record.\<close>

theorem action_trail_legal:
  assumes "run_ops (action_exec lc) ops empty_actions = (st, evs)" and "a \<in> set (as_actions st)"
  shows "trail st (ar_id a) \<noteq> []
   \<and> at_from (hd (trail st (ar_id a))) = None
   \<and> successively (\<lambda>s t. at_from t = Some (at_to s) \<and> legal_move (at_to s) (at_to t)) (trail st (ar_id a))
   \<and> at_to (last (trail st (ar_id a))) = ar_state a"
proof -
  have "action_inv st"
    using action_queue.run_inv [OF empty_actions_inv assms(1)] .
  with assms(2) have "trail_sound st a"
    by (simp add: action_inv_def action_ok_def)
  then show ?thesis by (simp add: trail_sound_def)
qed

text \<open>A rejected action never runs: once the rejection of its approval has been recorded no
worker claims, settles or releases the action again.\<close>

lemma rejected_action_never_claimed:
  assumes "action_inv st" and "lookup ap_id (as_approvals st) i = Some p"
    and "decideApproval clock i Reject meta t st = Inr st1"
    and "run_ops (action_exec lc) ops st1 = (st2, evs)"
  shows "\<forall>ev\<in>set evs. about ev \<noteq> Some (ap_action p)"
proof -
  have inv: "action_inv st1"
    using decideApproval_step [OF assms(1,3)] by simp
  have "action_phase st1 (ap_action p) = Some Closed"
    using assms(1,3)
  proof (cases rule: decideApproval_cases)
    case (same q)
    with assms(2) have pst: "ap_status p = ApRejected" by simp
    have p: "p \<in> set (as_approvals st)" "ap_id p = i"
      using assms(2) by (auto dest: lookup_SomeD)
    then obtain a where a: "a \<in> set (as_actions st)" "ar_id a = ap_action p" "ar_approval_id a = Some i"
      using assms(1) by (auto simp: action_inv_def)
    then obtain x where "lookup xe_action (as_executions st) (ap_action p) = Some x" "coherent st a x"
      using assms(1) by (auto simp: action_inv_def action_ok_def)
    with a(3) assms(2) pst same(1) show ?thesis
      by (simp add: action_phase_def coherent_def execution_lease_def)
  next
    case (decided q a x fa fx pp fp tr)
    with assms(2) one_phase [OF decided(1)] show ?thesis by simp
  qed
  from action_queue.run_closed [OF inv assms(4) this] show ?thesis by simp
qed

text \<open>A decision on an approval is final: after it, whatever runs on the store, the same
decision is accepted without effect and the opposite one is refused.\<close>

lemma approval_decision_final:
  assumes "action_inv st" and "decideApproval clock i d meta t st = Inr st1"
    and "run_ops (action_exec lc) ops st1 = (st2, evs)"
  shows "decideApproval clock' i d' meta' t' st2
    = (if d' = d then Inr st2
       else throw (''approval '' @ i @ '' is already '' @ approval_text (decision_status d)))"
proof -
  have inv: "action_inv st1"
    using decideApproval_step [OF assms(1,2)] by simp
  obtain p where p: "lookup ap_id (as_approvals st1) i = Some p" "ap_status p = decision_status d"
    using assms(1,2) by (cases rule: decideApproval_cases) auto
  moreover have "decision_status d \<noteq> ApPending"
    by (cases d) simp_all
  ultimately have "lookup ap_id (as_approvals st2) i = Some p"
    using action_run_kept [OF inv assms(3)] by (auto simp: kept_def)
  with p(2) show ?thesis
    by (cases d; cases d') (simp_all add: decideApproval_def)
qed

text \<open>Enqueueing is idempotent: after an enqueue, whatever runs on the store, the same call
reports that nothing was inserted and changes nothing.\<close>

lemma enqueueAction_idempotent:
  assumes "action_inv st" and "enqueueAction lc clock input st = Inr (b, st1)"
    and "run_ops (action_exec lc) ops st1 = (st2, evs)"
  shows "enqueueAction lc clock' input st2 = Inr (False, st2)"
proof -
  obtain source where source: "stringify (da_source input) = Some source"
    "rb_mode (da_request input) = ReadOnly \<or> da_approval input \<noteq> None"
    using assms(2) by (auto simp: enqueueAction_def split: if_splits jtext.splits option.splits)
  from enqueue_still_stored [OF assms] obtain a x where rows:
    "lookup ar_id (as_actions st2) (da_actionId input) = Some a"
    "lookup xe_action (as_executions st2) (da_actionId input) = Some x"
    "canonicalJson lc (request_object (da_actionId input) (da_request input)) = Text (xe_request x)"
    "ar_matter_id a = da_matterId input" "ar_intent a = da_intent input"
    "lookup mt_id (as_matters st2) (da_matterId input) \<noteq> None" by blast
  then have "insert_matter clock' input (as_matters st2) = as_matters st2"
    by (simp add: insert_matter_def)
  with rows source show ?thesis
    by (simp add: enqueueAction_def)
qed

section \<open>Witnesses\<close>

definition sample_action :: "string \<Rightarrow> exec_mode \<Rightarrow> (string \<times> string) option \<Rightarrow> action_input" where
  "sample_action i mode approval = \<lparr> da_actionId = i, da_matterId = ''m'', da_matterTitle = ''t'',
     da_matterSummary = ''s'', da_intent = ''reply'', da_source = JObj ObjectProto [(''channel'', JStr ''c'')],
     da_request = \<lparr> rb_title = ''t'', rb_prompt = ''p'', rb_workspace = ''/w'', rb_mode = mode \<rparr>,
     da_requestedExecutor = None, da_approval = approval \<rparr>"

definition enqueue_ops :: "action_op list" where
  "enqueue_ops = [AEnqueue ''1'' (sample_action ''r'' ReadOnly None),
     AEnqueue ''2'' (sample_action ''x'' WorkspaceWrite (Some (''p'', ''ok?'')))]"

definition two_actions :: action_store where
  "two_actions = fst (run_ops (action_exec (\<le>)) enqueue_ops empty_actions)"

definition approved_actions :: action_store where
  "approved_actions = fst (run_ops (action_exec (\<le>))
     (enqueue_ops @ [AClaim ''3'' ''w'' ''/w'' ''3'' ''5'', ADecide ''4'' ''p'' Approve (JObj ObjectProto []) ''4'']) empty_actions)"

lemma two_actions_inv: "action_inv two_actions"
  using action_queue.run_inv [OF empty_actions_inv, of "(\<le>)" enqueue_ops]
  by (cases "run_ops (action_exec (\<le>)) enqueue_ops empty_actions") (simp add: two_actions_def)

lemma run_split: "snd (run_ops exec ops st) = evs \<Longrightarrow> run_ops exec ops st = (fst (run_ops exec ops st), evs)"
  by (metis prod.collapse)

lemma run_fst: "st' = fst (run_ops exec ops st) \<Longrightarrow> \<exists>evs. run_ops exec ops st = (st', evs)"
  by (cases "run_ops exec ops st") simp

lemma two_claims: "snd (run_ops (action_exec (\<le>)) [AClaim ''3'' ''w'' ''/w'' ''3'' ''5'', AClaim ''4'' ''v'' ''/w'' ''4'' ''9'',
    AClaim ''6'' ''v'' ''/w'' ''6'' ''9''] two_actions) = [Claimed ''r'' ''w'' ''3'' ''5'', Quiet, Claimed ''r'' ''v'' ''6'' ''9'']"
  by code_simp

lemma action_claim_exclusive_witness:
  "Claimed ''r'' ''v'' ''6'' ''9'' = Settled ''r'' ''w''
   \<or> (\<exists>t b. Claimed ''r'' ''v'' ''6'' ''9'' = Released ''r'' ''w'' t b)
   \<or> (\<exists>w' now' e'. Claimed ''r'' ''v'' ''6'' ''9'' = Claimed ''r'' w' now' e' \<and> ''5'' \<le> now')"
proof -
  note run_split [OF two_claims]
  then have "\<exists>s. run_ops (action_exec (\<le>)) [AClaim ''3'' ''w'' ''/w'' ''3'' ''5'', AClaim ''4'' ''v'' ''/w'' ''4'' ''9'',
      AClaim ''6'' ''v'' ''/w'' ''6'' ''9''] two_actions
    = (s, [] @ Claimed ''r'' ''w'' ''3'' ''5'' # [Quiet] @ Claimed ''r'' ''v'' ''6'' ''9'' # [])"
    by (metis append_Cons append_Nil)
  then show ?thesis
    by (elim exE) (rule action_claim_exclusive [OF two_actions_inv], assumption, simp_all)
qed

lemma claimed_action_approved_witness:
  "\<exists>c st'. claimNextAction ''4'' ''w'' ''/w'' ''4'' ''9'' approved_actions = Inr (Some c, st')
     \<and> ca_approvalGranted c \<and> (\<exists>p\<in>set (as_approvals approved_actions). ap_action p = ca_actionId c \<and> ap_status p = ApApproved)"
proof -
  have "case claimNextAction ''4'' ''w'' ''/w'' ''4'' ''9'' approved_actions of
      Inr (Some c, st') \<Rightarrow> js_get (ca_request c) ''mode'' = JStr ''workspace-write'' | _ \<Rightarrow> False"
    by code_simp
  then obtain c st' where c: "claimNextAction ''4'' ''w'' ''/w'' ''4'' ''9'' approved_actions = Inr (Some c, st')"
    "js_get (ca_request c) ''mode'' = JStr ''workspace-write''"
    by (auto split: sum.splits option.splits)
  obtain evs where "run_ops (action_exec (\<le>)) (enqueue_ops @ [AClaim ''3'' ''w'' ''/w'' ''3'' ''5'',
      ADecide ''4'' ''p'' Approve (JObj ObjectProto []) ''4'']) empty_actions = (approved_actions, evs)"
    by (rule exE [OF run_fst [OF approved_actions_def]])
  from claimed_action_approved [OF this c(1)] c show ?thesis by auto
qed

definition settled_actions :: action_store where
  "settled_actions = fst (run_ops (action_exec (\<le>)) (enqueue_ops @ [AClaim ''3'' ''w'' ''/w'' ''3'' ''5'',
     ASettle ''4'' ''r'' ''w'' \<lparr> rs_actionId = ''r'', rs_executor = ''codex'', rs_status = ExCompleted,
       rs_summary = ''done'', rs_sessionId = None \<rparr>]) empty_actions)"

lemma action_trail_legal_witness:
  "\<exists>a\<in>set (as_actions settled_actions).
     successively (\<lambda>s t. at_from t = Some (at_to s) \<and> legal_move (at_to s) (at_to t)) (trail settled_actions (ar_id a))
     \<and> map at_to (trail settled_actions (ar_id a)) = [Planned, Executing, Completed]"
proof -
  have "\<exists>a\<in>set (as_actions settled_actions). map at_to (trail settled_actions (ar_id a)) = [Planned, Executing, Completed]"
    by code_simp
  then obtain a where a: "a \<in> set (as_actions settled_actions)"
    "map at_to (trail settled_actions (ar_id a)) = [Planned, Executing, Completed]" by (rule bexE)
  obtain evs where "run_ops (action_exec (\<le>)) (enqueue_ops @ [AClaim ''3'' ''w'' ''/w'' ''3'' ''5'',
     ASettle ''4'' ''r'' ''w'' \<lparr> rs_actionId = ''r'', rs_executor = ''codex'', rs_status = ExCompleted,
       rs_summary = ''done'', rs_sessionId = None \<rparr>]) empty_actions = (settled_actions, evs)"
    by (rule exE [OF run_fst [OF settled_actions_def]])
  from action_trail_legal [OF this a(1)] a show ?thesis by (intro bexI [of _ a]) simp_all
qed

definition decided_actions :: "decision \<Rightarrow> action_store" where
  "decided_actions d = projr (decideApproval ''3'' ''p'' d (JObj ObjectProto []) ''3'' two_actions)"

lemma decided_run:
  "decideApproval ''3'' ''p'' d (JObj ObjectProto []) ''3'' two_actions = Inr (decided_actions d)"
proof -
  have "isl (decideApproval ''3'' ''p'' d (JObj ObjectProto []) ''3'' two_actions) = False"
    by (cases d; simp only:; code_simp)
  then show ?thesis
    unfolding decided_actions_def by (metis sum.collapse(2))
qed

lemma rejected_action_never_claimed_witness:
  "list_all (\<lambda>ev. about ev \<noteq> Some ''x'')
     (snd (run_ops (action_exec (\<le>)) [AClaim ''4'' ''w'' ''/w'' ''4'' ''9'', AClaim ''5'' ''w'' ''/w'' ''5'' ''9'']
        (decided_actions Reject)))"
proof -
  have "case lookup ap_id (as_approvals two_actions) ''p'' of Some p \<Rightarrow> ap_action p = ''x'' | None \<Rightarrow> False"
    by code_simp
  then obtain p where p: "lookup ap_id (as_approvals two_actions) ''p'' = Some p" "ap_action p = ''x''"
    by (auto split: option.splits)
  show ?thesis
    using rejected_action_never_claimed [OF two_actions_inv p(1) decided_run] p(2)
    unfolding list_all_iff by (metis prod.collapse)
qed

lemma approval_decision_final_witness:
  "decideApproval ''5'' ''p'' Reject (JObj ObjectProto []) ''5'' (decided_actions Approve)
   = throw ''approval p is already approved''"
  using approval_decision_final [OF two_actions_inv decided_run [of Approve], where ops = "[]" and evs = "[]"
      and lc = "(\<le>)" and d' = Reject]
  by simp

lemma enqueueAction_idempotent_witness:
  "enqueueAction (\<le>) ''9'' (sample_action ''r'' ReadOnly None) two_actions = Inr (False, two_actions)"
proof -
  have "enqueueAction (\<le>) ''1'' (sample_action ''r'' ReadOnly None) empty_actions
      = Inr (True, snd (projr (enqueueAction (\<le>) ''1'' (sample_action ''r'' ReadOnly None) empty_actions)))"
    by (simp add: enqueueAction_def empty_actions_def sample_action_def request_object_def Let_def
        insert_matter_def insert_approval_def add_transition_def object_text_def)
  moreover have "run_ops (action_exec (\<le>)) [AEnqueue ''2'' (sample_action ''x'' WorkspaceWrite (Some (''p'', ''ok?'')))]
      (snd (projr (enqueueAction (\<le>) ''1'' (sample_action ''r'' ReadOnly None) empty_actions))) = (two_actions, [Quiet])"
    using calculation
    by (auto simp: two_actions_def enqueue_ops_def split: sum.splits)
  ultimately show ?thesis
    by (rule enqueueAction_idempotent [OF empty_actions_inv])
qed

end
