(* ===== verification/Policy_Store.thy ===== *)
theory Policy_Store
  imports Policy_Engine Canonical_Json
begin

text \<open>
  Policies as they are stored: drafts with numbered revisions, the activation of a revision whose
  simulation was safe, and the listing (storage/sqlite.ts over migrations/sqlite/002_policy.sql).
  Documents and simulations are kept as the text \<open>JSON.stringify\<close> wrote.
\<close>

section \<open>Types and tables\<close>

record policy_draft =
  pd_id :: string
  pd_name :: string
  pd_sourceText :: string
  pd_document :: jval
  pd_simulation :: jval

datatype policy_status = PDraft | PEnabled | PDisabled

record policy_row =
  pl_id :: string
  pl_name :: string
  pl_status :: policy_status
  pl_active_revision :: "nat option"
  pl_updated_at :: timestamp

record revision_row =
  rv_policy :: string
  rv_revision :: nat
  rv_source_text :: string
  rv_compiled :: json
  rv_simulation :: json
  rv_approved_at :: "timestamp option"

record policy_store =
  ps_policies :: "policy_row list"
  ps_revisions :: "revision_row list"

record policy_summary =
  pm_id :: string
  pm_name :: string
  pm_status :: policy_status
  pm_revision :: nat
  pm_sourceText :: string
  pm_document :: jval
  pm_simulation :: jval
  pm_updatedAt :: timestamp

section \<open>Operations\<close>

definition max_revision :: "revision_row list \<Rightarrow> string \<Rightarrow> nat" where
  "max_revision rows i = foldr max (map rv_revision (filter (\<lambda>r. rv_policy r = i) rows)) 0"

definition same_content :: "string \<Rightarrow> string \<Rightarrow> json \<Rightarrow> json \<Rightarrow> revision_row \<Rightarrow> bool" where
  "same_content i source compiled simulation r =
     (rv_policy r = i \<and> rv_source_text r = source \<and> rv_compiled r = compiled \<and> rv_simulation r = simulation)"

definition upsert_policy :: "timestamp \<Rightarrow> policy_draft \<Rightarrow> policy_row list \<Rightarrow> policy_row list" where
  "upsert_policy clock input rows =
     (if lookup pl_id rows (pd_id input) = None
      then rows @ [\<lparr> pl_id = pd_id input, pl_name = pd_name input, pl_status = PDraft,
                     pl_active_revision = None, pl_updated_at = clock \<rparr>]
      else update_where (\<lambda>p. pl_id p = pd_id input)
             (\<lambda>p. p\<lparr>pl_name := pd_name input, pl_updated_at := clock\<rparr>) rows)"

definition savePolicyDraft ::
  "timestamp \<Rightarrow> policy_draft \<Rightarrow> policy_store \<Rightarrow> (nat \<times> policy_store) result" where
  "savePolicyDraft clock input st =
     (let policies = upsert_policy clock input (ps_policies st) in
      case (stringify (pd_document input), stringify (pd_simulation input)) of
        (Some compiled, Some simulation) \<Rightarrow>
          (case descending rv_revision 1
                  (filter (same_content (pd_id input) (pd_sourceText input) compiled simulation) (ps_revisions st)) of
             existing # _ \<Rightarrow> Inr (rv_revision existing, st\<lparr>ps_policies := policies\<rparr>)
           | [] \<Rightarrow>
               (let revision = max_revision (ps_revisions st) (pd_id input) + 1 in
                Inr (revision, st\<lparr>ps_policies := policies,
                  ps_revisions := ps_revisions st @
                    [\<lparr> rv_policy = pd_id input, rv_revision = revision, rv_source_text = pd_sourceText input,
                       rv_compiled = compiled, rv_simulation = simulation, rv_approved_at = None \<rparr>]\<rparr>)))
      | _ \<Rightarrow> Inl (TypeError ''Provided value cannot be bound to SQLite parameter''))"

definition find_revision :: "revision_row list \<Rightarrow> string \<Rightarrow> nat \<Rightarrow> revision_row option" where
  "find_revision rows i revision = find (\<lambda>r. rv_policy r = i \<and> rv_revision r = revision) rows"

definition activatePolicy ::
  "timestamp \<Rightarrow> string \<Rightarrow> nat \<Rightarrow> timestamp \<Rightarrow> policy_store \<Rightarrow> policy_store result" where
  "activatePolicy clock i revision approvedAt st =
     (case find_revision (ps_revisions st) i revision of
        None \<Rightarrow> throw (''policy '' @ i @ '' revision '' @ show_nat revision @ '' does not exist'')
      | Some row \<Rightarrow>
          if rv_simulation row = Null then Inl (TypeError ''Cannot read properties of null'')
          else if js_get (js_of_json (rv_simulation row)) ''safeToActivate'' \<noteq> JBool True
          then throw (''policy '' @ i @ '' revision '' @ show_nat revision @ '' failed the safety simulation'')
          else if changes (\<lambda>p. pl_id p = i) (ps_policies st) \<noteq> 1
          then throw (''policy '' @ i @ '' does not exist'')
          else
            Inr (st\<lparr>ps_revisions := update_where (\<lambda>r. rv_policy r = i \<and> rv_revision r = revision)
                      (\<lambda>r. r\<lparr>rv_approved_at := Some approvedAt\<rparr>) (ps_revisions st),
                    ps_policies := update_where (\<lambda>p. pl_id p = i)
                      (\<lambda>p. p\<lparr>pl_status := PEnabled, pl_active_revision := Some revision, pl_updated_at := clock\<rparr>)
                      (ps_policies st)\<rparr>))"

text \<open>The revision the listing shows: the active one, else the latest.\<close>

definition shown_revision :: "policy_store \<Rightarrow> policy_row \<Rightarrow> nat" where
  "shown_revision st p =
     (case pl_active_revision p of Some r \<Rightarrow> r | None \<Rightarrow> max_revision (ps_revisions st) (pl_id p))"

definition policies :: "nat \<Rightarrow> policy_store \<Rightarrow> policy_summary list" where
  "policies limit st =
     map (\<lambda>(p, r). \<lparr> pm_id = pl_id p, pm_name = pl_name p, pm_status = pl_status p,
            pm_revision = rv_revision r, pm_sourceText = rv_source_text r,
            pm_document = js_of_json (rv_compiled r), pm_simulation = js_of_json (rv_simulation r),
            pm_updatedAt = pl_updated_at p \<rparr>)
       (descending (\<lambda>(p, r). pl_updated_at p) limit
         (concat (map (\<lambda>p. map (Pair p)
            (filter (\<lambda>r. rv_policy r = pl_id p \<and> rv_revision r = shown_revision st p) (ps_revisions st)))
          (ps_policies st))))"

datatype policy_op =
    PSave timestamp policy_draft
  | PActivate timestamp string nat timestamp

fun policy_exec :: "policy_op \<Rightarrow> policy_store \<Rightarrow> policy_store" where
  "policy_exec (PSave clock input) st =
     (case savePolicyDraft clock input st of Inr (_, st') \<Rightarrow> st' | Inl _ \<Rightarrow> st)"
| "policy_exec (PActivate clock i revision t) st =
     (case activatePolicy clock i revision t st of Inr st' \<Rightarrow> st' | Inl _ \<Rightarrow> st)"

definition empty_policies :: policy_store where
  "empty_policies = \<lparr> ps_policies = [], ps_revisions = [] \<rparr>"

section \<open>Invariant\<close>

definition safe_revision :: "policy_store \<Rightarrow> string \<Rightarrow> nat \<Rightarrow> bool" where
  "safe_revision st i revision \<longleftrightarrow>
     (\<exists>r\<in>set (ps_revisions st). rv_policy r = i \<and> rv_revision r = revision \<and> rv_approved_at r \<noteq> None
        \<and> js_get (js_of_json (rv_simulation r)) ''safeToActivate'' = JBool True)"

definition policy_inv :: "policy_store \<Rightarrow> bool" where
  "policy_inv st \<longleftrightarrow>
     distinct (map pl_id (ps_policies st))
   \<and> distinct (map (\<lambda>r. (rv_policy r, rv_revision r)) (ps_revisions st))
   \<and> distinct (map (\<lambda>r. (rv_policy r, rv_source_text r, rv_compiled r, rv_simulation r)) (ps_revisions st))
   \<and> (\<forall>p\<in>set (ps_policies st). pl_status p \<noteq> PDisabled \<and>
        (case pl_active_revision p of
           None \<Rightarrow> pl_status p = PDraft
         | Some r \<Rightarrow> pl_status p = PEnabled \<and> safe_revision st (pl_id p) r))"

section \<open>Lemmas\<close>

lemma empty_policies_inv: "policy_inv empty_policies"
  by (simp add: policy_inv_def empty_policies_def)

lemma max_revision_upper: "r \<in> set rows \<Longrightarrow> rv_policy r = i \<Longrightarrow> rv_revision r \<le> max_revision rows i"
  by (induction rows) (auto simp: max_revision_def)

lemma next_revision_fresh:
  "r \<in> set rows \<Longrightarrow> rv_policy r = i \<Longrightarrow> rv_revision r \<noteq> Suc (max_revision rows i)"
  using max_revision_upper [of r rows i] by simp

lemma descending_1_Nil: "descending key 1 rows = [] \<longleftrightarrow> rows = []"
proof -
  have "sort_key key (rev rows) = [] \<longleftrightarrow> rows = []"
    by (metis length_0_conv length_rev length_sort)
  then show ?thesis by (simp add: descending_def)
qed

lemma descending_mem: "r \<in> set (descending key n rows) \<Longrightarrow> r \<in> set rows"
  by (auto simp: descending_def dest: in_set_takeD)

lemma savePolicyDraft_cases:
  assumes "savePolicyDraft clock input st = Inr (n, st')"
  obtains (existing) compiled simulation r where
      "stringify (pd_document input) = Some compiled" "stringify (pd_simulation input) = Some simulation"
      "r \<in> set (ps_revisions st)" "same_content (pd_id input) (pd_sourceText input) compiled simulation r"
      "n = rv_revision r" "st' = st\<lparr>ps_policies := upsert_policy clock input (ps_policies st)\<rparr>"
  | (added) compiled simulation where
      "stringify (pd_document input) = Some compiled" "stringify (pd_simulation input) = Some simulation"
      "\<forall>r\<in>set (ps_revisions st). \<not> same_content (pd_id input) (pd_sourceText input) compiled simulation r"
      "n = Suc (max_revision (ps_revisions st) (pd_id input))"
      "st' = st\<lparr>ps_policies := upsert_policy clock input (ps_policies st),
         ps_revisions := ps_revisions st @
           [\<lparr> rv_policy = pd_id input, rv_revision = n, rv_source_text = pd_sourceText input,
              rv_compiled = compiled, rv_simulation = simulation, rv_approved_at = None \<rparr>]\<rparr>"
proof -
  from assms obtain compiled simulation where texts:
      "stringify (pd_document input) = Some compiled" "stringify (pd_simulation input) = Some simulation"
    by (auto simp: savePolicyDraft_def Let_def split: option.splits)
  let ?hits = "filter (same_content (pd_id input) (pd_sourceText input) compiled simulation) (ps_revisions st)"
  show thesis
  proof (cases "descending rv_revision 1 ?hits")
    case Nil
    then have "?hits = []"
      unfolding descending_1_Nil .
    then have none: "\<forall>r\<in>set (ps_revisions st). \<not> same_content (pd_id input) (pd_sourceText input) compiled simulation r"
      by (simp add: filter_empty_conv)
    show thesis
      by (rule added [OF texts none]) (use assms texts Nil in \<open>auto simp: savePolicyDraft_def Let_def\<close>)
  next
    case (Cons r rest)
    then have "r \<in> set ?hits"
      using descending_mem [of r rv_revision 1 ?hits] by simp
    then show thesis
      by (intro existing [OF texts, of r]) (use assms texts Cons in \<open>auto simp: savePolicyDraft_def Let_def\<close>)
  qed
qed

lemma upsert_ids: "distinct (map pl_id rows) \<Longrightarrow> distinct (map pl_id (upsert_policy clock input rows))"
  by (auto simp: upsert_policy_def lookup_None_iff)

lemma upsert_rows:
  "p \<in> set (upsert_policy clock input rows) \<Longrightarrow>
     (pl_status p = PDraft \<and> pl_active_revision p = None)
   \<or> (\<exists>q\<in>set rows. pl_id q = pl_id p \<and> pl_status q = pl_status p \<and> pl_active_revision q = pl_active_revision p)"
  by (auto simp: upsert_policy_def set_update_where split: if_splits)

lemma safe_revision_mono:
  "set (ps_revisions st) \<subseteq> set (ps_revisions st') \<Longrightarrow> safe_revision st i n \<Longrightarrow> safe_revision st' i n"
  by (auto simp: safe_revision_def)

lemma policy_rows_after_save:
  assumes "policy_inv st" "ps_policies st' = upsert_policy clock input (ps_policies st)"
    and "set (ps_revisions st) \<subseteq> set (ps_revisions st')" and "p \<in> set (ps_policies st')"
  shows "pl_status p \<noteq> PDisabled \<and> (case pl_active_revision p of None \<Rightarrow> pl_status p = PDraft
    | Some r \<Rightarrow> pl_status p = PEnabled \<and> safe_revision st' (pl_id p) r)"
  using upsert_rows [OF assms(4) [unfolded assms(2)]]
proof (elim disjE bexE)
  fix q assume "q \<in> set (ps_policies st)"
    "pl_id q = pl_id p \<and> pl_status q = pl_status p \<and> pl_active_revision q = pl_active_revision p"
  with assms(1) safe_revision_mono [OF assms(3)] show ?thesis
    by (auto simp: policy_inv_def split: option.splits)
qed simp_all

lemma savePolicyDraft_inv:
  assumes inv: "policy_inv st" and "savePolicyDraft clock input st = Inr (n, st')"
  shows "policy_inv st'"
  using assms(2)
proof (cases rule: savePolicyDraft_cases)
  case (existing compiled simulation r)
  with inv policy_rows_after_save [OF inv, of st' clock input] show ?thesis
    by (auto simp: policy_inv_def upsert_ids)
next
  case (added compiled simulation)
  have "distinct (map (\<lambda>r. (rv_policy r, rv_revision r)) (ps_revisions st'))"
    using inv next_revision_fresh [of _ "ps_revisions st" "pd_id input"] unfolding policy_inv_def added(4,5)
    by (force simp: image_iff)
  moreover have "distinct (map (\<lambda>r. (rv_policy r, rv_source_text r, rv_compiled r, rv_simulation r)) (ps_revisions st'))"
    using inv added(3) by (auto simp: policy_inv_def added(5) same_content_def)
  moreover have "set (ps_revisions st) \<subseteq> set (ps_revisions st')" "ps_policies st' = upsert_policy clock input (ps_policies st)"
    by (auto simp: added(5))
  ultimately show ?thesis
    using inv policy_rows_after_save [OF inv, of st' clock input] by (auto simp: policy_inv_def upsert_ids)
qed

lemma activatePolicy_Inr:
  assumes "activatePolicy clock i n t st = Inr st'"
  obtains row where "row \<in> set (ps_revisions st)" "rv_policy row = i" "rv_revision row = n"
    and "js_get (js_of_json (rv_simulation row)) ''safeToActivate'' = JBool True"
    and "st' = st\<lparr>ps_revisions := update_where (\<lambda>r. rv_policy r = i \<and> rv_revision r = n)
                      (\<lambda>r. r\<lparr>rv_approved_at := Some t\<rparr>) (ps_revisions st),
                    ps_policies := update_where (\<lambda>p. pl_id p = i)
                      (\<lambda>p. p\<lparr>pl_status := PEnabled, pl_active_revision := Some n, pl_updated_at := clock\<rparr>)
                      (ps_policies st)\<rparr>"
    and "\<exists>p\<in>set (ps_policies st). pl_id p = i"
proof -
  from assms obtain row where row: "find_revision (ps_revisions st) i n = Some row"
    by (auto simp: activatePolicy_def split: option.splits)
  have one: "changes (\<lambda>p. pl_id p = i) (ps_policies st) = 1"
    using assms row by (auto simp: activatePolicy_def split: if_splits)
  then have "\<exists>p\<in>set (ps_policies st). pl_id p = i"
    using changes_eq_0 [of "\<lambda>p. pl_id p = i" "ps_policies st"] by auto
  with row one assms show thesis
    by (intro that [of row]) (auto simp: activatePolicy_def find_revision_def dest!: find_SomeD split: if_splits)
qed

lemma activatePolicy_inv:
  assumes inv: "policy_inv st" and "activatePolicy clock i n t st = Inr st'"
  shows "policy_inv st'"
  using assms(2)
proof (cases rule: activatePolicy_Inr)
  case (1 row)
  let ?f = "\<lambda>r. r\<lparr>rv_approved_at := Some t\<rparr>"
  have safe: "safe_revision st' j m" if "safe_revision st j m \<or> (j = i \<and> m = n)" for j m
  proof -
    from that 1(1-4) obtain r where r: "r \<in> set (ps_revisions st)" "rv_policy r = j" "rv_revision r = m"
      "js_get (js_of_json (rv_simulation r)) ''safeToActivate'' = JBool True"
      "rv_approved_at r \<noteq> None \<or> (j = i \<and> m = n)"
      by (auto simp: safe_revision_def)
    then show ?thesis
      unfolding safe_revision_def 1(5)
      by (intro bexI [of _ "if rv_policy r = i \<and> rv_revision r = n then ?f r else r"])
        (auto simp: set_update_where)
  qed
  moreover have "distinct (map (\<lambda>r. (rv_policy r, rv_revision r)) (ps_revisions st'))"
    "distinct (map (\<lambda>r. (rv_policy r, rv_source_text r, rv_compiled r, rv_simulation r)) (ps_revisions st'))"
    "distinct (map pl_id (ps_policies st'))"
    using inv by (simp_all add: 1(5) policy_inv_def)
  ultimately show ?thesis
    using inv unfolding policy_inv_def by (auto simp: 1(5) set_update_where split: option.splits)
qed

lemma policy_exec_inv: "policy_inv st \<Longrightarrow> policy_inv (policy_exec oper st)"
  by (cases oper) (auto split: sum.splits intro: savePolicyDraft_inv activatePolicy_inv)

lemma policy_run_inv: "policy_inv st \<Longrightarrow> policy_inv (fold policy_exec ops st)"
  by (induction ops arbitrary: st) (simp_all add: policy_exec_inv)

text \<open>Revisions are never removed and never change their content.\<close>

lemma policy_exec_revisions:
  assumes "r \<in> set (ps_revisions st)"
  shows "\<exists>r'\<in>set (ps_revisions (policy_exec oper st)). rv_revision r' = rv_revision r
    \<and> rv_policy r' = rv_policy r \<and> rv_source_text r' = rv_source_text r
    \<and> rv_compiled r' = rv_compiled r \<and> rv_simulation r' = rv_simulation r"
proof (cases oper)
  case (PSave clock input)
  have "set (ps_revisions st) \<subseteq> set (ps_revisions (policy_exec oper st))"
    using PSave by (auto split: sum.splits elim!: savePolicyDraft_cases)
  with assms show ?thesis by auto
next
  case (PActivate clock i n t)
  show ?thesis
  proof (cases "activatePolicy clock i n t st")
    case (Inl e)
    with PActivate assms show ?thesis by auto
  next
    case (Inr st')
    then show ?thesis
    proof (cases rule: activatePolicy_Inr)
      case (1 row)
      with PActivate Inr assms show ?thesis
        by (intro bexI [of _ "if rv_policy r = i \<and> rv_revision r = n then r\<lparr>rv_approved_at := Some t\<rparr> else r"])
          (auto simp: set_update_where)
    qed
  qed
qed

lemma policy_run_revisions:
  "r \<in> set (ps_revisions st) \<Longrightarrow>
   \<exists>r'\<in>set (ps_revisions (fold policy_exec ops st)). rv_revision r' = rv_revision r
    \<and> rv_policy r' = rv_policy r \<and> rv_source_text r' = rv_source_text r
    \<and> rv_compiled r' = rv_compiled r \<and> rv_simulation r' = rv_simulation r"
proof (induction ops arbitrary: st r)
  case (Cons oper ops)
  from policy_exec_revisions [OF Cons.prems, of oper] obtain r1 where
    r1: "r1 \<in> set (ps_revisions (policy_exec oper st))" "rv_revision r1 = rv_revision r"
      "rv_policy r1 = rv_policy r" "rv_source_text r1 = rv_source_text r"
      "rv_compiled r1 = rv_compiled r" "rv_simulation r1 = rv_simulation r" by blast
  from Cons.IH [OF r1(1)] r1(2-6) show ?case by simp
qed auto

section \<open>Properties\<close>

text \<open>C19. Only a policy revision whose safety simulation passed is ever in force: in every store
reached by saving drafts and activating revisions, an enabled policy has an active revision that
exists, was approved, and whose stored simulation says that it is safe to activate.\<close>

theorem enabled_policy_safe:
  assumes "p \<in> set (ps_policies (fold policy_exec ops empty_policies))" and "pl_status p = PEnabled"
  shows "\<exists>r\<in>set (ps_revisions (fold policy_exec ops empty_policies)).
    rv_policy r = pl_id p \<and> Some (rv_revision r) = pl_active_revision p \<and> rv_approved_at r \<noteq> None
    \<and> js_get (js_of_json (rv_simulation r)) ''safeToActivate'' = JBool True"
proof -
  have "policy_inv (fold policy_exec ops empty_policies)"
    by (rule policy_run_inv [OF empty_policies_inv])
  with assms have "\<exists>n. pl_active_revision p = Some n \<and> safe_revision (fold policy_exec ops empty_policies) (pl_id p) n"
    by (auto simp: policy_inv_def split: option.splits)
  then show ?thesis by (auto simp: safe_revision_def)
qed

text \<open>Saving a draft is idempotent and its number is stable: after a draft was saved as a
revision, whatever is saved or activated next, saving the same draft again answers that revision
and adds none.\<close>

lemma savePolicyDraft_stable:
  assumes "policy_inv st" and "savePolicyDraft clock input st = Inr (n, st1)"
  shows "\<exists>st3. savePolicyDraft clock' input (fold policy_exec ops st1) = Inr (n, st3)
    \<and> ps_revisions st3 = ps_revisions (fold policy_exec ops st1)"
proof -
  let ?st2 = "fold policy_exec ops st1"
  have inv: "policy_inv ?st2"
    by (rule policy_run_inv [OF savePolicyDraft_inv [OF assms]])
  from assms(2) obtain compiled simulation r where texts:
      "stringify (pd_document input) = Some compiled" "stringify (pd_simulation input) = Some simulation"
    and r: "r \<in> set (ps_revisions st1)" "same_content (pd_id input) (pd_sourceText input) compiled simulation r"
      "rv_revision r = n"
  proof (cases rule: savePolicyDraft_cases)
    case (existing compiled simulation r)
    with that show thesis by simp
  next
    case (added compiled simulation)
    show thesis
      by (rule that [OF added(1,2), of "last (ps_revisions st1)"]) (simp_all add: added(5) same_content_def)
  qed
  from policy_run_revisions [OF r(1), of ops] r(2,3) obtain r' where
    r': "r' \<in> set (ps_revisions ?st2)" "same_content (pd_id input) (pd_sourceText input) compiled simulation r'"
      "rv_revision r' = n"
    by (auto simp: same_content_def)
  obtain m st3 where save: "savePolicyDraft clock' input ?st2 = Inr (m, st3)"
    by (cases "savePolicyDraft clock' input ?st2")
      (auto simp: savePolicyDraft_def texts Let_def split: list.splits)
  then show ?thesis
  proof (cases rule: savePolicyDraft_cases)
    case (existing c s q)
    have "distinct (map (\<lambda>r. (rv_policy r, rv_source_text r, rv_compiled r, rv_simulation r)) (ps_revisions ?st2))"
      using inv by (simp add: policy_inv_def)
    then have "q = r'"
      by (rule distinct_key_eq [where r = q and r' = r']) (use existing(1-4) texts r' in \<open>auto simp: same_content_def\<close>)
    with existing save r'(3) show ?thesis by auto
  next
    case (added c s)
    with r' texts show ?thesis by auto
  qed
qed

section \<open>Witnesses\<close>

definition sample_draft :: policy_draft where
  "sample_draft = \<lparr> pd_id = ''p'', pd_name = ''n'', pd_sourceText = ''s'', pd_document = JObj ObjectProto [],
     pd_simulation = JObj ObjectProto [(''safeToActivate'', JBool True)] \<rparr>"

lemma enabled_policy_safe_witness:
  "\<exists>r\<in>set (ps_revisions (fold policy_exec [PSave ''1'' sample_draft, PActivate ''2'' ''p'' 1 ''2''] empty_policies)).
     rv_policy r = ''p'' \<and> rv_revision r = 1 \<and> rv_approved_at r \<noteq> None"
proof -
  let ?st = "fold policy_exec [PSave ''1'' sample_draft, PActivate ''2'' ''p'' 1 ''2''] empty_policies"
  have "\<exists>p\<in>set (ps_policies ?st). pl_id p = ''p'' \<and> pl_status p = PEnabled \<and> pl_active_revision p = Some 1"
    by code_simp
  then obtain p where p: "p \<in> set (ps_policies ?st)"
    and status: "pl_id p = ''p'' \<and> pl_status p = PEnabled \<and> pl_active_revision p = Some 1"
    by (rule bexE)
  from status have enabled: "pl_status p = PEnabled" by simp
  show ?thesis
    using enabled_policy_safe [OF p enabled] status by (auto simp del: fold_simps)
qed

lemma savePolicyDraft_stable_witness:
  "\<exists>st3. savePolicyDraft ''9'' sample_draft
      (fold policy_exec [PActivate ''2'' ''p'' 1 ''2''] (snd (projr (savePolicyDraft ''1'' sample_draft empty_policies)))) = Inr (1, st3)"
proof -
  have "savePolicyDraft ''1'' sample_draft empty_policies = Inr (1, snd (projr (savePolicyDraft ''1'' sample_draft empty_policies)))"
    by (simp add: savePolicyDraft_def sample_draft_def empty_policies_def Let_def descending_def max_revision_def)
  from savePolicyDraft_stable [OF empty_policies_inv this] show ?thesis by blast
qed

end
