(* ===== verification/Control_Reads.thy ===== *)
theory Control_Reads
  imports Event_Store Action_Store
begin

text \<open>
  The read model of the console (storage/sqlite.ts): the overview counts and the recent matters,
  actions and pending approvals, over the tables of the event journal and of the actions.
\<close>

section \<open>Operations\<close>

record overview_counts =
  ov_events :: nat
  ov_openMatters :: nat
  ov_activeActions :: nat
  ov_pendingApprovals :: nat
  ov_failedActions :: nat

definition active_state :: "action_state \<Rightarrow> bool" where
  "active_state s =
     (s \<in> {Observed, Settling, Planned, AwaitingApproval, Executing, WaitingExternal})"

definition overview :: "event_store \<Rightarrow> action_store \<Rightarrow> overview_counts" where
  "overview es st =
     \<lparr> ov_events = length (es_events es),
       ov_openMatters = changes (\<lambda>m. mt_status m \<in> {MOpen, MWaiting}) (as_matters st),
       ov_activeActions = changes (\<lambda>a. active_state (ar_state a)) (as_actions st),
       ov_pendingApprovals = changes (\<lambda>p. ap_status p = ApPending) (as_approvals st),
       ov_failedActions = changes (\<lambda>a. ar_state a = Failed) (as_actions st) \<rparr>"

record matter_summary =
  ms_id :: string
  ms_status :: matter_status
  ms_title :: string
  ms_latestSummary :: string
  ms_updatedAt :: timestamp

record action_summary =
  as_id :: string
  as_matterId :: string
  as_state :: action_state
  as_intent :: string
  as_executor :: "string option"
  as_updatedAt :: timestamp

record approval_summary =
  aps_id :: string
  aps_actionId :: string
  aps_status :: approval_status
  aps_prompt :: string
  aps_requestedAt :: timestamp

definition recentMatters :: "nat \<Rightarrow> action_store \<Rightarrow> matter_summary list" where
  "recentMatters limit st =
     map (\<lambda>m. \<lparr> ms_id = mt_id m, ms_status = mt_status m, ms_title = mt_title m,
            ms_latestSummary = mt_latest_summary m, ms_updatedAt = mt_updated_at m \<rparr>)
       (descending mt_updated_at limit (as_matters st))"

definition recentActions :: "nat \<Rightarrow> action_store \<Rightarrow> action_summary list" where
  "recentActions limit st =
     map (\<lambda>a. \<lparr> as_id = ar_id a, as_matterId = ar_matter_id a, as_state = ar_state a,
            as_intent = ar_intent a, as_executor = ar_executor a, as_updatedAt = ar_updated_at a \<rparr>)
       (descending ar_updated_at limit (as_actions st))"

definition pendingApprovals :: "nat \<Rightarrow> action_store \<Rightarrow> approval_summary list" where
  "pendingApprovals limit st =
     map (\<lambda>p. \<lparr> aps_id = ap_id p, aps_actionId = ap_action p, aps_status = ap_status p,
            aps_prompt = ap_prompt p, aps_requestedAt = ap_requested_at p \<rparr>)
       (ascending ap_requested_at limit (filter (\<lambda>p. ap_status p = ApPending) (as_approvals st)))"

section \<open>Lemmas\<close>

lemma changes_card:
  assumes "distinct (map key rows)"
  shows "changes p rows = card (key ` {r \<in> set rows. p r})"
proof -
  have "distinct (map key (filter p rows))"
    using assms by (rule distinct_map_filter)
  then have "card (set (map key (filter p rows))) = length (map key (filter p rows))"
    by (rule distinct_card)
  then show ?thesis
    by (simp add: changes_def)
qed

text \<open>An action awaits approval exactly when its approval is pending, and it has only that one.\<close>

lemma awaiting_approval:
  assumes inv: "action_inv st"
  shows "ap_action ` {p \<in> set (as_approvals st). ap_status p = ApPending}
    = ar_id ` {a \<in> set (as_actions st). ar_state a = AwaitingApproval}" (is "?P = ?A")
proof
  show "?P \<subseteq> ?A"
  proof
    fix k assume "k \<in> ?P"
    then obtain p where p: "p \<in> set (as_approvals st)" "ap_status p = ApPending" "ap_action p = k" by auto
    with inv obtain a where a: "a \<in> set (as_actions st)" "ar_id a = k" "ar_approval_id a = Some (ap_id p)"
      by (auto simp: action_inv_def)
    moreover have "lookup ap_id (as_approvals st) (ap_id p) = Some p"
      using inv p(1) by (simp add: action_inv_def lookupI)
    moreover obtain x where "coherent st a x"
      using inv a(1) by (auto simp: action_inv_def action_ok_def)
    ultimately have "ar_state a = AwaitingApproval"
      using p(2) by (auto simp: coherent_def)
    with a show "k \<in> ?A" by auto
  qed
  show "?A \<subseteq> ?P"
  proof
    fix k assume "k \<in> ?A"
    then obtain a where a: "a \<in> set (as_actions st)" "ar_id a = k" "ar_state a = AwaitingApproval" by auto
    obtain x where x: "coherent st a x"
      using inv a(1) by (auto simp: action_inv_def action_ok_def)
    have other: "state_of_execution (xe_status x) \<noteq> AwaitingApproval"
      by (cases "xe_status x") simp_all
    with x a(3) obtain i p where p: "lookup ap_id (as_approvals st) i = Some p" "ap_action p = ar_id a"
      "approved_so_far (ap_status p) a x"
      by (auto simp: coherent_def split: option.splits)
    then have "ap_status p = ApPending"
      using a(3) other by (cases "ap_status p") auto
    with p a(2) show "k \<in> ?P"
      by (auto dest: lookup_SomeD)
  qed
qed

lemma pending_one_per_action:
  assumes inv: "action_inv st"
  shows "inj_on ap_action (set (as_approvals st))"
proof (rule inj_onI)
  fix p q assume pq: "p \<in> set (as_approvals st)" "q \<in> set (as_approvals st)" "ap_action p = ap_action q"
  with inv obtain a b where "a \<in> set (as_actions st)" "ar_id a = ap_action p" "ar_approval_id a = Some (ap_id p)"
    "b \<in> set (as_actions st)" "ar_id b = ap_action q" "ar_approval_id b = Some (ap_id q)"
    unfolding action_inv_def by metis
  moreover have "distinct (map ar_id (as_actions st))" "distinct (map ap_id (as_approvals st))"
    using inv by (simp_all add: action_inv_def)
  ultimately have "ap_id p = ap_id q"
    using pq(3) by (metis distinct_key_eq option.inject)
  with pq(1,2) \<open>distinct (map ap_id (as_approvals st))\<close> show "p = q"
    by (auto dest: distinct_key_eq)
qed

section \<open>Property\<close>

text \<open>The overview agrees with the lists: in every store reached by the operations the number
of pending approvals it shows is the length of the approval list (with a sufficient limit) and the
number of actions that await approval.\<close>

theorem overview_pending_approvals:
  assumes "run_ops (action_exec lc) ops empty_actions = (st, evs)" and "ov_pendingApprovals (overview es st) \<le> limit"
  shows "length (pendingApprovals limit st) = ov_pendingApprovals (overview es st)
   \<and> changes (\<lambda>a. ar_state a = AwaitingApproval) (as_actions st) = ov_pendingApprovals (overview es st)"
proof
  have inv: "action_inv st"
    using action_queue.run_inv [OF empty_actions_inv assms(1)] .
  show "length (pendingApprovals limit st) = ov_pendingApprovals (overview es st)"
    using assms(2) by (simp add: pendingApprovals_def ascending_def overview_def changes_def)
  have "changes (\<lambda>a. ar_state a = AwaitingApproval) (as_actions st)
      = card (ap_action ` {p \<in> set (as_approvals st). ap_status p = ApPending})"
    unfolding awaiting_approval [OF inv] by (rule changes_card) (use inv in \<open>simp add: action_inv_def\<close>)
  also have "\<dots> = card {p \<in> set (as_approvals st). ap_status p = ApPending}"
    by (rule card_image) (rule inj_on_subset [OF pending_one_per_action [OF inv]], auto)
  also have "\<dots> = card (ap_id ` {p \<in> set (as_approvals st). ap_status p = ApPending})"
  proof (rule card_image [symmetric])
    have "distinct (map ap_id (as_approvals st))"
      using inv by (simp add: action_inv_def)
    then have "inj_on ap_id (set (as_approvals st))"
      by (simp add: distinct_map)
    then show "inj_on ap_id {p \<in> set (as_approvals st). ap_status p = ApPending}"
      by (rule inj_on_subset) auto
  qed
  also have "\<dots> = changes (\<lambda>p. ap_status p = ApPending) (as_approvals st)"
    by (rule changes_card [symmetric]) (use inv in \<open>simp add: action_inv_def\<close>)
  finally show "changes (\<lambda>a. ar_state a = AwaitingApproval) (as_actions st) = ov_pendingApprovals (overview es st)"
    by (simp add: overview_def)
qed

lemma overview_pending_approvals_witness:
  "length (pendingApprovals 5 two_actions) = 1
   \<and> changes (\<lambda>a. ar_state a = AwaitingApproval) (as_actions two_actions) = 1"
proof -
  obtain evs where run: "run_ops (action_exec (\<le>)) enqueue_ops empty_actions = (two_actions, evs)"
    by (rule exE [OF run_fst [OF two_actions_def]])
  have one: "ov_pendingApprovals (overview empty_events two_actions) = 1"
    by code_simp
  show ?thesis
    using overview_pending_approvals [OF run, of empty_events 5] one by simp
qed

end
