(* ===== verification/Claim_Authorization.thy ===== *)
theory Claim_Authorization
  imports Channel_Domain
begin

text \<open>
  The single-use capability a worker needs to run an action that writes
  (execution/claim-authorization.ts). A capability is a frozen fresh object; the module's
  \<open>WeakMap\<close> binds it to the request it was issued for. Objects are numbered in the order they are
  created, so the state is the next number and the bindings still in the map.
\<close>

section \<open>State and operations\<close>

record auth_state =
  cap_next :: nat
  cap_issued :: "(nat \<times> executor_request) list"

definition no_authorizations :: auth_state where
  "no_authorizations = \<lparr> cap_next = 0, cap_issued = [] \<rparr>"

fun mode_name :: "exec_mode \<Rightarrow> string" where
  "mode_name ReadOnly = ''read-only''"
| "mode_name WorkspaceWrite = ''workspace-write''"
| "mode_name ExternalWrite = ''external-write''"

text \<open>\<open>binding\<close> copies the five fields of a request, \<open>sameBinding\<close> compares them.\<close>

definition binding :: "'z executor_request_scheme \<Rightarrow> executor_request" where
  "binding request =
     \<lparr> rq_actionId = rq_actionId request, rq_title = rq_title request, rq_prompt = rq_prompt request,
       rq_workspace = rq_workspace request, rq_mode = rq_mode request \<rparr>"

definition sameBinding :: "executor_request \<Rightarrow> executor_request \<Rightarrow> bool" where
  "sameBinding left right =
     (rq_actionId left = rq_actionId right \<and> rq_title left = rq_title right
      \<and> rq_prompt left = rq_prompt right \<and> rq_workspace left = rq_workspace right
      \<and> rq_mode left = rq_mode right)"

definition issueDurableExecutorAuthorization ::
  "'z executor_request_scheme \<Rightarrow> bool \<Rightarrow> auth_state \<Rightarrow> (nat option \<times> auth_state) result" where
  "issueDurableExecutorAuthorization request approvalGranted s =
     (if rq_mode request = ReadOnly then Inr (None, s)
      else if \<not> approvalGranted
      then throw (mode_name (rq_mode request) @ '' execution requires an approved durable action claim'')
      else Inr (Some (cap_next s),
        s\<lparr>cap_next := Suc (cap_next s), cap_issued := (cap_next s, binding request) # cap_issued s\<rparr>))"

text \<open>The map entry goes whether or not the request is accepted.\<close>

definition consumeDurableExecutorAuthorization ::
  "nat option \<Rightarrow> 'z executor_request_scheme \<Rightarrow> auth_state \<Rightarrow> unit result \<times> auth_state" where
  "consumeDurableExecutorAuthorization authorization request s =
     (if rq_mode request = ReadOnly then (Inr (), s)
      else
        case authorization of
          None \<Rightarrow> (throw (mode_name (rq_mode request) @ '' execution requires an approved durable action claim''), s)
        | Some c \<Rightarrow>
            (let expected = map_of (cap_issued s) c;
                 s' = s\<lparr>cap_issued := filter (\<lambda>e. fst e \<noteq> c) (cap_issued s)\<rparr> in
             if (case expected of None \<Rightarrow> True | Some b \<Rightarrow> \<not> sameBinding b (binding request))
             then (throw (mode_name (rq_mode request) @ '' execution has invalid durable action claim authorization''), s')
             else (Inr (), s')))"

text \<open>Runs of the module: what was issued, and what was accepted on a capability.\<close>

datatype auth_op =
    Issue executor_request bool
  | Consume "nat option" executor_request

datatype auth_event =
    Issued nat executor_request
  | Accepted nat executor_request
  | AcceptedFree executor_request
  | NoAuth

fun auth_exec :: "auth_op \<Rightarrow> auth_state \<Rightarrow> auth_state \<times> auth_event" where
  "auth_exec (Issue r granted) s =
     (case issueDurableExecutorAuthorization r granted s of
        Inr (Some c, s') \<Rightarrow> (s', Issued c r)
      | Inr (None, s') \<Rightarrow> (s', NoAuth)
      | Inl _ \<Rightarrow> (s, NoAuth))"
| "auth_exec (Consume c r) s =
     (case consumeDurableExecutorAuthorization c r s of
        (Inr _, s') \<Rightarrow> (s', (case c of
            Some k \<Rightarrow> if rq_mode r = ReadOnly then AcceptedFree r else Accepted k r
          | None \<Rightarrow> AcceptedFree r))
      | (Inl _, s') \<Rightarrow> (s', NoAuth))"

fun auth_run :: "auth_op list \<Rightarrow> auth_state \<Rightarrow> auth_state \<times> auth_event list" where
  "auth_run [] s = (s, [])"
| "auth_run (oper # ops) s =
     (let (s', ev) = auth_exec oper s; (s'', evs) = auth_run ops s' in (s'', ev # evs))"

section \<open>Lemmas\<close>

lemma sameBinding_iff: "sameBinding a b \<longleftrightarrow> a = b"
  by (auto simp: sameBinding_def)

lemma binding_id [simp]: "binding (r :: executor_request) = r"
  by (simp add: binding_def)

text \<open>A write request passes only with a capability that is bound to it, and unbinds it.\<close>

lemma consume_accepts:
  assumes "consumeDurableExecutorAuthorization c r s = (Inr u, s')" "rq_mode r \<noteq> ReadOnly"
  obtains k where "c = Some k" "(k, binding r) \<in> set (cap_issued s)"
    "s' = s\<lparr>cap_issued := filter (\<lambda>e. fst e \<noteq> k) (cap_issued s)\<rparr>"
  using assms
  by (auto simp: consumeDurableExecutorAuthorization_def Let_def sameBinding_iff
      split: option.splits if_splits dest: map_of_SomeD)

definition auth_inv :: "auth_event list \<Rightarrow> auth_state \<Rightarrow> bool" where
  "auth_inv past s \<longleftrightarrow>
     (\<forall>k r. (k, r) \<in> set (cap_issued s) \<longrightarrow> Issued k r \<in> set past \<and> (\<forall>r'. Accepted k r' \<notin> set past))
   \<and> (\<forall>k r. Accepted k r \<in> set past \<longrightarrow> Issued k r \<in> set past)
   \<and> (\<forall>k r. Issued k r \<in> set past \<longrightarrow> k < cap_next s)
   \<and> (\<forall>k r r'. Issued k r \<in> set past \<longrightarrow> Issued k r' \<in> set past \<longrightarrow> r = r')
   \<and> (\<forall>k. length (filter (\<lambda>e. \<exists>r. e = Accepted k r) past) \<le> 1)"

lemma auth_exec_cases:
  assumes "auth_exec oper s = (s', ev)"
  obtains (issued) r where "oper = Issue r True" "ev = Issued (cap_next s) r" "rq_mode r \<noteq> ReadOnly"
      "s' = s\<lparr>cap_next := Suc (cap_next s), cap_issued := (cap_next s, r) # cap_issued s\<rparr>"
  | (accepted) k r where "oper = Consume (Some k) r" "ev = Accepted k r" "rq_mode r \<noteq> ReadOnly"
      "(k, r) \<in> set (cap_issued s)" "s' = s\<lparr>cap_issued := filter (\<lambda>e. fst e \<noteq> k) (cap_issued s)\<rparr>"
  | (other) "ev = NoAuth \<or> (\<exists>r. ev = AcceptedFree r \<and> rq_mode r = ReadOnly)"
      "cap_next s' = cap_next s" "set (cap_issued s') \<subseteq> set (cap_issued s)"
proof (cases oper)
  case (Issue r granted)
  show thesis
  proof (cases "rq_mode r = ReadOnly \<or> \<not> granted")
    case True
    then have "ev = NoAuth" "s' = s"
      using assms Issue by (auto simp: issueDurableExecutorAuthorization_def split: if_splits)
    then show thesis by (intro other) simp_all
  next
    case False
    then show thesis
      by (intro issued [of r]) (use assms Issue in \<open>auto simp: issueDurableExecutorAuthorization_def\<close>)
  qed
next
  case (Consume c r)
  obtain res s2 where run: "consumeDurableExecutorAuthorization c r s = (res, s2)" by fastforce
  have keep: "cap_next s2 = cap_next s" "set (cap_issued s2) \<subseteq> set (cap_issued s)"
    using run by (auto simp: consumeDurableExecutorAuthorization_def Let_def split: option.splits if_splits)
  show thesis
  proof (cases "rq_mode r = ReadOnly \<or> isl res")
    case True
    have "ev = NoAuth \<or> (\<exists>r. ev = AcceptedFree r \<and> rq_mode r = ReadOnly)"
      using True run assms Consume
      by (cases res) (auto simp: consumeDurableExecutorAuthorization_def split: option.splits)
    moreover have "s' = s2"
      using run assms Consume by (auto split: sum.splits)
    ultimately show thesis
      using keep by (intro other) simp_all
  next
    case False
    then obtain u where u: "res = Inr u" by (cases res) auto
    from False have writes: "rq_mode r \<noteq> ReadOnly" by simp
    from consume_accepts [OF run [unfolded u] writes] obtain k where
      "c = Some k" "(k, r) \<in> set (cap_issued s)" "s2 = s\<lparr>cap_issued := filter (\<lambda>e. fst e \<noteq> k) (cap_issued s)\<rparr>"
      by auto
    then show thesis
      by (intro accepted [of k r]) (use Consume assms run u False in auto)
  qed
qed

lemma auth_invD:
  assumes "auth_inv past s"
  shows "\<And>k r. (k, r) \<in> set (cap_issued s) \<Longrightarrow> Issued k r \<in> set past"
    and "\<And>k r r'. (k, r) \<in> set (cap_issued s) \<Longrightarrow> Accepted k r' \<notin> set past"
    and "\<And>k r. Accepted k r \<in> set past \<Longrightarrow> Issued k r \<in> set past"
    and "\<And>k r. Issued k r \<in> set past \<Longrightarrow> k < cap_next s"
    and "\<And>k r r'. Issued k r \<in> set past \<Longrightarrow> Issued k r' \<in> set past \<Longrightarrow> r = r'"
    and "\<And>k. length (filter (\<lambda>e. \<exists>r. e = Accepted k r) past) \<le> 1"
  using assms unfolding auth_inv_def by blast+

lemma auth_exec_inv:
  assumes inv: "auth_inv past s" and "auth_exec oper s = (s', ev)"
  shows "auth_inv (past @ [ev]) s'"
  using assms(2)
proof (cases rule: auth_exec_cases)
  case (issued r)
  have fresh: "Issued (cap_next s) r' \<notin> set past" "Accepted (cap_next s) r' \<notin> set past" for r'
    using auth_invD(3,4) [OF inv] by blast+
  have old: "k \<noteq> cap_next s \<and> k < cap_next s" if "Issued k r' \<in> set past" for k r'
    using auth_invD(4) [OF inv that] by simp
  show ?thesis
    unfolding auth_inv_def
  proof (intro conjI allI impI)
    fix k q q' assume "(k, q) \<in> set (cap_issued s')"
    with issued fresh auth_invD(1,2) [OF inv] show "Issued k q \<in> set (past @ [ev])" "Accepted k q' \<notin> set (past @ [ev])"
      by auto
  next
    fix k q assume "Accepted k q \<in> set (past @ [ev])"
    with issued auth_invD(3) [OF inv] show "Issued k q \<in> set (past @ [ev])" by auto
  next
    fix k q assume "Issued k q \<in> set (past @ [ev])"
    with issued old show "k < cap_next s'" by (auto simp: less_Suc_eq)
  next
    fix k q q' assume "Issued k q \<in> set (past @ [ev])" "Issued k q' \<in> set (past @ [ev])"
    with issued fresh auth_invD(5) [OF inv] show "q = q'" by auto
  next
    fix k show "length (filter (\<lambda>e. \<exists>r. e = Accepted k r) (past @ [ev])) \<le> 1"
      using issued auth_invD(6) [OF inv, of k] by simp
  qed
next
  case (accepted k r)
  have fresh: "Accepted k r' \<notin> set past" for r'
    using auth_invD(2) [OF inv accepted(4)] .
  then have none: "filter (\<lambda>e. \<exists>r. e = Accepted k r) past = []"
    by (auto simp: filter_empty_conv)
  show ?thesis
    unfolding auth_inv_def
  proof (intro conjI allI impI)
    fix j q q' assume "(j, q) \<in> set (cap_issued s')"
    with accepted auth_invD(1,2) [OF inv] show "Issued j q \<in> set (past @ [ev])" "Accepted j q' \<notin> set (past @ [ev])"
      by auto
  next
    fix j q assume "Accepted j q \<in> set (past @ [ev])"
    with accepted auth_invD(1,3) [OF inv] show "Issued j q \<in> set (past @ [ev])" by auto
  next
    fix j q assume "Issued j q \<in> set (past @ [ev])"
    with accepted auth_invD(4) [OF inv] show "j < cap_next s'" by auto
  next
    fix j q q' assume "Issued j q \<in> set (past @ [ev])" "Issued j q' \<in> set (past @ [ev])"
    with accepted auth_invD(5) [OF inv] show "q = q'" by auto
  next
    fix j show "length (filter (\<lambda>e. \<exists>r. e = Accepted j r) (past @ [ev])) \<le> 1"
      using accepted none auth_invD(6) [OF inv, of j] by (cases "j = k") simp_all
  qed
next
  case other
  have sub: "(k, q) \<in> set (cap_issued s') \<Longrightarrow> (k, q) \<in> set (cap_issued s)" for k q
    using other(3) by blast
  show ?thesis
    unfolding auth_inv_def
  proof (intro conjI allI impI)
    fix j q q' assume "(j, q) \<in> set (cap_issued s')"
    with other(1) auth_invD(1,2) [OF inv sub] show "Issued j q \<in> set (past @ [ev])" "Accepted j q' \<notin> set (past @ [ev])"
      by auto
  next
    fix j q assume "Accepted j q \<in> set (past @ [ev])"
    with other(1) auth_invD(3) [OF inv] show "Issued j q \<in> set (past @ [ev])" by auto
  next
    fix j q assume "Issued j q \<in> set (past @ [ev])"
    with other(1,2) auth_invD(4) [OF inv] show "j < cap_next s'" by auto
  next
    fix j q q' assume "Issued j q \<in> set (past @ [ev])" "Issued j q' \<in> set (past @ [ev])"
    with other(1) auth_invD(5) [OF inv] show "q = q'" by auto
  next
    fix j show "length (filter (\<lambda>e. \<exists>r. e = Accepted j r) (past @ [ev])) \<le> 1"
      using other(1) auth_invD(6) [OF inv, of j] by auto
  qed
qed

lemma auth_run_inv: "auth_inv past s \<Longrightarrow> auth_run ops s = (s', evs) \<Longrightarrow> auth_inv (past @ evs) s'"
proof (induction ops arbitrary: past s s' evs)
  case (Cons oper ops)
  obtain s1 ev where e: "auth_exec oper s = (s1, ev)" by fastforce
  obtain s2 evs' where r: "auth_run ops s1 = (s2, evs')" by fastforce
  from Cons.prems(2) e r have "s' = s2" "evs = ev # evs'" by auto
  with Cons.IH [OF auth_exec_inv [OF Cons.prems(1) e] r] show ?case by simp
qed simp

lemma no_authorizations_inv: "auth_inv [] no_authorizations"
  by (simp add: auth_inv_def no_authorizations_def)

section \<open>Property\<close>

text \<open>A capability is good for one run of the very action it was issued for: in every run of
the module, a write request accepted on a capability is the request that capability was issued for
upon an approved claim, and no capability is accepted twice.\<close>

lemma authorization_single_use:
  assumes "auth_run ops no_authorizations = (s, evs)"
  shows "(Accepted k r \<in> set evs \<longrightarrow> Issued k r \<in> set evs)
    \<and> length (filter (\<lambda>e. \<exists>r. e = Accepted k r) evs) \<le> 1
    \<and> (Issued k r \<in> set evs \<and> Issued k r' \<in> set evs \<longrightarrow> r = r')"
  using auth_invD(3,5,6) [OF auth_run_inv [OF no_authorizations_inv assms, simplified]] by blast

definition sample_request :: executor_request where
  "sample_request = \<lparr> rq_actionId = ''a'', rq_title = ''t'', rq_prompt = ''p'', rq_workspace = ''/w'',
     rq_mode = WorkspaceWrite \<rparr>"

lemma authorization_single_use_witness:
  "length (filter (\<lambda>e. \<exists>r. e = Accepted 0 r)
     (snd (auth_run [Issue sample_request True, Consume (Some 0) sample_request, Consume (Some 0) sample_request]
        no_authorizations))) = 1"
proof -
  let ?ops = "[Issue sample_request True, Consume (Some 0) sample_request, Consume (Some 0) sample_request]"
  have run: "auth_run ?ops no_authorizations
      = (fst (auth_run ?ops no_authorizations), [Issued 0 sample_request, Accepted 0 sample_request, NoAuth])"
    by code_simp
  from authorization_single_use [OF run, of 0 sample_request sample_request] show ?thesis
    by (subst run) simp
qed

end
