(* ===== verification/Workspace_Policy.thy ===== *)
theory Workspace_Policy
  imports Js_Prelude "HOL-Library.Sublist"
begin

text \<open>
  Where executors may work (execution/workspace-policy.ts) and the setting that says so
  (execution/config.ts). An absolute path is the list of its segments, the root directory the empty
  list; \<open>resolve\<close> and \<open>relative\<close> are those of Node's path module on POSIX. \<open>realpath\<close> is the file
  system's, a parameter.
\<close>

section \<open>Paths\<close>

type_synonym path = "string list"

fun normalize :: "path \<Rightarrow> string list \<Rightarrow> path" where
  "normalize acc [] = acc"
| "normalize acc (s # ss) =
     (if s = [] \<or> s = ''.'' then normalize acc ss
      else if s = ''..'' then normalize (butlast acc) ss
      else normalize (acc @ [s]) ss)"

definition isAbsolute :: "string \<Rightarrow> bool" where
  "isAbsolute s = starts_with ''/'' s"

definition resolve :: "path \<Rightarrow> string \<Rightarrow> path" where
  "resolve cwd s = normalize (if isAbsolute s then [] else cwd) (split_on CHR ''/'' s)"

fun strip_common :: "path \<Rightarrow> path \<Rightarrow> path \<times> path" where
  "strip_common (a # as) (b # bs) = (if a = b then strip_common as bs else (a # as, b # bs))"
| "strip_common as bs = (as, bs)"

definition relative :: "path \<Rightarrow> path \<Rightarrow> string" where
  "relative base target =
     (let (up, down) = strip_common base target in join ''/'' (replicate (length up) ''..'' @ down))"

text \<open>A path the file system or \<open>resolve\<close> returns.\<close>

definition proper_path :: "path \<Rightarrow> bool" where
  "proper_path p = (\<forall>s\<in>set p. s \<noteq> [] \<and> s \<noteq> ''..'' \<and> CHR ''/'' \<notin> set s)"

section \<open>The policy\<close>

definition contains :: "path \<Rightarrow> path \<Rightarrow> bool" where
  "contains base target =
     (let p = relative base target in p = [] \<or> (\<not> starts_with ''..'' p \<and> \<not> isAbsolute p))"

definition create_policy ::
  "(path \<Rightarrow> path result) \<Rightarrow> path \<Rightarrow> string list \<Rightarrow> path list result" where
  "create_policy realpath cwd configuredRoots =
     (if configuredRoots = [] then throw ''at least one local workspace root is required''
      else
        rbind (map_result (\<lambda>base. rbind (realpath (resolve cwd base)) (\<lambda>canonical.
            if canonical = [] then throw ''the filesystem root cannot be used as a workspace root''
            else Inr canonical)) configuredRoots) (\<lambda>roots.
        Inr (first_occurrences roots)))"

definition authorizeExisting ::
  "(path \<Rightarrow> path result) \<Rightarrow> path \<Rightarrow> path list \<Rightarrow> string \<Rightarrow> path result" where
  "authorizeExisting realpath cwd roots target =
     rbind (realpath (resolve cwd target)) (\<lambda>canonical.
       if list_ex (\<lambda>base. contains base canonical) roots then Inr canonical
       else throw (''local path is outside the configured workspace roots: '' @ target))"

definition authorizeCreation ::
  "(path \<Rightarrow> path result) \<Rightarrow> path \<Rightarrow> path list \<Rightarrow> string \<Rightarrow> path result" where
  "authorizeCreation realpath cwd roots target =
     (let absolute = resolve cwd target in
      rbind (realpath (butlast absolute)) (\<lambda>parent.
        if list_ex (\<lambda>base. contains base parent) roots
        then Inr (if absolute = [] then parent else parent @ [last absolute])
        else throw (''local path is outside the configured workspace roots: '' @ target)))"

section \<open>The execution setting\<close>

datatype execution_config = LocalExecution "path list" | RemoteExecution

text \<open>\<open>JSON.parse\<close> of the setting is a parameter: None where it throws.\<close>

definition workspaceRoots ::
  "(string \<Rightarrow> jval option) \<Rightarrow> path \<Rightarrow> string option \<Rightarrow> path list result" where
  "workspaceRoots parse cwd setting =
     (case setting of
        None \<Rightarrow> Inr [cwd]
      | Some s \<Rightarrow>
          if blank s then Inr [cwd]
          else
            (case parse s of
               None \<Rightarrow> throw ''ASSISTANT_WORKSPACE_ROOTS must be a JSON array of absolute paths''
             | Some (JArr items) \<Rightarrow>
                 if items = [] \<or> list_ex (\<lambda>i. case i of JStr p \<Rightarrow> blank p \<or> \<not> isAbsolute p | _ \<Rightarrow> True) items
                 then throw ''ASSISTANT_WORKSPACE_ROOTS must be a non-empty JSON array of absolute paths''
                 else Inr (first_occurrences (map (\<lambda>i. case i of JStr p \<Rightarrow> resolve cwd p | _ \<Rightarrow> []) items))
             | Some _ \<Rightarrow> throw ''ASSISTANT_WORKSPACE_ROOTS must be a non-empty JSON array of absolute paths''))"

definition loadExecutionConfig ::
  "(string \<Rightarrow> jval option) \<Rightarrow> path \<Rightarrow> string option \<Rightarrow> string option \<Rightarrow> execution_config result" where
  "loadExecutionConfig parse cwd mode_setting roots_setting =
     (let mode = (case mode_setting of None \<Rightarrow> ''local'' | Some m \<Rightarrow> m) in
      if mode \<noteq> ''local'' \<and> mode \<noteq> ''remote''
      then throw (''ASSISTANT_EXECUTION_MODE must be local or remote, received '' @ mode)
      else if mode = ''local''
      then rbind (workspaceRoots parse cwd roots_setting) (\<lambda>roots. Inr (LocalExecution roots))
      else Inr RemoteExecution)"

section \<open>Lemmas\<close>

lemma normalize_proper: "proper_path acc \<Longrightarrow> (\<forall>s\<in>set ss. CHR ''/'' \<notin> set s) \<Longrightarrow> proper_path (normalize acc ss)"
proof (induction ss arbitrary: acc)
  case (Cons s ss)
  have "proper_path (butlast acc)"
    using Cons.prems(1) by (auto simp: proper_path_def dest: in_set_butlastD)
  moreover have "s \<noteq> [] \<Longrightarrow> s \<noteq> ''..'' \<Longrightarrow> proper_path (acc @ [s])"
    using Cons.prems by (simp add: proper_path_def)
  ultimately show ?case
    using Cons.IH Cons.prems by simp
qed simp

lemma split_on_sep: "s \<in> set (split_on d t) \<Longrightarrow> d \<notin> set s"
proof (induction t arbitrary: s)
  case (Cons c t)
  have "s = [] \<or> s = [c] \<or> s \<in> set (split_on d t) \<or> (\<exists>w\<in>set (split_on d t). s = c # w)" and "c \<noteq> d \<or> s = [] \<or> s \<in> set (split_on d t)"
    using Cons.prems by (auto split: if_splits list.splits)
  with Cons.IH show ?case
    by (cases "c = d") auto
qed simp

lemma resolve_proper: "proper_path cwd \<Longrightarrow> proper_path (resolve cwd s)"
  unfolding resolve_def by (rule normalize_proper) (auto simp: proper_path_def dest: split_on_sep)

lemma strip_common_split:
  "strip_common a b = (u, v) \<Longrightarrow> \<exists>c. a = c @ u \<and> b = c @ v \<and> (u = [] \<or> v = [] \<or> hd u \<noteq> hd v)"
proof (induction a b rule: strip_common.induct)
  case (1 a as b bs)
  show ?case
  proof (cases "a = b")
    case True
    with 1 obtain c where "as = c @ u \<and> bs = c @ v \<and> (u = [] \<or> v = [] \<or> hd u \<noteq> hd v)" by auto
    with True show ?thesis by (intro exI [of _ "a # c"]) simp
  qed (use 1 in auto)
qed auto

lemma strip_common_prefix: "strip_common base (base @ rest) = ([], rest)"
  by (induction base) (cases rest; simp)+

lemma join_Cons_starts: "p \<noteq> [] \<Longrightarrow> \<exists>t. join ''/'' (p # ps) = p @ t \<and> (t = [] \<or> hd t = CHR ''/'')"
  by (cases ps) auto

lemma starts_dots_segment:
  assumes "s \<noteq> []" "s \<noteq> ''..''" "CHR ''/'' \<notin> set s"
  shows "starts_with ''..'' (join ''/'' (s # ss)) = starts_with ''..'' s"
proof -
  from join_Cons_starts [OF assms(1)] obtain t where t: "join ''/'' (s # ss) = s @ t" "t = [] \<or> hd t = CHR ''/''"
    by blast
  show ?thesis
    unfolding t(1) using assms t(2)
    by (cases s; cases "tl s"; cases t) (auto simp: numeral_2_eq_2)
qed

lemma relative_inside: "relative base (base @ rest) = join ''/'' rest"
  by (simp add: relative_def strip_common_prefix)

lemma relative_outside:
  assumes "\<not> prefix base target"
  shows "starts_with ''..'' (relative base target)"
proof -
  obtain u v where uv: "strip_common base target = (u, v)" by fastforce
  with strip_common_split [OF uv] assms have "u \<noteq> []"
    by (auto simp: prefix_def)
  then obtain n where "length u = Suc n"
    by (cases u) auto
  then have "relative base target = join ''/'' (''..'' # (replicate n ''..'' @ v))"
    by (simp add: relative_def uv)
  moreover obtain t where "join ''/'' (''..'' # (replicate n ''..'' @ v)) = ''..'' @ t"
    using join_Cons_starts [of "''..''" "replicate n ''..'' @ v"] by auto
  ultimately show ?thesis
    by (simp add: starts_with_iff)
qed

text \<open>What \<open>contains\<close> accepts.\<close>

lemma contains_inside:
  assumes "proper_path rest"
  shows "contains base (base @ rest) \<longleftrightarrow> rest = [] \<or> \<not> starts_with ''..'' (hd rest)"
proof (cases rest)
  case Nil
  then show ?thesis
    using relative_inside [of base "[]"] by (simp add: contains_def)
next
  case (Cons s ss)
  have s: "s \<noteq> []" "s \<noteq> ''..''" "CHR ''/'' \<notin> set s"
    using assms Cons by (auto simp: proper_path_def)
  obtain c cs where "s = c # cs" "c \<noteq> CHR ''/''"
    using s by (cases s) auto
  then have "join ''/'' (s # ss) \<noteq> []" "\<not> isAbsolute (join ''/'' (s # ss))"
    using join_Cons_starts [OF s(1), of ss] by (auto simp: isAbsolute_def)
  with starts_dots_segment [OF s] Cons show ?thesis
    by (simp add: contains_def relative_inside)
qed

lemma contains_prefix: "contains base target \<Longrightarrow> prefix base target"
  using relative_outside [of base target]
  by (cases "relative base target = []") (auto simp: contains_def Let_def)

lemma some_root_prefix:
  "list_ex (\<lambda>base. contains base p) roots \<Longrightarrow> \<forall>base\<in>set roots. base \<noteq> [] \<Longrightarrow>
   \<exists>base\<in>set roots. base \<noteq> [] \<and> prefix base p"
  unfolding list_ex_iff using contains_prefix by blast

section \<open>Properties\<close>

text \<open>A workspace root admits exactly the paths below it: on proper paths, \<open>contains base
target\<close> holds when the target is the base itself or is reached from it by segments the first of
which does not begin with two dots.\<close>

lemma contains_iff_below:
  assumes "proper_path target"
  shows "contains base target \<longleftrightarrow>
    (\<exists>rest. target = base @ rest \<and> (rest = [] \<or> \<not> starts_with ''..'' (hd rest)))"
proof
  assume c: "contains base target"
  then obtain rest where rest: "target = base @ rest"
    using contains_prefix by (auto simp: prefix_def)
  with assms have "proper_path rest" by (simp add: proper_path_def)
  with c rest show "\<exists>rest. target = base @ rest \<and> (rest = [] \<or> \<not> starts_with ''..'' (hd rest))"
    using contains_inside by blast
next
  assume "\<exists>rest. target = base @ rest \<and> (rest = [] \<or> \<not> starts_with ''..'' (hd rest))"
  then obtain rest where rest: "target = base @ rest" "rest = [] \<or> \<not> starts_with ''..'' (hd rest)" by blast
  with assms have "proper_path rest" by (simp add: proper_path_def)
  with rest show "contains base target"
    using contains_inside by blast
qed

text \<open>C24. What the policy authorizes lies below one of the configured roots after symbolic links
are resolved, none of which is the root of the file system: the path itself for an existing target,
its parent directory for one to be created.\<close>

theorem authorized_below_root:
  assumes "create_policy realpath cwd configured = Inr roots"
  shows "(authorizeExisting realpath cwd roots target = Inr path \<longrightarrow>
      realpath (resolve cwd target) = Inr path \<and> (\<exists>base\<in>set roots. base \<noteq> [] \<and> prefix base path))
   \<and> (authorizeCreation realpath cwd roots target = Inr path' \<longrightarrow>
      (\<exists>parent. realpath (butlast (resolve cwd target)) = Inr parent
        \<and> (path' = parent \<or> path' = parent @ [last (resolve cwd target)])
        \<and> (\<exists>base\<in>set roots. base \<noteq> [] \<and> prefix base parent)))"
proof (intro conjI impI)
  have proper: "\<forall>base\<in>set roots. base \<noteq> []"
    using assms by (auto simp: create_policy_def rbind_Inr_iff dest!: map_result_set split: if_splits)
  show "realpath (resolve cwd target) = Inr path" "\<exists>base\<in>set roots. base \<noteq> [] \<and> prefix base path"
    if "authorizeExisting realpath cwd roots target = Inr path"
    using that some_root_prefix [OF _ proper, of path]
    by (auto simp: authorizeExisting_def rbind_Inr_iff split: if_splits)
  assume "authorizeCreation realpath cwd roots target = Inr path'"
  then obtain parent where "realpath (butlast (resolve cwd target)) = Inr parent"
    "path' = parent \<or> path' = parent @ [last (resolve cwd target)]"
    "list_ex (\<lambda>base. contains base parent) roots"
    by (auto simp: authorizeCreation_def Let_def rbind_Inr_iff split: if_splits)
  with some_root_prefix [OF this(3) proper]
  show "\<exists>parent. realpath (butlast (resolve cwd target)) = Inr parent
        \<and> (path' = parent \<or> path' = parent @ [last (resolve cwd target)])
        \<and> (\<exists>base\<in>set roots. base \<noteq> [] \<and> prefix base parent)"
    by blast
qed

section \<open>Witnesses\<close>

lemma contains_iff_below_witness:
  "contains [''w''] [''w'', ''a''] \<and> \<not> contains [''w''] [''w'', ''..a''] \<and> \<not> contains [''w''] [''wx'']"
proof -
  have "proper_path [''w'', ''a'']" "proper_path [''w'', ''..a'']" "proper_path [''wx'']"
    by (simp_all add: proper_path_def)
  from this [THEN contains_iff_below, of "[''w'']"] show ?thesis by simp
qed

definition sample_realpath :: "path \<Rightarrow> path result" where
  "sample_realpath p = (if p = [''link''] then Inr [''etc''] else Inr p)"

lemma authorized_below_root_witness:
  "create_policy sample_realpath [] [''/w''] = Inr [[''w'']]
   \<and> prefix [''w''] [''w'', ''a''] \<and> authorizeExisting sample_realpath [] [[''w'']] ''/w/a'' = Inr [''w'', ''a'']
   \<and> \<not> ok (authorizeExisting sample_realpath [] [[''w'']] ''/link'')"
proof -
  have created: "create_policy sample_realpath [] [''/w''] = Inr [[''w'']]"
    by code_simp
  have inside: "authorizeExisting sample_realpath [] [[''w'']] ''/w/a'' = Inr [''w'', ''a'']"
    by code_simp
  have "authorizeExisting sample_realpath [] [[''w'']] ''/link''
      = throw ''local path is outside the configured workspace roots: /link''"
    by code_simp
  with created inside authorized_below_root [OF created, of "''/w/a''" "[''w'', ''a'']"] show ?thesis
    by auto
qed

end
