(* ===== verification/Executor_Router.thy ===== *)
theory Executor_Router
  imports Claim_Authorization Workspace_Policy
begin

text \<open>
  The sequential executor router (execution/router.ts): one action at a time per id, the durable
  authorization consumed first, the workspace checked against the policy and the parent session,
  then the executors of the route tried in order as long as they fail for reasons of
  infrastructure. The subagent runtime is a parameter: \<open>dispatch i provider\<close> is what the i-th
  attempt with that provider does. The configuration records are read as maps.
\<close>

section \<open>Failures of infrastructure\<close>

text \<open>\<open>rate.?limit\<close>: the dot matches any character but a line terminator.\<close>

definition rate_limit_at :: "string \<Rightarrow> bool" where
  "rate_limit_at s =
     (starts_with ''rate'' s \<and>
      (starts_with ''limit'' (drop 4 s)
       \<or> (case drop 4 s of [] \<Rightarrow> False
          | c # rest \<Rightarrow> (of_char c :: nat) \<notin> {10, 13} \<and> starts_with ''limit'' rest)))"

fun has_rate_limit :: "string \<Rightarrow> bool" where
  "has_rate_limit [] = False"
| "has_rate_limit (c # cs) = (rate_limit_at (c # cs) \<or> has_rate_limit cs)"

definition infrastructure_words :: "string list" where
  "infrastructure_words =
     [''timeout'', ''timed out'', ''transport'', ''network'', ''connection'', ''socket'', ''websocket'', ''dns'',
      ''quota'', ''process-exit'', ''spawn'', ''enoent'', ''unauthorized'', ''authentication'', ''abort'',
      ''cancelled'', ''429'', ''502'', ''503'', ''504'']"

definition infrastructure_text :: "string \<Rightarrow> bool" where
  "infrastructure_text s =
     (let t = map lower_char s in list_ex (\<lambda>w. str_includes w t) infrastructure_words \<or> has_rate_limit t)"

definition diagnostic :: "string \<Rightarrow> string" where
  "diagnostic msg = take 4096 msg"

definition isInfrastructureFailure :: "string \<Rightarrow> bool" where
  "isInfrastructureFailure msg = infrastructure_text (diagnostic msg)"

section \<open>Types\<close>

datatype content_block = TextBlock string | OtherBlock jval

datatype attempt_status = AttemptCompleted | AttemptFailed

datatype failure_stage = StageStart | StageRun

record executor_attempt =
  ea_executor :: string
  ea_provider :: string
  ea_status :: attempt_status
  ea_stage :: "failure_stage option"
  ea_reason :: "string option"

record provider_names =
  pn_readOnly :: string
  pn_write :: string

record routed_request = executor_request +
  rr_parent_cwd :: "string option"
  rr_requestedExecutor :: "string option"
  rr_authorization :: "nat option"

record routed_result = executor_result +
  rt_attempts :: "executor_attempt list"
  rt_output :: "content_block list"

record subagent_result =
  sa_stopReason :: string
  sa_diagnostic :: "string option"
  sa_output :: "content_block list"

text \<open>
  An attempt: \<open>start\<close> rejects, or there is a run with its id, its result (or the error it rejects
  with) and what its disposal does.
\<close>

datatype dispatch_outcome =
    StartFails string
  | Started string "string + subagent_result" "unit result"

type_synonym dispatcher = "nat \<Rightarrow> string \<Rightarrow> dispatch_outcome"

record router_config =
  rc_roots :: "path list"
  rc_default :: string
  rc_providers :: "(string \<times> provider_names) list"
  rc_routes :: "(string \<times> string list) list"

section \<open>Operations\<close>

fun block_texts :: "content_block list \<Rightarrow> string list" where
  "block_texts [] = []"
| "block_texts (TextBlock t # bs) = t # block_texts bs"
| "block_texts (OtherBlock _ # bs) = block_texts bs"

definition summary :: "content_block list \<Rightarrow> string \<Rightarrow> string" where
  "summary blocks fallback =
     (let t = js_trim (join [char_of (10::nat)] (block_texts blocks)) in if t = [] then fallback else t)"

definition failed ::
  "string \<Rightarrow> string \<Rightarrow> executor_attempt list \<Rightarrow> subagent_result option \<Rightarrow> routed_result" where
  "failed actionId executor attempts res =
     (let output = (case res of Some r \<Rightarrow> sa_output r | None \<Rightarrow> []);
          reason = (case attempts of [] \<Rightarrow> None | _ \<Rightarrow> ea_reason (last attempts)) in
      \<lparr> rs_actionId = actionId, rs_executor = executor,
        rs_status = (case res of Some r \<Rightarrow> if sa_stopReason r = ''refusal'' then ExNeedsInput else ExFailed
                                | None \<Rightarrow> ExFailed),
        rs_summary = summary output (case reason of Some m \<Rightarrow> m | None \<Rightarrow> ''executor failed''),
        rs_sessionId = None, rt_attempts = attempts, rt_output = output \<rparr>)"

definition provider_for :: "exec_mode \<Rightarrow> provider_names \<Rightarrow> string" where
  "provider_for mode names = (if mode = ReadOnly then pn_readOnly names else pn_write names)"

definition run_failure :: "string \<Rightarrow> string \<Rightarrow> failure_stage \<Rightarrow> string \<Rightarrow> executor_attempt" where
  "run_failure executor provider stage reason =
     \<lparr> ea_executor = executor, ea_provider = provider, ea_status = AttemptFailed,
       ea_stage = Some stage, ea_reason = Some reason \<rparr>"

definition completed_result ::
  "string \<Rightarrow> string \<Rightarrow> string \<Rightarrow> executor_attempt list \<Rightarrow> subagent_result \<Rightarrow> routed_result" where
  "completed_result actionId executor runId attempts r =
     \<lparr> rs_actionId = actionId, rs_executor = executor, rs_status = ExCompleted,
       rs_summary = summary (sa_output r) ''executor completed without a text summary'',
       rs_sessionId = Some runId, rt_attempts = attempts, rt_output = sa_output r \<rparr>"

text \<open>
  The loop over the route; \<open>i\<close> counts the attempts. A failing disposal replaces whatever the body
  of the iteration was about to do.
\<close>

fun try_route ::
  "dispatcher \<Rightarrow> (string \<times> provider_names) list \<Rightarrow> string \<Rightarrow> exec_mode \<Rightarrow> string \<Rightarrow>
   nat \<Rightarrow> executor_attempt list \<Rightarrow> string list \<Rightarrow> routed_result result" where
  "try_route dispatch providers actionId mode requested i attempts [] =
     Inr (failed actionId (case attempts of [] \<Rightarrow> requested | _ \<Rightarrow> ea_executor (last attempts)) attempts None)"
| "try_route dispatch providers actionId mode requested i attempts (executor # rest) =
     (case map_of providers executor of
        None \<Rightarrow> throw (''executor route '' @ requested @ '' references unregistered executor '' @ executor)
      | Some names \<Rightarrow>
          (let provider = provider_for mode names in
           case dispatch i provider of
             StartFails err \<Rightarrow>
               (let reason = diagnostic err;
                    attempts' = attempts @ [run_failure executor provider StageStart reason] in
                if rest = [] \<or> \<not> isInfrastructureFailure reason
                then Inr (failed actionId executor attempts' None)
                else try_route dispatch providers actionId mode requested (Suc i) attempts' rest)
           | Started runId outcome dispose \<Rightarrow>
               rbind dispose (\<lambda>_.
               case outcome of
                 Inr r \<Rightarrow>
                   if sa_stopReason r = ''completed''
                   then Inr (completed_result actionId executor runId
                     (attempts @ [\<lparr> ea_executor = executor, ea_provider = provider, ea_status = AttemptCompleted,
                        ea_stage = None, ea_reason = None \<rparr>]) r)
                   else
                     (let reason = (case sa_diagnostic r of Some m \<Rightarrow> m | None \<Rightarrow> sa_stopReason r);
                          attempts' = attempts @ [run_failure executor provider StageRun reason] in
                      if rest = [] \<or> \<not> isInfrastructureFailure reason
                      then Inr (failed actionId executor attempts' (Some r))
                      else try_route dispatch providers actionId mode requested (Suc i) attempts' rest)
               | Inl err \<Rightarrow>
                   (let reason = diagnostic err;
                        attempts' = attempts @ [run_failure executor provider StageRun reason] in
                    if rest = [] \<or> \<not> isInfrastructureFailure reason
                    then Inr (failed actionId executor attempts' None)
                    else try_route dispatch providers actionId mode requested (Suc i) attempts' rest))))"

text \<open>
  What \<open>execute\<close> does between claiming the action id and giving it back. The authorization is
  consumed whatever comes after.
\<close>

definition execute_body ::
  "(path \<Rightarrow> path result) \<Rightarrow> path \<Rightarrow> router_config \<Rightarrow> dispatcher \<Rightarrow> routed_request \<Rightarrow> auth_state \<Rightarrow>
   routed_result result \<times> auth_state" where
  "execute_body realpath cwd config dispatch request s =
     (case consumeDurableExecutorAuthorization (rr_authorization request) request s of
        (Inl e, s') \<Rightarrow> (Inl e, s')
      | (Inr _, s') \<Rightarrow>
          (rbind (authorizeExisting realpath cwd (rc_roots config) (rq_workspace request)) (\<lambda>workspace.
           rbind (case rr_parent_cwd request of
                    None \<Rightarrow> Inr False
                  | Some p \<Rightarrow> if p = [] then Inr False
                      else rbind (authorizeExisting realpath cwd (rc_roots config) p) (\<lambda>q. Inr (q = workspace))) (\<lambda>same.
           if \<not> same then throw ''executor request workspace must match the parent DSH session workspace''
           else
             (let requested = (case rr_requestedExecutor request of Some e \<Rightarrow> e | None \<Rightarrow> rc_default config);
                  route = (case map_of (rc_routes config) requested of Some r \<Rightarrow> r | None \<Rightarrow> [requested]) in
              if map_of (rc_providers config) requested = None
              then throw (''executor '' @ requested @ '' is not registered'')
              else try_route dispatch (rc_providers config) (rq_actionId request) (rq_mode request)
                     requested 0 [] route))), s'))"

text \<open>The router's state: the ids being executed, and the module state of the authorizations.\<close>

record router_state =
  ro_active :: "string list"
  ro_auth :: auth_state

definition begin_execute :: "string \<Rightarrow> router_state \<Rightarrow> router_state result" where
  "begin_execute actionId st =
     (if actionId \<in> set (ro_active st)
      then throw (''action '' @ actionId @ '' already has an active executor'')
      else Inr (st\<lparr>ro_active := actionId # ro_active st\<rparr>))"

definition end_execute :: "string \<Rightarrow> router_state \<Rightarrow> router_state" where
  "end_execute actionId st = st\<lparr>ro_active := filter (\<lambda>a. a \<noteq> actionId) (ro_active st)\<rparr>"

definition execute ::
  "(path \<Rightarrow> path result) \<Rightarrow> path \<Rightarrow> router_config \<Rightarrow> dispatcher \<Rightarrow> routed_request \<Rightarrow> router_state \<Rightarrow>
   routed_result result \<times> router_state" where
  "execute realpath cwd config dispatch request st =
     (case begin_execute (rq_actionId request) st of
        Inl e \<Rightarrow> (Inl e, st)
      | Inr st1 \<Rightarrow>
          (let (res, auth) = execute_body realpath cwd config dispatch request (ro_auth st1) in
           (res, end_execute (rq_actionId request) (st1\<lparr>ro_auth := auth\<rparr>))))"

definition validateRouting ::
  "(string \<times> provider_names) list \<Rightarrow> (string \<times> string list) list \<Rightarrow> string \<Rightarrow> unit result" where
  "validateRouting providers routes default_executor =
     (if blank default_executor \<or> map_of providers default_executor = None
      then throw ''executor default must name a registered provider''
      else
        rbind (check_all (\<lambda>(i, names).
            if blank i \<or> blank (pn_readOnly names) \<or> blank (pn_write names)
            then throw (''executor '' @ (if i = [] then ''<empty>'' else i) @ '' requires readOnly and write providers'')
            else Inr ()) providers) (\<lambda>_.
        check_all (\<lambda>(i, route).
          if map_of providers i = None then throw (''executor route '' @ i @ '' has no registered provider'')
          else if route = [] \<or> hd route \<noteq> i \<or> length (remdups route) \<noteq> length route
          then throw (''executor route '' @ i @ '' must start with itself and contain unique entries'')
          else check_all (\<lambda>target. if map_of providers target = None
                then throw (''executor route '' @ i @ '' references unregistered executor '' @ target)
                else Inr ()) route) routes))"

definition create_router ::
  "(path \<Rightarrow> path result) \<Rightarrow> path \<Rightarrow> string list \<Rightarrow> (string \<times> provider_names) list \<Rightarrow>
   (string \<times> string list) list \<Rightarrow> string \<Rightarrow> router_config result" where
  "create_router realpath cwd workspaces providers routes default_executor =
     rbind (create_policy realpath cwd workspaces) (\<lambda>roots.
     rbind (validateRouting providers routes default_executor) (\<lambda>_.
     Inr \<lparr> rc_roots = roots, rc_default = default_executor, rc_providers = providers, rc_routes = routes \<rparr>))"

section \<open>Lemmas\<close>

definition failed_attempt :: "executor_attempt \<Rightarrow> bool" where
  "failed_attempt a \<longleftrightarrow> ea_status a = AttemptFailed \<and> ea_reason a \<noteq> None"

definition gave_way :: "executor_attempt \<Rightarrow> bool" where
  "gave_way a \<longleftrightarrow> failed_attempt a \<and> isInfrastructureFailure (the (ea_reason a))"

text \<open>
  What a list of attempts says of a route: the executors are tried in order, with the provider of
  the mode, and each but the last gave way for a reason of infrastructure.
\<close>

definition follows ::
  "(string \<times> provider_names) list \<Rightarrow> exec_mode \<Rightarrow> string list \<Rightarrow> executor_attempt list \<Rightarrow> bool" where
  "follows providers mode route attempts \<longleftrightarrow>
     map ea_executor attempts = take (length attempts) route
   \<and> length attempts \<le> length route
   \<and> (\<forall>a\<in>set attempts. \<exists>names. map_of providers (ea_executor a) = Some names
        \<and> ea_provider a = provider_for mode names)"

definition route_outcome :: "string list \<Rightarrow> routed_result \<Rightarrow> bool" where
  "route_outcome route r \<longleftrightarrow> rt_attempts r \<noteq> []
   \<and> (\<forall>a\<in>set (butlast (rt_attempts r)). gave_way a)
   \<and> rs_executor r = ea_executor (last (rt_attempts r))
   \<and> (if rs_status r = ExCompleted then ea_status (last (rt_attempts r)) = AttemptCompleted
      else failed_attempt (last (rt_attempts r))
        \<and> (length (rt_attempts r) = length route \<or> \<not> gave_way (last (rt_attempts r))))"

lemma follows_snoc:
  assumes "follows providers mode (tried @ rest) attempts" "length attempts = length tried" "rest = e # others"
    and "map_of providers e = Some names" "ea_executor a = e" "ea_provider a = provider_for mode names"
  shows "follows providers mode ((tried @ [e]) @ others) (attempts @ [a])"
  using assms by (auto simp: follows_def)

lemma failed_fields [simp]:
  "rt_attempts (failed i e as r) = as" "rs_executor (failed i e as r) = e" "rs_actionId (failed i e as r) = i"
  "rs_status (failed i e as r) \<noteq> ExCompleted"
  by (auto simp: failed_def Let_def split: option.splits)

lemma completed_fields [simp]:
  "rt_attempts (completed_result i e n as r) = as" "rs_executor (completed_result i e n as r) = e"
  "rs_actionId (completed_result i e n as r) = i" "rs_status (completed_result i e n as r) = ExCompleted"
  by (simp_all add: completed_result_def)

lemma run_failure_fields [simp]:
  "ea_executor (run_failure e p s m) = e" "ea_provider (run_failure e p s m) = p"
  "ea_reason (run_failure e p s m) = Some m" "failed_attempt (run_failure e p s m)"
  by (simp_all add: run_failure_def failed_attempt_def)

text \<open>One iteration: the loop stops with a result, goes on to the rest of the route, or throws.\<close>

lemma try_route_step:
  assumes "try_route dispatch providers actionId mode requested i attempts (e # rest) = Inr r"
  obtains (stop) a names where "map_of providers e = Some names" "ea_executor a = e"
      "ea_provider a = provider_for mode names" "rt_attempts r = attempts @ [a]" "rs_executor r = e"
      "rs_actionId r = actionId"
      "if rs_status r = ExCompleted then ea_status a = AttemptCompleted
       else failed_attempt a \<and> (rest = [] \<or> \<not> gave_way a)"
  | (next_executor) a names where "map_of providers e = Some names" "ea_executor a = e"
      "ea_provider a = provider_for mode names" "gave_way a" "rest \<noteq> []"
      "try_route dispatch providers actionId mode requested (Suc i) (attempts @ [a]) rest = Inr r"
proof -
  from assms obtain names where names: "map_of providers e = Some names"
    by (auto split: option.splits)
  let ?p = "provider_for mode names"
  have failure: thesis
    if "Inr r = (if rest = [] \<or> \<not> isInfrastructureFailure m
          then Inr (failed actionId e (attempts @ [run_failure e ?p s m]) res)
          else try_route dispatch providers actionId mode requested (Suc i) (attempts @ [run_failure e ?p s m]) rest)"
    for s m res
  proof (cases "rest = [] \<or> \<not> isInfrastructureFailure m")
    case True
    with that have r: "r = failed actionId e (attempts @ [run_failure e ?p s m]) res" by simp
    show thesis
      by (rule stop [of names "run_failure e ?p s m"]) (use True names in \<open>auto simp: r gave_way_def\<close>)
  next
    case False
    show thesis
      by (rule next_executor [of names "run_failure e ?p s m"])
        (use False names that in \<open>auto simp: gave_way_def\<close>)
  qed
  show thesis
  proof (cases "dispatch i ?p")
    case (StartFails err)
    with assms names show thesis
      by (intro failure [of "diagnostic err" StageStart None]) (simp add: Let_def)
  next
    case (Started runId outcome dispose)
    have disposed: "dispose = Inr ()"
      using assms names Started by (cases dispose) (auto simp: Let_def)
    show thesis
    proof (cases outcome)
      case (Inl err)
      with assms names Started disposed show thesis
        by (intro failure [of "diagnostic err" StageRun None]) (simp add: Let_def)
    next
      case (Inr res)
      show thesis
      proof (cases "sa_stopReason res = ''completed''")
        case True
        let ?a = "\<lparr> ea_executor = e, ea_provider = ?p, ea_status = AttemptCompleted, ea_stage = None, ea_reason = None \<rparr>"
        have "r = completed_result actionId e runId (attempts @ [?a]) res"
          using assms names Started disposed Inr True by (simp add: Let_def)
        then show thesis
          by (intro stop [of names ?a]) (simp_all add: names)
      next
        case False
        with assms names Started disposed Inr show thesis
          by (intro failure [of "case sa_diagnostic res of Some m \<Rightarrow> m | None \<Rightarrow> sa_stopReason res" StageRun "Some res"])
            (simp add: Let_def)
      qed
    qed
  qed
qed

lemma try_route_follows:
  assumes "try_route dispatch providers actionId mode requested i attempts rest = Inr r"
    and "follows providers mode (tried @ rest) attempts" "length attempts = length tried" "\<forall>a\<in>set attempts. gave_way a"
    and "rest \<noteq> []"
  shows "follows providers mode (tried @ rest) (rt_attempts r) \<and> route_outcome (tried @ rest) r \<and> rs_actionId r = actionId"
  using assms
proof (induction rest arbitrary: i attempts tried)
  case (Cons e rest)
  from Cons.prems(1) show ?case
  proof (cases rule: try_route_step)
    case (stop a names)
    have "follows providers mode ((tried @ [e]) @ rest) (attempts @ [a])"
      by (rule follows_snoc [OF Cons.prems(2,3) refl stop(1-3)])
    with stop Cons.prems(3,4) show ?thesis
      by (auto simp: route_outcome_def)
  next
    case (next_executor a names)
    have "follows providers mode ((tried @ [e]) @ rest) (attempts @ [a])"
      by (rule follows_snoc [OF Cons.prems(2,3) refl next_executor(1-3)])
    from Cons.IH [OF next_executor(6) this] Cons.prems(3,4) next_executor(4,5) show ?thesis
      by simp
  qed
qed simp

text \<open>With every target registered and every disposal in order the loop returns.\<close>

lemma try_route_returns:
  assumes "\<forall>e\<in>set rest. map_of providers e \<noteq> None"
    and "\<And>j p n o' d. dispatch j p = Started n o' d \<Longrightarrow> d = Inr ()"
  shows "\<exists>r. try_route dispatch providers actionId mode requested i attempts rest = Inr r"
  using assms(1)
proof (induction rest arbitrary: i attempts)
  case (Cons e rest)
  then obtain names where names: "map_of providers e = Some names" by auto
  have others: "\<exists>r. try_route dispatch providers actionId mode requested (Suc i) as rest = Inr r" for as
    using Cons by simp
  show ?case
  proof (cases "dispatch i (provider_for mode names)")
    case (StartFails err)
    with names others show ?thesis by (simp add: Let_def)
  next
    case (Started n outcome d)
    with assms(2) have "d = Inr ()" by blast
    with names others Started show ?thesis
      by (cases outcome) (simp_all add: Let_def)
  qed
qed simp

definition requested_executor :: "router_config \<Rightarrow> routed_request \<Rightarrow> string" where
  "requested_executor config request =
     (case rr_requestedExecutor request of Some e \<Rightarrow> e | None \<Rightarrow> rc_default config)"

definition route_of :: "router_config \<Rightarrow> routed_request \<Rightarrow> string list" where
  "route_of config request =
     (case map_of (rc_routes config) (requested_executor config request) of
        Some r \<Rightarrow> r | None \<Rightarrow> [requested_executor config request])"

lemma validateRouting_ok:
  assumes "validateRouting providers routes default_executor = Inr ()"
  shows "map_of providers default_executor \<noteq> None"
    and "map_of routes i = Some route \<Longrightarrow> route \<noteq> [] \<and> hd route = i \<and> distinct route
      \<and> (\<forall>e\<in>set route. map_of providers e \<noteq> None)"
proof -
  from assms show "map_of providers default_executor \<noteq> None"
    by (auto simp: validateRouting_def split: if_splits)
  assume "map_of routes i = Some route"
  then have "(i, route) \<in> set routes" by (rule map_of_SomeD)
  moreover from assms have "check_all (\<lambda>(i, route).
      if map_of providers i = None then throw (''executor route '' @ i @ '' has no registered provider'')
      else if route = [] \<or> hd route \<noteq> i \<or> length (remdups route) \<noteq> length route
      then throw (''executor route '' @ i @ '' must start with itself and contain unique entries'')
      else check_all (\<lambda>target. if map_of providers target = None
            then throw (''executor route '' @ i @ '' references unregistered executor '' @ target)
            else Inr ()) route) routes = Inr ()"
    by (auto simp: validateRouting_def rbind_Inr_iff split: if_splits)
  ultimately have "(if map_of providers i = None then throw (''executor route '' @ i @ '' has no registered provider'')
      else if route = [] \<or> hd route \<noteq> i \<or> length (remdups route) \<noteq> length route
      then throw (''executor route '' @ i @ '' must start with itself and contain unique entries'')
      else check_all (\<lambda>target. if map_of providers target = None
            then throw (''executor route '' @ i @ '' references unregistered executor '' @ target)
            else Inr ()) route) = Inr ()"
    unfolding check_all_ok by fastforce
  then show "route \<noteq> [] \<and> hd route = i \<and> distinct route \<and> (\<forall>e\<in>set route. map_of providers e \<noteq> None)"
    by (auto simp: check_all_ok length_remdups_card_conv card_distinct split: if_splits)
qed

lemma execute_Inr:
  assumes "execute realpath cwd config dispatch request st = (Inr r, st')"
  obtains workspace where
    "authorizeExisting realpath cwd (rc_roots config) (rq_workspace request) = Inr workspace"
    "consumeDurableExecutorAuthorization (rr_authorization request) request (ro_auth st) = (Inr (), ro_auth st')"
    "rq_actionId request \<notin> set (ro_active st)" "ro_active st' = ro_active st"
    "map_of (rc_providers config) (requested_executor config request) \<noteq> None"
    "try_route dispatch (rc_providers config) (rq_actionId request) (rq_mode request)
       (requested_executor config request) 0 [] (route_of config request) = Inr r"
proof -
  from assms have idle: "rq_actionId request \<notin> set (ro_active st)"
    by (auto simp: execute_def begin_execute_def)
  obtain res auth where body: "execute_body realpath cwd config dispatch request (ro_auth st) = (res, auth)"
    by fastforce
  have "filter (\<lambda>a. a \<noteq> rq_actionId request) (ro_active st) = ro_active st"
    using idle by (intro filter_True) auto
  with assms idle body have res: "res = Inr r" and st': "ro_active st' = ro_active st" "ro_auth st' = auth"
    by (auto simp: execute_def begin_execute_def end_execute_def)
  obtain ok_auth s' where cons: "consumeDurableExecutorAuthorization (rr_authorization request) request (ro_auth st) = (ok_auth, s')"
    by fastforce
  with body res obtain u where "ok_auth = Inr u" "s' = auth"
    by (cases ok_auth) (auto simp: execute_body_def)
  with cons body res obtain workspace where
    "authorizeExisting realpath cwd (rc_roots config) (rq_workspace request) = Inr workspace"
    "map_of (rc_providers config) (requested_executor config request) \<noteq> None"
    "try_route dispatch (rc_providers config) (rq_actionId request) (rq_mode request)
       (requested_executor config request) 0 [] (route_of config request) = Inr r"
    unfolding requested_executor_def route_of_def
    by (auto simp: execute_body_def rbind_Inr_iff Let_def split: if_splits)
  with cons \<open>ok_auth = Inr u\<close> \<open>s' = auth\<close> idle st' show thesis
    by (intro that [of workspace]) simp_all
qed

section \<open>Properties\<close>

text \<open>The router keeps to its route: the attempts of a result are a prefix of the route of the
requested executor, each made with that executor's provider for the mode (the read-only one for a
read-only request); every attempt before the last failed for a reason of infrastructure; the result
is completed when the last attempt completed, and a failure is reported only when the route is
exhausted or the last failure is not one of infrastructure.\<close>

lemma execute_follows_route:
  assumes "execute realpath cwd config dispatch request st = (Inr r, st')"
    and "route_of config request \<noteq> []"
  shows "follows (rc_providers config) (rq_mode request) (route_of config request) (rt_attempts r)
    \<and> route_outcome (route_of config request) r \<and> rs_actionId r = rq_actionId request"
proof -
  from assms(1) have "try_route dispatch (rc_providers config) (rq_actionId request) (rq_mode request)
       (requested_executor config request) 0 [] (route_of config request) = Inr r"
    by (rule execute_Inr)
  from try_route_follows [OF this, of "[]"] assms(2) show ?thesis
    by (simp add: follows_def)
qed


text \<open>A router that could be created always answers: for a registered executor, a consumed
authorization and an admitted workspace, whatever the subagents do (as long as their disposal does
not throw) the route ends in a result, never in an unregistered executor.\<close>

lemma created_router_answers:
  assumes "create_router realpath cwd workspaces providers routes default_executor = Inr config"
    and "map_of providers (requested_executor config request) \<noteq> None"
    and "\<forall>j p n o' d. dispatch j p = Started n o' d \<longrightarrow> d = Inr ()"
  shows "\<exists>r. try_route dispatch (rc_providers config) (rq_actionId request) (rq_mode request)
    (requested_executor config request) 0 [] (route_of config request) = Inr r
    \<and> follows (rc_providers config) (rq_mode request) (route_of config request) (rt_attempts r)
    \<and> route_outcome (route_of config request) r"
proof -
  from assms(1) have config: "rc_providers config = providers" "rc_routes config = routes"
    and valid: "validateRouting providers routes default_executor = Inr ()"
    by (auto simp: create_router_def rbind_Inr_iff)
  have "route_of config request \<noteq> [] \<and> (\<forall>e\<in>set (route_of config request). map_of providers e \<noteq> None)"
  proof (cases "map_of routes (requested_executor config request)")
    case None
    with assms(2) show ?thesis by (simp add: route_of_def config)
  next
    case (Some route)
    with validateRouting_ok(2) [OF valid Some] show ?thesis by (simp add: route_of_def config)
  qed
  then have ne: "route_of config request \<noteq> []"
    and reg: "\<forall>e\<in>set (route_of config request). map_of (rc_providers config) e \<noteq> None"
    by (simp_all add: config)
  have disposes: "d = Inr ()" if "dispatch j p = Started n o' d" for j p n o' d
    using assms(3) that by metis
  obtain r where
    r: "try_route dispatch (rc_providers config) (rq_actionId request) (rq_mode request)
    (requested_executor config request) 0 [] (route_of config request) = Inr r"
    using try_route_returns [OF reg disposes] by (rule exE)
  from try_route_follows [OF r, of "[]"] ne have "follows (rc_providers config) (rq_mode request) (route_of config request) (rt_attempts r)
      \<and> route_outcome (route_of config request) r"
    by (simp add: follows_def)
  with r show ?thesis by blast
qed

section \<open>Witnesses\<close>

definition sample_providers :: "(string \<times> provider_names) list" where
  "sample_providers = [(''codex'', \<lparr> pn_readOnly = ''cr'', pn_write = ''cw'' \<rparr>),
     (''claude'', \<lparr> pn_readOnly = ''ar'', pn_write = ''aw'' \<rparr>)]"

definition sample_routes :: "(string \<times> string list) list" where
  "sample_routes = [(''codex'', [''codex'', ''claude''])]"

definition sample_config :: router_config where
  "sample_config = \<lparr> rc_roots = [[''w'']], rc_default = ''codex'', rc_providers = sample_providers,
     rc_routes = sample_routes \<rparr>"

definition sample_routed :: "exec_mode \<Rightarrow> nat option \<Rightarrow> routed_request" where
  "sample_routed mode cap = \<lparr> rq_actionId = ''a'', rq_title = ''t'', rq_prompt = ''p'', rq_workspace = ''/w'',
     rq_mode = mode, rr_parent_cwd = Some ''/w'', rr_requestedExecutor = None, rr_authorization = cap \<rparr>"

text \<open>The first attempt meets a rate limit, the second completes.\<close>

definition sample_dispatch :: dispatcher where
  "sample_dispatch i p = (if i = 0 then StartFails ''Rate-Limit hit''
     else Started ''s'' (Inr \<lparr> sa_stopReason = ''completed'', sa_diagnostic = None, sa_output = [TextBlock '' ok ''] \<rparr>) (Inr ()))"

definition sample_router :: router_state where
  "sample_router = \<lparr> ro_active = [],
     ro_auth = snd (projr (issueDurableExecutorAuthorization (sample_routed WorkspaceWrite None) True no_authorizations)) \<rparr>"

definition sample_run :: "routed_result result \<times> router_state" where
  "sample_run = execute sample_realpath [] sample_config sample_dispatch (sample_routed WorkspaceWrite (Some 0)) sample_router"

lemma sample_run_result:
  "case fst sample_run of Inr r \<Rightarrow> rs_summary r = ''ok'' \<and> map ea_provider (rt_attempts r) = [''cw'', ''aw''] | Inl _ \<Rightarrow> False"
  by code_simp

lemma sample_run_Inr:
  obtains r where "execute sample_realpath [] sample_config sample_dispatch (sample_routed WorkspaceWrite (Some 0))
      sample_router = (Inr r, snd sample_run)" "map ea_provider (rt_attempts r) = [''cw'', ''aw'']"
  using sample_run_result by (cases sample_run; cases "fst sample_run") (auto simp: sample_run_def)

lemma execute_follows_route_witness:
  "\<exists>r. fst sample_run = Inr r \<and> follows sample_providers WorkspaceWrite [''codex'', ''claude''] (rt_attempts r)
     \<and> route_outcome [''codex'', ''claude''] r"
proof -
  obtain r where r: "execute sample_realpath [] sample_config sample_dispatch (sample_routed WorkspaceWrite (Some 0))
      sample_router = (Inr r, snd sample_run)" by (rule sample_run_Inr)
  have route: "route_of sample_config (sample_routed WorkspaceWrite (Some 0)) = [''codex'', ''claude'']"
    by code_simp
  have "rc_providers sample_config = sample_providers" "rq_mode (sample_routed WorkspaceWrite (Some 0)) = WorkspaceWrite"
    by (simp_all add: sample_config_def sample_routed_def)
  with execute_follows_route [OF r] route have "follows sample_providers WorkspaceWrite [''codex'', ''claude''] (rt_attempts r)
     \<and> route_outcome [''codex'', ''claude''] r" by simp
  moreover have "fst sample_run = Inr r"
    using arg_cong [OF r, of fst] by (simp add: sample_run_def)
  ultimately show ?thesis by blast
qed


lemma created_router_answers_witness:
  "\<exists>r. try_route sample_dispatch (rc_providers sample_config) ''a'' ReadOnly ''codex'' 0 []
     (route_of sample_config (sample_routed ReadOnly None)) = Inr r"
proof -
  have created: "create_router sample_realpath [] [''/w''] sample_providers sample_routes ''codex'' = Inr sample_config"
    by code_simp
  have registered: "map_of sample_providers (requested_executor sample_config (sample_routed ReadOnly None)) \<noteq> None"
    by (simp add: sample_providers_def requested_executor_def sample_config_def sample_routed_def)
  have disposes: "\<forall>j p n o' d. sample_dispatch j p = Started n o' d \<longrightarrow> d = Inr ()"
    by (simp add: sample_dispatch_def)
  have "rq_actionId (sample_routed ReadOnly None) = ''a''" "rq_mode (sample_routed ReadOnly None) = ReadOnly"
    "requested_executor sample_config (sample_routed ReadOnly None) = ''codex''"
    by (simp_all add: requested_executor_def sample_config_def sample_routed_def)
  with created_router_answers [OF created registered disposes] show ?thesis by auto
qed

end
