(* ===== verification/Executor_Worker.thy ===== *)
theory Executor_Worker
  imports Executor_Router Action_Store
begin

text \<open>
  The durable executor worker (execution/worker.ts and the settings check of
  execution/worker-plugin.ts): it claims the next action of its workspace, has an agent run it
  through the router, and settles or releases the claim. The store is the interface
  \<open>DurableExecutorStore\<close>, a record of operations over some state; the locale \<open>action_port\<close> states
  what the worker relies on, and the SQLite store provides it. While the worker awaits its agent and
  its store, others act on the store: \<open>world n\<close> is what they do before its next operation.
  Times are milliseconds; \<open>iso_text\<close> is the text of a date.
\<close>

section \<open>Types\<close>

record 's executor_store =
  xs_claim :: "timestamp \<Rightarrow> string \<Rightarrow> string \<Rightarrow> timestamp \<Rightarrow> timestamp \<Rightarrow> 's \<Rightarrow> (claimed_action option \<times> 's) result"
  xs_settle :: "timestamp \<Rightarrow> string \<Rightarrow> string \<Rightarrow> executor_result \<Rightarrow> 's \<Rightarrow> 's result"
  xs_release :: "timestamp \<Rightarrow> timestamp \<Rightarrow> action_release \<Rightarrow> 's \<Rightarrow> 's result"

record worker_config =
  wk_workerId :: string
  wk_workspace :: string
  wk_leaseMs :: "jnum option"
  wk_retryDelayMs :: "jnum option"
  wk_maxAttempts :: "jnum option"

record executor_worker =
  ew_workerId :: string
  ew_workspace :: string
  ew_leaseMs :: int
  ew_retryDelayMs :: int
  ew_maxAttempts :: int

datatype run_status = RunIdle | RunCompleted | RunNeedsInput | RunFailed | RunDeferred

record worker_run =
  wr_status :: run_status
  wr_actionId :: "string option"
  wr_attempt :: "nat option"
  wr_error :: "string option"

text \<open>An agent lease: the session's working directory and what its disposal does.\<close>

type_synonym agent_lease = "string option \<times> unit result"

section \<open>Operations\<close>

definition default_num :: "int \<Rightarrow> jnum option \<Rightarrow> jnum" where
  "default_num d n = (case n of Some x \<Rightarrow> x | None \<Rightarrow> Fin (of_int d))"

definition create_worker :: "worker_config \<Rightarrow> executor_worker result" where
  "create_worker config =
     (let lease = default_num 7200000 (wk_leaseMs config);
          retry = default_num 120000 (wk_retryDelayMs config);
          attempts = default_num 5 (wk_maxAttempts config) in
      if blank (wk_workerId config) then throw ''durable executor workerId is required''
      else if blank (wk_workspace config) then throw ''durable executor workspace is required''
      else if \<not> safe_integer lease \<or> int_num lease < 1000 then throw ''leaseMs must be an integer of at least 1000''
      else if \<not> safe_integer retry \<or> int_num retry < 0 then throw ''retryDelayMs must be a non-negative integer''
      else if \<not> safe_integer attempts \<or> int_num attempts < 1 then throw ''maxAttempts must be a positive integer''
      else Inr \<lparr> ew_workerId = wk_workerId config, ew_workspace = wk_workspace config,
                 ew_leaseMs = int_num lease, ew_retryDelayMs = int_num retry,
                 ew_maxAttempts = int_num attempts \<rparr>)"

definition backoff :: "nat \<Rightarrow> int" where
  "backoff attempt = min (2 ^ (attempt - 1)) 32"

definition nextRetry :: "(int \<Rightarrow> timestamp) \<Rightarrow> executor_worker \<Rightarrow> int \<Rightarrow> nat \<Rightarrow> timestamp result" where
  "nextRetry iso_text w now attempt = toISOString iso_text (now + ew_retryDelayMs w * backoff attempt)"

definition retryableResult :: "routed_result \<Rightarrow> bool" where
  "retryableResult r =
     (if rs_status r \<noteq> ExFailed \<or> rt_attempts r = [] then False
      else list_all (\<lambda>a. ea_status a = AttemptFailed
        \<and> isInfrastructureFailure (case ea_reason a of Some m \<Rightarrow> m | None \<Rightarrow> [])) (rt_attempts r))"

text \<open>The request read back from the store at its declared type.\<close>

definition mode_of_text :: "string \<Rightarrow> exec_mode" where
  "mode_of_text s =
     (if s = ''read-only'' then ReadOnly else if s = ''workspace-write'' then WorkspaceWrite else ExternalWrite)"

definition typed_request :: "jval \<Rightarrow> executor_request" where
  "typed_request v =
     \<lparr> rq_actionId = js_string (js_get v ''actionId''), rq_title = js_string (js_get v ''title''),
       rq_prompt = js_string (js_get v ''prompt''), rq_workspace = js_string (js_get v ''workspace''),
       rq_mode = mode_of_text (js_string (js_get v ''mode'')) \<rparr>"

definition routeRequest ::
  "claimed_action \<Rightarrow> string option \<Rightarrow> auth_state \<Rightarrow> (routed_request \<times> auth_state) result" where
  "routeRequest claim cwd s =
     (let r = typed_request (ca_request claim) in
      rbind (issueDurableExecutorAuthorization r (ca_approvalGranted claim) s) (\<lambda>(authorization, s').
      Inr (executor_request.extend r
        \<lparr> rr_parent_cwd = cwd, rr_requestedExecutor = ca_requestedExecutor claim,
          rr_authorization = authorization \<rparr>, s')))"

text \<open>What the agent and the router do for a claim: the result or the error, and the router's state.\<close>

definition run_claim ::
  "(routed_request \<Rightarrow> router_state \<Rightarrow> routed_result result \<times> router_state) \<Rightarrow>
   (string \<Rightarrow> string \<Rightarrow> agent_lease result) \<Rightarrow> executor_worker \<Rightarrow> claimed_action \<Rightarrow> router_state \<Rightarrow>
   routed_result result \<times> router_state" where
  "run_claim route acquire w claim rs =
     (case acquire (ca_actionId claim) (ew_workspace w) of
        Inl e \<Rightarrow> (Inl e, rs)
      | Inr (cwd, _) \<Rightarrow>
          (case routeRequest claim cwd (ro_auth rs) of
             Inl e \<Rightarrow> (Inl e, rs)
           | Inr (request, auth) \<Rightarrow> route request (rs\<lparr>ro_auth := auth\<rparr>)))"

definition executor_fields :: "routed_result \<Rightarrow> executor_result" where
  "executor_fields r =
     \<lparr> rs_actionId = rs_actionId r, rs_executor = rs_executor r, rs_status = rs_status r,
       rs_summary = rs_summary r, rs_sessionId = rs_sessionId r \<rparr>"

fun settled_run :: "exec_status \<Rightarrow> run_status" where
  "settled_run ExCompleted = RunCompleted"
| "settled_run ExNeedsInput = RunNeedsInput"
| "settled_run ExFailed = RunFailed"

definition release_input ::
  "executor_worker \<Rightarrow> claimed_action \<Rightarrow> disposition \<Rightarrow> string \<Rightarrow> timestamp option \<Rightarrow> action_release" where
  "release_input w claim d err later =
     \<lparr> al_actionId = ca_actionId claim, al_workerId = ew_workerId w, al_disposition = d,
       al_error = err, al_availableAt = later \<rparr>"

text \<open>The try block after the router has answered: the run's answer with the store, or the error.\<close>

definition finish_claim ::
  "(int \<Rightarrow> timestamp) \<Rightarrow> 's executor_store \<Rightarrow> timestamp \<Rightarrow> timestamp \<Rightarrow> executor_worker \<Rightarrow> int \<Rightarrow>
   claimed_action \<Rightarrow> routed_result \<Rightarrow> 's \<Rightarrow> (worker_run \<times> 's) result" where
  "finish_claim iso_text store clock js_now w now claim r s =
     (if retryableResult r \<and> int (ca_attempt claim) < ew_maxAttempts w
      then
        rbind (nextRetry iso_text w now (ca_attempt claim)) (\<lambda>later.
        rbind (xs_release store clock js_now (release_input w claim Retry (rs_summary r) (Some later)) s) (\<lambda>s'.
        Inr (\<lparr> wr_status = RunDeferred, wr_actionId = Some (ca_actionId claim),
               wr_attempt = Some (ca_attempt claim), wr_error = Some (rs_summary r) \<rparr>, s')))
      else
        rbind (xs_settle store clock (ca_actionId claim) (ew_workerId w) (executor_fields r) s) (\<lambda>s'.
        Inr (\<lparr> wr_status = settled_run (rs_status r), wr_actionId = Some (ca_actionId claim),
               wr_attempt = Some (ca_attempt claim), wr_error = None \<rparr>, s')))"

text \<open>The catch block.\<close>

definition abandon_claim ::
  "(int \<Rightarrow> timestamp) \<Rightarrow> 's executor_store \<Rightarrow> timestamp \<Rightarrow> timestamp \<Rightarrow> executor_worker \<Rightarrow> int \<Rightarrow>
   claimed_action \<Rightarrow> string \<Rightarrow> 's \<Rightarrow> (worker_run \<times> 's) result" where
  "abandon_claim iso_text store clock js_now w now claim err s =
     (let retry = (isInfrastructureFailure err \<and> int (ca_attempt claim) < ew_maxAttempts w) in
      rbind (if retry then rbind (nextRetry iso_text w now (ca_attempt claim)) (\<lambda>t. Inr (Some t)) else Inr None) (\<lambda>later.
      rbind (xs_release store clock js_now
               (release_input w claim (if retry then Retry else GiveUp) (diagnostic err) later) s) (\<lambda>s'.
      Inr (\<lparr> wr_status = (if retry then RunDeferred else RunFailed), wr_actionId = Some (ca_actionId claim),
             wr_attempt = Some (ca_attempt claim), wr_error = Some (diagnostic err) \<rparr>, s'))))"

definition disposal :: "agent_lease result \<Rightarrow> unit result" where
  "disposal lease = (case lease of Inl _ \<Rightarrow> Inr () | Inr (_, d) \<Rightarrow> d)"

text \<open>
  \<open>runOnce\<close>. The store it returns is the one after its last operation; the answer is the error of
  the lease's disposal where that throws.
\<close>

definition runOnce ::
  "(int \<Rightarrow> timestamp) \<Rightarrow> 's executor_store \<Rightarrow> (nat \<Rightarrow> timestamp) \<Rightarrow> (nat \<Rightarrow> 's \<Rightarrow> 's) \<Rightarrow>
   (routed_request \<Rightarrow> router_state \<Rightarrow> routed_result result \<times> router_state) \<Rightarrow>
   (string \<Rightarrow> string \<Rightarrow> agent_lease result) \<Rightarrow> executor_worker \<Rightarrow> int \<Rightarrow> router_state \<Rightarrow> 's \<Rightarrow>
   worker_run result \<times> router_state \<times> 's" where
  "runOnce iso_text store clock world route acquire w now rs s =
     (case rbind (toISOString iso_text now) (\<lambda>from.
           rbind (toISOString iso_text (now + ew_leaseMs w)) (\<lambda>until.
           xs_claim store (clock 0) (ew_workerId w) (ew_workspace w) from until s)) of
        Inl e \<Rightarrow> (Inl e, rs, s)
      | Inr (None, s1) \<Rightarrow>
          (Inr \<lparr> wr_status = RunIdle, wr_actionId = None, wr_attempt = None, wr_error = None \<rparr>, rs, s1)
      | Inr (Some claim, s1) \<Rightarrow>
          (let (outcome, rs') = run_claim route acquire w claim rs;
               s2 = world 0 s1;
               (tried, s3) =
                 (case outcome of
                    Inl e \<Rightarrow> (Inl e, s2)
                  | Inr r \<Rightarrow>
                      (case finish_claim iso_text store (clock 1) (clock 1) w now claim r s2 of
                         Inl e \<Rightarrow> (Inl e, s2)
                       | Inr (run, s') \<Rightarrow> (Inr run, s')));
               (answer, s4) =
                 (case tried of
                    Inr run \<Rightarrow> (Inr run, s3)
                  | Inl e \<Rightarrow>
                      (let s' = world 1 s3 in
                       case abandon_claim iso_text store (clock 2) (clock 2) w now claim (message e) s' of
                         Inl e' \<Rightarrow> (Inl e', s')
                       | Inr (run, s'') \<Rightarrow> (Inr run, s''))) in
           (rbind (disposal (acquire (ca_actionId claim) (ew_workspace w))) (\<lambda>_. answer), rs', s4)))"

section \<open>The settings of the worker plugin\<close>

record worker_plugin_config =
  wp_workerId :: "string option"
  wp_workspaces :: jval
  wp_pollIntervalMs :: "jnum option"

definition validateWorkerConfig :: "worker_plugin_config \<Rightarrow> unit result" where
  "validateWorkerConfig config =
     (let interval = default_num 600000 (wp_pollIntervalMs config) in
      if (case wp_workerId config of None \<Rightarrow> True | Some i \<Rightarrow> blank i)
      then throw ''action worker workerId is required''
      else
        case wp_workspaces config of
          JArr items \<Rightarrow>
            if items = [] \<or> list_ex (\<lambda>v. case v of JStr s \<Rightarrow> blank s | _ \<Rightarrow> True) items
            then throw ''action worker requires at least one workspace''
            else if length (remdups items) \<noteq> length items
            then throw ''action worker workspaces must be unique''
            else if \<not> safe_integer interval \<or> int_num interval < 1000
            then throw ''action worker pollIntervalMs must be at least 1000''
            else Inr ()
        | _ \<Rightarrow> throw ''action worker requires at least one workspace'')"

section \<open>The interface the worker relies on\<close>

locale action_port =
  fixes store :: "'s executor_store"
    and phase :: "'s \<Rightarrow> string leases"
    and inv :: "'s \<Rightarrow> bool"
  assumes claim_none: "xs_claim store t w ws now expires s = Inr (None, s') \<Longrightarrow> s' = s"
    and claim_some: "inv s \<Longrightarrow> xs_claim store t w ws now expires s = Inr (Some c, s') \<Longrightarrow>
      inv s' \<and> phase s' = (phase s)(ca_actionId c \<mapsto> Held w expires) \<and> 0 < ca_attempt c"
    and settle_law: "inv s \<Longrightarrow> xs_settle store t k w r s = Inr s' \<Longrightarrow>
      inv s' \<and> (\<exists>e. phase s k = Some (Held w e)) \<and> phase s' = (phase s)(k \<mapsto> Closed)"
    and release_law: "inv s \<Longrightarrow> xs_release store t js_now input s = Inr s' \<Longrightarrow>
      inv s' \<and> (\<exists>e. phase s (al_actionId input) = Some (Held (al_workerId input) e))
      \<and> phase s' = (phase s)(al_actionId input \<mapsto>
          (if al_disposition input = GiveUp then Closed
           else Ready (case al_availableAt input of Some u \<Rightarrow> u | None \<Rightarrow> js_now)))"
begin

text \<open>What a finished or abandoned claim leaves behind.\<close>

definition ended :: "(int \<Rightarrow> timestamp) \<Rightarrow> executor_worker \<Rightarrow> int \<Rightarrow> worker_run \<Rightarrow> 's \<Rightarrow> bool" where
  "ended iso_text w now run s \<longleftrightarrow>
     (\<exists>k n. wr_actionId run = Some k \<and> wr_attempt run = Some n \<and> 0 < n
        \<and> (if wr_status run = RunDeferred
           then int n < ew_maxAttempts w \<and> nextRetry iso_text w now n = Inr (iso_text (now + ew_retryDelayMs w * backoff n))
             \<and> phase s k = Some (Ready (iso_text (now + ew_retryDelayMs w * backoff n)))
           else phase s k = Some Closed))"

lemma nextRetry_Inr:
  "nextRetry iso_text w now n = Inr t \<Longrightarrow> t = iso_text (now + ew_retryDelayMs w * backoff n)"
  by (auto simp: nextRetry_def toISOString_def split: if_splits)

lemma finish_claim_ends:
  assumes "inv s" "finish_claim iso_text store clock js_now w now claim r s = Inr (run, s')" "0 < ca_attempt claim"
  shows "inv s' \<and> wr_status run \<noteq> RunIdle \<and> ended iso_text w now run s'"
proof (cases "retryableResult r \<and> int (ca_attempt claim) < ew_maxAttempts w")
  case True
  with assms(2) obtain t where t: "nextRetry iso_text w now (ca_attempt claim) = Inr t"
    and rel: "xs_release store clock js_now (release_input w claim Retry (rs_summary r) (Some t)) s = Inr s'"
    and run: "run = \<lparr> wr_status = RunDeferred, wr_actionId = Some (ca_actionId claim),
               wr_attempt = Some (ca_attempt claim), wr_error = Some (rs_summary r) \<rparr>"
    by (auto simp: finish_claim_def rbind_Inr_iff)
  from release_law [OF assms(1) rel] t nextRetry_Inr [OF t] True assms(3) show ?thesis
    by (simp add: run ended_def release_input_def)
next
  case False
  with assms(2) have set: "xs_settle store clock (ca_actionId claim) (ew_workerId w) (executor_fields r) s = Inr s'"
    and run: "run = \<lparr> wr_status = settled_run (rs_status r), wr_actionId = Some (ca_actionId claim),
               wr_attempt = Some (ca_attempt claim), wr_error = None \<rparr>"
    by (auto simp: finish_claim_def rbind_Inr_iff)
  from settle_law [OF assms(1) set] assms(3) show ?thesis
    by (cases "rs_status r") (simp_all add: run ended_def)
qed

lemma abandon_claim_ends:
  assumes "inv s" "abandon_claim iso_text store clock js_now w now claim err s = Inr (run, s')" "0 < ca_attempt claim"
  shows "inv s' \<and> wr_status run \<noteq> RunIdle \<and> ended iso_text w now run s'"
proof (cases "isInfrastructureFailure err \<and> int (ca_attempt claim) < ew_maxAttempts w")
  case True
  with assms(2) obtain t where t: "nextRetry iso_text w now (ca_attempt claim) = Inr t"
    and rel: "xs_release store clock js_now (release_input w claim Retry (diagnostic err) (Some t)) s = Inr s'"
    and run: "run = \<lparr> wr_status = RunDeferred, wr_actionId = Some (ca_actionId claim),
               wr_attempt = Some (ca_attempt claim), wr_error = Some (diagnostic err) \<rparr>"
    by (auto simp: abandon_claim_def rbind_Inr_iff Let_def)
  from release_law [OF assms(1) rel] t nextRetry_Inr [OF t] True assms(3) show ?thesis
    by (simp add: run ended_def release_input_def)
next
  case False
  with assms(2) have rel: "xs_release store clock js_now (release_input w claim GiveUp (diagnostic err) None) s = Inr s'"
    and run: "run = \<lparr> wr_status = RunFailed, wr_actionId = Some (ca_actionId claim),
               wr_attempt = Some (ca_attempt claim), wr_error = Some (diagnostic err) \<rparr>"
    by (auto simp: abandon_claim_def rbind_Inr_iff Let_def split: if_splits)
  from release_law [OF assms(1) rel] assms(3) show ?thesis
    by (simp add: run ended_def release_input_def)
qed

lemma runOnce_cases:
  assumes "runOnce iso_text store clock world route acquire w now rs s = (Inr run, rs', s')"
  obtains (idle) "wr_status run = RunIdle" "s' = s"
  | (claimed) claim s1 t0 t1 where
      "xs_claim store (clock 0) (ew_workerId w) (ew_workspace w) t0 t1 s = Inr (Some claim, s1)"
      "(\<exists>r. finish_claim iso_text store (clock 1) (clock 1) w now claim r (world 0 s1) = Inr (run, s'))
       \<or> (\<exists>err. abandon_claim iso_text store (clock 2) (clock 2) w now claim err (world 1 (world 0 s1)) = Inr (run, s'))"
proof -
  let ?first = "rbind (toISOString iso_text now) (\<lambda>from.
           rbind (toISOString iso_text (now + ew_leaseMs w)) (\<lambda>until.
           xs_claim store (clock 0) (ew_workerId w) (ew_workspace w) from until s))"
  from assms obtain c s1 where first: "?first = Inr (c, s1)"
    by (cases ?first) (auto simp: runOnce_def)
  then obtain t0 t1 where claim:
    "xs_claim store (clock 0) (ew_workerId w) (ew_workspace w) t0 t1 s = Inr (c, s1)"
    by (auto simp: rbind_Inr_iff)
  show thesis
  proof (cases c)
    case None
    with assms first claim_none [OF claim [unfolded None]] show thesis
      by (intro idle) (auto simp: runOnce_def)
  next
    case (Some c')
    obtain outcome rs2 where outcome: "run_claim route acquire w c' rs = (outcome, rs2)" by fastforce
    from assms first Some outcome have
      "(\<exists>r. finish_claim iso_text store (clock 1) (clock 1) w now c' r (world 0 s1) = Inr (run, s'))
       \<or> (\<exists>err. abandon_claim iso_text store (clock 2) (clock 2) w now c' err (world 1 (world 0 s1)) = Inr (run, s'))"
      by (auto simp: runOnce_def Let_def rbind_Inr_iff split: sum.splits prod.splits)
    with claim Some claimed show thesis by blast
  qed
qed

lemma runOnce_ends:
  assumes "inv s" and "\<And>n s. inv s \<Longrightarrow> inv (world n s)"
    and "runOnce iso_text store clock world route acquire w now rs s = (Inr run, rs', s')"
  shows "if wr_status run = RunIdle then s' = s else inv s' \<and> ended iso_text w now run s'"
  using assms(3)
proof (cases rule: runOnce_cases)
  case idle
  then show ?thesis by simp
next
  case (claimed claim s1 t0 t1)
  have "inv (world 0 s1)" "inv (world 1 (world 0 s1))" "0 < ca_attempt claim"
    using claim_some [OF assms(1) claimed(1)] assms(2) by auto
  with claimed(2) finish_claim_ends abandon_claim_ends show ?thesis by metis
qed

text \<open>A worker whose lease was taken over in the meantime writes nothing more.\<close>

lemma runOnce_fenced:
  assumes "inv s" and "\<And>n s. inv s \<Longrightarrow> inv (world n s)"
    and "\<And>n s k e. phase (world n s) k \<noteq> Some (Held (ew_workerId w) e)"
    and "runOnce iso_text store clock world route acquire w now rs s = (answer, rs', s')"
    and "xs_claim store (clock 0) (ew_workerId w) (ew_workspace w) t0 t1 s = Inr (Some claim, s1)"
    and "toISOString iso_text now = Inr t0" "toISOString iso_text (now + ew_leaseMs w) = Inr t1"
  shows "(\<exists>e. answer = Inl e) \<and> s' = world 1 (world 0 s1)"
proof -
  have inv: "inv (world 0 s1)" "inv (world 1 (world 0 s1))"
    using claim_some [OF assms(1,5)] assms(2) by auto
  have settle: "xs_settle store t k (ew_workerId w) r (world 0 s1) \<noteq> Inr u" for t k r u
    using settle_law [OF inv(1)] assms(3) by blast
  have release: "xs_release store t j (release_input w claim d err later) (world n u) \<noteq> Inr v"
    if "inv (world n u)" for t j d err later n u v
    using release_law [OF that] assms(3) by (fastforce simp: release_input_def)
  have finish: "finish_claim iso_text store t j w now claim r (world 0 s1) \<noteq> Inr x" for t j r x
    using settle release [OF inv(1)] by (auto simp: finish_claim_def rbind_Inr_iff)
  have abandon: "abandon_claim iso_text store t j w now claim err (world 1 (world 0 s1)) \<noteq> Inr x" for t j err x
    using release [OF inv(2)] by (auto simp: abandon_claim_def rbind_Inr_iff Let_def)
  obtain outcome rs2 where outcome: "run_claim route acquire w claim rs = (outcome, rs2)" by fastforce
  obtain e where e: "(case outcome of Inl e \<Rightarrow> (Inl e, world 0 s1)
      | Inr r \<Rightarrow> (case finish_claim iso_text store (clock 1) (clock 1) w now claim r (world 0 s1) of
            Inl e \<Rightarrow> (Inl e, world 0 s1) | Inr (run, s') \<Rightarrow> (Inr run, s'))) = (Inl e, world 0 s1)"
  proof (cases outcome)
    case (Inr r)
    have "\<exists>e. finish_claim iso_text store (clock 1) (clock 1) w now claim r (world 0 s1) = Inl e"
      using finish by (metis obj_sumE)
    with Inr that show thesis by auto
  qed auto
  obtain e' where e': "abandon_claim iso_text store (clock 2) (clock 2) w now claim (message e) (world 1 (world 0 s1)) = Inl e'"
    using abandon by (metis obj_sumE)
  from assms(4) have "answer = rbind (disposal (acquire (ca_actionId claim) (ew_workspace w))) (\<lambda>_. Inl e') \<and> s' = world 1 (world 0 s1)"
    by (auto simp: runOnce_def assms(5-7) outcome e e' [simplified] Let_def)
  then show ?thesis
    by (cases "disposal (acquire (ca_actionId claim) (ew_workspace w))") auto
qed

end

section \<open>The SQLite store provides the interface\<close>

definition sqlite_executor_store :: "action_store executor_store" where
  "sqlite_executor_store =
     \<lparr> xs_claim = claimNextAction, xs_settle = settleAction, xs_release = releaseActionClaim \<rparr>"

lemma claim_attempt: "claimNextAction t w ws now expires st = Inr (Some c, st') \<Longrightarrow> 0 < ca_attempt c"
  by (auto simp: claimNextAction_def Let_def rbind_Inr_iff split: option.splits if_splits)

interpretation sqlite_worker: action_port sqlite_executor_store action_phase action_inv
proof unfold_locales
  fix t w ws now expires s s'
  assume "xs_claim sqlite_executor_store t w ws now expires s = Inr (None, s')"
  then show "s' = s"
    using claimNextAction_None by (simp add: sqlite_executor_store_def)
next
  fix t w ws now expires s c s'
  assume "action_inv s" "xs_claim sqlite_executor_store t w ws now expires s = Inr (Some c, s')"
  then have "action_inv s" "claimNextAction t w ws now expires s = Inr (Some c, s')"
    by (simp_all add: sqlite_executor_store_def)
  from claimed_execution [OF this] claim_attempt [OF this(2)]
  show "action_inv s' \<and> action_phase s' = (action_phase s)(ca_actionId c \<mapsto> Held w expires) \<and> 0 < ca_attempt c"
    by simp
next
  fix t k w r s s'
  assume inv: "action_inv s" and "xs_settle sqlite_executor_store t k w r s = Inr s'"
  then have "settleAction t k w r s = Inr s'"
    by (simp add: sqlite_executor_store_def)
  from settleAction_step [OF inv this] obtain a x fa fx tr e where
    step: "one_action k fa fx (\<lambda>_. False) (\<lambda>p. p) tr s s' a x" "execution_lease (fx x) = Closed"
      "action_phase s k = Some (Held w e)" by blast
  with one_inv [OF step(1)] one_phase [OF step(1)]
  show "action_inv s' \<and> (\<exists>e. action_phase s k = Some (Held w e)) \<and> action_phase s' = (action_phase s)(k \<mapsto> Closed)"
    by simp
next
  fix t js_now input s s'
  assume inv: "action_inv s" and "xs_release sqlite_executor_store t js_now input s = Inr s'"
  then have "releaseActionClaim t js_now input s = Inr s'"
    by (simp add: sqlite_executor_store_def)
  from releaseActionClaim_step [OF inv this] obtain a x fa fx tr e where
    step: "one_action (al_actionId input) fa fx (\<lambda>_. False) (\<lambda>p. p) tr s s' a x"
      "execution_lease (fx x) = (if al_disposition input = GiveUp then Closed
         else Ready (case al_availableAt input of Some u \<Rightarrow> u | None \<Rightarrow> js_now))"
      "action_phase s (al_actionId input) = Some (Held (al_workerId input) e)" by blast
  with one_inv [OF step(1)] one_phase [OF step(1)]
  show "action_inv s' \<and> (\<exists>e. action_phase s (al_actionId input) = Some (Held (al_workerId input) e))
      \<and> action_phase s' = (action_phase s)(al_actionId input \<mapsto>
          (if al_disposition input = GiveUp then Closed
           else Ready (case al_availableAt input of Some u \<Rightarrow> u | None \<Rightarrow> js_now)))"
    by simp
qed

section \<open>Properties\<close>

text \<open>C28. A run of the worker that answers leaves no claim open: an idle run changes nothing; a
deferred one has put its action back for a later time, before the worker's last attempt; any other
has closed the action for good. Whatever the agent and the router did, and whatever others did to
the store in the meantime.\<close>

theorem worker_run_ends_claim:
  assumes "action_inv st" and "\<forall>n st. action_inv st \<longrightarrow> action_inv (world n st)"
    and "runOnce iso_text sqlite_executor_store clock world route acquire w now rs st = (Inr run, rs', st')"
  shows "if wr_status run = RunIdle then st' = st
    else \<exists>k n. wr_actionId run = Some k \<and> wr_attempt run = Some n
      \<and> (if wr_status run = RunDeferred
         then int n < ew_maxAttempts w \<and> action_phase st' k = Some (Ready (iso_text (now + ew_retryDelayMs w * backoff n)))
         else action_phase st' k = Some Closed)"
proof -
  have "if wr_status run = RunIdle then st' = st
    else action_inv st' \<and> sqlite_worker.ended iso_text w now run st'"
    by (rule sqlite_worker.runOnce_ends [OF assms(1) _ assms(3)]) (use assms(2) in blast)
  then show ?thesis
    by (auto simp: sqlite_worker.ended_def split: if_splits)
qed

text \<open>A worker that has lost its lease writes nothing: when after the work of others no action
is held by the worker any more, its run fails with an error and the store is what the others left.\<close>

lemma fenced_worker_writes_nothing:
  assumes "action_inv st" and "\<forall>n st. action_inv st \<longrightarrow> action_inv (world n st)"
    and "\<forall>n st k e. action_phase (world n st) k \<noteq> Some (Held (ew_workerId w) e)"
    and "runOnce iso_text sqlite_executor_store clock world route acquire w now rs st = (answer, rs', st')"
    and "claimNextAction (clock 0) (ew_workerId w) (ew_workspace w) t0 t1 st = Inr (Some claim, st1)"
    and "toISOString iso_text now = Inr t0" and "toISOString iso_text (now + ew_leaseMs w) = Inr t1"
  shows "(\<exists>e. answer = Inl e) \<and> st' = world 1 (world 0 st1)"
proof (rule sqlite_worker.runOnce_fenced [OF assms(1) _ _ assms(4) _ assms(6,7)])
  show "xs_claim sqlite_executor_store (clock 0) (ew_workerId w) (ew_workspace w) t0 t1 st = Inr (Some claim, st1)"
    using assms(5) by (simp add: sqlite_executor_store_def)
qed (use assms(2,3) in blast)+

text \<open>Back-off is bounded: the delay before a retry is the configured one for the first
attempt, doubles with each attempt and never exceeds thirty-two times the configured one; a retry
time that is no date is an error, not a wrong time.\<close>

lemma retry_backoff_bounds:
  assumes "create_worker config = Inr w"
  shows "backoff 1 = 1 \<and> backoff (Suc n) \<le> backoff (Suc (Suc n)) \<and> backoff (Suc (Suc n)) \<le> 2 * backoff (Suc n)
    \<and> backoff n \<le> 32
    \<and> (nextRetry iso_text w now n = Inr t \<longrightarrow>
        (\<exists>d. t = iso_text (now + d) \<and> ew_retryDelayMs w \<le> d \<and> d \<le> 32 * ew_retryDelayMs w
          \<and> \<bar>now + d\<bar> \<le> 8640000000000000))"
proof -
  have delay: "0 \<le> ew_retryDelayMs w"
    using assms by (auto simp: create_worker_def Let_def split: if_splits)
  have one: "1 \<le> backoff n" "backoff n \<le> 32"
    by (simp_all add: backoff_def)
  have "backoff (Suc n) = min (2 ^ n) 32" "backoff (Suc (Suc n)) = min (2 * 2 ^ n) 32"
    by (simp_all add: backoff_def)
  moreover have "min x 32 \<le> min (2 * x) 32 \<and> min (2 * x) 32 \<le> 2 * min x 32" if "0 \<le> x" for x :: int
    using that by (auto simp: min_def)
  from this [of "2 ^ n"] have "min (2 ^ n) 32 \<le> min (2 * 2 ^ n) (32::int)" "min (2 * 2 ^ n) 32 \<le> 2 * min (2 ^ n) (32::int)"
    by simp_all
  ultimately have steps: "backoff (Suc n) \<le> backoff (Suc (Suc n))" "backoff (Suc (Suc n)) \<le> 2 * backoff (Suc n)"
    by simp_all
  have "ew_retryDelayMs w \<le> ew_retryDelayMs w * backoff n"
    using mult_left_mono [OF one(1) delay] by simp
  moreover have "ew_retryDelayMs w * backoff n \<le> 32 * ew_retryDelayMs w"
    using mult_left_mono [OF one(2) delay] by simp
  ultimately have "nextRetry iso_text w now n = Inr t \<longrightarrow>
        (\<exists>d. t = iso_text (now + d) \<and> ew_retryDelayMs w \<le> d \<and> d \<le> 32 * ew_retryDelayMs w
          \<and> \<bar>now + d\<bar> \<le> 8640000000000000)"
    by (auto simp: nextRetry_def toISOString_def split: if_splits)
  with steps one show ?thesis by (simp add: backoff_def)
qed

section \<open>Witnesses\<close>

definition sample_worker_config :: worker_config where
  "sample_worker_config = \<lparr> wk_workerId = ''w'', wk_workspace = ''/w'', wk_leaseMs = None,
     wk_retryDelayMs = Some (Fin 1000), wk_maxAttempts = None \<rparr>"

definition sample_worker :: executor_worker where
  "sample_worker = projr (create_worker sample_worker_config)"

definition sample_iso :: "int \<Rightarrow> timestamp" where
  "sample_iso t = (if t < 1000 then ''5'' else if t < 100000 then ''6'' else ''8'')"

definition sample_acquire :: "string \<Rightarrow> string \<Rightarrow> agent_lease result" where
  "sample_acquire i ws = Inr (Some ws, Inr ())"

definition sample_route :: "routed_request \<Rightarrow> router_state \<Rightarrow> routed_result result \<times> router_state" where
  "sample_route = execute sample_realpath [] sample_config sample_dispatch"

definition sample_worker_run :: "(nat \<Rightarrow> action_store \<Rightarrow> action_store) \<Rightarrow> worker_run result \<times> router_state \<times> action_store" where
  "sample_worker_run world = runOnce sample_iso sqlite_executor_store (\<lambda>n. ''9'') world sample_route sample_acquire
     sample_worker 5 sample_router two_actions"

lemma sample_worker_create: "create_worker sample_worker_config = Inr sample_worker"
  by (simp add: sample_worker_def sample_worker_config_def create_worker_def Let_def default_num_def is_ws_def js_trim_def)

lemma worker_run_ends_claim_witness:
  "\<exists>k. action_phase (snd (snd (sample_worker_run (\<lambda>n s. s)))) k = Some Closed"
proof -
  have done_run: "case fst (sample_worker_run (\<lambda>n s. s)) of Inr run \<Rightarrow> wr_status run = RunCompleted | Inl _ \<Rightarrow> False"
    by code_simp
  then obtain run where run: "fst (sample_worker_run (\<lambda>n s. s)) = Inr run" "wr_status run = RunCompleted"
    by (auto split: sum.splits)
  then have "runOnce sample_iso sqlite_executor_store (\<lambda>n. ''9'') (\<lambda>n s. s) sample_route sample_acquire
     sample_worker 5 sample_router two_actions
     = (Inr run, fst (snd (sample_worker_run (\<lambda>n s. s))), snd (snd (sample_worker_run (\<lambda>n s. s))))"
    unfolding sample_worker_run_def by (metis prod.collapse)
  from worker_run_ends_claim [OF two_actions_inv _ this] run(2) show ?thesis by auto
qed

text \<open>The others empty the store while the agent works.\<close>

lemma fenced_worker_writes_nothing_witness:
  "snd (snd (sample_worker_run (\<lambda>n s. empty_actions))) = empty_actions \<and> isl (fst (sample_worker_run (\<lambda>n s. empty_actions)))"
proof -
  let ?run = "sample_worker_run (\<lambda>n s. empty_actions)"
  have run: "runOnce sample_iso sqlite_executor_store (\<lambda>n. ''9'') (\<lambda>n s. empty_actions) sample_route sample_acquire
     sample_worker 5 sample_router two_actions = (fst ?run, fst (snd ?run), snd (snd ?run))"
    by (simp add: sample_worker_run_def)
  have times: "toISOString sample_iso 5 = Inr ''5''"
    "toISOString sample_iso (5 + ew_leaseMs sample_worker) = Inr ''8''"
    by code_simp+
  have "case claimNextAction ''9'' (ew_workerId sample_worker) (ew_workspace sample_worker) ''5'' ''8'' two_actions of Inr (Some c, _) \<Rightarrow> ca_actionId c = ''r'' | _ \<Rightarrow> False"
    by code_simp
  then obtain c st1 where "claimNextAction ''9'' (ew_workerId sample_worker) (ew_workspace sample_worker) ''5'' ''8'' two_actions = Inr (Some c, st1)"
    by (auto split: sum.splits option.splits)
  note claim = this
  have hold: "\<forall>k n v. action_phase empty_actions k \<noteq> Some (Held n v)"
    by (simp add: action_phase_def empty_actions_def)
  have "(\<exists>e. fst ?run = Inl e) \<and> snd (snd ?run) = empty_actions"
    using fenced_worker_writes_nothing [OF two_actions_inv _ _ run claim times] hold empty_actions_inv by simp
  then show ?thesis by auto
qed

lemma retry_backoff_bounds_witness:
  "\<exists>d. ''6'' = sample_iso (5 + d) \<and> 1000 \<le> d \<and> d \<le> (32000::int)"
proof -
  have "ew_retryDelayMs sample_worker = 1000"
    by code_simp
  moreover have "nextRetry sample_iso sample_worker 5 3 = Inr ''6''"
    by code_simp
  ultimately show ?thesis
    using retry_backoff_bounds [OF sample_worker_create, of 3 sample_iso 5 "''6''"] by auto
qed

end
