(* ===== verification/Module_Parse.thy ===== *)
theory Module_Parse
  imports Channel_Domain
begin

text \<open>
  Descriptors of the assistant's modules as the catalog file states them (platform/modules.ts):
  their types, and the parser from JSON that admits a descriptor only with known fields, valid
  names and duplicate-free lists.
\<close>

section \<open>Types\<close>

datatype classification = Skeleton | Feature | Migration

datatype layer = Kernel | Contract | Adapter | Provider | Policy | Workflow | Projection | Surface | Operations

datatype implementation = Planned | Partial | Ready_impl

datatype runtime = Static | Inactive | Shadow | Active | Compat

record plugin_binding =
  pb_profileId :: string
  pb_packageExport :: string
  pb_activationGate :: "string option"

record module_descriptor =
  md_id :: string
  md_classification :: classification
  md_layer :: layer
  md_implementation :: implementation
  md_runtime :: runtime
  md_source :: string
  md_owns :: "string list"
  md_assets :: "string list"
  md_dependsOn :: "string list"
  md_runtimeDependsOn :: "string list"
  md_mounts :: "string list"
  md_requiresEffects :: "string list"
  md_providesEffects :: "string list"
  md_requiresServices :: "string list"
  md_providesServices :: "string list"
  md_plugin :: "plugin_binding option"
  md_hostedBy :: "string option"
  md_exitCriteria :: "string option"

section \<open>The allowed words\<close>

definition classifications :: "(string \<times> classification) list" where
  "classifications = [(''skeleton'', Skeleton), (''feature'', Feature), (''migration'', Migration)]"

definition layers :: "(string \<times> layer) list" where
  "layers = [(''kernel'', Kernel), (''contract'', Contract), (''adapter'', Adapter), (''provider'', Provider),
     (''policy'', Policy), (''workflow'', Workflow), (''projection'', Projection), (''surface'', Surface),
     (''operations'', Operations)]"

definition implementations :: "(string \<times> implementation) list" where
  "implementations = [(''planned'', Planned), (''partial'', Partial), (''ready'', Ready_impl)]"

definition runtimes :: "(string \<times> runtime) list" where
  "runtimes = [(''static'', Static), (''inactive'', Inactive), (''shadow'', Shadow), (''active'', Active),
     (''compat'', Compat)]"

definition catalogFields :: "string list" where
  "catalogFields = [''version'', ''modules'']"

definition moduleFields :: "string list" where
  "moduleFields = [''id'', ''classification'', ''layer'', ''implementation'', ''runtime'', ''source'', ''owns'',
     ''assets'', ''dependsOn'', ''runtimeDependsOn'', ''mounts'', ''requiresEffects'', ''providesEffects'',
     ''plugin'', ''hostedBy'', ''exitCriteria'', ''requiresServices'', ''providesServices'']"

section \<open>Patterns\<close>

text \<open>The regular expressions of the parser, over a string split at their separators.\<close>

definition kebab_char :: "char \<Rightarrow> bool" where
  "kebab_char c = (lower_letter c \<or> digit_char c \<or> c = CHR ''-'')"

definition kebab_word :: "string \<Rightarrow> bool" where
  "kebab_word s = (s \<noteq> [] \<and> list_all kebab_char s)"

definition kebab_id :: "string \<Rightarrow> bool" where
  "kebab_id s = (s \<noteq> [] \<and> lower_letter (hd s) \<and> list_all kebab_char (tl s))"

definition kebab_file :: "string list \<Rightarrow> string \<Rightarrow> bool" where
  "kebab_file exts s =
     (let parts = split_on (CHR ''/'') s in
      list_all kebab_word (butlast parts)
      \<and> (case split_on (CHR ''.'') (last parts) of [stem, ext] \<Rightarrow> kebab_word stem \<and> ext \<in> set exts | _ \<Rightarrow> False))"

definition owned_source :: "string \<Rightarrow> bool" where
  "owned_source s =
     (starts_with ''src/'' s \<and> kebab_file [''ts''] (drop 4 s)
      \<or> starts_with ''packages/bridge-compat/src/'' s \<and> kebab_file [''js''] (drop 27 s)
      \<or> starts_with ''scripts/'' s \<and> kebab_file [''ts'', ''mjs''] (drop 8 s))"

definition package_export :: "string \<Rightarrow> bool" where
  "package_export s = (s = ''.'' \<or> starts_with ''./'' s \<and> kebab_word (drop 2 s))"

definition activation_gate :: "string \<Rightarrow> bool" where
  "activation_gate s =
     (let t = drop 13 s in
      starts_with ''QUARK_NATIVE_'' s \<and> t \<noteq> [] \<and> upper_letter (hd t)
      \<and> list_all (\<lambda>c. upper_letter c \<or> digit_char c \<or> c = CHR ''_'') (tl t))"

definition version_word :: "string \<Rightarrow> bool" where
  "version_word s =
     (case s of
        v # d # ds \<Rightarrow> v = CHR ''v'' \<and> digit_char d \<and> d \<noteq> CHR ''0'' \<and> list_all digit_char ds
      | _ \<Rightarrow> False)"

definition effect_id :: "string \<Rightarrow> bool" where
  "effect_id s =
     (let parts = split_on (CHR ''.'') s in
      3 \<le> length parts \<and> kebab_id (hd parts) \<and> list_all kebab_word (butlast (tl parts))
      \<and> version_word (last parts))"

definition service_id :: "string \<Rightarrow> bool" where
  "service_id s =
     (s \<noteq> [] \<and> lower_letter (hd s)
      \<and> list_all (\<lambda>c. upper_letter c \<or> lower_letter c \<or> digit_char c) (tl s))"

section \<open>Parsing\<close>

definition string_field :: "jval \<Rightarrow> string \<Rightarrow> string result" where
  "string_field v label =
     (case v of
        JStr s \<Rightarrow> if blank s then throw (label @ '' must be a non-empty string'') else Inr s
      | _ \<Rightarrow> throw (label @ '' must be a non-empty string''))"

definition string_array :: "jval \<Rightarrow> bool" where
  "string_array v =
     (case v of JArr items \<Rightarrow> list_all (\<lambda>i. case i of JStr _ \<Rightarrow> True | _ \<Rightarrow> False) items | _ \<Rightarrow> False)"

definition strings_of :: "jval \<Rightarrow> string list" where
  "strings_of v = (case v of JArr items \<Rightarrow> map js_string items | _ \<Rightarrow> [])"

definition own_keys :: "jval \<Rightarrow> string list" where
  "own_keys v = (case v of JObj _ kvs \<Rightarrow> map fst kvs | _ \<Rightarrow> [])"

text \<open>A list without duplicates, as the set made of it has the same size.\<close>

definition unique_strings :: "jval \<Rightarrow> string \<Rightarrow> string list result" where
  "unique_strings v label =
     (let items = first_occurrences (strings_of v) in
      if length items \<noteq> length (strings_of v) then throw (label @ '' must not contain duplicates'') else Inr items)"

definition named_list :: "(string \<Rightarrow> bool) \<Rightarrow> string \<Rightarrow> jval \<Rightarrow> string \<Rightarrow> string list result" where
  "named_list valid what v label =
     (if v = JUndefined then Inr []
      else if \<not> string_array v then throw (label @ '' must be a string array'')
      else
        rbind (unique_strings v label) (\<lambda>items.
        rbind (check_all (\<lambda>i. require (valid i) (''invalid '' @ what @ '' id in '' @ label @ '': '' @ i)) items) (\<lambda>_.
        Inr items)))"

definition effectList :: "jval \<Rightarrow> string \<Rightarrow> string list result" where
  "effectList = named_list effect_id ''effect''"

definition serviceList :: "jval \<Rightarrow> string \<Rightarrow> string list result" where
  "serviceList = named_list service_id ''service''"

definition optional_string :: "jval \<Rightarrow> string \<Rightarrow> string option result" where
  "optional_string v label =
     (if v = JUndefined then Inr None else rbind (string_field v label) (\<lambda>s. Inr (Some s)))"

definition parsePlugin :: "jval \<Rightarrow> string \<Rightarrow> plugin_binding result" where
  "parsePlugin value moduleId =
     rbind (require (is_record value) (''plugin for '' @ moduleId @ '' must be an object'')) (\<lambda>_.
     rbind (require (list_all (\<lambda>k. k \<in> {''profileId'', ''packageExport'', ''activationGate''}) (own_keys value))
              (''plugin for '' @ moduleId @ '' has unknown fields'')) (\<lambda>_.
     rbind (string_field (js_get value ''profileId'') (''plugin profileId for '' @ moduleId)) (\<lambda>profileId.
     rbind (string_field (js_get value ''packageExport'') (''plugin packageExport for '' @ moduleId)) (\<lambda>packageExport.
     rbind (optional_string (js_get value ''activationGate'') (''plugin activationGate for '' @ moduleId)) (\<lambda>activationGate.
     rbind (require (kebab_id profileId) (''invalid plugin profileId for '' @ moduleId @ '': '' @ profileId)) (\<lambda>_.
     rbind (require (package_export packageExport)
              (''invalid plugin packageExport for '' @ moduleId @ '': '' @ packageExport)) (\<lambda>_.
     rbind (case activationGate of
              None \<Rightarrow> Inr ()
            | Some g \<Rightarrow> require (activation_gate g) (''invalid plugin activationGate for '' @ moduleId @ '': '' @ g)) (\<lambda>_.
     Inr \<lparr> pb_profileId = profileId, pb_packageExport = packageExport, pb_activationGate = activationGate \<rparr>))))))))"

definition normalizedProjectPath :: "string \<Rightarrow> bool" where
  "normalizedProjectPath s =
     (\<not> blank s \<and> s = js_trim s \<and> \<not> starts_with ''/'' s \<and> \<not> str_includes [CHR 0x5C] s
      \<and> \<not> list_ex (\<lambda>p. p = [] \<or> p = ''.'' \<or> p = ''..'') (split_on (CHR ''/'') s))"

definition source_path :: "string \<Rightarrow> bool" where
  "source_path s =
     (s = js_trim s \<and> \<not> starts_with ''/'' s \<and> \<not> str_includes [CHR 0x5C] s
      \<and> \<not> list_ex (\<lambda>p. p = ''.'' \<or> p = ''..'') (split_on (CHR ''/'') s))"

definition overlapping_dependencies :: "string list \<Rightarrow> string list \<Rightarrow> string list \<Rightarrow> string list" where
  "overlapping_dependencies dependsOn runtimeDependsOn mounts =
     filter (\<lambda>d. d \<in> set runtimeDependsOn \<or> d \<in> set mounts) dependsOn
     @ filter (\<lambda>d. d \<in> set mounts) runtimeDependsOn"

definition word_field :: "(string \<times> 'a) list \<Rightarrow> string \<Rightarrow> string \<Rightarrow> string \<Rightarrow> 'a result" where
  "word_field table what mid s =
     (case map_of table s of Some w \<Rightarrow> Inr w | None \<Rightarrow> throw (''invalid '' @ what @ '' for '' @ mid @ '': '' @ s))"

text \<open>The lists of a descriptor: sources, assets and relations to other modules.\<close>

definition parse_owned :: "jval \<Rightarrow> string \<Rightarrow> (string list \<times> string list) result" where
  "parse_owned value mid =
     rbind (require (string_array (js_get value ''dependsOn'')) (''dependsOn for '' @ mid @ '' must be a string array'')) (\<lambda>_.
     rbind (require (js_get value ''runtimeDependsOn'' = JUndefined \<or> string_array (js_get value ''runtimeDependsOn''))
              (''runtimeDependsOn for '' @ mid @ '' must be a string array'')) (\<lambda>_.
     rbind (require (string_array (js_get value ''owns'')) (''owns for '' @ mid @ '' must be a string array'')) (\<lambda>_.
     rbind (unique_strings (js_get value ''owns'') (''owns for '' @ mid)) (\<lambda>owns.
     rbind (check_all (\<lambda>s. require (owned_source s) (''invalid owned source for '' @ mid @ '': '' @ s)) owns) (\<lambda>_.
     rbind (require (js_get value ''assets'' = JUndefined \<or> string_array (js_get value ''assets''))
              (''assets for '' @ mid @ '' must be a string array'')) (\<lambda>_.
     rbind (unique_strings (js_get value ''assets'') (''assets for '' @ mid)) (\<lambda>assets.
     rbind (check_all (\<lambda>a. require (normalizedProjectPath a) (''invalid runtime asset for '' @ mid @ '': '' @ a)) assets) (\<lambda>_.
     Inr (owns, assets)))))))))"

definition parse_relations :: "jval \<Rightarrow> string \<Rightarrow> (string list \<times> string list \<times> string list) result" where
  "parse_relations value mid =
     rbind (unique_strings (js_get value ''dependsOn'') (''dependsOn for '' @ mid)) (\<lambda>dependsOn.
     rbind (unique_strings (js_get value ''runtimeDependsOn'') (''runtimeDependsOn for '' @ mid)) (\<lambda>runtimeDependsOn.
     rbind (require (js_get value ''mounts'' = JUndefined \<or> string_array (js_get value ''mounts''))
              (''mounts for '' @ mid @ '' must be a string array'')) (\<lambda>_.
     rbind (unique_strings (js_get value ''mounts'') (''mounts for '' @ mid)) (\<lambda>mounts.
     let overlap = overlapping_dependencies dependsOn runtimeDependsOn mounts in
     rbind (require (overlap = [])
              (''module '' @ mid @ '' declares multiple relationship types for '' @ join '', '' overlap)) (\<lambda>_.
     Inr (dependsOn, runtimeDependsOn, mounts))))))"

definition parseModule :: "jval \<Rightarrow> module_descriptor result" where
  "parseModule value =
     rbind (require (is_record value) ''each module descriptor must be an object'') (\<lambda>_.
     rbind (require (''status'' \<notin> set (own_keys value))
              ''module uses ambiguous legacy status; use implementation and runtime'') (\<lambda>_.
     let unknown = filter (\<lambda>k. k \<notin> set moduleFields) (own_keys value) in
     rbind (require (unknown = []) (''module descriptor has unknown fields: '' @ join '', '' unknown)) (\<lambda>_.
     rbind (string_field (js_get value ''id'') ''module id'') (\<lambda>mid.
     rbind (require (kebab_id mid) (''invalid module id: '' @ mid)) (\<lambda>_.
     rbind (string_field (js_get value ''classification'') (''classification for '' @ mid)) (\<lambda>classification_text.
     rbind (string_field (js_get value ''layer'') (''layer for '' @ mid)) (\<lambda>layer_text.
     rbind (string_field (js_get value ''implementation'') (''implementation for '' @ mid)) (\<lambda>implementation_text.
     rbind (string_field (js_get value ''runtime'') (''runtime for '' @ mid)) (\<lambda>runtime_text.
     rbind (word_field classifications ''classification'' mid classification_text) (\<lambda>classification.
     rbind (word_field layers ''layer'' mid layer_text) (\<lambda>layer.
     rbind (word_field implementations ''implementation'' mid implementation_text) (\<lambda>implementation.
     rbind (word_field runtimes ''runtime'' mid runtime_text) (\<lambda>runtime.
     rbind (parse_owned value mid) (\<lambda>(owns, assets).
     rbind (parse_relations value mid) (\<lambda>(dependsOn, runtimeDependsOn, mounts).
     rbind (effectList (js_get value ''requiresEffects'') (''requiresEffects for '' @ mid)) (\<lambda>requiresEffects.
     rbind (effectList (js_get value ''providesEffects'') (''providesEffects for '' @ mid)) (\<lambda>providesEffects.
     rbind (serviceList (js_get value ''requiresServices'') (''requiresServices for '' @ mid)) (\<lambda>requiresServices.
     rbind (serviceList (js_get value ''providesServices'') (''providesServices for '' @ mid)) (\<lambda>providesServices.
     rbind (require (\<not> (runtime = Static \<and> (requiresServices \<noteq> [] \<or> providesServices \<noteq> [])))
              (''static contract module '' @ mid @ '' cannot require or provide runtime services'')) (\<lambda>_.
     rbind (require (mid \<notin> set dependsOn) (''module '' @ mid @ '' cannot depend on itself'')) (\<lambda>_.
     rbind (require (mid \<notin> set runtimeDependsOn) (''module '' @ mid @ '' cannot depend on itself'')) (\<lambda>_.
     rbind (require (mid \<notin> set mounts) (''module '' @ mid @ '' cannot mount itself'')) (\<lambda>_.
     rbind (optional_string (js_get value ''hostedBy'') (''hostedBy for '' @ mid)) (\<lambda>hostedBy.
     rbind (optional_string (js_get value ''exitCriteria'') (''exitCriteria for '' @ mid)) (\<lambda>exitCriteria.
     rbind (string_field (js_get value ''source'') (''source for '' @ mid)) (\<lambda>source.
     rbind (require (source_path source)
              (''source for '' @ mid @ '' must be a normalized project-relative path: '' @ source)) (\<lambda>_.
     rbind (if js_get value ''plugin'' = JUndefined then Inr None
            else rbind (parsePlugin (js_get value ''plugin'') mid) (\<lambda>p. Inr (Some p))) (\<lambda>plugin.
     Inr \<lparr> md_id = mid, md_classification = classification, md_layer = layer,
           md_implementation = implementation, md_runtime = runtime, md_source = source,
           md_owns = owns, md_assets = assets, md_dependsOn = dependsOn,
           md_runtimeDependsOn = runtimeDependsOn, md_mounts = mounts,
           md_requiresEffects = requiresEffects, md_providesEffects = providesEffects,
           md_requiresServices = requiresServices, md_providesServices = providesServices,
           md_plugin = plugin, md_hostedBy = hostedBy, md_exitCriteria = exitCriteria \<rparr>
     ))))))))))))))))))))))))))))"

end
