(* ===== verification/Module_Graph.thy ===== *)
theory Module_Graph
  imports Js_Prelude "HOL-Library.While_Combinator"
begin

text \<open>
  The two graph traversals of the module catalog (platform/modules.ts): the depth-first search that
  refuses cycles, and the queue that collects a dependency closure. A graph lists the successors of
  each known module; an unknown module has none. The code's set of nodes being visited is restored
  whenever a call returns, so a call receives it and only the visited nodes are passed on; the loop
  of the closure is a \<open>while_option\<close>, whose ending is proved.
\<close>

type_synonym graph = "(string \<times> string list) list"

definition succs :: "graph \<Rightarrow> string \<Rightarrow> string list" where
  "succs g n = (case map_of g n of None \<Rightarrow> [] | Some ds \<Rightarrow> ds)"

definition arcs :: "graph \<Rightarrow> (string \<times> string) set" where
  "arcs g = {(a, b). b \<in> set (succs g a)}"

lemma succs_unknown: "n \<notin> fst ` set g \<Longrightarrow> succs g n = []"
  by (simp add: succs_def map_of_eq_None_iff [THEN iffD2])

section \<open>Depth-first search\<close>

definition unvisited :: "graph \<Rightarrow> string list \<Rightarrow> nat" where
  "unvisited g visiting = card (fst ` set g - set visiting)"

lemma unvisited_less: "n \<notin> set visiting \<Longrightarrow> n \<in> fst ` set g \<Longrightarrow> unvisited g (n # visiting) < unvisited g visiting"
  unfolding unvisited_def by (rule psubset_card_mono) auto

lemma unvisited_unknown: "n \<notin> fst ` set g \<Longrightarrow> unvisited g (n # visiting) = unvisited g visiting"
  unfolding unvisited_def by (rule arg_cong [where f = card]) auto

function visit :: "graph \<Rightarrow> string \<Rightarrow> string list \<Rightarrow> string list \<Rightarrow> string list \<Rightarrow> string list result"
  and visit_each :: "graph \<Rightarrow> string list \<Rightarrow> string list \<Rightarrow> string list \<Rightarrow> string list \<Rightarrow> string list result" where
  "visit g n path visiting visited =
     (if n \<in> set visiting then throw (''module dependency cycle: '' @ join '' -> '' (path @ [n]))
      else if n \<in> set visited then Inr visited
      else
        rbind (visit_each g (succs g n) (path @ [n]) (n # visiting) visited) (\<lambda>visited'.
        Inr (n # visited')))"
| "visit_each g [] path visiting visited = Inr visited"
| "visit_each g (d # ds) path visiting visited =
     rbind (visit g d path visiting visited) (\<lambda>visited'. visit_each g ds path visiting visited')"
  by pat_completeness auto

termination
proof (relation "inv_image (less_than <*lex*> less_than)
    (\<lambda>c. case c of Inl (g, n, p, visiting, v) \<Rightarrow> (unvisited g visiting, 1)
               | Inr (g, ds, p, visiting, v) \<Rightarrow> (unvisited g visiting, 2 * length ds))", goal_cases)
  case (2 g n path visiting visited)
  show ?case
  proof (cases "n \<in> fst ` set g")
    case True
    with unvisited_less [OF 2(1) True] show ?thesis by simp
  next
    case False
    then show ?thesis by (simp add: succs_unknown unvisited_unknown)
  qed
qed auto

text \<open>\<open>for (const module of modules) visit(module.id, [])\<close>\<close>

definition assert_acyclic :: "graph \<Rightarrow> unit result" where
  "assert_acyclic g =
     rbind (fold_result (\<lambda>n visited. visit g n [] [] visited) (map fst g) []) (\<lambda>_. Inr ())"

text \<open>
  What the visited nodes satisfy: they are closed under successors and none of them reaches itself;
  no node being visited is among them.
\<close>

definition settled :: "graph \<Rightarrow> string list \<Rightarrow> bool" where
  "settled g visited \<longleftrightarrow> (\<forall>n\<in>set visited. set (succs g n) \<subseteq> set visited \<and> (n, n) \<notin> (arcs g)\<^sup>+)"

lemma settled_trancl:
  assumes "settled g visited" "n \<in> set visited" "(n, m) \<in> (arcs g)\<^sup>+"
  shows "m \<in> set visited"
  using assms(3,2) by (induction rule: trancl_induct) (use assms(1) in \<open>auto simp: settled_def arcs_def\<close>)

lemma settled_add:
  assumes "settled g visited" "set (succs g n) \<subseteq> set visited" "n \<notin> set visited"
  shows "settled g (n # visited)"
proof -
  have "(n, n) \<notin> (arcs g)\<^sup>+"
  proof
    assume "(n, n) \<in> (arcs g)\<^sup>+"
    then obtain d where "(n, d) \<in> arcs g" "(d, n) \<in> (arcs g)\<^sup>*"
      by (meson tranclD)
    with assms show False
      using settled_trancl [OF assms(1), of d n] by (auto simp: arcs_def rtrancl_eq_or_trancl)
  qed
  with assms show ?thesis by (auto simp: settled_def)
qed

lemma visit_settles:
  "visit g n path visiting visited = Inr visited' \<Longrightarrow> settled g visited \<Longrightarrow> set visiting \<inter> set visited = {} \<Longrightarrow>
     settled g visited' \<and> n \<in> set visited' \<and> set visited \<subseteq> set visited' \<and> set visiting \<inter> set visited' = {}"
  "visit_each g ds path visiting visited = Inr visited' \<Longrightarrow> settled g visited \<Longrightarrow> set visiting \<inter> set visited = {} \<Longrightarrow>
     settled g visited' \<and> set ds \<subseteq> set visited' \<and> set visited \<subseteq> set visited' \<and> set visiting \<inter> set visited' = {}"
proof (induction g n path visiting visited and g ds path visiting visited arbitrary: visited' and visited'
    rule: visit_visit_each.induct)
  case (1 g n path visiting visited)
  show ?case
  proof (cases "n \<in> set visited")
    case True
    with 1(2-) show ?thesis by (auto split: if_splits)
  next
    case False
    with 1(2) obtain v where fresh: "n \<notin> set visiting" and v: "visited' = n # v"
      and each: "visit_each g (succs g n) (path @ [n]) (n # visiting) visited = Inr v"
      by (auto simp: rbind_Inr_iff split: if_splits)
    from 1(1) [OF fresh False each 1(3)] 1(4) False
    have "settled g v" "set (succs g n) \<subseteq> set v" "set visited \<subseteq> set v" "set (n # visiting) \<inter> set v = {}"
      by auto
    then show ?thesis
      unfolding v using settled_add [of g v n] fresh by auto
  qed
next
  case (2 g path visiting visited)
  then show ?case by simp
next
  case (3 g d ds path visiting visited)
  from 3(3) obtain v where v: "visit g d path visiting visited = Inr v"
    and ds: "visit_each g ds path visiting v = Inr visited'"
    by (auto simp: rbind_Inr_iff)
  from 3(1) [OF v 3(4,5)]
  have v': "settled g v" "d \<in> set v" "set visited \<subseteq> set v" "set visiting \<inter> set v = {}"
    by auto
  from 3(2) [OF v ds v'(1,4)] v' show ?case by auto
qed

text \<open>A refusal names a cycle: the path is a chain that ends at a node it already holds.\<close>

fun chain :: "graph \<Rightarrow> string list \<Rightarrow> bool" where
  "chain g [] = True"
| "chain g [n] = True"
| "chain g (n # m # path) = (m \<in> set (succs g n) \<and> chain g (m # path))"

lemma chain_snoc: "chain g (path @ [n, m]) \<longleftrightarrow> chain g (path @ [n]) \<and> m \<in> set (succs g n)"
  by (induction g path rule: chain.induct) auto

lemma chain_trancl: "chain g (path @ [m]) \<Longrightarrow> n \<in> set path \<Longrightarrow> (n, m) \<in> (arcs g)\<^sup>+"
proof (induction path arbitrary: n)
  case (Cons a path)
  then obtain b where b: "b \<in> set (succs g a)" "chain g (path @ [m])" "b = hd (path @ [m])"
    by (cases path) auto
  then have step: "(a, b) \<in> arcs g" by (simp add: arcs_def)
  show ?case
  proof (cases "n \<in> set path")
    case True
    with Cons.IH b(2) show ?thesis by simp
  next
    case False
    with Cons.prems(2) have "n = a" by simp
    moreover have "b = m \<or> (b, m) \<in> (arcs g)\<^sup>+"
      using b(3) Cons.IH [OF b(2), of b] by (cases path) auto
    ultimately show ?thesis
      using step by (auto intro: trancl_into_trancl2)
  qed
qed simp

lemma visit_error:
  "visit g n path visiting visited = Inl e \<Longrightarrow> set visiting = set path \<Longrightarrow> chain g (path @ [n]) \<Longrightarrow> \<not> acyclic (arcs g)"
  "visit_each g ds path visiting visited = Inl e \<Longrightarrow> set visiting = set path \<Longrightarrow> \<forall>d\<in>set ds. chain g (path @ [d]) \<Longrightarrow>
     \<not> acyclic (arcs g)"
proof (induction g n path visiting visited and g ds path visiting visited rule: visit_visit_each.induct)
  case (1 g n path visiting visited)
  show ?case
  proof (cases "n \<in> set visiting")
    case True
    with 1(3,4) chain_trancl [of g path n n] show ?thesis by (auto simp: acyclic_def)
  next
    case False
    with 1(2) have fresh: "n \<notin> set visited"
      and each: "visit_each g (succs g n) (path @ [n]) (n # visiting) visited = Inl e"
      by (auto simp: rbind_Inl_iff split: if_splits)
    have "chain g ((path @ [n]) @ [d])" if "d \<in> set (succs g n)" for d
      using that 1(4) chain_snoc [of g path n d] by simp
    with 1(1) [OF False fresh each] 1(3) show ?thesis by simp
  qed
next
  case (2 g path visiting visited)
  then show ?case by simp
next
  case (3 g d ds path visiting visited)
  show ?case
  proof (cases "visit g d path visiting visited")
    case (Inl e')
    with 3 show ?thesis by simp
  next
    case (Inr v)
    with 3 show ?thesis by simp
  qed
qed

lemma visit_roots_settle:
  "fold_result (\<lambda>n visited. visit g n [] [] visited) ns visited = Inr visited' \<Longrightarrow> settled g visited \<Longrightarrow>
     settled g visited' \<and> set ns \<union> set visited \<subseteq> set visited'"
proof (induction ns arbitrary: visited)
  case (Cons n ns)
  from Cons.prems(1) obtain v where v: "visit g n [] [] visited = Inr v"
    and ns: "fold_result (\<lambda>n visited. visit g n [] [] visited) ns v = Inr visited'"
    by (auto simp del: visit.simps split: sum.splits)
  from visit_settles(1) [OF v Cons.prems(2)] have "settled g v" "n \<in> set v" "set visited \<subseteq> set v"
    by auto
  with Cons.IH [OF ns] show ?case by auto
qed simp

lemma assert_acyclic_iff: "assert_acyclic g = Inr () \<longleftrightarrow> acyclic (arcs g)"
proof
  assume "assert_acyclic g = Inr ()"
  then obtain v where v: "fold_result (\<lambda>n visited. visit g n [] [] visited) (map fst g) [] = Inr v"
    by (auto simp: assert_acyclic_def rbind_Inr_iff)
  have "settled g []" by (simp add: settled_def)
  from visit_roots_settle [OF v this] have all: "settled g v" "fst ` set g \<subseteq> set v" by auto
  show "acyclic (arcs g)"
    unfolding acyclic_def
  proof (intro allI notI)
    fix n assume cycle: "(n, n) \<in> (arcs g)\<^sup>+"
    then obtain d where "(n, d) \<in> arcs g" by (meson tranclD)
    then have "n \<in> fst ` set g" using succs_unknown [of n g] by (cases "n \<in> fst ` set g") (simp_all add: arcs_def)
    with all cycle show False by (auto simp: settled_def)
  qed
next
  assume acyclic: "acyclic (arcs g)"
  have "ok (fold_result (\<lambda>n visited. visit g n [] [] visited) ns visited)" for ns visited
  proof (induction ns arbitrary: visited)
    case (Cons n ns)
    have "\<exists>v. visit g n [] [] visited = Inr v"
      using visit_error(1) [of g n "[]" "[]" visited] acyclic by (cases "visit g n [] [] visited") auto
    with Cons.IH show ?case by (auto simp del: visit.simps)
  qed simp
  then show "assert_acyclic g = Inr ()" by (auto simp: assert_acyclic_def rbind_Inr_iff)
qed

section \<open>The dependency closure\<close>

definition closure_step :: "graph \<Rightarrow> string list \<times> string list \<Rightarrow> string list \<times> string list" where
  "closure_step g = (\<lambda>(pending, closure).
     (case pending of
        [] \<Rightarrow> (pending, closure)
      | n # rest \<Rightarrow> if n \<in> set closure then (rest, closure) else (rest @ succs g n, closure @ [n])))"

definition closure_loop :: "graph \<Rightarrow> string list \<Rightarrow> (string list \<times> string list) option" where
  "closure_loop g roots = while_option (\<lambda>(pending, closure). pending \<noteq> []) (closure_step g) (roots, [])"

lemma pending_cases:
  assumes "fst s \<noteq> []"
  obtains n rest closure where "s = (n # rest, closure)"
  using assms by (cases s) (auto simp: neq_Nil_conv)

text \<open>The loop invariant: nothing reachable from the roots is lost.\<close>

definition closure_inv :: "graph \<Rightarrow> string list \<Rightarrow> string list \<times> string list \<Rightarrow> bool" where
  "closure_inv g roots = (\<lambda>(pending, closure).
     distinct closure
     \<and> set roots \<subseteq> set pending \<union> set closure
     \<and> set pending \<union> set closure \<subseteq> (arcs g)\<^sup>* `` set roots
     \<and> (\<forall>n\<in>set closure. set (succs g n) \<subseteq> set pending \<union> set closure))"

lemma closure_inv_step:
  assumes "closure_inv g roots s" "fst s \<noteq> []"
  shows "closure_inv g roots (closure_step g s)"
proof -
  obtain n rest closure where s: "s = (n # rest, closure)"
    using assms(2) by (rule pending_cases)
  show ?thesis
  proof (cases "n \<in> set closure")
    case True
    with assms(1) show ?thesis by (auto simp: s closure_inv_def closure_step_def)
  next
    case False
    have "set (succs g n) \<subseteq> (arcs g)\<^sup>* `` set roots"
    proof
      fix d assume "d \<in> set (succs g n)"
      moreover from assms(1) obtain r where "r \<in> set roots" "(r, n) \<in> (arcs g)\<^sup>*"
        by (auto simp: s closure_inv_def)
      ultimately show "d \<in> (arcs g)\<^sup>* `` set roots"
        by (auto simp: arcs_def intro: rtrancl_into_rtrancl)
    qed
    with False assms(1) show ?thesis by (auto simp: s closure_inv_def closure_step_def)
  qed
qed

lemma closure_terminates: "\<exists>s. closure_loop g roots = Some s"
proof -
  let ?m = "\<lambda>(pending, closure). (unvisited g closure, length pending)"
  have decrease: "(closure_step g s, s) \<in> inv_image (less_than <*lex*> less_than) ?m" if more_work: "fst s \<noteq> []" for s
  proof -
    obtain n rest closure where s: "s = (n # rest, closure)"
      using more_work by (rule pending_cases)
    have set: "unvisited g (closure @ [n]) = unvisited g (n # closure)"
      by (simp add: unvisited_def)
    show ?thesis
    proof (cases "n \<in> set closure \<or> n \<notin> fst ` set g")
      case True
      then show ?thesis
        by (auto simp: s closure_step_def succs_unknown set unvisited_unknown)
    next
      case False
      with unvisited_less [of n closure g] show ?thesis by (simp add: s closure_step_def set)
    qed
  qed
  show ?thesis
    unfolding closure_loop_def
  proof (rule wf_rel_while_option_Some [where P = "\<lambda>_. True" and R = "inv_image (less_than <*lex*> less_than) ?m"])
    show "wf (inv_image (less_than <*lex*> less_than) ?m)" by auto
    fix s :: "string list \<times> string list"
    assume "True \<and> (case s of (pending, closure) \<Rightarrow> pending \<noteq> [])"
    then show "(closure_step g s, s) \<in> inv_image (less_than <*lex*> less_than) ?m"
      by (intro decrease) (cases s, simp)
  qed simp_all
qed

lemma closure_loop_reachable:
  assumes "closure_loop g roots = Some s"
  shows "fst s = [] \<and> distinct (snd s) \<and> set (snd s) = (arcs g)\<^sup>* `` set roots"
proof -
  have inv: "closure_inv g roots s"
  proof (rule while_option_rule [OF _ assms [unfolded closure_loop_def]])
    show "closure_inv g roots (roots, [])" by (auto simp: closure_inv_def)
    fix u assume "closure_inv g roots u" "case u of (pending, closure) \<Rightarrow> pending \<noteq> []"
    then show "closure_inv g roots (closure_step g u)"
      by (intro closure_inv_step) (auto split: prod.splits)
  qed
  have empty: "fst s = []"
    using while_option_stop [OF assms [unfolded closure_loop_def]] by (cases s) auto
  have "m \<in> set (snd s)" if "(r, m) \<in> (arcs g)\<^sup>*" "r \<in> set roots" for r m
    using that
  proof (induction rule: rtrancl_induct)
    case base
    then show ?case using inv empty by (cases s) (auto simp: closure_inv_def)
  next
    case (step m k)
    then show ?case using inv empty by (cases s) (auto simp: closure_inv_def arcs_def)
  qed
  then show ?thesis
    using inv empty by (cases s) (auto simp: closure_inv_def)
qed

end
