(* ===== verification/Module_Catalog.thy ===== *)
theory Module_Catalog
  imports Module_Parse Module_Graph
begin

text \<open>
  The catalog of the assistant's modules (platform/modules.ts): the checks that admit a catalog,
  the edges between modules at run time, the dependency closure, the coverage of effects and the
  ownership of source files and assets. A catalog is its list of descriptors; its version is the
  number 3. A \<open>Map\<close> is an association list; where a later entry replaces an earlier one it is read
  from its end.
\<close>

section \<open>Relations between modules\<close>

definition by_id :: "module_descriptor list \<Rightarrow> string \<Rightarrow> module_descriptor option" where
  "by_id modules n = find (\<lambda>m. md_id m = n) modules"

definition word_of :: "(string \<times> 'a) list \<Rightarrow> 'a \<Rightarrow> string" where
  "word_of table w = (case find (\<lambda>(_, v). v = w) table of Some (s, _) \<Rightarrow> s | None \<Rightarrow> [])"

fun sourceDependencyLayers :: "layer \<Rightarrow> layer list" where
  "sourceDependencyLayers Contract = [Contract]"
| "sourceDependencyLayers Kernel = [Contract, Kernel]"
| "sourceDependencyLayers Policy = [Contract, Policy]"
| "sourceDependencyLayers Provider = [Contract, Kernel, Policy, Provider]"
| "sourceDependencyLayers Adapter = [Contract, Kernel, Adapter]"
| "sourceDependencyLayers Workflow = [Contract, Kernel, Policy, Workflow]"
| "sourceDependencyLayers Projection = [Contract, Kernel, Policy, Projection]"
| "sourceDependencyLayers Surface = [Contract, Kernel, Policy, Surface]"
| "sourceDependencyLayers Operations =
     [Kernel, Contract, Adapter, Provider, Policy, Workflow, Projection, Surface, Operations]"

definition check_dependency :: "module_descriptor list \<Rightarrow> module_descriptor \<Rightarrow> string \<Rightarrow> unit result" where
  "check_dependency modules m d =
     (case by_id modules d of
        None \<Rightarrow> throw (''module '' @ md_id m @ '' depends on unknown module '' @ d)
      | Some dependency \<Rightarrow>
          if md_classification m = Skeleton \<and> md_classification dependency \<noteq> Skeleton
          then throw (''skeleton module '' @ md_id m @ '' cannot depend on ''
                 @ word_of classifications (md_classification dependency) @ '' module '' @ d)
          else if md_classification m = Feature \<and> md_classification dependency = Migration
          then throw (''feature module '' @ md_id m @ '' cannot depend on migration module '' @ d)
          else Inr ())"

definition check_source_layer :: "module_descriptor list \<Rightarrow> module_descriptor \<Rightarrow> string \<Rightarrow> unit result" where
  "check_source_layer modules m d =
     (case by_id modules d of
        None \<Rightarrow> Inl (TypeError ''dependency is undefined'')
      | Some dependency \<Rightarrow>
          require (md_layer dependency \<in> set (sourceDependencyLayers (md_layer m)))
            (word_of layers (md_layer m) @ '' module '' @ md_id m @ '' cannot source-depend on ''
              @ word_of layers (md_layer dependency) @ '' module '' @ d))"

definition check_host :: "module_descriptor list \<Rightarrow> module_descriptor \<Rightarrow> unit result" where
  "check_host modules m =
     (if md_runtime m = Compat
      then
        rbind (require (md_classification m = Feature) (''only feature modules can use runtime=compat: '' @ md_id m)) (\<lambda>_.
        require (case md_hostedBy m of
                   None \<Rightarrow> False
                 | Some h \<Rightarrow> (case by_id modules h of None \<Rightarrow> False | Some host \<Rightarrow> md_classification host = Migration))
          (''compat module '' @ md_id m @ '' must name a migration host''))
      else require (md_hostedBy m = None) (''module '' @ md_id m @ '' can declare hostedBy only with runtime=compat''))"

definition gate_of :: "module_descriptor \<Rightarrow> string option" where
  "gate_of m = (case md_plugin m of None \<Rightarrow> None | Some p \<Rightarrow> pb_activationGate p)"

definition check_runtime :: "module_descriptor \<Rightarrow> unit result" where
  "check_runtime m =
     rbind (require (\<not> (md_runtime m = Active \<and> md_implementation m \<noteq> Ready_impl))
       (''active module '' @ md_id m @ '' must have a ready implementation'')) (\<lambda>_.
     rbind (require (\<not> (gate_of m \<noteq> None \<and> md_runtime m \<noteq> Inactive))
       (''only inactive plugin modules can declare activationGate: '' @ md_id m)) (\<lambda>_.
     rbind (require (\<not> (md_plugin m \<noteq> None \<and> md_runtime m = Inactive \<and> gate_of m = None))
       (''inactive plugin module '' @ md_id m @ '' must own its activationGate'')) (\<lambda>_.
     rbind (require (\<not> (md_layer m = Contract \<and> md_runtime m \<noteq> Static))
       (''contract module '' @ md_id m @ '' must use runtime=static'')) (\<lambda>_.
     rbind (require (\<not> (md_layer m \<noteq> Contract \<and> md_runtime m = Static))
       (''only contract modules can use runtime=static: '' @ md_id m)) (\<lambda>_.
     require (\<not> (md_runtime m = Static \<and> md_runtimeDependsOn m \<noteq> []))
       (''static contract module '' @ md_id m @ '' cannot declare runtime dependencies''))))))"

definition check_classification :: "module_descriptor \<Rightarrow> unit result" where
  "check_classification m =
     rbind (require (\<not> (md_classification m = Skeleton
           \<and> (md_implementation m \<noteq> Ready_impl
              \<or> (if md_layer m = Contract then md_runtime m \<noteq> Static else md_runtime m \<noteq> Active))))
       (''skeleton module '' @ md_id m @ '' must be ready and its executable runtime must be active'')) (\<lambda>_.
     rbind (require (\<not> (md_classification m = Skeleton \<and> (md_requiresEffects m \<noteq> [] \<or> md_providesEffects m \<noteq> [])))
       (''skeleton module '' @ md_id m @ '' cannot own product workflow effects'')) (\<lambda>_.
     rbind (require (\<not> (md_classification m = Migration
           \<and> (case md_exitCriteria m of None \<Rightarrow> True | Some e \<Rightarrow> blank e)))
       (''migration module '' @ md_id m @ '' must define exitCriteria'')) (\<lambda>_.
     rbind (require (\<not> (md_classification m \<noteq> Migration \<and> md_exitCriteria m \<noteq> None))
       (''only migration modules can declare exitCriteria: '' @ md_id m)) (\<lambda>_.
     require (\<not> (starts_with ''src/'' (md_source m) \<and> md_source m \<notin> set (md_owns m)))
       (''module '' @ md_id m @ '' must own its src entrypoint '' @ md_source m)))))"

definition check_module :: "module_descriptor list \<Rightarrow> module_descriptor \<Rightarrow> unit result" where
  "check_module modules m =
     rbind (check_all (check_dependency modules m) (md_dependsOn m @ md_runtimeDependsOn m @ md_mounts m)) (\<lambda>_.
     rbind (check_all (check_source_layer modules m) (md_dependsOn m)) (\<lambda>_.
     rbind (require (\<not> (md_mounts m \<noteq> [] \<and> md_layer m \<noteq> Operations))
       (''only operations modules can mount other modules: '' @ md_id m)) (\<lambda>_.
     rbind (check_host modules m) (\<lambda>_.
     rbind (check_runtime m) (\<lambda>_.
     check_classification m)))))"

section \<open>Ownership\<close>

record ownership =
  ow_sources :: "(string \<times> module_descriptor) list"
  ow_assets :: "(string \<times> module_descriptor) list"
  ow_effects :: "(string \<times> module_descriptor) list"
  ow_services :: "(string \<times> module_descriptor) list"
  ow_profiles :: "(string \<times> module_descriptor) list"
  ow_exports :: "(string \<times> module_descriptor) list"
  ow_gates :: "(string \<times> module_descriptor) list"

definition no_owner :: ownership where
  "no_owner = \<lparr> ow_sources = [], ow_assets = [], ow_effects = [], ow_services = [],
     ow_profiles = [], ow_exports = [], ow_gates = [] \<rparr>"

definition claim_name ::
  "string \<Rightarrow> string \<Rightarrow> module_descriptor \<Rightarrow> string \<Rightarrow> (string \<times> module_descriptor) list \<Rightarrow>
   (string \<times> module_descriptor) list result" where
  "claim_name what verb m name owners =
     (case map_of owners name of
        Some existing \<Rightarrow>
          throw (what @ '' '' @ name @ '' is '' @ verb @ '' by both '' @ md_id existing @ '' and '' @ md_id m)
      | None \<Rightarrow> Inr ((name, m) # owners))"

definition claim_names ::
  "string \<Rightarrow> string \<Rightarrow> module_descriptor \<Rightarrow> string list \<Rightarrow> (string \<times> module_descriptor) list \<Rightarrow>
   (string \<times> module_descriptor) list result" where
  "claim_names what verb m names owners = fold_result (claim_name what verb m) names owners"

definition plugin_names :: "(plugin_binding \<Rightarrow> string option) \<Rightarrow> module_descriptor \<Rightarrow> string list" where
  "plugin_names f m = (case md_plugin m of None \<Rightarrow> [] | Some p \<Rightarrow> (case f p of None \<Rightarrow> [] | Some n \<Rightarrow> [n]))"

definition claim_ownership :: "module_descriptor \<Rightarrow> ownership \<Rightarrow> ownership result" where
  "claim_ownership m own =
     rbind (claim_names ''source'' ''owned'' m (md_owns m) (ow_sources own)) (\<lambda>sources.
     rbind (claim_names ''asset'' ''owned'' m (md_assets m) (ow_assets own)) (\<lambda>assets.
     rbind (claim_names ''effect'' ''provided'' m (md_providesEffects m) (ow_effects own)) (\<lambda>effects.
     rbind (claim_names ''service'' ''provided'' m (md_providesServices m) (ow_services own)) (\<lambda>services.
     rbind (claim_names ''plugin profile'' ''owned'' m (plugin_names (\<lambda>p. Some (pb_profileId p)) m) (ow_profiles own)) (\<lambda>profiles.
     rbind (claim_names ''plugin export'' ''owned'' m (plugin_names (\<lambda>p. Some (pb_packageExport p)) m) (ow_exports own)) (\<lambda>exports.
     rbind (claim_names ''plugin activation gate'' ''owned'' m (plugin_names pb_activationGate m) (ow_gates own)) (\<lambda>gates.
     Inr \<lparr> ow_sources = sources, ow_assets = assets, ow_effects = effects, ow_services = services,
           ow_profiles = profiles, ow_exports = exports, ow_gates = gates \<rparr>)))))))"

section \<open>Requirements\<close>

definition check_active ::
  "module_descriptor list \<Rightarrow> ownership \<Rightarrow> module_descriptor \<Rightarrow> unit result" where
  "check_active modules own m =
     rbind (check_all (\<lambda>d. require (case by_id modules d of None \<Rightarrow> False | Some x \<Rightarrow> md_runtime x = Active \<or> md_runtime x = Static)
              (''active module '' @ md_id m @ '' requires inactive runtime dependency '' @ d)) (md_runtimeDependsOn m)) (\<lambda>_.
     rbind (check_all (\<lambda>e. require (case map_of (ow_effects own) e of None \<Rightarrow> False | Some x \<Rightarrow> md_runtime x = Active)
              (''active module '' @ md_id m @ '' requires inactive effect '' @ e)) (md_requiresEffects m)) (\<lambda>_.
     check_all (\<lambda>s. require (case map_of (ow_services own) s of None \<Rightarrow> False | Some x \<Rightarrow> md_runtime x = Active)
              (''active module '' @ md_id m @ '' requires inactive service '' @ s)) (md_requiresServices m)))"

definition check_service :: "ownership \<Rightarrow> module_descriptor \<Rightarrow> string \<Rightarrow> unit result" where
  "check_service own m s =
     (case map_of (ow_services own) s of
        None \<Rightarrow> throw (''module '' @ md_id m @ '' requires unprovided service '' @ s)
      | Some provider \<Rightarrow>
          if md_classification m \<noteq> Migration \<and> md_classification provider = Migration
          then throw (word_of classifications (md_classification m) @ '' module '' @ md_id m @ '' cannot require service ''
                 @ s @ '' from migration module '' @ md_id provider)
          else require (\<not> (md_owns provider \<noteq> [] \<and> md_id provider \<in> set (md_runtimeDependsOn m)))
                 (''module '' @ md_id m @ '' duplicates service provider '' @ md_id provider @ '' in runtimeDependsOn''))"

definition check_effect :: "ownership \<Rightarrow> module_descriptor \<Rightarrow> string \<Rightarrow> unit result" where
  "check_effect own m e =
     (case map_of (ow_effects own) e of
        None \<Rightarrow> Inr ()
      | Some provider \<Rightarrow>
          require (\<not> (md_classification m \<noteq> Migration \<and> md_classification provider = Migration))
            (word_of classifications (md_classification m) @ '' module '' @ md_id m @ '' cannot require effect ''
              @ e @ '' from migration module '' @ md_id provider))"

definition check_requirements :: "ownership \<Rightarrow> module_descriptor \<Rightarrow> unit result" where
  "check_requirements own m =
     rbind (check_all (check_service own m) (md_requiresServices m)) (\<lambda>_.
     check_all (check_effect own m) (md_requiresEffects m))"

section \<open>Edges at run time\<close>

datatype edge_kind = RuntimeEdge | MountEdge | ServiceEdge | EffectEdge

record module_edge =
  me_from :: string
  me_to :: string
  me_kind :: edge_kind
  me_capability :: "string option"

definition module_edges ::
  "(string \<Rightarrow> module_descriptor option) \<Rightarrow> (string \<Rightarrow> module_descriptor option) \<Rightarrow> module_descriptor \<Rightarrow> module_edge list" where
  "module_edges services effects m =
     map (\<lambda>d. \<lparr> me_from = md_id m, me_to = d, me_kind = RuntimeEdge, me_capability = None \<rparr>) (md_runtimeDependsOn m)
     @ map (\<lambda>d. \<lparr> me_from = md_id m, me_to = d, me_kind = MountEdge, me_capability = None \<rparr>) (md_mounts m)
     @ concat (map (\<lambda>c. case services c of
          None \<Rightarrow> []
        | Some provider \<Rightarrow> [\<lparr> me_from = md_id m, me_to = md_id provider, me_kind = ServiceEdge, me_capability = Some c \<rparr>])
        (md_requiresServices m))
     @ concat (map (\<lambda>c. case effects c of
          None \<Rightarrow> []
        | Some provider \<Rightarrow>
            if md_id provider \<noteq> md_id m
            then [\<lparr> me_from = md_id m, me_to = md_id provider, me_kind = EffectEdge, me_capability = Some c \<rparr>]
            else [])
        (md_requiresEffects m))"

definition runtimeEdges ::
  "module_descriptor list \<Rightarrow> (string \<Rightarrow> module_descriptor option) \<Rightarrow> (string \<Rightarrow> module_descriptor option) \<Rightarrow> module_edge list" where
  "runtimeEdges modules services effects = concat (map (module_edges services effects) modules)"

definition edges_from :: "module_edge list \<Rightarrow> string \<Rightarrow> string list" where
  "edges_from edges n = map me_to (filter (\<lambda>e. me_from e = n) edges)"

definition dependency_graph ::
  "module_descriptor list \<Rightarrow> (string \<Rightarrow> module_descriptor option) \<Rightarrow> (string \<Rightarrow> module_descriptor option) \<Rightarrow> graph" where
  "dependency_graph modules services effects =
     map (\<lambda>m. (md_id m, md_dependsOn m @ edges_from (runtimeEdges modules services effects) (md_id m))) modules"

definition assertAcyclic :: "module_descriptor list \<Rightarrow> ownership \<Rightarrow> unit result" where
  "assertAcyclic modules own =
     assert_acyclic (dependency_graph modules (map_of (ow_services own)) (map_of (ow_effects own)))"

section \<open>The catalog\<close>

definition check_unique_ids :: "module_descriptor list \<Rightarrow> unit result" where
  "check_unique_ids modules =
     rbind (fold_result (\<lambda>m seen. if md_id m \<in> set seen then throw (''duplicate module id: '' @ md_id m) else Inr (md_id m # seen))
       modules []) (\<lambda>_. Inr ())"

definition validate_modules :: "module_descriptor list \<Rightarrow> unit result" where
  "validate_modules modules =
     rbind (check_unique_ids modules) (\<lambda>_.
     rbind (check_all (check_module modules) modules) (\<lambda>_.
     rbind (fold_result claim_ownership modules no_owner) (\<lambda>own.
     rbind (check_all (check_active modules own) (filter (\<lambda>m. md_runtime m = Active) modules)) (\<lambda>_.
     rbind (check_all (check_requirements own) modules) (\<lambda>_.
     assertAcyclic modules own)))))"

definition validateModuleCatalog :: "jval \<Rightarrow> module_descriptor list result" where
  "validateModuleCatalog value =
     (case js_get value ''modules'' of
        JArr items \<Rightarrow>
          if \<not> is_record value \<or> js_get value ''version'' \<noteq> JNum (Fin 3)
          then throw ''module catalog must be a version 3 object with a modules array''
          else
            let unknown = filter (\<lambda>k. k \<notin> set catalogFields) (own_keys value) in
            rbind (require (unknown = []) (''module catalog has unknown fields: '' @ join '', '' unknown)) (\<lambda>_.
            rbind (map_result parseModule items) (\<lambda>modules.
            rbind (validate_modules modules) (\<lambda>_.
            Inr modules)))
      | _ \<Rightarrow> throw ''module catalog must be a version 3 object with a modules array'')"

section \<open>Analyses of an admitted catalog\<close>

record effect_coverage =
  ec_required :: "string list"
  ec_declared :: "string list"
  ec_implemented :: "string list"
  ec_active :: "string list"
  ec_missingImplementation :: "string list"
  ec_inactive :: "string list"

text \<open>\<open>Array.prototype.sort\<close> without a comparator orders strings by code units.\<close>

definition analyzeEffectCoverage :: "module_descriptor list \<Rightarrow> effect_coverage" where
  "analyzeEffectCoverage modules =
     (let required = sort (first_occurrences (concat (map md_requiresEffects modules)));
          declared = sort (first_occurrences (concat (map md_providesEffects modules)));
          implementedProviders = concat (map md_providesEffects (filter (\<lambda>m. md_implementation m = Ready_impl) modules));
          activeProviders = concat (map md_providesEffects (filter (\<lambda>m. md_runtime m = Active) modules));
          implemented = filter (\<lambda>e. e \<in> set implementedProviders) required;
          active = filter (\<lambda>e. e \<in> set activeProviders) required in
      \<lparr> ec_required = required, ec_declared = declared, ec_implemented = implemented, ec_active = active,
        ec_missingImplementation = filter (\<lambda>e. e \<notin> set implemented) required,
        ec_inactive = filter (\<lambda>e. e \<in> set implemented \<and> e \<notin> set active) required \<rparr>)"

definition check_ownership ::
  "(module_descriptor \<Rightarrow> string list) \<Rightarrow> string \<Rightarrow> string \<Rightarrow> string \<Rightarrow> module_descriptor list \<Rightarrow> string list \<Rightarrow> unit result" where
  "check_ownership names title unowned gone modules files =
     (let owned = first_occurrences (concat (map names modules));
          missing = sort (filter (\<lambda>f. f \<notin> set owned) (first_occurrences files));
          stale = sort (filter (\<lambda>f. f \<notin> set files) owned) in
      if missing \<noteq> [] \<or> stale \<noteq> []
      then throw (title @ [CHR 0x0A] @ join [CHR 0x0A]
             (map (\<lambda>f. unowned @ f) missing @ map (\<lambda>f. gone @ f) stale))
      else Inr ())"

definition validateSourceOwnership :: "module_descriptor list \<Rightarrow> string list \<Rightarrow> unit result" where
  "validateSourceOwnership =
     check_ownership md_owns ''source ownership violations:'' ''unowned source: '' ''owned source does not exist: ''"

definition validateAssetOwnership :: "module_descriptor list \<Rightarrow> string list \<Rightarrow> unit result" where
  "validateAssetOwnership =
     check_ownership md_assets ''runtime asset ownership violations:'' ''unowned runtime asset: ''
       ''owned runtime asset does not exist or is not tracked: ''"

record module_summary =
  ms_total :: nat
  ms_classification :: "classification \<Rightarrow> nat"
  ms_implementation :: "implementation \<Rightarrow> nat"
  ms_runtime :: "runtime \<Rightarrow> nat"

definition count_by :: "('m \<Rightarrow> 'k) \<Rightarrow> 'm list \<Rightarrow> 'k \<Rightarrow> nat" where
  "count_by f ms = foldl (\<lambda>c m. c(f m := Suc (c (f m)))) (\<lambda>_. 0) ms"

definition summarizeModules :: "module_descriptor list \<Rightarrow> module_summary" where
  "summarizeModules modules =
     \<lparr> ms_total = length modules, ms_classification = count_by md_classification modules,
       ms_implementation = count_by md_implementation modules, ms_runtime = count_by md_runtime modules \<rparr>"

definition last_provider :: "(module_descriptor \<Rightarrow> string list) \<Rightarrow> module_descriptor list \<Rightarrow> string \<Rightarrow> module_descriptor option" where
  "last_provider names modules c = map_of (rev (concat (map (\<lambda>m. map (\<lambda>n. (n, m)) (names m)) modules))) c"

datatype requirement_kind = ServiceRequirement | EffectRequirement

definition unresolved_requirements :: "module_descriptor list \<Rightarrow> (string \<times> requirement_kind \<times> string) list" where
  "unresolved_requirements modules =
     concat (map (\<lambda>m.
       map (\<lambda>c. (md_id m, ServiceRequirement, c))
         (filter (\<lambda>c. last_provider md_providesServices modules c = None) (md_requiresServices m))
       @ map (\<lambda>c. (md_id m, EffectRequirement, c))
         (filter (\<lambda>c. last_provider md_providesEffects modules c = None) (md_requiresEffects m))) modules)"

definition analyzeModuleRuntimeGraph ::
  "module_descriptor list \<Rightarrow> module_edge list \<times> (string \<times> requirement_kind \<times> string) list" where
  "analyzeModuleRuntimeGraph modules =
     (runtimeEdges modules (last_provider md_providesServices modules) (last_provider md_providesEffects modules),
      unresolved_requirements modules)"

definition moduleRuntimeDependencyClosure :: "module_descriptor list \<Rightarrow> string list \<Rightarrow> string list option" where
  "moduleRuntimeDependencyClosure modules roots =
     (let g = map (\<lambda>m. (md_id m, edges_from (fst (analyzeModuleRuntimeGraph modules)) (md_id m))) modules in
      map_option snd (closure_loop g roots))"

section \<open>What an admitted catalog promises\<close>

definition depends_well :: "module_descriptor list \<Rightarrow> module_descriptor \<Rightarrow> bool" where
  "depends_well modules m \<longleftrightarrow>
     (\<forall>d\<in>set (md_dependsOn m) \<union> set (md_runtimeDependsOn m) \<union> set (md_mounts m).
        \<exists>x\<in>set modules. md_id x = d
          \<and> (md_classification m = Skeleton \<longrightarrow> md_classification x = Skeleton)
          \<and> (md_classification m = Feature \<longrightarrow> md_classification x \<noteq> Migration)
          \<and> (d \<in> set (md_dependsOn m) \<longrightarrow> md_layer x \<in> set (sourceDependencyLayers (md_layer m))))"

definition runs_well :: "module_descriptor \<Rightarrow> bool" where
  "runs_well m \<longleftrightarrow>
     (md_runtime m = Active \<longrightarrow> md_implementation m = Ready_impl)
     \<and> (md_runtime m = Static \<longleftrightarrow> md_layer m = Contract)
     \<and> (md_runtime m = Static \<longrightarrow> md_runtimeDependsOn m = [])
     \<and> (md_runtime m = Inactive \<longrightarrow> md_plugin m \<noteq> None \<longrightarrow> gate_of m \<noteq> None)
     \<and> (gate_of m \<noteq> None \<longrightarrow> md_runtime m = Inactive)
     \<and> (md_mounts m \<noteq> [] \<longrightarrow> md_layer m = Operations)"

definition supplied :: "module_descriptor list \<Rightarrow> module_descriptor \<Rightarrow> bool" where
  "supplied modules m \<longleftrightarrow>
     (\<forall>s\<in>set (md_requiresServices m). \<exists>x\<in>set modules. s \<in> set (md_providesServices x)
        \<and> (md_classification m \<noteq> Migration \<longrightarrow> md_classification x \<noteq> Migration)
        \<and> (md_runtime m = Active \<longrightarrow> md_runtime x = Active))
     \<and> (md_runtime m = Active \<longrightarrow>
          (\<forall>e\<in>set (md_requiresEffects m). \<exists>x\<in>set modules. e \<in> set (md_providesEffects x) \<and> md_runtime x = Active)
          \<and> (\<forall>d\<in>set (md_runtimeDependsOn m). \<exists>x\<in>set modules. md_id x = d \<and> (md_runtime x = Active \<or> md_runtime x = Static)))"

definition single_owners :: "module_descriptor list \<Rightarrow> bool" where
  "single_owners modules \<longleftrightarrow>
     distinct (concat (map md_owns modules)) \<and> distinct (concat (map md_assets modules))
     \<and> distinct (concat (map md_providesEffects modules)) \<and> distinct (concat (map md_providesServices modules))
     \<and> distinct (concat (map (plugin_names (\<lambda>p. Some (pb_profileId p))) modules))
     \<and> distinct (concat (map (plugin_names (\<lambda>p. Some (pb_packageExport p))) modules))
     \<and> distinct (concat (map (plugin_names pb_activationGate) modules))"

definition catalog_arcs :: "module_descriptor list \<Rightarrow> (string \<times> string) set" where
  "catalog_arcs modules =
     {(md_id m, d) | m d. m \<in> set modules \<and> (d \<in> set (md_dependsOn m) \<or> d \<in> set (md_runtimeDependsOn m) \<or> d \<in> set (md_mounts m))}
     \<union> {(md_id m, md_id x) | m x s. m \<in> set modules \<and> x \<in> set modules
           \<and> s \<in> set (md_requiresServices m) \<and> s \<in> set (md_providesServices x)}
     \<union> {(md_id m, md_id x) | m x e. m \<in> set modules \<and> x \<in> set modules \<and> md_id m \<noteq> md_id x
           \<and> e \<in> set (md_requiresEffects m) \<and> e \<in> set (md_providesEffects x)}"

definition well_formed_catalog :: "module_descriptor list \<Rightarrow> bool" where
  "well_formed_catalog modules \<longleftrightarrow>
     distinct (map md_id modules) \<and> single_owners modules
     \<and> (\<forall>m\<in>set modules. depends_well modules m \<and> runs_well m \<and> supplied modules m)
     \<and> acyclic (catalog_arcs modules)"

subsection \<open>Identifiers and owners\<close>

lemma by_id_SomeD: "by_id modules d = Some x \<Longrightarrow> x \<in> set modules \<and> md_id x = d"
  by (auto simp: by_id_def dest: find_SomeD)

lemma unique_ids_fold:
  "fold_result (\<lambda>m seen. if md_id m \<in> set seen then throw (msg m) else Inr (md_id m # seen)) modules seen = Inr seen' \<Longrightarrow>
     distinct (map md_id modules) \<and> set (map md_id modules) \<inter> set seen = {}"
proof (induction modules arbitrary: seen)
  case (Cons m modules)
  then have "md_id m \<notin> set seen" and rest:
    "fold_result (\<lambda>m seen. if md_id m \<in> set seen then throw (msg m) else Inr (md_id m # seen)) modules (md_id m # seen) = Inr seen'"
    by (simp_all split: if_splits)
  with Cons.IH [OF rest] show ?case by auto
qed simp

lemma check_unique_ids_distinct: "check_unique_ids modules = Inr u \<Longrightarrow> distinct (map md_id modules)"
  unfolding check_unique_ids_def rbind_Inr_iff by (auto dest: unique_ids_fold)

text \<open>The owners recorded after some modules, newest first.\<close>

definition owned_by :: "(module_descriptor \<Rightarrow> string list) \<Rightarrow> module_descriptor list \<Rightarrow> (string \<times> module_descriptor) list \<Rightarrow> bool" where
  "owned_by f modules owners \<longleftrightarrow>
     owners = rev (concat (map (\<lambda>m. map (\<lambda>n. (n, m)) (f m)) modules)) \<and> distinct (concat (map f modules))"

lemma claim_name_ok:
  "claim_name what verb m n owners = Inr owners' \<longleftrightarrow> n \<notin> fst ` set owners \<and> owners' = (n, m) # owners"
  by (auto simp: claim_name_def map_of_eq_None_iff [symmetric] split: option.splits)

lemma claim_names_ok:
  "claim_names what verb m names owners = Inr owners' \<Longrightarrow>
     distinct names \<and> set names \<inter> fst ` set owners = {} \<and> owners' = rev (map (\<lambda>n. (n, m)) names) @ owners"
  unfolding claim_names_def
proof (induction names arbitrary: owners)
  case (Cons n names)
  then obtain o1 where "claim_name what verb m n owners = Inr o1"
    and "fold_result (claim_name what verb m) names o1 = Inr owners'"
    by (auto split: sum.splits)
  then have "n \<notin> fst ` set owners"
    and rest: "fold_result (claim_name what verb m) names ((n, m) # owners) = Inr owners'"
    by (simp_all add: claim_name_ok)
  with Cons.IH [OF rest] show ?case by auto
qed simp

lemma fst_owned_by: "owned_by f modules owners \<Longrightarrow> fst ` set owners = set (concat (map f modules))"
  by (force simp: owned_by_def)

lemma owned_by_step:
  assumes "owned_by f pre owners" "claim_names what verb m (f m) owners = Inr owners'"
  shows "owned_by f (pre @ [m]) owners'"
  using claim_names_ok [OF assms(2)] fst_owned_by [OF assms(1)] assms(1)
  by (auto simp: owned_by_def)

lemma owned_by_provider:
  assumes "owned_by f modules owners" "map_of owners n = Some x"
  shows "x \<in> set modules \<and> n \<in> set (f x)"
  using map_of_SomeD [OF assms(2)] assms(1) by (auto simp: owned_by_def)

lemma distinct_concat_owner:
  assumes "distinct (concat (map f modules))" "x \<in> set modules" "y \<in> set modules" "n \<in> set (f x)" "n \<in> set (f y)"
  shows "x = y"
  using assms
proof (induction modules)
  case (Cons m modules)
  then show ?case by (cases "x = m"; cases "y = m") (auto simp: disjoint_iff)
qed simp

lemma owned_by_lookup:
  assumes "owned_by f modules owners" "x \<in> set modules" "n \<in> set (f x)"
  shows "map_of owners n = Some x"
proof -
  have "n \<in> fst ` set owners"
    using assms by (auto simp: fst_owned_by)
  then obtain y where y: "map_of owners n = Some y"
    by (metis map_of_eq_None_iff option.exhaust)
  from owned_by_provider [OF assms(1) y] have "y = x"
    using assms distinct_concat_owner [of f modules y x n] by (auto simp: owned_by_def)
  with y show ?thesis by simp
qed

definition owners_of :: "module_descriptor list \<Rightarrow> ownership \<Rightarrow> bool" where
  "owners_of modules own \<longleftrightarrow>
     owned_by md_owns modules (ow_sources own) \<and> owned_by md_assets modules (ow_assets own)
     \<and> owned_by md_providesEffects modules (ow_effects own) \<and> owned_by md_providesServices modules (ow_services own)
     \<and> owned_by (plugin_names (\<lambda>p. Some (pb_profileId p))) modules (ow_profiles own)
     \<and> owned_by (plugin_names (\<lambda>p. Some (pb_packageExport p))) modules (ow_exports own)
     \<and> owned_by (plugin_names pb_activationGate) modules (ow_gates own)"

lemma owners_of_step:
  assumes "owners_of pre own" "claim_ownership m own = Inr own'"
  shows "owners_of (pre @ [m]) own'"
  using assms unfolding owners_of_def claim_ownership_def
  by (auto simp: rbind_Inr_iff intro: owned_by_step)

lemma owners_of_fold:
  "fold_result claim_ownership modules own = Inr own' \<Longrightarrow> owners_of pre own \<Longrightarrow> owners_of (pre @ modules) own'"
proof (induction modules arbitrary: own pre)
  case (Cons m modules)
  then obtain o1 where "claim_ownership m own = Inr o1" "fold_result claim_ownership modules o1 = Inr own'"
    by (auto split: sum.splits)
  with Cons.IH [of o1 "pre @ [m]"] owners_of_step [OF Cons.prems(2)] show ?case by simp
qed simp

lemma owners_of_modules: "fold_result claim_ownership modules no_owner = Inr own \<Longrightarrow> owners_of modules own"
  using owners_of_fold [of modules no_owner own "[]"] by (simp add: owners_of_def owned_by_def no_owner_def)

subsection \<open>Edges\<close>

lemma succs_of_modules:
  assumes "distinct (map md_id modules)" "m \<in> set modules"
  shows "succs (map (\<lambda>m. (md_id m, f m)) modules) (md_id m) = f m"
proof -
  have "map_of (map (\<lambda>m. (md_id m, f m)) modules) (md_id m) = Some (f m)"
    using assms by (intro map_of_is_SomeI) (auto simp: comp_def)
  then show ?thesis by (simp add: succs_def)
qed

lemma succs_of_ids: "m \<in> set modules \<Longrightarrow> succs (map (\<lambda>m. (md_id m, f (md_id m))) modules) (md_id m) = f (md_id m)"
  by (induction modules) (auto simp: succs_def)

lemma edges_from_iff: "d \<in> set (edges_from edges n) \<longleftrightarrow> (\<exists>e\<in>set edges. me_from e = n \<and> me_to e = d)"
  by (auto simp: edges_from_def)

lemma edge_from_module:
  assumes "m \<in> set modules" "e \<in> set (module_edges services effects m)"
  shows "me_to e \<in> set (edges_from (runtimeEdges modules services effects) (md_id m))"
proof -
  have "me_from e = md_id m"
    using assms(2) by (auto simp: module_edges_def split: option.splits if_splits)
  with assms show ?thesis by (auto simp: edges_from_iff runtimeEdges_def)
qed

lemma relation_edge:
  assumes "m \<in> set modules" "d \<in> set (md_runtimeDependsOn m) \<union> set (md_mounts m)"
  shows "d \<in> set (edges_from (runtimeEdges modules services effects) (md_id m))"
proof -
  from assms(2) have "\<exists>e\<in>set (module_edges services effects m). me_to e = d"
    by (auto simp: module_edges_def bex_Un)
  with edge_from_module [OF assms(1)] show ?thesis by fastforce
qed

lemma service_edge:
  assumes "m \<in> set modules" "s \<in> set (md_requiresServices m)" "services s = Some x"
  shows "md_id x \<in> set (edges_from (runtimeEdges modules services effects) (md_id m))"
proof -
  from assms(2,3) have "\<exists>e\<in>set (module_edges services effects m). me_to e = md_id x"
    by (force simp: module_edges_def)
  with edge_from_module [OF assms(1)] show ?thesis by fastforce
qed

lemma effect_edge:
  assumes "m \<in> set modules" "c \<in> set (md_requiresEffects m)" "effects c = Some x" "md_id x \<noteq> md_id m"
  shows "md_id x \<in> set (edges_from (runtimeEdges modules services effects) (md_id m))"
proof -
  from assms(2-) have "\<exists>e\<in>set (module_edges services effects m). me_to e = md_id x"
    by (force simp: module_edges_def)
  with edge_from_module [OF assms(1)] show ?thesis by fastforce
qed

lemma catalog_arcs_below:
  assumes ids: "distinct (map md_id modules)" and own: "owners_of modules own"
  shows "catalog_arcs modules
    \<subseteq> arcs (dependency_graph modules (map_of (ow_services own)) (map_of (ow_effects own)))"
proof -
  let ?sv = "map_of (ow_services own)" and ?ef = "map_of (ow_effects own)"
  let ?g = "dependency_graph modules ?sv ?ef"
  from own have sv: "owned_by md_providesServices modules (ow_services own)"
    and ef: "owned_by md_providesEffects modules (ow_effects own)"
    by (simp_all add: owners_of_def)
  have arc: "(md_id m, d) \<in> arcs ?g"
    if "m \<in> set modules" "d \<in> set (md_dependsOn m) \<or> d \<in> set (edges_from (runtimeEdges modules ?sv ?ef) (md_id m))" for m d
    using that by (auto simp: arcs_def dependency_graph_def succs_of_modules [OF ids])
  show ?thesis
    unfolding catalog_arcs_def
    using arc relation_edge service_edge [OF _ _ owned_by_lookup [OF sv]] effect_edge [OF _ _ owned_by_lookup [OF ef]]
    by (auto 5 3)
qed

subsection \<open>The checks\<close>

lemma check_dependency_ok:
  assumes "check_dependency modules m d = Inr ()" "d \<in> set (md_dependsOn m) \<longrightarrow> check_source_layer modules m d = Inr ()"
  shows "\<exists>x\<in>set modules. md_id x = d
    \<and> (md_classification m = Skeleton \<longrightarrow> md_classification x = Skeleton)
    \<and> (md_classification m = Feature \<longrightarrow> md_classification x \<noteq> Migration)
    \<and> (d \<in> set (md_dependsOn m) \<longrightarrow> md_layer x \<in> set (sourceDependencyLayers (md_layer m)))"
proof -
  from assms(1) obtain x where x: "by_id modules d = Some x"
    by (auto simp: check_dependency_def split: option.splits)
  from assms x show ?thesis
    by (intro bexI [of _ x]) (auto simp: check_dependency_def check_source_layer_def dest: by_id_SomeD split: if_splits)
qed

lemma check_module_ok:
  assumes "check_module modules m = Inr ()"
  shows "depends_well modules m \<and> runs_well m"
proof -
  from assms have deps: "\<forall>d\<in>set (md_dependsOn m @ md_runtimeDependsOn m @ md_mounts m). check_dependency modules m d = Inr ()"
    and srcs: "\<forall>d\<in>set (md_dependsOn m). check_source_layer modules m d = Inr ()"
    and mounts: "md_mounts m \<noteq> [] \<longrightarrow> md_layer m = Operations"
    and run: "check_runtime m = Inr ()"
    by (auto simp: check_module_def rbind_Inr_iff check_all_ok)
  have "depends_well modules m"
    unfolding depends_well_def using check_dependency_ok deps srcs by simp
  moreover have "runs_well m"
    using run mounts by (auto simp: runs_well_def check_runtime_def rbind_Inr_iff)
  ultimately show ?thesis ..
qed

lemma requirements_ok:
  assumes own: "owners_of modules own"
    and active: "md_runtime m = Active \<longrightarrow> check_active modules own m = Inr ()"
    and requirements: "check_requirements own m = Inr ()"
  shows "supplied modules m"
proof -
  from own have sv: "owned_by md_providesServices modules (ow_services own)"
    and ef: "owned_by md_providesEffects modules (ow_effects own)"
    by (simp_all add: owners_of_def)
  have "\<exists>x\<in>set modules. s \<in> set (md_providesServices x)
      \<and> (md_classification m \<noteq> Migration \<longrightarrow> md_classification x \<noteq> Migration)
      \<and> (md_runtime m = Active \<longrightarrow> md_runtime x = Active)" if "s \<in> set (md_requiresServices m)" for s
  proof -
    from requirements that have "check_service own m s = Inr ()"
      by (auto simp: check_requirements_def rbind_Inr_iff check_all_ok)
    then obtain x where x: "map_of (ow_services own) s = Some x"
      and c: "md_classification m \<noteq> Migration \<longrightarrow> md_classification x \<noteq> Migration"
      by (auto simp: check_service_def split: option.splits if_splits)
    have "md_runtime m = Active \<longrightarrow> md_runtime x = Active"
      using active that x by (auto simp: check_active_def rbind_Inr_iff check_all_ok)
    with c owned_by_provider [OF sv x] show ?thesis by auto
  qed
  moreover have "\<exists>x\<in>set modules. e \<in> set (md_providesEffects x) \<and> md_runtime x = Active"
    if "md_runtime m = Active" "e \<in> set (md_requiresEffects m)" for e
  proof -
    from active that obtain x where x: "map_of (ow_effects own) e = Some x" "md_runtime x = Active"
      by (auto simp: check_active_def rbind_Inr_iff check_all_ok split: option.splits)
    with owned_by_provider [OF ef x(1)] show ?thesis by auto
  qed
  moreover have "\<exists>x\<in>set modules. md_id x = d \<and> (md_runtime x = Active \<or> md_runtime x = Static)"
    if "md_runtime m = Active" "d \<in> set (md_runtimeDependsOn m)" for d
  proof -
    from active that obtain x where x: "by_id modules d = Some x" "md_runtime x = Active \<or> md_runtime x = Static"
      by (auto simp: check_active_def rbind_Inr_iff check_all_ok split: option.splits)
    with by_id_SomeD [OF x(1)] show ?thesis by auto
  qed
  ultimately show ?thesis by (simp add: supplied_def)
qed

lemma validate_modules_well_formed:
  assumes "validate_modules modules = Inr ()"
  shows "well_formed_catalog modules"
proof -
  from assms obtain own where ids: "check_unique_ids modules = Inr ()"
    and each: "\<forall>m\<in>set modules. check_module modules m = Inr ()"
    and fold: "fold_result claim_ownership modules no_owner = Inr own"
    and active: "\<forall>m\<in>set modules. md_runtime m = Active \<longrightarrow> check_active modules own m = Inr ()"
    and requirements: "\<forall>m\<in>set modules. check_requirements own m = Inr ()"
    and graph: "assertAcyclic modules own = Inr ()"
    by (auto simp: validate_modules_def rbind_Inr_iff check_all_ok)
  note own = owners_of_modules [OF fold]
  note distinct = check_unique_ids_distinct [OF ids]
  have "acyclic (catalog_arcs modules)"
    using graph catalog_arcs_below [OF distinct own]
    by (auto simp: assertAcyclic_def assert_acyclic_iff intro: acyclic_subset)
  moreover have "single_owners modules"
    using own by (simp add: owners_of_def owned_by_def single_owners_def)
  moreover have "\<forall>m\<in>set modules. depends_well modules m \<and> runs_well m \<and> supplied modules m"
    using check_module_ok requirements_ok [OF own] each active requirements by blast
  ultimately show ?thesis
    using distinct by (simp add: well_formed_catalog_def)
qed

section \<open>Properties\<close>

text \<open>C31. A catalog that is admitted is well formed: names are unique; every source, asset, effect,
service, plugin profile, export and gate has one owner; relations lead to known modules of admissible
classification and layer; executable modules run in the states their layer allows; what an active
module requires is provided by active modules; and no module depends on itself through sources,
run-time relations, mounts, services and effects.\<close>

theorem admitted_catalog_well_formed:
  assumes "validateModuleCatalog value = Inr modules"
  shows "well_formed_catalog modules"
proof -
  from assms have "validate_modules modules = Inr ()"
    by (auto simp: validateModuleCatalog_def Let_def rbind_Inr_iff split: jval.splits if_splits)
  then show ?thesis by (rule validate_modules_well_formed)
qed

text \<open>C32. The dependency closure ends for every catalog, well formed or not, and every list of
roots, cyclic relations included, and lists exactly the modules reachable from the roots, each once.\<close>

theorem dependency_closure_terminates:
  "\<exists>closure. moduleRuntimeDependencyClosure modules roots = Some closure \<and> distinct closure
    \<and> set closure = {(me_from e, me_to e) | e. e \<in> set (fst (analyzeModuleRuntimeGraph modules))}\<^sup>* `` set roots"
proof -
  define edges where "edges = fst (analyzeModuleRuntimeGraph modules)"
  let ?g = "map (\<lambda>m. (md_id m, edges_from edges (md_id m))) modules"
  have known: "me_from e \<in> md_id ` set modules" if "e \<in> set edges" for e
    using that by (auto simp: edges_def analyzeModuleRuntimeGraph_def runtimeEdges_def module_edges_def
        split: option.splits if_splits)
  have "arcs ?g = {(me_from e, me_to e) | e. e \<in> set edges}"
  proof (intro set_eqI iffI)
    fix p assume p: "p \<in> arcs ?g"
    obtain a b where ab: "p = (a, b)" by (cases p)
    with p have "a \<in> fst ` set ?g"
      using succs_unknown [of a ?g] by (cases "a \<in> fst ` set ?g") (simp_all add: arcs_def)
    then obtain m where "m \<in> set modules" "a = md_id m" by auto
    with p ab succs_of_ids [of _ modules "edges_from edges"] obtain e where "e \<in> set edges" "me_from e = a" "me_to e = b"
      by (auto simp: arcs_def edges_from_iff)
    with ab show "p \<in> {(me_from e, me_to e) | e. e \<in> set edges}" by blast
  next
    fix p assume "p \<in> {(me_from e, me_to e) | e. e \<in> set edges}"
    then obtain e where e: "p = (me_from e, me_to e)" "e \<in> set edges" by auto
    from known [OF e(2)] obtain m where "m \<in> set modules" "me_from e = md_id m" by auto
    with e succs_of_ids [of _ modules "edges_from edges"] show "p \<in> arcs ?g"
      by (auto simp: arcs_def edges_from_iff)
  qed
  moreover obtain s where s: "closure_loop ?g roots = Some s"
    using closure_terminates by blast
  ultimately show ?thesis
    using closure_loop_reachable [OF s]
    by (auto simp: moduleRuntimeDependencyClosure_def Let_def edges_def [symmetric])
qed

section \<open>Witness\<close>

text \<open>A contract and a kernel module that depends on it and provides what it requires itself.\<close>

definition sample_field :: "string \<Rightarrow> string list \<Rightarrow> string \<times> jval" where
  "sample_field k xs = (k, JArr (map JStr xs))"

definition sample_catalog :: jval where
  "sample_catalog = JObj ObjectProto
     [(''version'', JNum (Fin 3)),
      (''modules'', JArr
        [JObj ObjectProto
           [(''id'', JStr ''c''), (''classification'', JStr ''skeleton''), (''layer'', JStr ''contract''),
            (''implementation'', JStr ''ready''), (''runtime'', JStr ''static''), (''source'', JStr ''src/c.ts''),
            sample_field ''owns'' [''src/c.ts''], sample_field ''dependsOn'' []],
         JObj ObjectProto
           [(''id'', JStr ''k''), (''classification'', JStr ''feature''), (''layer'', JStr ''kernel''),
            (''implementation'', JStr ''ready''), (''runtime'', JStr ''active''), (''source'', JStr ''k''),
            sample_field ''owns'' [], sample_field ''dependsOn'' [''c''],
            sample_field ''requiresEffects'' [''a.b.v1''], sample_field ''providesEffects'' [''a.b.v1'']]])]"

definition sample_modules :: "module_descriptor list" where
  "sample_modules =
     (case js_get sample_catalog ''modules'' of
        JArr items \<Rightarrow> (case map_result parseModule items of Inr ms \<Rightarrow> ms | Inl _ \<Rightarrow> [])
      | _ \<Rightarrow> [])"

lemma sample_modules_checked:
  "check_unique_ids sample_modules = Inr ()"
  "check_all (check_module sample_modules) sample_modules = Inr ()"
  "\<exists>own. fold_result claim_ownership sample_modules no_owner = Inr own
     \<and> check_all (check_active sample_modules own) (filter (\<lambda>m. md_runtime m = Active) sample_modules) = Inr ()
     \<and> check_all (check_requirements own) sample_modules = Inr () \<and> assertAcyclic sample_modules own = Inr ()"
proof -
  show "check_unique_ids sample_modules = Inr ()" by code_simp
  show "check_all (check_module sample_modules) sample_modules = Inr ()" by code_simp
  have "case fold_result claim_ownership sample_modules no_owner of Inl _ \<Rightarrow> False
      | Inr own \<Rightarrow> check_all (check_active sample_modules own) (filter (\<lambda>m. md_runtime m = Active) sample_modules) = Inr ()
          \<and> check_all (check_requirements own) sample_modules = Inr () \<and> assertAcyclic sample_modules own = Inr ()"
    by code_simp
  then show "\<exists>own. fold_result claim_ownership sample_modules no_owner = Inr own
     \<and> check_all (check_active sample_modules own) (filter (\<lambda>m. md_runtime m = Active) sample_modules) = Inr ()
     \<and> check_all (check_requirements own) sample_modules = Inr () \<and> assertAcyclic sample_modules own = Inr ()"
    by (cases "fold_result claim_ownership sample_modules no_owner") simp_all
qed

lemma sample_catalog_parsed:
  "\<exists>items. js_get sample_catalog ''modules'' = JArr items \<and> map_result parseModule items = Inr sample_modules
     \<and> map md_id sample_modules = [''c'', ''k'']"
proof -
  have "case js_get sample_catalog ''modules'' of
        JArr items \<Rightarrow> (case map_result parseModule items of Inr ms \<Rightarrow> ms = sample_modules | Inl _ \<Rightarrow> False)
      | _ \<Rightarrow> False" and "map md_id sample_modules = [''c'', ''k'']"
    by code_simp+
  then show ?thesis by (auto split: jval.splits sum.splits)
qed

lemma admitted_catalog_well_formed_witness:
  "validateModuleCatalog sample_catalog = Inr sample_modules \<and> map md_id sample_modules = [''c'', ''k'']
     \<and> well_formed_catalog sample_modules"
proof -
  from sample_catalog_parsed obtain items where "js_get sample_catalog ''modules'' = JArr items"
    and "map_result parseModule items = Inr sample_modules" and ids: "map md_id sample_modules = [''c'', ''k'']"
    by (elim exE conjE) (rule that)
  moreover have "is_record sample_catalog" "js_get sample_catalog ''version'' = JNum (Fin 3)"
    "filter (\<lambda>k. k \<notin> set catalogFields) (own_keys sample_catalog) = []"
    by code_simp+
  moreover have "validate_modules sample_modules = Inr ()"
    using sample_modules_checked by (auto simp: validate_modules_def)
  ultimately have "validateModuleCatalog sample_catalog = Inr sample_modules"
    by (simp add: validateModuleCatalog_def require_def)
  with ids admitted_catalog_well_formed [OF this] show ?thesis by blast
qed

end
