(* ===== verification/Capability_Checks.thy ===== *)
theory Capability_Checks
  imports Canonical_Json Channel_Domain Module_Graph
begin

text \<open>
  The building blocks of the validators of capability-platform/validation.ts: its patterns, its
  checks of fields, its canonical JSON with the digest made from it, and the walk over a
  configuration. A validator is a sequence of checks that ends at the first failure (\<open>all_of\<close>); a
  field read after its check is read with \<open>js_string\<close> or \<open>strings_of\<close>. Three functions of the host
  are parameters: \<open>date_ms\<close> (\<open>Date.parse\<close>), \<open>num_text\<close> (the text of a finite number) and \<open>sha\<close>
  (the SHA-256 of a text, in hexadecimal).
\<close>

section \<open>Patterns\<close>

definition id_char :: "char \<Rightarrow> bool" where
  "id_char c = (lower_letter c \<or> digit_char c \<or> c = CHR ''.'' \<or> c = CHR ''-'')"

definition id_part :: "string \<Rightarrow> bool" where
  "id_part s = (s \<noteq> [] \<and> length s \<le> 64 \<and> (lower_letter (hd s) \<or> digit_char (hd s)) \<and> list_all id_char s)"

definition idPattern :: "string \<Rightarrow> bool" where
  "idPattern s = (let parts = split_on (CHR ''/'') s in length parts \<le> 2 \<and> list_all id_part parts)"

definition versionPattern :: "string \<Rightarrow> bool" where
  "versionPattern s =
     (let core = takeWhile (\<lambda>c. c \<noteq> CHR ''-'') s;
          suffix = dropWhile (\<lambda>c. c \<noteq> CHR ''-'') s;
          parts = split_on (CHR ''.'') core in
      length parts = 3 \<and> list_all (\<lambda>p. p \<noteq> [] \<and> list_all digit_char p) parts
      \<and> (suffix = [] \<or>
         (tl suffix \<noteq> []
          \<and> list_all (\<lambda>c. digit_char c \<or> upper_letter c \<or> lower_letter c \<or> c = CHR ''.'' \<or> c = CHR ''-'') (tl suffix))))"

definition hex_char :: "char \<Rightarrow> bool" where
  "hex_char c = (digit_char c \<or> (97 \<le> (of_char c :: nat) \<and> (of_char c :: nat) \<le> 102))"

definition digestPattern :: "string \<Rightarrow> bool" where
  "digestPattern s = (starts_with ''sha256:'' s \<and> length s = 71 \<and> list_all hex_char (drop 7 s))"

definition absolutePathPattern :: "string \<Rightarrow> bool" where
  "absolutePathPattern s =
     (case s of
        [] \<Rightarrow> False
      | c # rest \<Rightarrow>
          c = CHR ''/''
          \<or> (upper_letter c \<or> lower_letter c)
             \<and> (case rest of d # e # _ \<Rightarrow> d = CHR '':'' \<and> (e = CHR 0x5C \<or> e = CHR ''/'') | _ \<Rightarrow> False)
          \<or> c = CHR ''~'' \<and> (case rest of [] \<Rightarrow> True | d # _ \<Rightarrow> d = CHR 0x5C \<or> d = CHR ''/''))"

definition secret_words :: "string list" where
  "secret_words = [''token'', ''secret'', ''password'', ''privatekey'', ''private_key'', ''private-key'']"

definition assigned :: "string \<Rightarrow> bool" where
  "assigned s = (case dropWhile is_ws s of [] \<Rightarrow> False | c # _ \<Rightarrow> c = CHR '':'' \<or> c = CHR ''='')"

definition secret_at :: "string \<Rightarrow> bool" where
  "secret_at s = list_ex (\<lambda>w. starts_with w s \<and> assigned (drop (length w) s)) secret_words"

fun has_secret :: "string \<Rightarrow> bool" where
  "has_secret [] = False"
| "has_secret (c # cs) = (secret_at (c # cs) \<or> has_secret cs)"

definition secretAssignmentPattern :: "string \<Rightarrow> bool" where
  "secretAssignmentPattern s = has_secret (map lower_char s)"

definition executable_key :: "string \<Rightarrow> bool" where
  "executable_key k =
     (map lower_char k \<in> {''command'', ''commands'', ''script'', ''shell'', ''argv'', ''executable''})"

section \<open>Allowed words\<close>

definition capabilityKinds :: "string list" where
  "capabilityKinds = [''skill'', ''knowledge'', ''policy'', ''workflow'', ''connector'', ''package'', ''sdk'',
     ''cli'', ''binary'', ''project'', ''browser-runtime'', ''container'', ''notebook'', ''sandbox'',
     ''application'', ''game'', ''simulation'', ''integration-pack'', ''agent'', ''composite'']"

definition sourceKinds :: "string list" where
  "sourceKinds = [''git'', ''registry'', ''local-build'', ''first-party'']"

definition isolationKinds :: "string list" where
  "isolationKinds = [''pure'', ''process'', ''container'', ''browser-profile'', ''vm'', ''remote-service'']"

definition interfaceKinds :: "string list" where
  "interfaceKinds = [''tool'', ''port'', ''event'', ''resource'', ''ui'', ''runtime'', ''experience'']"

definition permissionKinds :: "string list" where
  "permissionKinds = [''workspace'', ''file'', ''browser'', ''desktop'', ''network'', ''secret-reference'',
     ''process'', ''container'', ''gpu'', ''port'', ''data'', ''external-effect'']"

definition permissionOperations :: "string list" where
  "permissionOperations = [''discover'', ''read'', ''write'', ''execute'', ''connect'', ''listen'', ''render'', ''persist'']"

definition approvalKinds :: "string list" where
  "approvalKinds = [''none'', ''install'', ''session'', ''action'']"

section \<open>Checks of a value\<close>

definition at_index :: "string \<Rightarrow> nat \<Rightarrow> string" where
  "at_index label i = label @ ''['' @ show_nat i @ '']''"

definition check_record :: "jval \<Rightarrow> string \<Rightarrow> unit result" where
  "check_record v label = require (is_record v) (label @ '' must be an object'')"

definition check_text :: "nat \<Rightarrow> jval \<Rightarrow> string \<Rightarrow> unit result" where
  "check_text max_len v label =
     require (case v of JStr s \<Rightarrow> \<not> blank s \<and> length s \<le> max_len | _ \<Rightarrow> False)
       (label @ '' must be a non-empty string up to '' @ show_nat max_len @ '' characters'')"

definition items_of :: "jval \<Rightarrow> jval list" where
  "items_of v = (case v of JArr items \<Rightarrow> items | _ \<Rightarrow> [])"

definition check_array :: "jval \<Rightarrow> string \<Rightarrow> unit result" where
  "check_array v label = require (case v of JArr _ \<Rightarrow> True | _ \<Rightarrow> False) (label @ '' must be an array'')"

definition check_unique :: "string list \<Rightarrow> string \<Rightarrow> unit result" where
  "check_unique values label = require (length (first_occurrences values) = length values) (label @ '' must be unique'')"

definition field_names :: "jval \<Rightarrow> string list" where
  "field_names v = (case v of JObj _ kvs \<Rightarrow> map fst kvs | _ \<Rightarrow> [])"

definition exactKeys :: "jval \<Rightarrow> string list \<Rightarrow> string \<Rightarrow> unit result" where
  "exactKeys v allowed label =
     (let unknown = filter (\<lambda>k. k \<notin> set allowed) (field_names v) in
      require (unknown = []) (label @ '' has unknown fields: '' @ join '','' unknown))"

definition check_identifier :: "jval \<Rightarrow> string \<Rightarrow> unit result" where
  "check_identifier v label =
     all_of [check_text 129 v label, require (idPattern (js_string v)) (label @ '' is invalid'')]"

definition check_version :: "jval \<Rightarrow> string \<Rightarrow> unit result" where
  "check_version v label =
     all_of [check_text 100 v label, require (versionPattern (js_string v)) (label @ '' must be semantic version'')]"

definition check_digest :: "jval \<Rightarrow> string \<Rightarrow> unit result" where
  "check_digest v label =
     all_of [check_text 80 v label, require (digestPattern (js_string v)) (label @ '' must be a sha256 digest'')]"

definition check_timestamp :: "(string \<Rightarrow> int option) \<Rightarrow> jval \<Rightarrow> string \<Rightarrow> unit result" where
  "check_timestamp date_ms v label =
     all_of [check_text 100 v label, require (date_ms (js_string v) \<noteq> None) (label @ '' must be an ISO timestamp'')]"

definition check_boolean :: "jval \<Rightarrow> string \<Rightarrow> unit result" where
  "check_boolean v label = require (case v of JBool _ \<Rightarrow> True | _ \<Rightarrow> False) (label @ '' must be a boolean'')"

definition check_optional :: "(jval \<Rightarrow> string \<Rightarrow> unit result) \<Rightarrow> jval \<Rightarrow> string \<Rightarrow> unit result" where
  "check_optional f v label = (if v = JUndefined then Inr () else f v label)"

definition safe_int :: "jval \<Rightarrow> int option" where
  "safe_int v = (case v of JNum n \<Rightarrow> if safe_integer n then Some (int_num n) else None | _ \<Rightarrow> None)"

definition check_nonNegativeInteger :: "jval \<Rightarrow> string \<Rightarrow> unit result" where
  "check_nonNegativeInteger v label =
     require (case safe_int v of Some n \<Rightarrow> 0 \<le> n | None \<Rightarrow> False) (label @ '' must be a non-negative integer'')"

text \<open>\<open>array(value, label).map((item, index) => check(item, label[index]))\<close>\<close>

definition check_items :: "(jval \<Rightarrow> string \<Rightarrow> unit result) \<Rightarrow> jval \<Rightarrow> string \<Rightarrow> unit result" where
  "check_items f v label =
     all_of [check_array v label, all_of (indexed (\<lambda>i item. f item (at_index label i)) (items_of v))]"

definition texts_of :: "jval \<Rightarrow> string list" where
  "texts_of v = map js_string (items_of v)"

definition opaque :: "string \<Rightarrow> bool" where
  "opaque s = (\<not> absolutePathPattern s \<and> \<not> secretAssignmentPattern s)"

text \<open>\<open>assertAcyclic\<close>: the depth-first search of the module catalog with a fixed message.\<close>

definition check_acyclic :: "graph \<Rightarrow> string \<Rightarrow> unit result" where
  "check_acyclic g msg = (case assert_acyclic g of Inl _ \<Rightarrow> throw msg | Inr _ \<Rightarrow> Inr ())"

section \<open>Canonical JSON and digests\<close>

definition hex_digit :: "nat \<Rightarrow> char" where
  "hex_digit n = (if n < 10 then char_of (48 + n) else char_of (87 + n))"

text \<open>\<open>JSON.stringify\<close> of a string of code units below 256.\<close>

definition escape_char :: "char \<Rightarrow> string" where
  "escape_char c =
     (let n = (of_char c :: nat) in
      if n = 34 then [CHR 0x5C, CHR 0x22]
      else if n = 92 then [CHR 0x5C, CHR 0x5C]
      else if n = 8 then [CHR 0x5C, CHR ''b'']
      else if n = 9 then [CHR 0x5C, CHR ''t'']
      else if n = 10 then [CHR 0x5C, CHR ''n'']
      else if n = 12 then [CHR 0x5C, CHR ''f'']
      else if n = 13 then [CHR 0x5C, CHR ''r'']
      else if n < 32 then [CHR 0x5C, CHR ''u'', CHR ''0'', CHR ''0'', hex_digit (n div 16), hex_digit (n mod 16)]
      else [c])"

definition quoted :: "string \<Rightarrow> string" where
  "quoted s = [CHR 0x22] @ concat (map escape_char s) @ [CHR 0x22]"

fun canonical_json :: "(rat \<Rightarrow> string) \<Rightarrow> jval \<Rightarrow> string result" where
  "canonical_json num_text JNull = Inr ''null''"
| "canonical_json num_text (JStr s) = Inr (quoted s)"
| "canonical_json num_text (JBool b) = Inr (if b then ''true'' else ''false'')"
| "canonical_json num_text (JNum n) =
     (case n of Fin q \<Rightarrow> Inr (num_text q) | _ \<Rightarrow> throw ''canonical JSON rejects non-finite numbers'')"
| "canonical_json num_text (JArr xs) =
     rbind (map_result (canonical_json num_text) xs) (\<lambda>ts. Inr (''['' @ join '','' ts @ '']''))"
| "canonical_json num_text (JObj p kvs) =
     (if list_ex (\<lambda>kv. snd kv = JUndefined) kvs then throw ''canonical JSON rejects undefined values''
      else
        rbind (map_result (\<lambda>kv. rbind (canonical_json num_text (snd kv)) (\<lambda>t. Inr (quoted (fst kv) @ '':'' @ t)))
                 (sort_key fst kvs)) (\<lambda>ts.
        Inr (''{'' @ join '','' ts @ ''}'')))"
| "canonical_json num_text JUndefined = throw ''canonical JSON rejects undefined''"
| "canonical_json num_text JFun = throw ''canonical JSON rejects function''"

definition contentDigest :: "(rat \<Rightarrow> string) \<Rightarrow> (string \<Rightarrow> string) \<Rightarrow> jval \<Rightarrow> string result" where
  "contentDigest num_text sha v = rbind (canonical_json num_text v) (\<lambda>t. Inr (''sha256:'' @ sha t))"

text \<open>\<open>{ [k]: _, ...payload }\<close>: a plain object of the other entries.\<close>

definition without_field :: "string \<Rightarrow> jval \<Rightarrow> jval" where
  "without_field k v = (case v of JObj _ kvs \<Rightarrow> JObj ObjectProto (filter (\<lambda>kv. fst kv \<noteq> k) kvs) | _ \<Rightarrow> JObj ObjectProto [])"

definition blueprintPayloadDigest :: "(rat \<Rightarrow> string) \<Rightarrow> (string \<Rightarrow> string) \<Rightarrow> jval \<Rightarrow> string result" where
  "blueprintPayloadDigest num_text sha v = contentDigest num_text sha (without_field ''digest'' v)"

section \<open>Configurations\<close>

fun config_walk :: "jval \<Rightarrow> string \<Rightarrow> unit result"
and config_items :: "nat \<Rightarrow> jval list \<Rightarrow> string \<Rightarrow> unit result"
and config_entries :: "(string \<times> jval) list \<Rightarrow> string \<Rightarrow> unit result" where
  "config_walk (JStr s) path =
     (if length s > 8192 then throw (path @ '' exceeds 8192 characters'')
      else require (opaque s) (path @ '' cannot contain an absolute path or secret-shaped value''))"
| "config_walk (JArr xs) path = config_items 0 xs path"
| "config_walk (JObj p kvs) path = config_entries kvs path"
| "config_walk v path = Inr ()"
| "config_items i [] path = Inr ()"
| "config_items i (x # xs) path =
     (case config_walk x (at_index path i) of Inl e \<Rightarrow> Inl e | Inr _ \<Rightarrow> config_items (Suc i) xs path)"
| "config_entries [] path = Inr ()"
| "config_entries ((k, v) # kvs) path =
     (if executable_key k then throw (path @ ''.'' @ k @ '' cannot carry an executable payload'')
      else case config_walk v (path @ ''.'' @ k) of Inl e \<Rightarrow> Inl e | Inr _ \<Rightarrow> config_entries kvs path)"

definition validateDeclarativeConfiguration :: "(rat \<Rightarrow> string) \<Rightarrow> jval \<Rightarrow> string \<Rightarrow> unit result" where
  "validateDeclarativeConfiguration num_text v label =
     rbind (canonical_json num_text v) (\<lambda>serialized.
     if length serialized > 65536 then throw (label @ '' exceeds 65536 canonical JSON characters'')
     else config_walk v label)"

section \<open>Permissions\<close>

definition validatePermission :: "jval \<Rightarrow> string list \<Rightarrow> string \<Rightarrow> unit result" where
  "validatePermission p placement label =
     (let get = js_get p;
          kind = js_string (get ''kind'');
          operations = texts_of (get ''operations'');
          scope = js_string (get ''scope'');
          approval = js_string (get ''approval'');
          effect = get ''effect'' in
      all_of
        [check_record p label,
         exactKeys p [''id'', ''kind'', ''operations'', ''scope'', ''placement'', ''approval'', ''required'',
           ''dataClasses'', ''effect''] label,
         check_identifier (get ''id'') (label @ ''.id''),
         check_text 500 (get ''kind'') (label @ ''.kind''),
         require (kind \<in> set permissionKinds) (label @ ''.kind is invalid''),
         check_items (check_text 500) (get ''operations'') (label @ ''.operations''),
         require (operations \<noteq> []) (label @ ''.operations cannot be empty''),
         require (list_all (\<lambda>o1. o1 \<in> set permissionOperations) operations) (label @ ''.operations is invalid''),
         check_unique operations (label @ ''.operations''),
         check_text 500 (get ''scope'') (label @ ''.scope''),
         require (\<not> absolutePathPattern scope) (label @ ''.scope must use an opaque handle, not an absolute path''),
         require (\<not> secretAssignmentPattern scope) (label @ ''.scope cannot contain secret-shaped values''),
         check_text 500 (get ''placement'') (label @ ''.placement''),
         require (js_string (get ''placement'') \<in> set placement) (label @ ''.placement is not supported by the capability''),
         check_text 500 (get ''approval'') (label @ ''.approval''),
         require (approval \<in> set approvalKinds) (label @ ''.approval is invalid''),
         check_boolean (get ''required'') (label @ ''.required''),
         check_items (check_text 100) (get ''dataClasses'') (label @ ''.dataClasses''),
         check_unique (texts_of (get ''dataClasses'')) (label @ ''.dataClasses''),
         (if effect = JUndefined then Inr () else
            all_of [check_record effect (label @ ''.effect''),
              exactKeys effect [''kind'', ''externalWrite'', ''writeVerificationRequired''] (label @ ''.effect'')]),
         (if kind = ''external-effect''
          then require (effect \<noteq> JUndefined \<and> js_get effect ''externalWrite'' = JBool True
                 \<and> js_get effect ''writeVerificationRequired'' = JBool True \<and> approval = ''action'')
                 (label @ '' external effects require action approval and write verification'')
          else require (js_get effect ''externalWrite'' \<noteq> JBool True)
                 (label @ '' external writes must use kind external-effect''))])"

section \<open>What the checks establish\<close>

fun clean_config :: "jval \<Rightarrow> bool" where
  "clean_config (JStr s) = (length s \<le> 8192 \<and> opaque s)"
| "clean_config (JArr xs) = (\<forall>x\<in>set xs. clean_config x)"
| "clean_config (JObj p kvs) = (\<forall>kv\<in>set kvs. \<not> executable_key (fst kv) \<and> clean_config (snd kv))"
| "clean_config _ = True"

lemma config_walk_iff:
  "config_walk v path = Inr () \<longleftrightarrow> clean_config v"
  "config_items i xs path = Inr () \<longleftrightarrow> (\<forall>x\<in>set xs. clean_config x)"
  "config_entries kvs path = Inr () \<longleftrightarrow> (\<forall>kv\<in>set kvs. \<not> executable_key (fst kv) \<and> clean_config (snd kv))"
proof (induction v path and i xs path and kvs path rule: config_walk_config_items_config_entries.induct)
  case (6 i x xs path)
  then show ?case by (cases "config_walk x (at_index path i)") auto
next
  case (8 k v kvs path)
  then show ?case by (cases "config_walk v (path @ ''.'' @ k)") auto
qed auto

lemma configuration_clean: "validateDeclarativeConfiguration num_text v label = Inr () \<Longrightarrow> clean_config v"
  by (auto simp: validateDeclarativeConfiguration_def rbind_Inr_iff config_walk_iff split: if_splits)

lemma check_items_ok:
  assumes "check_items f v label = Inr ()" "x \<in> set (items_of v)"
  shows "\<exists>l. f x l = Inr ()"
  using assms by (auto simp: check_items_def all_of_indexed in_set_conv_nth)

lemma check_acyclic_ok: "check_acyclic g msg = Inr () \<longleftrightarrow> acyclic (arcs g)"
  using assert_acyclic_iff [of g] by (auto simp: check_acyclic_def split: sum.splits)

lemma all_of_member: "all_of cs = Inr () \<Longrightarrow> c \<in> set cs \<Longrightarrow> c = Inr ()"
  by (simp add: all_of_def check_all_ok)

lemma permission_effects_gated:
  assumes "validatePermission p placement label = Inr ()"
  shows "js_get p ''kind'' = JStr ''external-effect'' \<longleftrightarrow> js_get (js_get p ''effect'') ''externalWrite'' = JBool True"
    and "js_get p ''kind'' = JStr ''external-effect'' \<Longrightarrow>
      js_get p ''approval'' = JStr ''action'' \<and> js_get (js_get p ''effect'') ''writeVerificationRequired'' = JBool True"
    and "opaque (js_string (js_get p ''scope''))"
proof -
  have is_text: "v = JStr (js_string v)" if "check_text n v l = Inr ()" for n v l
    using that by (cases v) (simp_all add: check_text_def)
  note checks = assms [unfolded validatePermission_def Let_def]
  have kind: "js_get p ''kind'' = JStr (js_string (js_get p ''kind''))"
    by (rule is_text [of 500 _ "label @ ''.kind''"], rule all_of_member [OF checks]) simp
  have approval: "js_get p ''approval'' = JStr (js_string (js_get p ''approval''))"
    by (rule is_text [of 500 _ "label @ ''.approval''"], rule all_of_member [OF checks]) simp
  have last: "(if js_string (js_get p ''kind'') = ''external-effect''
      then require (js_get p ''effect'' \<noteq> JUndefined \<and> js_get (js_get p ''effect'') ''externalWrite'' = JBool True
             \<and> js_get (js_get p ''effect'') ''writeVerificationRequired'' = JBool True
             \<and> js_string (js_get p ''approval'') = ''action'')
             (label @ '' external effects require action approval and write verification'')
      else require (js_get (js_get p ''effect'') ''externalWrite'' \<noteq> JBool True)
             (label @ '' external writes must use kind external-effect'')) = Inr ()"
    by (rule all_of_member [OF checks]) simp
  show "js_get p ''kind'' = JStr ''external-effect'' \<longleftrightarrow> js_get (js_get p ''effect'') ''externalWrite'' = JBool True"
    using last kind by (auto split: if_splits)
  show "js_get p ''approval'' = JStr ''action'' \<and> js_get (js_get p ''effect'') ''writeVerificationRequired'' = JBool True"
    if "js_get p ''kind'' = JStr ''external-effect''"
    using last approval that by (auto split: if_splits)
  have "require (\<not> absolutePathPattern (js_string (js_get p ''scope'')))
      (label @ ''.scope must use an opaque handle, not an absolute path'') = Inr ()"
    and "require (\<not> secretAssignmentPattern (js_string (js_get p ''scope'')))
      (label @ ''.scope cannot contain secret-shaped values'') = Inr ()"
    by (rule all_of_member [OF checks], simp)+
  then show "opaque (js_string (js_get p ''scope''))" by (simp add: opaque_def)
qed

text \<open>The definitions that evaluate a check on a given value.\<close>

lemmas check_defs =
  check_record_def check_text_def check_array_def check_unique_def exactKeys_def check_identifier_def check_version_def
  check_digest_def check_timestamp_def check_items_def items_of_def texts_of_def field_names_def indexed_def
  is_record_def first_occurrences_def

lemmas pattern_defs =
  idPattern_def id_part_def id_char_def versionPattern_def digestPattern_def hex_char_def lower_letter_def upper_letter_def
  digit_char_def opaque_def absolutePathPattern_def secretAssignmentPattern_def secret_at_def secret_words_def
  lower_char_def js_trim_def is_ws_def

end
