(* ===== verification/Capability_Manifest.thy ===== *)
theory Capability_Manifest
  imports Capability_Checks
begin

text \<open>
  Capability manifests and agent blueprints (capability-platform/validation.ts): what a capability
  declares of itself before it may be installed, and what an agent blueprint declares before it may
  be compiled into an execution. Both validators return the value they were given.
\<close>

section \<open>Manifests\<close>

definition check_source :: "jval \<Rightarrow> unit result" where
  "check_source s =
     (let get = js_get s; signature = get ''signature''; sbom = get ''sbom'';
          status = js_string (js_get signature ''status''); format = js_string (js_get sbom ''format'');
          key_id = js_get signature ''keyId''; sbom_digest = js_get sbom ''digest'' in
      all_of
        [check_record s ''manifest.source'',
         exactKeys s [''kind'', ''locator'', ''revision'', ''artifactDigest'', ''license'', ''supplier'',
           ''signature'', ''sbom''] ''manifest.source'',
         check_text 500 (get ''kind'') ''manifest.source.kind'',
         require (js_string (get ''kind'') \<in> set sourceKinds) ''manifest.source.kind is invalid'',
         check_text 1000 (get ''locator'') ''manifest.source.locator'',
         require (\<not> absolutePathPattern (js_string (get ''locator''))) ''manifest.source.locator must be portable'',
         check_text 200 (get ''revision'') ''manifest.source.revision'',
         check_digest (get ''artifactDigest'') ''manifest.source.artifactDigest'',
         check_text 100 (get ''license'') ''manifest.source.license'',
         check_text 200 (get ''supplier'') ''manifest.source.supplier'',
         check_record signature ''manifest.source.signature'',
         exactKeys signature [''status'', ''keyId''] ''manifest.source.signature'',
         check_text 500 (js_get signature ''status'') ''manifest.source.signature.status'',
         require (status \<in> {''verified'', ''missing'', ''invalid''}) ''manifest.source.signature.status is invalid'',
         check_optional (check_text 300) key_id ''manifest.source.signature.keyId'',
         require (\<not> (status = ''verified'' \<and> key_id = JUndefined))
           ''verified manifest source signature requires keyId'',
         check_record sbom ''manifest.source.sbom'',
         exactKeys sbom [''format'', ''digest''] ''manifest.source.sbom'',
         check_text 500 (js_get sbom ''format'') ''manifest.source.sbom.format'',
         require (format \<in> {''spdx'', ''cyclonedx'', ''none''}) ''manifest.source.sbom.format is invalid'',
         check_optional check_digest sbom_digest ''manifest.source.sbom.digest'',
         require (\<not> (format \<noteq> ''none'' \<and> sbom_digest = JUndefined)) ''manifest source SBOM requires digest'',
         require (\<not> (format = ''none'' \<and> sbom_digest \<noteq> JUndefined))
           ''manifest source SBOM digest requires a declared format''])"

definition places :: "string list" where
  "places = [''local'', ''cloud'', ''hybrid'']"

definition check_runtime_section :: "jval \<Rightarrow> unit result" where
  "check_runtime_section r =
     (let get = js_get r; placements = texts_of (get ''placements'') in
      all_of
        [check_record r ''manifest.runtime'',
         exactKeys r [''placements'', ''isolation'', ''supportedPlatforms'', ''executorRequirements'',
           ''stateNamespace'', ''offlineCapable''] ''manifest.runtime'',
         check_items (check_text 500) (get ''placements'') ''manifest.runtime.placements'',
         require (placements \<noteq> [] \<and> list_all (\<lambda>p. p \<in> set places) placements) ''manifest.runtime.placements is invalid'',
         check_unique placements ''manifest.runtime.placements'',
         check_text 500 (get ''isolation'') ''manifest.runtime.isolation'',
         require (js_string (get ''isolation'') \<in> set isolationKinds) ''manifest.runtime.isolation is invalid'',
         check_items (check_text 500) (get ''supportedPlatforms'') ''manifest.runtime.supportedPlatforms'',
         check_unique (texts_of (get ''supportedPlatforms'')) ''manifest.runtime.supportedPlatforms'',
         check_items (check_text 500) (get ''executorRequirements'') ''manifest.runtime.executorRequirements'',
         check_unique (texts_of (get ''executorRequirements'')) ''manifest.runtime.executorRequirements'',
         check_identifier (get ''stateNamespace'') ''manifest.runtime.stateNamespace'',
         check_boolean (get ''offlineCapable'') ''manifest.runtime.offlineCapable'',
         require (\<not> (get ''offlineCapable'' = JBool True \<and> ''local'' \<notin> set placements \<and> ''hybrid'' \<notin> set placements))
           ''offline capability requires local or hybrid placement''])"

definition check_requirement :: "string list \<Rightarrow> jval \<Rightarrow> string \<Rightarrow> unit result" where
  "check_requirement placements q label =
     (let get = js_get q in
      all_of
        [check_record q label,
         exactKeys q [''kind'', ''id'', ''versionRange'', ''placement'', ''required''] label,
         check_text 500 (get ''kind'') (label @ ''.kind''),
         require (js_string (get ''kind'') \<in> {''system'', ''model'', ''executor'', ''package'', ''network'', ''device'', ''capability''})
           ''manifest requirement kind is invalid'',
         check_text 500 (get ''placement'') (label @ ''.placement''),
         require (js_string (get ''placement'') \<in> set placements)
           ''manifest requirement placement is not supported by the capability'',
         (if get ''versionRange'' = JNull then Inr () else check_text 100 (get ''versionRange'') (label @ ''.versionRange'')),
         check_boolean (get ''required'') (label @ ''.required''),
         check_identifier (get ''id'') (label @ ''.id'')])"

definition requirement_key :: "jval \<Rightarrow> string" where
  "requirement_key q =
     js_string (js_get q ''kind'') @ '':'' @ js_string (js_get q ''id'') @ '':'' @ js_string (js_get q ''placement'')"

definition lifecycleActions :: "string list" where
  "lifecycleActions = [''install'', ''load'', ''start'', ''stop'', ''upgrade'', ''uninstall'', ''recover'']"

definition check_lifecycle_action :: "jval \<Rightarrow> string \<Rightarrow> unit result" where
  "check_lifecycle_action lifecycle action =
     (let handler = js_get lifecycle action; label = ''manifest.lifecycle.'' @ action in
      all_of
        [check_record handler label,
         exactKeys handler [''handlerInterface'', ''supported'', ''approval''] label,
         check_identifier (js_get handler ''handlerInterface'') (label @ ''.handlerInterface''),
         require (case js_get handler ''supported'' of JBool _ \<Rightarrow> True | _ \<Rightarrow> False) (label @ '' is invalid''),
         check_text 500 (js_get handler ''approval'') (label @ ''.approval''),
         require (js_string (js_get handler ''approval'') \<in> set approvalKinds) (label @ '' is invalid'')])"

definition lifecycle_handlers :: "jval \<Rightarrow> string list" where
  "lifecycle_handlers lifecycle =
     map (\<lambda>action. js_string (js_get (js_get lifecycle action) ''handlerInterface'')) lifecycleActions"

definition check_interface :: "jval \<Rightarrow> string \<Rightarrow> unit result" where
  "check_interface e label =
     (let get = js_get e in
      all_of
        [check_record e label,
         exactKeys e [''kind'', ''id'', ''version'', ''direction'', ''inputSchema'', ''outputSchema'', ''compatibility''] label,
         check_text 500 (get ''kind'') (label @ ''.kind''),
         require (js_string (get ''kind'') \<in> set interfaceKinds) ''manifest interface kind is invalid'',
         check_identifier (get ''id'') (label @ ''.id''),
         check_version (get ''version'') (label @ ''.version''),
         check_text 500 (get ''direction'') (label @ ''.direction''),
         require (js_string (get ''direction'') \<in> {''provides'', ''requires''}) ''manifest interface direction is invalid'',
         check_optional (check_text 1000) (get ''inputSchema'') (label @ ''.inputSchema''),
         check_optional (check_text 1000) (get ''outputSchema'') (label @ ''.outputSchema''),
         check_items (check_text 100) (get ''compatibility'') (label @ ''.compatibility''),
         check_unique (texts_of (get ''compatibility'')) (label @ ''.compatibility'')])"

definition interface_key :: "jval \<Rightarrow> string" where
  "interface_key e =
     js_string (js_get e ''kind'') @ '':'' @ js_string (js_get e ''id'') @ '':'' @ js_string (js_get e ''direction'')"

definition provided_interfaces :: "jval \<Rightarrow> string list" where
  "provided_interfaces interfaces =
     map (\<lambda>e. js_string (js_get e ''id'')) (filter (\<lambda>e. js_get e ''direction'' = JStr ''provides'') (items_of interfaces))"

definition check_manifest_dependency :: "jval \<Rightarrow> string \<Rightarrow> unit result" where
  "check_manifest_dependency d label =
     (let get = js_get d in
      all_of
        [check_record d label,
         exactKeys d [''id'', ''versionRange'', ''required'', ''placement''] label,
         check_identifier (get ''id'') (label @ ''.id''),
         check_text 100 (get ''versionRange'') (label @ ''.versionRange''),
         check_boolean (get ''required'') (label @ ''.required''),
         (if get ''placement'' = JUndefined then Inr () else
            all_of [check_text 500 (get ''placement'') (label @ ''.placement''),
              require (js_string (get ''placement'') \<in> set places) ''manifest dependency placement is invalid''])])"

definition ids_of :: "jval \<Rightarrow> string list" where
  "ids_of v = map (\<lambda>i. js_string (js_get i ''id'')) (items_of v)"

definition check_test :: "jval \<Rightarrow> string \<Rightarrow> unit result" where
  "check_test t label =
     (let get = js_get t in
      all_of
        [check_record t label,
         exactKeys t [''id'', ''kind'', ''required'', ''effectMode''] label,
         check_text 500 (get ''kind'') (label @ ''.kind''),
         require (js_string (get ''kind'') \<in> {''contract'', ''fixture'', ''redacted-replay'', ''health'', ''shadow''})
           ''manifest test kind is invalid'',
         check_boolean (get ''required'') (label @ ''.required''),
         check_text 500 (get ''effectMode'') (label @ ''.effectMode''),
         require (js_string (get ''effectMode'') \<in> {''none'', ''recording-sink''}) ''manifest tests cannot enable effects'',
         check_identifier (get ''id'') (label @ ''.id'')])"

definition check_health :: "string list \<Rightarrow> string list \<Rightarrow> jval \<Rightarrow> string \<Rightarrow> unit result" where
  "check_health placements provided c label =
     (let get = js_get c in
      all_of
        [check_record c label,
         exactKeys c [''id'', ''interfaceId'', ''placement'', ''timeoutMs'', ''required''] label,
         check_text 500 (get ''placement'') (label @ ''.placement''),
         require (js_string (get ''placement'') \<in> set placements)
           ''manifest health check placement is not supported by the capability'',
         require (case safe_int (get ''timeoutMs'') of Some n \<Rightarrow> 0 < n | None \<Rightarrow> False)
           ''manifest health check timeout must be a positive integer'',
         check_identifier (get ''interfaceId'') (label @ ''.interfaceId''),
         require (js_string (get ''interfaceId'') \<in> set provided)
           ''manifest health check interface is not declared as provided'',
         check_boolean (get ''required'') (label @ ''.required''),
         check_identifier (get ''id'') (label @ ''.id'')])"

definition check_recovery :: "jval \<Rightarrow> unit result" where
  "check_recovery r =
     (let get = js_get r in
      all_of
        [check_record r ''manifest.recovery'',
         exactKeys r [''strategy'', ''rollbackVersion'', ''stateIncluded'', ''restoreEffectsEnabled''] ''manifest.recovery'',
         check_text 500 (get ''strategy'') ''manifest.recovery.strategy'',
         require (js_string (get ''strategy'') \<in> {''stateless'', ''reinstall'', ''snapshot'', ''encrypted-state''})
           ''manifest recovery strategy is invalid'',
         (if get ''rollbackVersion'' = JNull then Inr ()
          else check_version (get ''rollbackVersion'') ''manifest.recovery.rollbackVersion''),
         check_boolean (get ''stateIncluded'') ''manifest.recovery.stateIncluded'',
         require (get ''restoreEffectsEnabled'' = JBool False) ''manifest recovery must restore with effects disabled''])"

definition manifest_checks :: "jval \<Rightarrow> unit result" where
  "manifest_checks m =
     (let get = js_get m; placements = texts_of (js_get (get ''runtime'') ''placements'');
          lifecycle = get ''lifecycle''; provided = provided_interfaces (get ''interfaces'');
          permissions = get ''permissions''; classes = texts_of (get ''dataClasses''); tests = get ''tests'' in
      all_of
        [check_record m ''manifest'',
         exactKeys m [''schemaVersion'', ''id'', ''name'', ''version'', ''kind'', ''description'', ''source'', ''runtime'',
           ''requirements'', ''lifecycle'', ''interfaces'', ''dependencies'', ''permissions'', ''dataClasses'', ''tests'',
           ''healthChecks'', ''recovery''] ''manifest'',
         require (get ''schemaVersion'' = JNum (Fin 1)) ''manifest.schemaVersion must be 1'',
         check_identifier (get ''id'') ''manifest.id'',
         check_text 200 (get ''name'') ''manifest.name'',
         check_version (get ''version'') ''manifest.version'',
         check_text 500 (get ''kind'') ''manifest.kind'',
         require (js_string (get ''kind'') \<in> set capabilityKinds) ''manifest.kind is invalid'',
         check_text 2000 (get ''description'') ''manifest.description'',
         check_source (get ''source''),
         check_runtime_section (get ''runtime''),
         check_items (check_requirement placements) (get ''requirements'') ''manifest.requirements'',
         check_unique (map requirement_key (items_of (get ''requirements''))) ''manifest.requirements'',
         check_record lifecycle ''manifest.lifecycle'',
         require (join '','' (sort (field_names lifecycle)) = join '','' (sort lifecycleActions))
           ''manifest lifecycle must declare every supported action exactly once'',
         all_of (map (check_lifecycle_action lifecycle) lifecycleActions),
         check_items check_interface (get ''interfaces'') ''manifest.interfaces'',
         check_unique (map interface_key (items_of (get ''interfaces''))) ''manifest.interfaces'',
         all_of (map (\<lambda>h. require (h \<in> set provided)
           (''manifest lifecycle handler interface '' @ h @ '' is not declared as provided'')) (lifecycle_handlers lifecycle)),
         check_items check_manifest_dependency (get ''dependencies'') ''manifest.dependencies'',
         check_unique (ids_of (get ''dependencies'')) ''manifest.dependencies'',
         require (js_string (get ''id'') \<notin> set (ids_of (get ''dependencies''))) ''manifest cannot depend on itself'',
         check_items (\<lambda>p label. validatePermission p placements label) permissions ''manifest.permissions'',
         check_unique (ids_of permissions) ''manifest.permissions'',
         check_items (check_text 100) (get ''dataClasses'') ''manifest.dataClasses'',
         check_unique classes ''manifest.dataClasses'',
         all_of (map (\<lambda>p. require (list_all (\<lambda>c. c \<in> set classes) (texts_of (js_get p ''dataClasses'')))
           ''manifest permission data class is not declared by the manifest'') (items_of permissions)),
         check_items check_test tests ''manifest.tests'',
         check_unique (ids_of tests) ''manifest.tests'',
         require (list_ex (\<lambda>t. js_get t ''kind'' = JStr ''contract'' \<and> js_get t ''required'' = JBool True) (items_of tests))
           ''manifest requires a contract test'',
         check_items (check_health placements provided) (get ''healthChecks'') ''manifest.healthChecks'',
         check_unique (ids_of (get ''healthChecks'')) ''manifest.healthChecks'',
         check_recovery (get ''recovery'')])"

definition validateCapabilityManifest :: "jval \<Rightarrow> jval result" where
  "validateCapabilityManifest m = rbind (manifest_checks m) (\<lambda>_. Inr m)"

section \<open>Blueprints\<close>

definition check_blueprint_capability :: "jval \<Rightarrow> string \<Rightarrow> unit result" where
  "check_blueprint_capability c label =
     (let get = js_get c in
      all_of
        [check_record c label,
         exactKeys c [''id'', ''versionRange'', ''artifactDigest'', ''required''] label,
         check_identifier (get ''id'') (label @ ''.id''),
         check_text 100 (get ''versionRange'') (label @ ''.versionRange''),
         check_digest (get ''artifactDigest'') (label @ ''.artifactDigest''),
         check_boolean (get ''required'') (label @ ''.required'')])"

text \<open>A node and an edge of a graph; blueprints and envelopes differ in the words of two messages.\<close>

definition check_node :: "(rat \<Rightarrow> string) \<Rightarrow> string \<Rightarrow> string list \<Rightarrow> jval \<Rightarrow> string \<Rightarrow> unit result" where
  "check_node num_text undeclared capabilities n label =
     (let get = js_get n in
      all_of
        [check_record n label,
         exactKeys n [''id'', ''capabilityId'', ''interfaceId'', ''configuration''] label,
         check_identifier (get ''id'') (label @ ''.id''),
         check_identifier (get ''capabilityId'') (label @ ''.capabilityId''),
         require (js_string (get ''capabilityId'') \<in> set capabilities) undeclared,
         check_identifier (get ''interfaceId'') (label @ ''.interfaceId''),
         check_record (get ''configuration'') (label @ ''.configuration''),
         validateDeclarativeConfiguration num_text (get ''configuration'') (label @ ''.configuration'')])"

definition check_edge :: "string \<Rightarrow> string list \<Rightarrow> jval \<Rightarrow> string \<Rightarrow> unit result" where
  "check_edge unknown nodes e label =
     (let get = js_get e in
      all_of
        [check_record e label,
         exactKeys e [''from'', ''to'', ''output'', ''input''] label,
         check_identifier (get ''from'') (label @ ''.from''),
         check_identifier (get ''to'') (label @ ''.to''),
         require (js_string (get ''from'') \<in> set nodes \<and> js_string (get ''to'') \<in> set nodes) unknown,
         check_text 200 (get ''output'') (label @ ''.output''),
         check_text 200 (get ''input'') (label @ ''.input'')])"

definition adjacency :: "string list \<Rightarrow> jval list \<Rightarrow> graph" where
  "adjacency nodes edges =
     map (\<lambda>n. (n, map (\<lambda>e. js_string (js_get e ''to'')) (filter (\<lambda>e. js_string (js_get e ''from'') = n) edges))) nodes"

definition check_trigger :: "jval \<Rightarrow> string \<Rightarrow> unit result" where
  "check_trigger t label =
     (let get = js_get t in
      all_of
        [check_record t label,
         exactKeys t [''id'', ''kind'', ''specification'', ''timezone'', ''enabled''] label,
         check_text 500 (get ''kind'') (label @ ''.kind''),
         require (js_string (get ''kind'') \<in> {''manual'', ''event'', ''schedule''}) ''blueprint trigger kind is invalid'',
         check_text 1000 (get ''specification'') (label @ ''.specification''),
         check_optional (check_text 100) (get ''timezone'') (label @ ''.timezone''),
         check_boolean (get ''enabled'') (label @ ''.enabled''),
         check_identifier (get ''id'') (label @ ''.id'')])"

definition check_executor_policy :: "jval \<Rightarrow> unit result" where
  "check_executor_policy x =
     (let get = js_get x; preferred = texts_of (get ''preferred''); fallback = texts_of (get ''fallback'') in
      all_of
        [check_record x ''blueprint.executorPolicy'',
         exactKeys x [''preferred'', ''fallback'', ''allowInfrastructureFallback'', ''allowMidActionSwitch'',
           ''preserveSessionContinuity''] ''blueprint.executorPolicy'',
         check_items check_identifier (get ''preferred'') ''blueprint.executorPolicy.preferred'',
         check_items check_identifier (get ''fallback'') ''blueprint.executorPolicy.fallback'',
         check_unique preferred ''blueprint.executorPolicy.preferred'',
         check_unique fallback ''blueprint.executorPolicy.fallback'',
         require (\<not> list_ex (\<lambda>i. i \<in> set preferred) fallback)
           ''blueprint executor preference and fallback must not overlap'',
         check_boolean (get ''allowInfrastructureFallback'') ''blueprint.executorPolicy.allowInfrastructureFallback'',
         require (get ''allowMidActionSwitch'' = JBool False \<and> get ''preserveSessionContinuity'' = JBool True)
           ''blueprint executor policy must preserve action and session continuity''])"

definition check_model_policy :: "string \<Rightarrow> string \<Rightarrow> jval \<Rightarrow> unit result" where
  "check_model_policy label subject p =
     (let allowed = texts_of (js_get p ''allowed''); preferred = js_get p ''preferred'' in
      all_of
        [check_record p label,
         exactKeys p [''allowed'', ''preferred''] label,
         check_items check_identifier (js_get p ''allowed'') (label @ ''.allowed''),
         require (length allowed \<le> 64) (subject @ '' cannot allow more than 64 models''),
         check_unique allowed (label @ ''.allowed''),
         (if preferred = JNull then Inr ()
          else all_of [check_identifier preferred (label @ ''.preferred''),
            require (js_string preferred \<in> set allowed) (subject @ '' preferred model must be allowed'')])])"

definition check_limits :: "jval \<Rightarrow> unit result" where
  "check_limits b =
     (let budget = js_get b ''budget''; retry = js_get b ''retry'' in
      all_of
        [check_record budget ''blueprint.budget'',
         exactKeys budget [''tokens'', ''durationMs'', ''costMinorUnits''] ''blueprint.budget'',
         all_of (map (\<lambda>f. check_nonNegativeInteger (js_get budget f) (''blueprint.budget.'' @ f))
           [''tokens'', ''durationMs'', ''costMinorUnits'']),
         check_record retry ''blueprint.retry'',
         exactKeys retry [''infrastructureAttempts'', ''deterministicAttempts''] ''blueprint.retry'',
         check_nonNegativeInteger (js_get retry ''infrastructureAttempts'') ''blueprint.retry.infrastructureAttempts'',
         require (js_get retry ''deterministicAttempts'' = JNum (Fin 1))
           ''deterministic failures cannot be retried on another executor''])"

definition check_notifications :: "jval \<Rightarrow> unit result" where
  "check_notifications b =
     (let n = js_get b ''notifications''; retention = js_get b ''retention''; events = texts_of (js_get n ''on'') in
      all_of
        [check_record n ''blueprint.notifications'',
         exactKeys n [''channels'', ''on''] ''blueprint.notifications'',
         check_items check_identifier (js_get n ''channels'') ''blueprint.notifications.channels'',
         check_unique (texts_of (js_get n ''channels'')) ''blueprint.notifications.channels'',
         check_items (check_text 500) (js_get n ''on'') ''blueprint.notifications.on'',
         require (list_all (\<lambda>e. e \<in> {''approval'', ''completion'', ''failure''}) events)
           ''blueprint notification event is invalid'',
         check_unique events ''blueprint.notifications.on'',
         check_record retention ''blueprint.retention'',
         exactKeys retention [''localRawDays'', ''cloudSummaryDays''] ''blueprint.retention'',
         check_nonNegativeInteger (js_get retention ''localRawDays'') ''blueprint.retention.localRawDays'',
         check_nonNegativeInteger (js_get retention ''cloudSummaryDays'') ''blueprint.retention.cloudSummaryDays''])"

text \<open>Role and goals, of a blueprint or of the program of an envelope.\<close>

definition check_purpose :: "string \<Rightarrow> string \<Rightarrow> string \<Rightarrow> jval \<Rightarrow> unit result" where
  "check_purpose label goal_count subject v =
     (let role = js_get v ''role''; goals = texts_of (js_get v ''goals'') in
      all_of
        [check_text 500 role (label @ ''.role''),
         require (opaque (js_string role)) (subject @ '' role cannot contain an absolute path or secret-shaped value''),
         check_items (check_text 2000) (js_get v ''goals'') (label @ ''.goals''),
         require (goals \<noteq> [] \<and> length goals \<le> 64) (goal_count @ '' must contain between 1 and 64 items''),
         all_of (map (\<lambda>g. require (opaque g) (subject @ '' goals cannot contain absolute paths or secret-shaped values'')) goals)])"

definition check_blueprint_graph :: "(rat \<Rightarrow> string) \<Rightarrow> jval \<Rightarrow> unit result" where
  "check_blueprint_graph num_text b =
     (let capabilities = js_get b ''capabilities''; graph = js_get b ''graph'';
          nodes = js_get graph ''nodes''; edges = js_get graph ''edges'' in
      all_of
        [check_array capabilities ''blueprint.capabilities'',
         require (length (items_of capabilities) \<le> 256) ''blueprint cannot reference more than 256 capabilities'',
         check_items check_blueprint_capability capabilities ''blueprint.capabilities'',
         check_unique (ids_of capabilities) ''blueprint.capabilities'',
         check_record graph ''blueprint.graph'',
         exactKeys graph [''nodes'', ''edges''] ''blueprint.graph'',
         check_array nodes ''blueprint.graph.nodes'',
         require (length (items_of nodes) \<le> 256) ''blueprint graph cannot contain more than 256 nodes'',
         check_items (check_node num_text ''blueprint graph node references an undeclared capability'' (ids_of capabilities))
           nodes ''blueprint.graph.nodes'',
         check_unique (ids_of nodes) ''blueprint.graph.nodes'',
         check_array edges ''blueprint.graph.edges'',
         require (length (items_of edges) \<le> 1024) ''blueprint graph cannot contain more than 1024 edges'',
         check_items (check_edge ''blueprint graph edge references an unknown node'' (ids_of nodes)) edges ''blueprint.graph.edges'',
         check_acyclic (adjacency (ids_of nodes) (items_of edges)) ''blueprint graph contains a cycle''])"

definition blueprint_checks :: "(rat \<Rightarrow> string) \<Rightarrow> jval \<Rightarrow> unit result" where
  "blueprint_checks num_text b =
     (let get = js_get b; handles = texts_of (get ''workspaceHandles'') in
      all_of
        [check_record b ''blueprint'',
         exactKeys b [''schemaVersion'', ''id'', ''name'', ''version'', ''revision'', ''digest'', ''releaseState'', ''role'',
           ''goals'', ''capabilities'', ''graph'', ''triggers'', ''executorPolicy'', ''deviceSelector'', ''workspaceHandles'',
           ''permissions'', ''modelPolicy'', ''budget'', ''retry'', ''notifications'', ''retention''] ''blueprint'',
         require (get ''schemaVersion'' = JNum (Fin 1)) ''blueprint.schemaVersion must be 1'',
         check_identifier (get ''id'') ''blueprint.id'',
         check_text 200 (get ''name'') ''blueprint.name'',
         check_version (get ''version'') ''blueprint.version'',
         check_text 200 (get ''revision'') ''blueprint.revision'',
         check_digest (get ''digest'') ''blueprint.digest'',
         check_text 500 (get ''releaseState'') ''blueprint.releaseState'',
         require (js_string (get ''releaseState'') \<in> {''draft'', ''test'', ''shadow'', ''released'', ''retired''})
           ''blueprint.releaseState is invalid'',
         check_purpose ''blueprint'' ''blueprint.goals'' ''blueprint'' b,
         check_blueprint_graph num_text b,
         check_items check_trigger (get ''triggers'') ''blueprint.triggers'',
         check_unique (ids_of (get ''triggers'')) ''blueprint.triggers'',
         check_executor_policy (get ''executorPolicy''),
         check_text 500 (get ''deviceSelector'') ''blueprint.deviceSelector'',
         require (opaque (js_string (get ''deviceSelector''))) ''blueprint device selector must be opaque'',
         check_items (\<lambda>h label. all_of [check_text 500 h label,
           require (opaque (js_string h)) ''blueprint workspace handle must be opaque'']) (get ''workspaceHandles'')
           ''blueprint.workspaceHandles'',
         check_unique handles ''blueprint.workspaceHandles'',
         check_items (\<lambda>p label. validatePermission p places label) (get ''permissions'') ''blueprint.permissions'',
         check_model_policy ''blueprint.modelPolicy'' ''blueprint'' (get ''modelPolicy''),
         check_limits b,
         check_notifications b])"

definition validateAgentBlueprint :: "(rat \<Rightarrow> string) \<Rightarrow> (string \<Rightarrow> string) \<Rightarrow> jval \<Rightarrow> jval result" where
  "validateAgentBlueprint num_text sha b =
     rbind (blueprint_checks num_text b) (\<lambda>_.
     rbind (blueprintPayloadDigest num_text sha b) (\<lambda>d.
     rbind (require (js_get b ''digest'' = JStr d) ''blueprint digest does not match its canonical payload'') (\<lambda>_.
     Inr b)))"

section \<open>What an accepted manifest promises\<close>

definition gated_permission :: "jval \<Rightarrow> bool" where
  "gated_permission p \<longleftrightarrow>
     (js_get p ''kind'' = JStr ''external-effect'' \<longleftrightarrow> js_get (js_get p ''effect'') ''externalWrite'' = JBool True)
     \<and> (js_get p ''kind'' = JStr ''external-effect'' \<longrightarrow>
          js_get p ''approval'' = JStr ''action'' \<and> js_get (js_get p ''effect'') ''writeVerificationRequired'' = JBool True)
     \<and> opaque (js_string (js_get p ''scope''))"

definition contained_manifest :: "jval \<Rightarrow> bool" where
  "contained_manifest m \<longleftrightarrow>
     (\<forall>p\<in>set (items_of (js_get m ''permissions'')).
        gated_permission p \<and> set (texts_of (js_get p ''dataClasses'')) \<subseteq> set (texts_of (js_get m ''dataClasses'')))
     \<and> set (lifecycle_handlers (js_get m ''lifecycle'')) \<subseteq> set (provided_interfaces (js_get m ''interfaces''))
     \<and> js_string (js_get m ''id'') \<notin> set (ids_of (js_get m ''dependencies''))
     \<and> js_get (js_get m ''recovery'') ''restoreEffectsEnabled'' = JBool False"

lemma manifest_checks_contained:
  assumes "manifest_checks m = Inr ()"
  shows "contained_manifest m"
proof -
  let ?classes = "texts_of (js_get m ''dataClasses'')" and ?permissions = "js_get m ''permissions''"
  note checks = assms [unfolded manifest_checks_def Let_def]
  have permissions: "check_items (\<lambda>p label. validatePermission p (texts_of (js_get (js_get m ''runtime'') ''placements'')) label)
      ?permissions ''manifest.permissions'' = Inr ()"
    by (rule all_of_member [OF checks]) simp
  have data: "all_of (map (\<lambda>p. require (list_all (\<lambda>c. c \<in> set ?classes) (texts_of (js_get p ''dataClasses'')))
      ''manifest permission data class is not declared by the manifest'') (items_of ?permissions)) = Inr ()"
    by (rule all_of_member [OF checks]) simp
  have handlers: "all_of (map (\<lambda>h. require (h \<in> set (provided_interfaces (js_get m ''interfaces'')))
      (''manifest lifecycle handler interface '' @ h @ '' is not declared as provided''))
      (lifecycle_handlers (js_get m ''lifecycle''))) = Inr ()"
    by (rule all_of_member [OF checks]) simp
  have self: "require (js_string (js_get m ''id'') \<notin> set (ids_of (js_get m ''dependencies''))) ''manifest cannot depend on itself'' = Inr ()"
    by (rule all_of_member [OF checks]) simp
  have recovery: "check_recovery (js_get m ''recovery'') = Inr ()"
    by (rule all_of_member [OF checks]) simp
  have "gated_permission p" if "p \<in> set (items_of ?permissions)" for p
    using check_items_ok [OF permissions that] permission_effects_gated unfolding gated_permission_def by metis
  moreover have "set (texts_of (js_get p ''dataClasses'')) \<subseteq> set ?classes" if "p \<in> set (items_of ?permissions)" for p
    using data that by (auto simp: all_of_map list_all_iff)
  moreover have "set (lifecycle_handlers (js_get m ''lifecycle'')) \<subseteq> set (provided_interfaces (js_get m ''interfaces''))"
    using handlers by (auto simp: all_of_map)
  ultimately show ?thesis
    using self recovery by (simp add: contained_manifest_def check_recovery_def Let_def)
qed

section \<open>Property\<close>

text \<open>C35. A capability manifest that is accepted cannot act unseen: a permission writes to the
outside exactly when it is declared an external effect, and then only on an approval of each action
and with its writes verified; its scope is opaque and its classes of data are declared; the
handlers of every life cycle action are interfaces the capability provides; it does not depend on
itself; and it is restored with its effects disabled.\<close>

theorem accepted_manifest_contained:
  assumes "validateCapabilityManifest m = Inr m'"
  shows "m' = m \<and> contained_manifest m"
  using assms by (auto simp: validateCapabilityManifest_def rbind_Inr_iff dest: manifest_checks_contained)

section \<open>Witness\<close>

definition obj :: "(string \<times> jval) list \<Rightarrow> jval" where
  "obj kvs = JObj ObjectProto kvs"

definition sample_digest :: jval where
  "sample_digest = JStr (''sha256:'' @ replicate 64 (CHR ''0''))"

definition sample_handler :: jval where
  "sample_handler = obj [(''handlerInterface'', JStr ''i''), (''supported'', JBool True), (''approval'', JStr ''none'')]"

definition sample_manifest :: jval where
  "sample_manifest = obj
     [(''schemaVersion'', JNum (Fin 1)), (''id'', JStr ''c''), (''name'', JStr ''c''), (''version'', JStr ''1.0.0''),
      (''kind'', JStr ''cli''), (''description'', JStr ''c''),
      (''source'', obj [(''kind'', JStr ''git''), (''locator'', JStr ''l''), (''revision'', JStr ''r''),
         (''artifactDigest'', sample_digest), (''license'', JStr ''m''), (''supplier'', JStr ''s''),
         (''signature'', obj [(''status'', JStr ''missing'')]), (''sbom'', obj [(''format'', JStr ''none'')])]),
      (''runtime'', obj [(''placements'', JArr [JStr ''local'']), (''isolation'', JStr ''pure''),
         (''supportedPlatforms'', JArr []), (''executorRequirements'', JArr []), (''stateNamespace'', JStr ''n''),
         (''offlineCapable'', JBool True)]),
      (''requirements'', JArr []),
      (''lifecycle'', obj (map (\<lambda>a. (a, sample_handler)) lifecycleActions)),
      (''interfaces'', JArr [obj [(''kind'', JStr ''tool''), (''id'', JStr ''i''), (''version'', JStr ''1.0.0''),
         (''direction'', JStr ''provides''), (''compatibility'', JArr [])]]),
      (''dependencies'', JArr []),
      (''permissions'', JArr [obj [(''id'', JStr ''p''), (''kind'', JStr ''external-effect''),
         (''operations'', JArr [JStr ''write'']), (''scope'', JStr ''s''), (''placement'', JStr ''local''),
         (''approval'', JStr ''action''), (''required'', JBool True), (''dataClasses'', JArr [JStr ''d'']),
         (''effect'', obj [(''externalWrite'', JBool True), (''writeVerificationRequired'', JBool True)])]]),
      (''dataClasses'', JArr [JStr ''d'']),
      (''tests'', JArr [obj [(''id'', JStr ''t''), (''kind'', JStr ''contract''), (''required'', JBool True),
         (''effectMode'', JStr ''none'')]]),
      (''healthChecks'', JArr []),
      (''recovery'', obj [(''strategy'', JStr ''stateless''), (''rollbackVersion'', JNull), (''stateIncluded'', JBool False),
         (''restoreEffectsEnabled'', JBool False)])]"

lemma sample_hex: "list_all hex_char (replicate 64 CHR ''0'')"
  by code_simp

lemma sample_lifecycle_complete:
  "join '','' (sort (field_names (js_get sample_manifest ''lifecycle''))) = join '','' (sort lifecycleActions)"
  by code_simp

lemma sample_manifest_checked: "manifest_checks sample_manifest = Inr ()"
  unfolding manifest_checks_def Let_def all_of_ok
proof (intro conjI)
  show "require (join '','' (sort (field_names (js_get sample_manifest ''lifecycle''))) = join '','' (sort lifecycleActions))
    ''manifest lifecycle must declare every supported action exactly once'' = Inr ()"
    by (simp only: require_simps sample_lifecycle_complete)
qed (simp_all add: sample_manifest_def obj_def check_defs ids_of_def pattern_defs sample_digest_def sample_hex sample_handler_def
    capabilityKinds_def check_source_def sourceKinds_def check_optional_def check_runtime_section_def places_def
    isolationKinds_def check_boolean_def Let_def lifecycleActions_def check_lifecycle_action_def approvalKinds_def
    check_interface_def interfaceKinds_def lifecycle_handlers_def provided_interfaces_def validatePermission_def
    permissionKinds_def permissionOperations_def check_test_def check_recovery_def prototype_functions_def)

lemma accepted_manifest_contained_witness:
  "contained_manifest sample_manifest \<and> length (items_of (js_get sample_manifest ''permissions'')) = 1"
proof -
  have "validateCapabilityManifest sample_manifest = Inr sample_manifest"
    by (simp add: validateCapabilityManifest_def sample_manifest_checked)
  moreover have "length (items_of (js_get sample_manifest ''permissions'')) = 1"
    by code_simp
  ultimately show ?thesis
    using accepted_manifest_contained by blast
qed

end
