(* ===== verification/Execution_Envelope.thy ===== *)
theory Execution_Envelope
  imports Capability_Manifest
begin

text \<open>
  Execution envelopes (capability-platform/validation.ts): the signed description of one run that
  an executor receives, its checks, its digest, and the input of an executor adapter made from it.
\<close>

section \<open>Checks\<close>

definition scope_fields :: "string list" where
  "scope_fields = [''tenantId'', ''userId'', ''deviceId'', ''agentId'', ''runId'', ''actionId'']"

definition check_envelope_capability :: "jval \<Rightarrow> string \<Rightarrow> unit result" where
  "check_envelope_capability c label =
     all_of
       [check_record c label,
        exactKeys c [''id'', ''version'', ''artifactDigest''] label,
        check_identifier (js_get c ''id'') (label @ ''.id''),
        check_version (js_get c ''version'') (label @ ''.version''),
        check_digest (js_get c ''artifactDigest'') (label @ ''.artifactDigest'')]"

definition edge_key :: "jval \<Rightarrow> string" where
  "edge_key e =
     js_string (js_get e ''from'') @ [CHR 0x00] @ js_string (js_get e ''to'') @ [CHR 0x00]
     @ js_string (js_get e ''output'') @ [CHR 0x00] @ js_string (js_get e ''input'')"

definition check_program :: "(rat \<Rightarrow> string) \<Rightarrow> jval \<Rightarrow> unit result" where
  "check_program num_text env =
     (let program = js_get env ''program''; capabilities = js_get env ''capabilities''; graph = js_get program ''graph'';
          nodes = js_get graph ''nodes''; edges = js_get graph ''edges'' in
      all_of
        [check_record program ''envelope.program'',
         exactKeys program [''role'', ''goals'', ''graph'', ''modelPolicy''] ''envelope.program'',
         check_purpose ''envelope.program'' ''execution program goals'' ''execution program'' program,
         check_array capabilities ''envelope.capabilities'',
         require (length (items_of capabilities) \<le> 256) ''execution envelope cannot pin more than 256 capabilities'',
         check_items check_envelope_capability capabilities ''envelope.capabilities'',
         check_unique (ids_of capabilities) ''envelope.capabilities'',
         check_record graph ''envelope.program.graph'',
         exactKeys graph [''nodes'', ''edges''] ''envelope.program.graph'',
         check_array nodes ''envelope.program.graph.nodes'',
         require (length (items_of nodes) \<le> 256) ''execution program graph cannot contain more than 256 nodes'',
         check_items (check_node num_text ''execution program node references an unpinned capability'' (ids_of capabilities))
           nodes ''envelope.program.graph.nodes'',
         check_unique (ids_of nodes) ''envelope.program.graph.nodes'',
         check_array edges ''envelope.program.graph.edges'',
         require (length (items_of edges) \<le> 1024) ''execution program graph cannot contain more than 1024 edges'',
         check_items (check_edge ''execution program edge references an unknown node'' (ids_of nodes))
           edges ''envelope.program.graph.edges'',
         check_unique (map edge_key (items_of edges)) ''envelope.program.graph.edges'',
         check_acyclic (adjacency (ids_of nodes) (items_of edges)) ''execution program graph contains a cycle'',
         check_model_policy ''envelope.program.modelPolicy'' ''execution program'' (js_get program ''modelPolicy'')])"

definition check_context :: "jval \<Rightarrow> string \<Rightarrow> unit result" where
  "check_context c label =
     all_of
       [check_record c label,
        check_text 500 (js_get c ''opaqueReference'') (label @ ''.opaqueReference''),
        require (opaque (js_string (js_get c ''opaqueReference'')))
          ''execution context must use opaque references without local paths or secrets'']"

definition check_workspace_grant :: "(string \<Rightarrow> int option) \<Rightarrow> jval \<Rightarrow> string \<Rightarrow> unit result" where
  "check_workspace_grant date_ms g label =
     all_of
       [check_record g label,
        check_text 500 (js_get g ''handle'') (label @ ''.handle''),
        require (\<not> absolutePathPattern (js_string (js_get g ''handle''))) ''workspace grant must use an opaque handle'',
        check_timestamp date_ms (js_get g ''expiresAt'') (label @ ''.expiresAt'')]"

definition same_scope :: "jval \<Rightarrow> jval \<Rightarrow> bool" where
  "same_scope env g =
     list_all (\<lambda>f. js_get g f = js_get env f) [''tenantId'', ''userId'', ''deviceId'', ''agentId'', ''actionId'']"

definition later :: "(string \<Rightarrow> int option) \<Rightarrow> string \<Rightarrow> string \<Rightarrow> bool" where
  "later date_ms t u = (case (date_ms t, date_ms u) of (Some a, Some b) \<Rightarrow> b < a | _ \<Rightarrow> False)"

definition check_approval_grant :: "(string \<Rightarrow> int option) \<Rightarrow> jval \<Rightarrow> jval \<Rightarrow> string \<Rightarrow> unit result" where
  "check_approval_grant date_ms env g label =
     (let get = js_get g in
      all_of
        [check_record g label,
         require (same_scope env g) ''approval grant scope does not match execution envelope'',
         check_text 500 (get ''effectKind'') (label @ ''.effectKind''),
         require (js_string (get ''effectKind'') \<in> set (texts_of (js_get env ''allowedEffects'')))
           ''approval grant effect is not declared by the envelope'',
         check_timestamp date_ms (get ''grantedAt'') (label @ ''.grantedAt''),
         check_timestamp date_ms (get ''expiresAt'') (label @ ''.expiresAt''),
         require (later date_ms (js_string (get ''expiresAt'')) (js_string (get ''grantedAt'')))
           ''approval grant must expire after it is granted''])"

definition check_executor_requirement :: "jval \<Rightarrow> unit result" where
  "check_executor_requirement r =
     (let get = js_get r; label = ''envelope.executorRequirement'';
          protocols = texts_of (get ''protocolVersions''); capabilities = texts_of (get ''capabilities'');
          allowed = texts_of (get ''allowedExecutors''); preferred = texts_of (get ''preferredExecutors'') in
      all_of
        [check_record r label,
         exactKeys r [''protocolVersions'', ''capabilities'', ''allowedExecutors'', ''preferredExecutors''] label,
         check_items check_identifier (get ''protocolVersions'') (label @ ''.protocolVersions''),
         check_items check_identifier (get ''capabilities'') (label @ ''.capabilities''),
         check_items check_identifier (get ''allowedExecutors'') (label @ ''.allowedExecutors''),
         check_items check_identifier (get ''preferredExecutors'') (label @ ''.preferredExecutors''),
         require (protocols \<noteq> [] \<and> allowed \<noteq> []) ''execution envelope requires a protocol and at least one allowed executor'',
         check_unique protocols (label @ ''.protocolVersions''),
         check_unique capabilities (label @ ''.capabilities''),
         check_unique allowed (label @ ''.allowedExecutors''),
         check_unique preferred (label @ ''.preferredExecutors''),
         require (list_all (\<lambda>x. x \<in> set allowed) preferred) ''preferred executor is outside the signed allowlist''])"

definition envelope_checks :: "(string \<Rightarrow> int option) \<Rightarrow> (rat \<Rightarrow> string) \<Rightarrow> jval \<Rightarrow> unit result" where
  "envelope_checks date_ms num_text env =
     (let get = js_get env; blueprint = get ''blueprint''; continuity = get ''continuity''; plan = get ''plan'' in
      all_of
        [check_record env ''envelope'',
         exactKeys env [''schemaVersion'', ''tenantId'', ''userId'', ''deviceId'', ''agentId'', ''runId'', ''actionId'',
           ''blueprint'', ''program'', ''capabilities'', ''context'', ''workspaceGrants'', ''approvalGrants'',
           ''idempotencyKey'', ''deadline'', ''budget'', ''dataClasses'', ''allowedEffects'', ''executorRequirement'',
           ''continuity'', ''plan''] ''envelope'',
         require (get ''schemaVersion'' = JNum (Fin 1)) ''envelope.schemaVersion must be 1'',
         all_of (map (\<lambda>f. check_identifier (get f) (''envelope.'' @ f)) scope_fields),
         check_record blueprint ''envelope.blueprint'',
         check_identifier (js_get blueprint ''id'') ''envelope.blueprint.id'',
         check_version (js_get blueprint ''version'') ''envelope.blueprint.version'',
         check_digest (js_get blueprint ''digest'') ''envelope.blueprint.digest'',
         check_program num_text env,
         check_items check_context (get ''context'') ''envelope.context'',
         check_items (check_workspace_grant date_ms) (get ''workspaceGrants'') ''envelope.workspaceGrants'',
         check_array (get ''approvalGrants'') ''envelope.approvalGrants'',
         check_items (check_text 500) (get ''allowedEffects'') ''envelope.allowedEffects'',
         check_items (check_approval_grant date_ms env) (get ''approvalGrants'') ''envelope.approvalGrants'',
         check_text 300 (get ''idempotencyKey'') ''envelope.idempotencyKey'',
         check_timestamp date_ms (get ''deadline'') ''envelope.deadline'',
         check_executor_requirement (get ''executorRequirement''),
         check_record continuity ''envelope.continuity'',
         require (js_get continuity ''midActionSwitchAllowed'' = JBool False)
           ''execution envelope cannot allow mid-action switching'',
         check_record plan ''envelope.plan'',
         check_digest (js_get plan ''digest'') ''envelope.plan.digest'',
         check_text 1000 (js_get plan ''signature'') ''envelope.plan.signature'',
         check_text 300 (js_get plan ''keyId'') ''envelope.plan.keyId''])"

definition validateExecutionEnvelope :: "(string \<Rightarrow> int option) \<Rightarrow> (rat \<Rightarrow> string) \<Rightarrow> jval \<Rightarrow> jval result" where
  "validateExecutionEnvelope date_ms num_text env = rbind (envelope_checks date_ms num_text env) (\<lambda>_. Inr env)"

section \<open>Digests and adapters\<close>

definition executionEnvelopePayloadDigest ::
  "(string \<Rightarrow> int option) \<Rightarrow> (rat \<Rightarrow> string) \<Rightarrow> (string \<Rightarrow> string) \<Rightarrow> jval \<Rightarrow> string result" where
  "executionEnvelopePayloadDigest date_ms num_text sha v =
     rbind (validateExecutionEnvelope date_ms num_text v) (\<lambda>env.
     contentDigest num_text sha (without_field ''plan'' env))"

record adapter_input =
  ai_executorId :: string
  ai_envelope :: jval
  ai_normalizedContextDigest :: string

definition toExecutorAdapterInput ::
  "(string \<Rightarrow> int option) \<Rightarrow> (rat \<Rightarrow> string) \<Rightarrow> (string \<Rightarrow> string) \<Rightarrow> jval \<Rightarrow> jval \<Rightarrow> adapter_input result" where
  "toExecutorAdapterInput date_ms num_text sha executorId v =
     rbind (validateExecutionEnvelope date_ms num_text v) (\<lambda>env.
     rbind (check_identifier executorId ''executorId'') (\<lambda>_.
     rbind (contentDigest num_text sha env) (\<lambda>d.
     Inr \<lparr> ai_executorId = js_string executorId, ai_envelope = env, ai_normalizedContextDigest = d \<rparr>)))"

text \<open>The adapter input as the object that is passed on.\<close>

definition adapter_object :: "adapter_input \<Rightarrow> jval" where
  "adapter_object a =
     JObj ObjectProto [(''executorId'', JStr (ai_executorId a)), (''envelope'', ai_envelope a),
       (''normalizedContextDigest'', JStr (ai_normalizedContextDigest a))]"

definition validateExecutorAdapterInput ::
  "(string \<Rightarrow> int option) \<Rightarrow> (rat \<Rightarrow> string) \<Rightarrow> (string \<Rightarrow> string) \<Rightarrow> jval \<Rightarrow> jval result" where
  "validateExecutorAdapterInput date_ms num_text sha v =
     rbind (check_record v ''executor adapter input'') (\<lambda>_.
     rbind (exactKeys v [''executorId'', ''envelope'', ''normalizedContextDigest''] ''executor adapter input'') (\<lambda>_.
     rbind (check_identifier (js_get v ''executorId'') ''executor adapter input.executorId'') (\<lambda>_.
     rbind (toExecutorAdapterInput date_ms num_text sha (js_get v ''executorId'') (js_get v ''envelope'')) (\<lambda>normalized.
     rbind (require (js_get v ''normalizedContextDigest'' = JStr (ai_normalizedContextDigest normalized))
              ''executor adapter input digest drifted'') (\<lambda>_.
     Inr v)))))"

section \<open>What an accepted envelope promises\<close>

definition trusted_grants :: "(string \<Rightarrow> int option) \<Rightarrow> jval \<Rightarrow> bool" where
  "trusted_grants date_ms env \<longleftrightarrow>
     (\<forall>g\<in>set (items_of (js_get env ''approvalGrants'')).
        same_scope env g
        \<and> js_string (js_get g ''effectKind'') \<in> set (texts_of (js_get env ''allowedEffects''))
        \<and> (\<exists>a b. date_ms (js_string (js_get g ''grantedAt'')) = Some a
            \<and> date_ms (js_string (js_get g ''expiresAt'')) = Some b \<and> a < b))"

definition trusted_program :: "jval \<Rightarrow> bool" where
  "trusted_program env \<longleftrightarrow>
     (let program = js_get env ''program''; graph = js_get program ''graph'';
          nodes = items_of (js_get graph ''nodes''); edges = items_of (js_get graph ''edges'') in
      (\<forall>n\<in>set nodes. js_string (js_get n ''capabilityId'') \<in> set (ids_of (js_get env ''capabilities''))
         \<and> clean_config (js_get n ''configuration''))
      \<and> (\<forall>e\<in>set edges. js_string (js_get e ''from'') \<in> set (ids_of (js_get graph ''nodes''))
           \<and> js_string (js_get e ''to'') \<in> set (ids_of (js_get graph ''nodes'')))
      \<and> acyclic {(js_string (js_get e ''from''), js_string (js_get e ''to'')) | e. e \<in> set edges}
      \<and> opaque (js_string (js_get program ''role'')) \<and> (\<forall>g\<in>set (texts_of (js_get program ''goals'')). opaque g))"

definition trusted_executors :: "jval \<Rightarrow> bool" where
  "trusted_executors env \<longleftrightarrow>
     (let r = js_get env ''executorRequirement'' in
      texts_of (js_get r ''allowedExecutors'') \<noteq> []
      \<and> set (texts_of (js_get r ''preferredExecutors'')) \<subseteq> set (texts_of (js_get r ''allowedExecutors'')))
     \<and> js_get (js_get env ''continuity'') ''midActionSwitchAllowed'' = JBool False
     \<and> (\<forall>c\<in>set (items_of (js_get env ''context'')). opaque (js_string (js_get c ''opaqueReference'')))"

lemma arcs_adjacency:
  assumes "\<forall>e\<in>set edges. js_string (js_get e ''from'') \<in> set nodes"
  shows "arcs (adjacency nodes edges)
    = {(js_string (js_get e ''from''), js_string (js_get e ''to'')) | e. e \<in> set edges}"
proof -
  let ?f = "\<lambda>n. map (\<lambda>e. js_string (js_get e ''to'')) (filter (\<lambda>e. js_string (js_get e ''from'') = n) edges)"
  have "succs (adjacency nodes edges) n = ?f n" for n
  proof (cases "n \<in> set nodes")
    case True
    then have "map_of (map (\<lambda>n. (n, ?f n)) nodes) n = Some (?f n)"
      by (simp add: map_of_map_restrict)
    then show ?thesis by (simp add: succs_def adjacency_def)
  next
    case False
    with assms have "filter (\<lambda>e. js_string (js_get e ''from'') = n) edges = []"
      by (auto simp: filter_empty_conv)
    with False show ?thesis by (simp add: succs_unknown adjacency_def image_image)
  qed
  then show ?thesis by (auto simp: arcs_def)
qed

lemma purpose_opaque:
  "check_purpose label gc subject v = Inr () \<Longrightarrow>
     opaque (js_string (js_get v ''role'')) \<and> (\<forall>g\<in>set (texts_of (js_get v ''goals'')). opaque g)"
  by (simp add: check_purpose_def Let_def all_of_map)

lemma check_node_ok:
  "check_node num_text msg capabilities n label = Inr () \<Longrightarrow>
     js_string (js_get n ''capabilityId'') \<in> set capabilities \<and> clean_config (js_get n ''configuration'')"
  by (simp add: check_node_def Let_def) (elim conjE, erule configuration_clean)

lemma check_edge_ok:
  "check_edge msg nodes e label = Inr () \<Longrightarrow>
     js_string (js_get e ''from'') \<in> set nodes \<and> js_string (js_get e ''to'') \<in> set nodes"
  by (simp add: check_edge_def Let_def)

lemma check_program_ok:
  assumes "check_program num_text env = Inr ()"
  shows "trusted_program env"
proof -
  let ?program = "js_get env ''program''"
  let ?graph = "js_get ?program ''graph''"
  let ?nodes = "js_get ?graph ''nodes''" and ?edges = "js_get ?graph ''edges''"
  let ?caps = "ids_of (js_get env ''capabilities'')"
  note checks = assms [unfolded check_program_def Let_def]
  have nodes: "check_items (check_node num_text ''execution program node references an unpinned capability'' ?caps)
      ?nodes ''envelope.program.graph.nodes'' = Inr ()"
    by (rule all_of_member [OF checks]) simp
  have edges: "check_items (check_edge ''execution program edge references an unknown node'' (ids_of ?nodes))
      ?edges ''envelope.program.graph.edges'' = Inr ()"
    by (rule all_of_member [OF checks]) simp
  have graph: "check_acyclic (adjacency (ids_of ?nodes) (items_of ?edges)) ''execution program graph contains a cycle'' = Inr ()"
    by (rule all_of_member [OF checks]) simp
  have purpose: "check_purpose ''envelope.program'' ''execution program goals'' ''execution program'' ?program = Inr ()"
    by (rule all_of_member [OF checks]) simp
  have ends: "\<forall>e\<in>set (items_of ?edges). js_string (js_get e ''from'') \<in> set (ids_of ?nodes)
      \<and> js_string (js_get e ''to'') \<in> set (ids_of ?nodes)"
    using check_items_ok [OF edges] check_edge_ok by metis
  have "\<forall>n\<in>set (items_of ?nodes). js_string (js_get n ''capabilityId'') \<in> set ?caps
      \<and> clean_config (js_get n ''configuration'')"
    using check_items_ok [OF nodes] check_node_ok by metis
  moreover have "acyclic {(js_string (js_get e ''from''), js_string (js_get e ''to'')) | e. e \<in> set (items_of ?edges)}"
    using graph ends by (simp add: check_acyclic_ok arcs_adjacency)
  ultimately show ?thesis
    using ends purpose_opaque [OF purpose] by (simp add: trusted_program_def Let_def)
qed

lemma check_approval_grant_ok:
  "check_approval_grant date_ms env g label = Inr () \<Longrightarrow>
     same_scope env g \<and> js_string (js_get g ''effectKind'') \<in> set (texts_of (js_get env ''allowedEffects''))
     \<and> (\<exists>a b. date_ms (js_string (js_get g ''grantedAt'')) = Some a
         \<and> date_ms (js_string (js_get g ''expiresAt'')) = Some b \<and> a < b)"
  by (simp add: check_approval_grant_def Let_def later_def split: option.splits)

lemma envelope_checks_ok:
  assumes "envelope_checks date_ms num_text env = Inr ()"
  shows "trusted_grants date_ms env \<and> trusted_program env \<and> trusted_executors env"
proof -
  note checks = assms [unfolded envelope_checks_def Let_def]
  have grants: "check_items (check_approval_grant date_ms env) (js_get env ''approvalGrants'') ''envelope.approvalGrants'' = Inr ()"
    by (rule all_of_member [OF checks]) simp
  have program: "check_program num_text env = Inr ()"
    by (rule all_of_member [OF checks]) simp
  have executors: "check_executor_requirement (js_get env ''executorRequirement'') = Inr ()"
    by (rule all_of_member [OF checks]) simp
  have contexts: "check_items check_context (js_get env ''context'') ''envelope.context'' = Inr ()"
    by (rule all_of_member [OF checks]) simp
  have switch: "require (js_get (js_get env ''continuity'') ''midActionSwitchAllowed'' = JBool False)
      ''execution envelope cannot allow mid-action switching'' = Inr ()"
    by (rule all_of_member [OF checks]) simp
  have "opaque (js_string (js_get c ''opaqueReference''))" if "c \<in> set (items_of (js_get env ''context''))" for c
    using check_items_ok [OF contexts that] by (auto simp: check_context_def)
  moreover have "trusted_grants date_ms env"
    unfolding trusted_grants_def using check_items_ok [OF grants] check_approval_grant_ok by metis
  ultimately show ?thesis
    using check_program_ok [OF program] executors switch
    by (auto simp: trusted_executors_def check_executor_requirement_def Let_def list_all_iff)
qed

section \<open>Properties\<close>

text \<open>An execution envelope that is accepted can be trusted: every approval it carries was
granted for the same tenant, user, device, agent and action, for an effect the envelope declares,
with an expiry after its grant; the program is an acyclic graph over pinned capabilities whose
configurations hold, at any depth, no executable payload, absolute path or secret; the preferred
executors are allowed ones; the executor cannot be switched in the middle of an action.\<close>

lemma accepted_envelope_trusted:
  assumes "validateExecutionEnvelope date_ms num_text v = Inr env"
  shows "env = v \<and> trusted_grants date_ms env \<and> trusted_program env \<and> trusted_executors env"
  using assms by (auto simp: validateExecutionEnvelope_def rbind_Inr_iff dest: envelope_checks_ok)

text \<open>C34. An adapter input round-trips: the object made from what the envelope normalises to is
accepted as it is, and an object with the same executor and envelope is accepted only with the
digest of that envelope, so a digest that drifted is refused.\<close>

theorem adapter_input_roundtrip:
  assumes "toExecutorAdapterInput date_ms num_text sha executorId v = Inr input"
  shows "validateExecutorAdapterInput date_ms num_text sha (adapter_object input) = Inr (adapter_object input)
    \<and> ai_envelope input = v
    \<and> (validateExecutorAdapterInput date_ms num_text sha (adapter_object (input\<lparr>ai_normalizedContextDigest := d\<rparr>))
         = Inr (adapter_object (input\<lparr>ai_normalizedContextDigest := d\<rparr>))
       \<longleftrightarrow> contentDigest num_text sha v = Inr d)"
proof -
  from assms have env: "validateExecutionEnvelope date_ms num_text v = Inr v"
    and eid: "check_identifier executorId ''executorId'' = Inr ()"
    and dig: "contentDigest num_text sha v = Inr (ai_normalizedContextDigest input)"
    and input: "ai_executorId input = js_string executorId" "ai_envelope input = v"
    by (auto simp: toExecutorAdapterInput_def rbind_Inr_iff validateExecutionEnvelope_def)
  from eid obtain s where s: "executorId = JStr s"
    by (cases executorId) (simp_all add: check_identifier_def check_text_def)
  have pass: "check_identifier (JStr s) l = Inr ()" for l
    using eid by (simp add: s check_identifier_def check_text_def)
  show ?thesis
    using env pass dig input
    by (auto simp: validateExecutorAdapterInput_def adapter_object_def check_record_def is_record_def exactKeys_def
        field_names_def toExecutorAdapterInput_def rbind_Inr_iff require_def s)
qed

section \<open>Witnesses\<close>

definition sample_date :: "string \<Rightarrow> int option" where
  "sample_date s = (if s = ''1'' then Some 1 else if s = ''2'' then Some 2 else None)"

definition sample_sha :: "string \<Rightarrow> string" where
  "sample_sha t = take 1 t"

definition sample_envelope :: jval where
  "sample_envelope = obj
     [(''schemaVersion'', JNum (Fin 1)), (''tenantId'', JStr ''t''), (''userId'', JStr ''u''), (''deviceId'', JStr ''d''),
      (''agentId'', JStr ''a''), (''runId'', JStr ''r''), (''actionId'', JStr ''x''),
      (''blueprint'', obj [(''id'', JStr ''b''), (''version'', JStr ''1.0.0''), (''digest'', sample_digest)]),
      (''program'', obj
        [(''role'', JStr ''r''), (''goals'', JArr [JStr ''g'']),
         (''graph'', obj
           [(''nodes'', JArr [obj [(''id'', JStr ''n''), (''capabilityId'', JStr ''c''), (''interfaceId'', JStr ''i''),
              (''configuration'', obj [(''k'', JStr ''v'')])]]),
            (''edges'', JArr [])]),
         (''modelPolicy'', obj [(''allowed'', JArr [JStr ''m'']), (''preferred'', JNull)])]),
      (''capabilities'', JArr [obj [(''id'', JStr ''c''), (''version'', JStr ''1.0.0''), (''artifactDigest'', sample_digest)]]),
      (''context'', JArr [obj [(''opaqueReference'', JStr ''o'')]]),
      (''workspaceGrants'', JArr []),
      (''approvalGrants'', JArr [obj [(''tenantId'', JStr ''t''), (''userId'', JStr ''u''), (''deviceId'', JStr ''d''),
         (''agentId'', JStr ''a''), (''actionId'', JStr ''x''), (''effectKind'', JStr ''e''),
         (''grantedAt'', JStr ''1''), (''expiresAt'', JStr ''2'')]]),
      (''allowedEffects'', JArr [JStr ''e'']), (''idempotencyKey'', JStr ''k''), (''deadline'', JStr ''2''),
      (''executorRequirement'', obj [(''protocolVersions'', JArr [JStr ''p'']), (''capabilities'', JArr []),
         (''allowedExecutors'', JArr [JStr ''z'']), (''preferredExecutors'', JArr [])]),
      (''continuity'', obj [(''midActionSwitchAllowed'', JBool False)]),
      (''plan'', obj [(''digest'', sample_digest), (''signature'', JStr ''s''), (''keyId'', JStr ''k'')])]"

lemma sample_graph_acyclic: "check_acyclic (adjacency [''n''] []) ''execution program graph contains a cycle'' = Inr ()"
  by code_simp

lemma sample_program_checked: "check_program (\<lambda>q. ''1'') sample_envelope = Inr ()"
  by (simp add: check_program_def Let_def sample_envelope_def obj_def check_defs ids_of_def pattern_defs sample_digest_def
      check_purpose_def check_envelope_capability_def check_node_def validateDeclarativeConfiguration_def quoted_def
      escape_char_def executable_key_def check_model_policy_def sample_graph_acyclic sample_hex require_def)

lemma sample_envelope_checked: "envelope_checks sample_date (\<lambda>q. ''1'') sample_envelope = Inr ()"
  unfolding envelope_checks_def Let_def all_of_ok
proof (intro conjI sample_program_checked)
qed (simp_all add: sample_envelope_def obj_def check_defs ids_of_def pattern_defs sample_digest_def scope_fields_def
    check_context_def check_approval_grant_def same_scope_def later_def sample_date_def check_executor_requirement_def Let_def sample_hex)

lemma accepted_envelope_trusted_witness:
  "trusted_grants sample_date sample_envelope \<and> length (items_of (js_get sample_envelope ''approvalGrants'')) = 1"
proof -
  have "validateExecutionEnvelope sample_date (\<lambda>q. ''1'') sample_envelope = Inr sample_envelope"
    by (simp add: validateExecutionEnvelope_def sample_envelope_checked)
  moreover have "length (items_of (js_get sample_envelope ''approvalGrants'')) = 1"
    by code_simp
  ultimately show ?thesis
    using accepted_envelope_trusted by blast
qed

lemma adapter_input_roundtrip_witness:
  "\<exists>input. validateExecutorAdapterInput sample_date (\<lambda>q. ''1'') sample_sha (adapter_object input)
       = Inr (adapter_object input) \<and> ai_executorId input = ''z''"
proof -
  have "case contentDigest (\<lambda>q. ''1'') sample_sha sample_envelope of Inr _ \<Rightarrow> True | Inl _ \<Rightarrow> False"
    by code_simp
  then obtain d where "contentDigest (\<lambda>q. ''1'') sample_sha sample_envelope = Inr d"
    by (cases "contentDigest (\<lambda>q. ''1'') sample_sha sample_envelope") simp_all
  moreover have "check_identifier (JStr ''z'') ''executorId'' = Inr ()"
    by code_simp
  ultimately have "toExecutorAdapterInput sample_date (\<lambda>q. ''1'') sample_sha (JStr ''z'') sample_envelope
      = Inr \<lparr> ai_executorId = ''z'', ai_envelope = sample_envelope, ai_normalizedContextDigest = d \<rparr>"
    by (simp add: toExecutorAdapterInput_def validateExecutionEnvelope_def sample_envelope_checked)
  from adapter_input_roundtrip [OF this] show ?thesis
    by (intro exI conjI) (rule conjunct1, assumption, simp)
qed

end
