(* ===== verification/Wake_Scheduler.thy ===== *)
theory Wake_Scheduler
  imports Js_Prelude
begin

text \<open>
  The wake scheduler the durable runtimes share (runtime/wake-scheduler.ts): it coalesces hints that
  work was committed, keeps one timer for the earliest future deadline and a slow recovery scan, and
  drains in passes. The host's event loop is a step relation: a pending immediate, a pass that ends,
  a timer that is due, a recovery tick, and calls of \<open>wake\<close> and \<open>dispose\<close> may happen in any order.
  Times are milliseconds. \<open>ws_run\<close> is the number of passes before the one in flight; \<open>ws_started\<close>
  counts the passes started so far and is not part of the code's state.
\<close>

section \<open>State\<close>

record scheduler_options =
  so_enabled :: bool
  so_recoveryIntervalMs :: "jnum option"
  so_maxPasses :: "jnum option"

record wake_scheduler =
  ws_enabled :: bool
  ws_maxPasses :: int
  ws_wakePending :: bool
  ws_draining :: bool
  ws_timer :: "(int \<times> int) option"
  ws_scheduledAt :: "int option"
  ws_recovery :: bool
  ws_immediate :: bool
  ws_disposed :: bool
  ws_run :: "int option"
  ws_started :: nat

section \<open>Operations\<close>

definition MAX_TIMER_DELAY_MS :: int where
  "MAX_TIMER_DELAY_MS = 2147000000"

definition create_scheduler :: "scheduler_options \<Rightarrow> wake_scheduler result" where
  "create_scheduler options =
     (let interval = (case so_recoveryIntervalMs options of Some n \<Rightarrow> n | None \<Rightarrow> Fin 600000) in
      if \<not> safe_integer interval \<or> int_num interval < 1000
      then throw ''durable wake recoveryIntervalMs must be an integer of at least 1000''
      else if (case so_maxPasses options of None \<Rightarrow> False | Some n \<Rightarrow> \<not> safe_integer n \<or> int_num n < 1)
      then throw ''durable wake maxPasses must be a positive safe integer''
      else Inr \<lparr> ws_enabled = so_enabled options,
                 ws_maxPasses = (case so_maxPasses options of None \<Rightarrow> 100 | Some n \<Rightarrow> int_num n),
                 ws_wakePending = False, ws_draining = False, ws_timer = None, ws_scheduledAt = None,
                 ws_recovery = so_enabled options, ws_immediate = False, ws_disposed = False,
                 ws_run = None, ws_started = 0 \<rparr>)"

text \<open>A timer holds the deadline it waits for and the time at which the host fires it.\<close>

definition scheduleFuture :: "int \<Rightarrow> int \<Rightarrow> wake_scheduler \<Rightarrow> wake_scheduler" where
  "scheduleFuture now deadline s =
     s\<lparr>ws_timer := Some (deadline, now + min (max 0 (deadline - now)) MAX_TIMER_DELAY_MS)\<rparr>"

text \<open>The argument of \<open>wake\<close>: none, a text that is no date, or a date.\<close>

datatype wake_at = Now | NoDate | At int

definition wake_time :: "int \<Rightarrow> wake_at \<Rightarrow> int option" where
  "wake_time now w = (case w of Now \<Rightarrow> Some now | NoDate \<Rightarrow> None | At t \<Rightarrow> Some t)"

definition wake_now :: "wake_scheduler \<Rightarrow> wake_scheduler" where
  "wake_now s =
     (let s1 = s\<lparr>ws_wakePending := True\<rparr> in
      if ws_draining s1 then s1 else s1\<lparr>ws_draining := True, ws_immediate := True\<rparr>)"

definition wake :: "int \<Rightarrow> wake_at \<Rightarrow> wake_scheduler \<Rightarrow> wake_scheduler" where
  "wake now w s =
     (if \<not> ws_enabled s \<or> ws_disposed s then s
      else case wake_time now w of
        None \<Rightarrow> wake_now s
      | Some t \<Rightarrow>
          if t \<le> now then wake_now s
          else if (case ws_scheduledAt s of None \<Rightarrow> False | Some u \<Rightarrow> u \<le> t) then s
          else scheduleFuture now t (s\<lparr>ws_scheduledAt := Some t\<rparr>))"

definition dispose :: "wake_scheduler \<Rightarrow> wake_scheduler" where
  "dispose s =
     s\<lparr>ws_disposed := True, ws_wakePending := False, ws_recovery := False, ws_timer := None,
       ws_immediate := False, ws_scheduledAt := None\<rparr>"

text \<open>The \<open>finally\<close> of a drain, and the condition of its loop with the start of the next pass.\<close>

definition end_drain :: "int \<Rightarrow> wake_scheduler \<Rightarrow> wake_scheduler" where
  "end_drain now s =
     (let s1 = s\<lparr>ws_draining := False, ws_run := None\<rparr> in
      if \<not> ws_disposed s1 \<and> ws_wakePending s1 then wake now Now s1 else s1)"

definition next_pass :: "int \<Rightarrow> int \<Rightarrow> wake_scheduler \<Rightarrow> wake_scheduler" where
  "next_pass now passes s =
     (if \<not> ws_disposed s \<and> ws_wakePending s \<and> passes < ws_maxPasses s
      then s\<lparr>ws_wakePending := False, ws_run := Some passes, ws_started := Suc (ws_started s)\<rparr>
      else end_drain now s)"

definition immediate_fires :: "int \<Rightarrow> wake_scheduler \<Rightarrow> wake_scheduler" where
  "immediate_fires now s = next_pass now 0 (s\<lparr>ws_immediate := False\<rparr>)"

text \<open>How a pass ends: its result asks to continue or not, or it threw.\<close>

datatype pass_end = Continue | Finished | Failed

definition pass_ends :: "int \<Rightarrow> pass_end \<Rightarrow> int \<Rightarrow> wake_scheduler \<Rightarrow> wake_scheduler" where
  "pass_ends now e passes s =
     (case e of
        Continue \<Rightarrow> next_pass now (passes + 1) (s\<lparr>ws_wakePending := True\<rparr>)
      | Finished \<Rightarrow> next_pass now (passes + 1) s
      | Failed \<Rightarrow> end_drain now s)"

definition timer_fires :: "int \<Rightarrow> int \<Rightarrow> wake_scheduler \<Rightarrow> wake_scheduler" where
  "timer_fires now deadline s =
     (let s1 = s\<lparr>ws_timer := None\<rparr> in
      if ws_disposed s1 then s1
      else if now < deadline then scheduleFuture now deadline s1
      else wake now (At deadline) (s1\<lparr>ws_scheduledAt := None\<rparr>))"

section \<open>The event loop\<close>

inductive wake_step :: "wake_scheduler \<Rightarrow> wake_scheduler \<Rightarrow> bool" where
  call_wake: "wake_step s (wake now w s)"
| call_dispose: "wake_step s (dispose s)"
| immediate: "ws_immediate s \<Longrightarrow> wake_step s (immediate_fires now s)"
| pass: "ws_run s = Some passes \<Longrightarrow> wake_step s (pass_ends now e passes s)"
| timer: "ws_timer s = Some (deadline, due) \<Longrightarrow> due \<le> now \<Longrightarrow> wake_step s (timer_fires now deadline s)"
| recovery: "ws_recovery s \<Longrightarrow> wake_step s (wake now Now s)"

inductive wake_reachable :: "scheduler_options \<Rightarrow> wake_scheduler \<Rightarrow> bool" for options where
  start: "create_scheduler options = Inr s \<Longrightarrow> wake_reachable options s"
| step: "wake_reachable options s \<Longrightarrow> wake_step s s' \<Longrightarrow> wake_reachable options s'"

section \<open>The invariant\<close>

text \<open>
  Someone drains exactly when an immediate is pending or a pass is in flight (until disposal cancels
  the immediate); a pending wake is never without a drain that will see it; the timer waits for the
  scheduled deadline.
\<close>

definition wake_inv :: "wake_scheduler \<Rightarrow> bool" where
  "wake_inv s \<longleftrightarrow>
     1 \<le> ws_maxPasses s
     \<and> (ws_immediate s \<longrightarrow> ws_draining s \<and> ws_run s = None)
     \<and> (ws_run s \<noteq> None \<longrightarrow> ws_draining s)
     \<and> (\<not> ws_disposed s \<longrightarrow> (ws_draining s \<longleftrightarrow> ws_immediate s \<or> ws_run s \<noteq> None))
     \<and> (\<not> ws_disposed s \<longrightarrow> ws_wakePending s \<longrightarrow> ws_draining s)
     \<and> (ws_immediate s \<longrightarrow> ws_wakePending s)
     \<and> (\<not> ws_enabled s \<longrightarrow> \<not> ws_draining s)
     \<and> (\<not> ws_disposed s \<longrightarrow> map_option fst (ws_timer s) = ws_scheduledAt s)
     \<and> (ws_disposed s \<longrightarrow> ws_timer s = None \<and> \<not> ws_immediate s \<and> \<not> ws_recovery s)"

lemmas wake_defs = wake_def wake_now_def wake_time_def scheduleFuture_def end_drain_def next_pass_def
  immediate_fires_def pass_ends_def timer_fires_def dispose_def Let_def

lemma created_inv: "create_scheduler options = Inr s \<Longrightarrow> wake_inv s"
  by (auto simp: create_scheduler_def wake_inv_def Let_def split: if_splits option.splits)

lemma wake_keeps_inv: "wake_inv s \<Longrightarrow> wake_inv (wake now w s)"
  by (auto simp: wake_inv_def wake_defs split: option.splits wake_at.splits)

lemma wake_frame:
  "ws_started (wake now w s) = ws_started s" "ws_enabled (wake now w s) = ws_enabled s"
  "ws_disposed (wake now w s) = ws_disposed s"
  by (simp_all add: wake_defs split: option.splits wake_at.splits)

lemma dispose_keeps_inv: "wake_inv s \<Longrightarrow> wake_inv (dispose s)"
  by (auto simp: wake_inv_def dispose_def)

lemma immediate_keeps_inv: "wake_inv s \<Longrightarrow> ws_immediate s \<Longrightarrow> wake_inv (immediate_fires now s)"
  by (auto simp: wake_inv_def wake_defs)

lemma end_drain_keeps_inv: "wake_inv s \<Longrightarrow> ws_run s \<noteq> None \<Longrightarrow> wake_inv (end_drain now s)"
  by (auto simp: wake_inv_def wake_defs)

lemma pass_keeps_inv: "wake_inv s \<Longrightarrow> ws_run s = Some passes \<Longrightarrow> wake_inv (pass_ends now e passes s)"
  by (cases e) (auto simp: wake_inv_def wake_defs)

lemma timer_keeps_inv:
  assumes "wake_inv s" "ws_timer s = Some (deadline, due)"
  shows "wake_inv (timer_fires now deadline s)"
proof -
  from assms have live: "\<not> ws_disposed s" and deadline: "ws_scheduledAt s = Some deadline"
    by (auto simp: wake_inv_def)
  from assms have "wake_inv (s\<lparr>ws_timer := None, ws_scheduledAt := None\<rparr>)"
    by (auto simp: wake_inv_def)
  from wake_keeps_inv [OF this] have fire: "wake_inv (wake now (At deadline) (s\<lparr>ws_timer := None, ws_scheduledAt := None\<rparr>))" .
  from assms(1) live deadline have "wake_inv (scheduleFuture now deadline (s\<lparr>ws_timer := None\<rparr>))"
    by (auto simp: wake_inv_def scheduleFuture_def)
  with fire live show ?thesis by (simp add: timer_fires_def Let_def)
qed

lemma step_keeps_inv: "wake_step s s' \<Longrightarrow> wake_inv s \<Longrightarrow> wake_inv s'"
  by (induction rule: wake_step.induct)
    (simp_all add: wake_keeps_inv dispose_keeps_inv immediate_keeps_inv pass_keeps_inv timer_keeps_inv)

lemma reachable_inv: "wake_reachable options s \<Longrightarrow> wake_inv s"
  by (induction rule: wake_reachable.induct) (auto dest: created_inv step_keeps_inv)

section \<open>No wake is lost\<close>

text \<open>
  What the host does next for a drain: fire the pending immediate, or end the pass in flight, at
  some time and with some outcome.
\<close>

definition drain_event :: "int \<Rightarrow> pass_end \<Rightarrow> wake_scheduler \<Rightarrow> wake_scheduler" where
  "drain_event now e s =
     (case ws_run s of
        Some passes \<Rightarrow> pass_ends now e passes s
      | None \<Rightarrow> if ws_immediate s then immediate_fires now s else s)"

lemma drain_event_step: "drain_event now e s \<noteq> s \<Longrightarrow> wake_step s (drain_event now e s)"
  by (auto simp: drain_event_def split: option.splits if_splits intro: wake_step.intros)

lemma pending_immediate_starts:
  assumes "wake_inv s" "ws_immediate s" "\<not> ws_disposed s"
  shows "ws_started (drain_event now e s) = Suc (ws_started s)"
  using assms by (auto simp: wake_inv_def drain_event_def immediate_fires_def next_pass_def)

lemma pending_pass_starts:
  assumes "wake_inv s" "ws_run s = Some passes" "ws_wakePending s" "\<not> ws_disposed s" "ws_enabled s"
  shows "ws_started (drain_event now e s) = Suc (ws_started s)
    \<or> (ws_started (drain_event now e s) = ws_started s \<and> ws_immediate (drain_event now e s)
        \<and> \<not> ws_disposed (drain_event now e s))"
  using assms by (cases e) (auto simp: wake_inv_def drain_event_def wake_defs)

lemma drain_event_inv: "wake_inv s \<Longrightarrow> wake_inv (drain_event now e s)"
  using step_keeps_inv [OF drain_event_step, of now e s] by (cases "drain_event now e s = s") simp_all

lemma pending_wake_runs:
  assumes inv: "wake_inv s" and live: "ws_enabled s" "\<not> ws_disposed s" "ws_wakePending s"
  shows "ws_started (drain_event n1 e1 s) = Suc (ws_started s)
    \<or> ws_started (drain_event n1 e1 s) = ws_started s
       \<and> ws_started (drain_event n2 e2 (drain_event n1 e1 s)) = Suc (ws_started s)"
proof (cases "ws_run s")
  case None
  with inv live have "ws_immediate s" by (auto simp: wake_inv_def)
  with pending_immediate_starts [OF inv _ live(2)] show ?thesis by blast
next
  case (Some passes)
  from pending_pass_starts [OF inv Some live(3,2,1), of n1 e1] show ?thesis
  proof
    assume "ws_started (drain_event n1 e1 s) = ws_started s \<and> ws_immediate (drain_event n1 e1 s)
        \<and> \<not> ws_disposed (drain_event n1 e1 s)"
    then have "ws_started (drain_event n2 e2 (drain_event n1 e1 s)) = Suc (ws_started (drain_event n1 e1 s))"
      and "ws_started (drain_event n1 e1 s) = ws_started s"
      using pending_immediate_starts [OF drain_event_inv [OF inv]] by simp_all
    then show ?thesis by simp
  qed simp
qed

text \<open>C36. No wake is lost: whatever happened before, a wake for the present time, or for a time
that has passed, or with a text that is no date, leads to a pass that starts after it. The drain
needs at most two more turns of the event loop for it, whatever the outcome of a pass that is in
flight, also when that pass was the last one its drain may run; a wake for a later time leaves a
timer that waits for that time or an earlier one, never longer than the host's timers can wait.\<close>

theorem wake_never_lost:
  assumes "wake_reachable options s" and "ws_enabled s" "\<not> ws_disposed s"
    and "wake now w s = s'"
  shows "case w of
      At t \<Rightarrow>
        if now < t then \<exists>u due. ws_timer s' = Some (u, due) \<and> ws_scheduledAt s' = Some u \<and> u \<le> t
          \<and> (s' \<noteq> s \<longrightarrow> due - now \<le> 2147000000)
        else ws_started (drain_event n1 e1 s') = Suc (ws_started s)
          \<or> ws_started (drain_event n2 e2 (drain_event n1 e1 s')) = Suc (ws_started s)
    | _ \<Rightarrow> ws_started (drain_event n1 e1 s') = Suc (ws_started s)
          \<or> ws_started (drain_event n2 e2 (drain_event n1 e1 s')) = Suc (ws_started s)"
proof -
  note inv = reachable_inv [OF assms(1)]
  have started: "ws_started s' = ws_started s" "ws_enabled s'" "\<not> ws_disposed s'"
    using assms(2,3) wake_frame [of now w s] by (simp_all add: assms(4))
  have inv': "wake_inv s'" using wake_keeps_inv [OF inv] assms(4) by blast
  have pass: "ws_wakePending s' \<Longrightarrow> ws_started (drain_event n1 e1 s') = Suc (ws_started s)
      \<or> ws_started (drain_event n2 e2 (drain_event n1 e1 s')) = Suc (ws_started s)"
    using pending_wake_runs [OF inv' started(2,3), of n1 e1 n2 e2] started(1) by auto
  show ?thesis
  proof (cases "\<exists>t. w = At t \<and> now < t")
    case True
    then obtain t where t: "w = At t" "now < t" by blast
    have "map_option fst (ws_timer s) = ws_scheduledAt s"
      using inv assms(3) by (simp add: wake_inv_def)
    then show ?thesis
      using t assms(2-4)
      by (cases "ws_scheduledAt s")
        (auto simp: wake_def wake_time_def scheduleFuture_def MAX_TIMER_DELAY_MS_def)
  next
    case False
    then have "ws_wakePending s'"
      using assms(2-4) by (cases w) (auto simp: wake_def wake_time_def wake_now_def Let_def)
    with pass False show ?thesis by (cases w) auto
  qed
qed

section \<open>Witness\<close>

definition sample_options :: scheduler_options where
  "sample_options = \<lparr> so_enabled = True, so_recoveryIntervalMs = None, so_maxPasses = Some (Fin 1) \<rparr>"

definition sample_scheduler :: wake_scheduler where
  "sample_scheduler = projr (create_scheduler sample_options)"

text \<open>The wake arrives while the only pass its drain may run is in flight.\<close>

definition busy_scheduler :: wake_scheduler where
  "busy_scheduler = drain_event 0 Finished (wake 0 Now sample_scheduler)"

lemma wake_never_lost_witness:
  "ws_run busy_scheduler = Some 0
   \<and> (ws_started (drain_event 2 Finished (wake 1 Now busy_scheduler)) = Suc (ws_started busy_scheduler)
      \<or> ws_started (drain_event 3 Finished (drain_event 2 Finished (wake 1 Now busy_scheduler))) = Suc (ws_started busy_scheduler))"
proof -
  have created: "create_scheduler sample_options = Inr sample_scheduler"
    by (simp add: sample_scheduler_def sample_options_def create_scheduler_def Let_def)
  have "wake_reachable sample_options sample_scheduler"
    by (rule start [OF created])
  moreover have "wake_step sample_scheduler (wake 0 Now sample_scheduler)"
    by (rule call_wake)
  moreover have imm: "ws_immediate (wake 0 Now sample_scheduler)" "ws_run (wake 0 Now sample_scheduler) = None"
    by code_simp+
  then have "busy_scheduler = immediate_fires 0 (wake 0 Now sample_scheduler)"
    by (simp add: busy_scheduler_def drain_event_def)
  ultimately have "wake_reachable sample_options busy_scheduler"
    using imm(1) by (metis wake_reachable.step wake_step.immediate)
  moreover have "ws_enabled busy_scheduler" "\<not> ws_disposed busy_scheduler" "ws_run busy_scheduler = Some 0"
    by code_simp+
  ultimately show ?thesis
    using wake_never_lost [of sample_options busy_scheduler 1 Now "wake 1 Now busy_scheduler" 2 Finished 3 Finished]
    by simp
qed

end
