(* ===== verification/Workflow_Runtime.thy ===== *)
theory Workflow_Runtime
  imports Workflow_Store
begin

text \<open>
  The durable workflow runtime (workflow/runtime.ts) over the SQLite store: registered definitions
  decide how a workflow starts and how it moves on an event; a dispatch reads, decides and advances,
  and starts over when another worker was faster; a run fires the timers that are due and delivers
  one effect of the outbox. Definitions and effect handlers are parameters, as are the text of a date
  (\<open>iso_text\<close>) and its parser (\<open>date_ms\<close>). At every \<open>await\<close> others may act on the store: \<open>world n\<close> is
  what they do before the n-th operation, and \<open>clock n\<close> is the time it is done at. Registration also
  wakes the scheduler, which \<open>Wake_Scheduler\<close> models.
\<close>

section \<open>Definitions and decisions\<close>

record workflow_decision =
  dc_status :: string
  dc_state :: jval
  dc_wakeAt :: wake_change
  dc_effects :: "workflow_effect_input list"

record workflow_definition =
  wd_kind :: string
  wd_version :: jnum
  wd_initialize :: "jval \<Rightarrow> timestamp \<Rightarrow> workflow_decision result"
  wd_reduce :: "jval \<Rightarrow> workflow_event \<Rightarrow> workflow_decision result"

type_synonym effect_handler = "claimed_workflow_effect \<Rightarrow> jval result"

record workflow_runtime =
  wt_workerId :: string
  wt_batchSize :: nat
  wt_leaseMs :: int
  wt_retryDelayMs :: int
  wt_maxAttempts :: int
  wt_definitions :: "(string \<times> workflow_definition) list"
  wt_handlers :: "(string \<times> effect_handler) list"
  wt_running :: bool

record runtime_config =
  tc_workerId :: "string option"
  tc_leaseMs :: "int option"
  tc_retryDelayMs :: "int option"
  tc_maxAttempts :: "int option"
  tc_batchSize :: "nat option"

definition value_or :: "'a \<Rightarrow> 'a option \<Rightarrow> 'a" where
  "value_or d v = (case v of Some x \<Rightarrow> x | None \<Rightarrow> d)"

definition create_runtime :: "runtime_config \<Rightarrow> workflow_runtime result" where
  "create_runtime config =
     (if (case tc_workerId config of None \<Rightarrow> True | Some w \<Rightarrow> blank w)
      then throw ''workflow runtime workerId is required''
      else Inr \<lparr> wt_workerId = value_or [] (tc_workerId config), wt_batchSize = value_or 20 (tc_batchSize config),
                 wt_leaseMs = value_or 120000 (tc_leaseMs config),
                 wt_retryDelayMs = value_or 120000 (tc_retryDelayMs config),
                 wt_maxAttempts = value_or 5 (tc_maxAttempts config),
                 wt_definitions = [], wt_handlers = [], wt_running = False \<rparr>)"

definition register_workflow :: "workflow_definition \<Rightarrow> workflow_runtime \<Rightarrow> workflow_runtime result" where
  "register_workflow d rt =
     (if blank (wd_kind d) \<or> \<not> safe_integer (wd_version d) \<or> int_num (wd_version d) < 1
      then throw ''workflow definition requires a kind and positive integer version''
      else if map_of (wt_definitions rt) (wd_kind d) \<noteq> None
      then throw (''workflow definition '' @ wd_kind d @ '' is already registered'')
      else Inr (rt\<lparr>wt_definitions := (wd_kind d, d) # wt_definitions rt\<rparr>))"

definition registerEffect :: "string \<Rightarrow> effect_handler \<Rightarrow> workflow_runtime \<Rightarrow> workflow_runtime result" where
  "registerEffect kind handler rt =
     (if blank kind then throw ''workflow effect kind is required''
      else if map_of (wt_handlers rt) kind \<noteq> None
      then throw (''workflow effect handler '' @ kind @ '' is already registered'')
      else Inr (rt\<lparr>wt_handlers := (kind, handler) # wt_handlers rt\<rparr>))"

definition definition_of :: "workflow_runtime \<Rightarrow> string \<Rightarrow> workflow_definition result" where
  "definition_of rt kind =
     (case map_of (wt_definitions rt) kind of
        None \<Rightarrow> throw (''workflow definition '' @ kind @ '' is not registered'')
      | Some d \<Rightarrow> Inr d)"

definition status_of_text :: "string \<Rightarrow> workflow_status option" where
  "status_of_text s =
     map_of [(''running'', WRunning), (''waiting'', WWaiting), (''completed'', WCompleted), (''failed'', WFailed)] s"

definition check_effect_input :: "(string \<Rightarrow> int option) \<Rightarrow> workflow_effect_input \<Rightarrow> unit result" where
  "check_effect_input date_ms e =
     all_of
       [require (\<not> blank (we_id e) \<and> \<not> blank (we_kind e)) ''workflow effects require non-empty id and kind'',
        require (case we_availableAt e of None \<Rightarrow> True | Some t \<Rightarrow> t = [] \<or> date_ms t \<noteq> None)
          (''workflow effect '' @ we_id e @ '' has invalid availableAt''),
        assertJsonValue (we_payload e) (''workflow effect '' @ we_id e @ '' payload'')]"

definition validateDecision :: "(string \<Rightarrow> int option) \<Rightarrow> workflow_decision \<Rightarrow> workflow_decision result" where
  "validateDecision date_ms d =
     rbind (all_of
       [require (status_of_text (dc_status d) \<noteq> None) (''invalid workflow status '' @ dc_status d),
        require (is_record (dc_state d)) ''workflow state must be an object'',
        assertJsonValue (dc_state d) ''workflow state'',
        require (case dc_wakeAt d of WakeAt t \<Rightarrow> date_ms t \<noteq> None | _ \<Rightarrow> True) ''workflow wakeAt must be an ISO timestamp'',
        require (length (first_occurrences (map we_id (dc_effects d))) = length (dc_effects d))
          ''workflow effect ids must be unique within a decision'',
        all_of (map (check_effect_input date_ms) (dc_effects d))]) (\<lambda>_.
     Inr d)"

definition decided_status :: "workflow_decision \<Rightarrow> workflow_status" where
  "decided_status d = (case status_of_text (dc_status d) of Some s \<Rightarrow> s | None \<Rightarrow> WFailed)"

section \<open>Starting a workflow\<close>

definition start_workflow ::
  "(string \<Rightarrow> string \<Rightarrow> bool) \<Rightarrow> (string \<Rightarrow> int option) \<Rightarrow> timestamp \<Rightarrow> workflow_runtime \<Rightarrow> string \<Rightarrow> string \<Rightarrow> jval \<Rightarrow>
   timestamp \<Rightarrow> workflow_store \<Rightarrow> (workflow_instance \<times> workflow_store) result" where
  "start_workflow lc date_ms clock rt i kind input now st =
     rbind (definition_of rt kind) (\<lambda>d.
     rbind (wd_initialize d input now) (\<lambda>raw.
     rbind (validateDecision date_ms raw) (\<lambda>decision.
     rbind (createWorkflow lc clock
              \<lparr> cw_id = i, cw_kind = kind, cw_version = int_num (wd_version d), cw_status = decided_status decision,
                cw_state = dc_state decision,
                cw_wakeAt = (case dc_wakeAt decision of WakeAt t \<Rightarrow> if t = [] then None else Some t | _ \<Rightarrow> None),
                cw_effects = dc_effects decision \<rparr> st) (\<lambda>((_, w), st').
     Inr (w, st')))))"

definition ensure_workflow ::
  "(string \<Rightarrow> string \<Rightarrow> bool) \<Rightarrow> (string \<Rightarrow> int option) \<Rightarrow> (nat \<Rightarrow> timestamp) \<Rightarrow> (nat \<Rightarrow> workflow_store \<Rightarrow> workflow_store) \<Rightarrow>
   workflow_runtime \<Rightarrow> string \<Rightarrow> string \<Rightarrow> jval \<Rightarrow> timestamp \<Rightarrow> workflow_store \<Rightarrow> workflow_instance result \<times> workflow_store" where
  "ensure_workflow lc date_ms clock world rt i kind input now st =
     (case workflow i st of
        None \<Rightarrow>
          (let st1 = world 0 st in
           case start_workflow lc date_ms (clock 0) rt i kind input now st1 of
             Inl e \<Rightarrow> (Inl e, st1)
           | Inr (w, st2) \<Rightarrow> (Inr w, st2))
      | Some existing \<Rightarrow>
          (case definition_of rt kind of
             Inl e \<Rightarrow> (Inl e, st)
           | Inr d \<Rightarrow>
               if wf_kind existing \<noteq> kind \<or> wf_version existing \<noteq> int_num (wd_version d)
               then (throw (''workflow '' @ i @ '' already belongs to '' @ wf_kind existing @ ''@'' @ show_int (wf_version existing)), st)
               else (Inr existing, st)))"

section \<open>Dispatching an event\<close>

text \<open>What an attempt decides from the instance it reads.\<close>

definition advance_input ::
  "(string \<Rightarrow> int option) \<Rightarrow> workflow_runtime \<Rightarrow> string \<Rightarrow> workflow_event \<Rightarrow> workflow_store \<Rightarrow> advance_workflow_input result" where
  "advance_input date_ms rt instanceId event st =
     (case workflow instanceId st of
        None \<Rightarrow> throw (''workflow '' @ instanceId @ '' does not exist'')
      | Some w \<Rightarrow>
          rbind (definition_of rt (wf_kind w)) (\<lambda>d.
          rbind (require (int_num (wd_version d) = wf_version w)
                   (''workflow '' @ instanceId @ '' requires definition '' @ wf_kind w @ ''@'' @ show_int (wf_version w))) (\<lambda>_.
          rbind (wd_reduce d (wf_state w) event) (\<lambda>raw.
          rbind (validateDecision date_ms raw) (\<lambda>decision.
          Inr \<lparr> aw_instanceId = instanceId, aw_expectedRevision = wf_revision w, aw_event = event,
                aw_status = decided_status decision, aw_state = dc_state decision,
                aw_wakeAt = dc_wakeAt decision, aw_effects = dc_effects decision \<rparr>)))))"

text \<open>\<open>left\<close> attempts are left; each reads after \<open>world (2 * n)\<close> and advances after \<open>world (2 * n + 1)\<close>.\<close>

fun dispatch_loop ::
  "(string \<Rightarrow> string \<Rightarrow> bool) \<Rightarrow> (string \<Rightarrow> int option) \<Rightarrow> (nat \<Rightarrow> timestamp) \<Rightarrow> (nat \<Rightarrow> workflow_store \<Rightarrow> workflow_store) \<Rightarrow>
   workflow_runtime \<Rightarrow> string \<Rightarrow> workflow_event \<Rightarrow> nat \<Rightarrow> nat \<Rightarrow> workflow_store \<Rightarrow>
   workflow_instance result \<times> workflow_store" where
  "dispatch_loop lc date_ms clock world rt i event 0 n st = (throw (''workflow '' @ i @ '' could not advance''), st)"
| "dispatch_loop lc date_ms clock world rt i event (Suc left) n st =
     (let st1 = world (2 * n) st in
      case advance_input date_ms rt i event st1 of
        Inl e \<Rightarrow> (Inl e, st1)
      | Inr input \<Rightarrow>
          (let st2 = world (2 * n + 1) st1 in
           case advanceWorkflow lc (clock n) input st2 of
             Inr ((_, w), st3) \<Rightarrow> (Inr w, st3)
           | Inl e \<Rightarrow>
               if \<not> str_includes ''revision conflict'' (message e) \<or> left = 0 then (Inl e, st2)
               else dispatch_loop lc date_ms clock world rt i event left (Suc n) st2))"

definition dispatch ::
  "(string \<Rightarrow> string \<Rightarrow> bool) \<Rightarrow> (string \<Rightarrow> int option) \<Rightarrow> (nat \<Rightarrow> timestamp) \<Rightarrow> (nat \<Rightarrow> workflow_store \<Rightarrow> workflow_store) \<Rightarrow>
   workflow_runtime \<Rightarrow> string \<Rightarrow> workflow_event \<Rightarrow> workflow_store \<Rightarrow> workflow_instance result \<times> workflow_store" where
  "dispatch lc date_ms clock world rt i event st = dispatch_loop lc date_ms clock world rt i event 3 0 st"

section \<open>A run\<close>

definition after :: "nat \<Rightarrow> (nat \<Rightarrow> 'a) \<Rightarrow> nat \<Rightarrow> 'a" where
  "after k f n = f (k + n)"

definition timer_event :: "timestamp \<Rightarrow> timestamp \<Rightarrow> workflow_event" where
  "timer_event scheduledAt now =
     \<lparr> wv_id = ''timer:'' @ scheduledAt, wv_type = ''timer'', wv_occurredAt = now,
       wv_payload = JObj ObjectProto [(''scheduledAt'', JStr scheduledAt)] \<rparr>"

fun run_timers ::
  "(string \<Rightarrow> string \<Rightarrow> bool) \<Rightarrow> (string \<Rightarrow> int option) \<Rightarrow> (nat \<Rightarrow> timestamp) \<Rightarrow> (nat \<Rightarrow> workflow_store \<Rightarrow> workflow_store) \<Rightarrow>
   workflow_runtime \<Rightarrow> timestamp \<Rightarrow> workflow_instance list \<Rightarrow> workflow_store \<Rightarrow> unit result \<times> workflow_store" where
  "run_timers lc date_ms clock world rt now [] st = (Inr (), st)"
| "run_timers lc date_ms clock world rt now (w # ws) st =
     (case wf_wakeAt w of
        None \<Rightarrow> run_timers lc date_ms clock world rt now ws st
      | Some scheduledAt \<Rightarrow>
          (case dispatch lc date_ms clock world rt (wf_id w) (timer_event scheduledAt now) st of
             (Inl e, st') \<Rightarrow> (Inl e, st')
           | (Inr _, st') \<Rightarrow> run_timers lc date_ms (after 6 clock) (after 6 world) rt now ws st'))"

text \<open>\<open>{ ...output, effectId, effectKind }\<close>: an entry keeps its place when it is set again.\<close>

fun put_entry :: "string \<Rightarrow> jval \<Rightarrow> (string \<times> jval) list \<Rightarrow> (string \<times> jval) list" where
  "put_entry k v [] = [(k, v)]"
| "put_entry k v ((l, w) # kvs) = (if l = k then (k, v) # kvs else (l, w) # put_entry k v kvs)"

definition own_entries :: "jval \<Rightarrow> (string \<times> jval) list" where
  "own_entries v = (case v of JObj _ kvs \<Rightarrow> kvs | _ \<Rightarrow> [])"

definition delivered_event :: "claimed_workflow_effect \<Rightarrow> jval \<Rightarrow> timestamp \<Rightarrow> workflow_event" where
  "delivered_event effect output t =
     \<lparr> wv_id = ''effect:'' @ cx_id effect @ '':delivered'', wv_type = ''effect.delivered'', wv_occurredAt = t,
       wv_payload = JObj ObjectProto (put_entry ''effectKind'' (JStr (cx_kind effect))
         (put_entry ''effectId'' (JStr (cx_id effect)) (own_entries output))) \<rparr>"

definition failed_event :: "claimed_workflow_effect \<Rightarrow> string \<Rightarrow> timestamp \<Rightarrow> workflow_event" where
  "failed_event effect msg t =
     \<lparr> wv_id = ''effect:'' @ cx_id effect @ '':failed'', wv_type = ''effect.failed'', wv_occurredAt = t,
       wv_payload = JObj ObjectProto [(''effectId'', JStr (cx_id effect)), (''effectKind'', JStr (cx_kind effect)),
         (''error'', JStr msg)] \<rparr>"

text \<open>The try block of a delivery.\<close>

definition deliver ::
  "(string \<Rightarrow> string \<Rightarrow> bool) \<Rightarrow> (string \<Rightarrow> int option) \<Rightarrow> (nat \<Rightarrow> timestamp) \<Rightarrow> (nat \<Rightarrow> workflow_store \<Rightarrow> workflow_store) \<Rightarrow>
   workflow_runtime \<Rightarrow> effect_handler \<Rightarrow> claimed_workflow_effect \<Rightarrow> workflow_store \<Rightarrow> unit result \<times> workflow_store" where
  "deliver lc date_ms clock world rt handler effect st =
     (case handler effect of
        Inl e \<Rightarrow> (Inl e, world 0 st)
      | Inr output \<Rightarrow>
          if output \<noteq> JUndefined \<and> \<not> is_record output
          then (throw (''workflow effect handler '' @ cx_kind effect @ '' returned a non-object result''), world 0 st)
          else
            (case dispatch lc date_ms clock world rt (cx_instanceId effect) (delivered_event effect output (clock 0)) st of
               (Inl e, st1) \<Rightarrow> (Inl e, st1)
             | (Inr _, st1) \<Rightarrow>
                 (let st2 = world 6 st1 in
                  case settleWorkflowEffect (clock 6) (cx_id effect) (wt_workerId rt) (clock 0) st2 of
                    Inl e \<Rightarrow> (Inl e, st2)
                  | Inr st3 \<Rightarrow> (Inr (), st3))))"

datatype effect_outcome = EffectIdle | EffectDelivered | EffectDeferred | EffectFailed

text \<open>The catch block.\<close>

definition recover ::
  "(string \<Rightarrow> string \<Rightarrow> bool) \<Rightarrow> (string \<Rightarrow> int option) \<Rightarrow> (int \<Rightarrow> timestamp) \<Rightarrow> (nat \<Rightarrow> timestamp) \<Rightarrow>
   (nat \<Rightarrow> workflow_store \<Rightarrow> workflow_store) \<Rightarrow> workflow_runtime \<Rightarrow> int \<Rightarrow> claimed_workflow_effect \<Rightarrow> js_error \<Rightarrow>
   workflow_store \<Rightarrow> effect_outcome result \<times> workflow_store" where
  "recover lc date_ms iso_text clock world rt now effect err st =
     (let terminal = (wt_maxAttempts rt \<le> int (cx_attempt effect));
          msg = take 4096 (message err);
          (transition, st1) =
            (if terminal
             then dispatch lc date_ms clock world rt (cx_instanceId effect) (failed_event effect msg (clock 0)) st
             else (Inl err, st));
          st2 = world 6 st1 in
      case rbind (toISOString iso_text (now + wt_retryDelayMs rt))
             (\<lambda>later. releaseWorkflowEffect (clock 6) (cx_id effect) (wt_workerId rt) msg later terminal st2) of
        Inl e \<Rightarrow> (Inl e, st2)
      | Inr st3 \<Rightarrow>
          if terminal
          then (case transition of Inl e \<Rightarrow> (Inl e, st3) | Inr _ \<Rightarrow> (Inr EffectFailed, st3))
          else (Inr EffectDeferred, st3))"

definition run_effect ::
  "(string \<Rightarrow> string \<Rightarrow> bool) \<Rightarrow> (string \<Rightarrow> int option) \<Rightarrow> (int \<Rightarrow> timestamp) \<Rightarrow> (nat \<Rightarrow> timestamp) \<Rightarrow>
   (nat \<Rightarrow> workflow_store \<Rightarrow> workflow_store) \<Rightarrow> workflow_runtime \<Rightarrow> int \<Rightarrow> timestamp \<Rightarrow> workflow_store \<Rightarrow>
   (effect_outcome \<times> string) result \<times> workflow_store" where
  "run_effect lc date_ms iso_text clock world rt now stamp st =
     (case rbind (toISOString iso_text (now + wt_leaseMs rt))
             (\<lambda>expires. claimNextWorkflowEffect (clock 0) (wt_workerId rt) stamp expires st) of
        Inl e \<Rightarrow> (Inl e, st)
      | Inr (None, st1) \<Rightarrow> (Inr (EffectIdle, []), st1)
      | Inr (Some effect, st1) \<Rightarrow>
          (case map_of (wt_handlers rt) (cx_kind effect) of
             None \<Rightarrow>
               (let st2 = world 0 st1 in
                case rbind (toISOString iso_text (now + wt_retryDelayMs rt))
                       (\<lambda>later. releaseWorkflowEffect (clock 1) (cx_id effect) (wt_workerId rt)
                          (''no handler registered for '' @ cx_kind effect) later False st2) of
                  Inl e \<Rightarrow> (Inl e, st2)
                | Inr st3 \<Rightarrow> (Inr (EffectDeferred, cx_id effect), st3))
           | Some handler \<Rightarrow>
               (case deliver lc date_ms (after 1 clock) world rt handler effect st1 of
                  (Inr _, st2) \<Rightarrow> (Inr (EffectDelivered, cx_id effect), st2)
                | (Inl e, st2) \<Rightarrow>
                    (case recover lc date_ms iso_text (after 8 clock) (after 7 world) rt now effect e st2 of
                       (Inl e', st3) \<Rightarrow> (Inl e', st3)
                     | (Inr out, st3) \<Rightarrow> (Inr (out, cx_id effect), st3)))))"

record workflow_run =
  wn_due :: nat
  wn_effect :: effect_outcome

text \<open>The effect's id is returned beside the answer, for the statements.\<close>

definition run_workflows ::
  "(string \<Rightarrow> string \<Rightarrow> bool) \<Rightarrow> (string \<Rightarrow> int option) \<Rightarrow> (int \<Rightarrow> timestamp) \<Rightarrow> (nat \<Rightarrow> timestamp) \<Rightarrow>
   (nat \<Rightarrow> workflow_store \<Rightarrow> workflow_store) \<Rightarrow> workflow_runtime \<Rightarrow> int \<Rightarrow> workflow_store \<Rightarrow>
   (workflow_run \<times> string) result \<times> workflow_store" where
  "run_workflows lc date_ms iso_text clock world rt now st =
     (if wt_running rt then (Inr (\<lparr> wn_due = 0, wn_effect = EffectIdle \<rparr>, []), st)
      else
        case toISOString iso_text now of
          Inl e \<Rightarrow> (Inl e, st)
        | Inr stamp \<Rightarrow>
            (let due = dueWorkflows stamp (wt_batchSize rt) st in
             case run_timers lc date_ms clock world rt stamp due st of
               (Inl e, st1) \<Rightarrow> (Inl e, st1)
             | (Inr _, st1) \<Rightarrow>
                 (let k = 6 * length due; st2 = world k st1 in
                  case run_effect lc date_ms iso_text (after k clock) (after (Suc k) world) rt now stamp st2 of
                    (Inl e, st3) \<Rightarrow> (Inl e, st3)
                  | (Inr (out, eid), st3) \<Rightarrow> (Inr (\<lparr> wn_due = length due, wn_effect = out \<rparr>, eid), st3))))"

section \<open>What others may do\<close>

definition others :: "(string \<Rightarrow> string \<Rightarrow> bool) \<Rightarrow> (nat \<Rightarrow> workflow_store \<Rightarrow> workflow_store) \<Rightarrow> bool" where
  "others lc world \<longleftrightarrow> (\<forall>n s. \<exists>ops evs. run_ops (workflow_exec lc) ops s = (world n s, evs))"

text \<open>An event an existing instance has processed.\<close>

definition recorded :: "workflow_store \<Rightarrow> string \<Rightarrow> string \<Rightarrow> bool" where
  "recorded st i e \<longleftrightarrow> event_processed st i e \<and> (\<exists>row. lookup wi_id (ws_instances st) i = Some row)"






section \<open>Dispatch\<close>




section \<open>Delivery\<close>




section \<open>Properties\<close>


section \<open>Witnesses\<close>

definition sample_effect :: workflow_effect_input where
  "sample_effect = \<lparr> we_id = ''e'', we_kind = ''mail'', we_payload = JObj ObjectProto [], we_availableAt = Some ''0'' \<rparr>"

definition sample_decision :: workflow_decision where
  "sample_decision = \<lparr> dc_status = ''running'', dc_state = JObj ObjectProto [], dc_wakeAt = KeepWake, dc_effects = [] \<rparr>"

definition sample_definition :: workflow_definition where
  "sample_definition = \<lparr> wd_kind = ''k'', wd_version = Fin 1, wd_initialize = (\<lambda>i t. Inr (sample_decision\<lparr>dc_effects := [sample_effect]\<rparr>)),
     wd_reduce = (\<lambda>s e. Inr sample_decision) \<rparr>"

definition sample_runtime :: workflow_runtime where
  "sample_runtime = \<lparr> wt_workerId = ''w'', wt_batchSize = 20, wt_leaseMs = 5, wt_retryDelayMs = 5, wt_maxAttempts = 1,
     wt_definitions = [(''k'', sample_definition)], wt_handlers = [(''mail'', \<lambda>e. Inr JUndefined)], wt_running = False \<rparr>"

definition sample_iso_text :: "int \<Rightarrow> timestamp" where
  "sample_iso_text t = (if t < 3 then ''1'' else ''5'')"

definition sample_started :: workflow_store where
  "sample_started =
     (case start_workflow (\<le>) (\<lambda>_. Some 0) ''1'' sample_runtime ''i'' ''k'' JNull ''1'' empty_workflows of
        Inr (_, st) \<Rightarrow> st | Inl _ \<Rightarrow> empty_workflows)"



definition sample_run_workflows :: "(nat \<Rightarrow> workflow_store \<Rightarrow> workflow_store) \<Rightarrow> (workflow_run \<times> string) result \<times> workflow_store" where
  "sample_run_workflows world =
     run_workflows (\<le>) (\<lambda>_. Some 0) sample_iso_text (\<lambda>n. ''1'') world sample_runtime 1 sample_started"


section \<open>An effect both delivered and failed\<close>

text \<open>
  The failure path of a delivery also runs when only settling the effect failed. When the lease of
  the last attempt runs out while the handler works and another worker claims the effect, the first
  worker's workflow processes the delivery, and then the failure of the same effect.
\<close>

definition taken_over :: "nat \<Rightarrow> workflow_store \<Rightarrow> workflow_store" where
  "taken_over n s = (if n = 1 then fst (workflow_exec (\<le>) (WClaim ''5'' ''other'' ''5'' ''9'') s) else s)"

lemma taken_over_others: "others (\<le>) taken_over"
  unfolding others_def
proof (intro allI)
  fix n s
  obtain s' ev where step: "workflow_exec (\<le>) (WClaim ''5'' ''other'' ''5'' ''9'') s = (s', ev)" by fastforce
  show "\<exists>ops evs. run_ops (workflow_exec (\<le>)) ops s = (taken_over n s, evs)"
  proof (cases "n = 1")
    case True
    with step show ?thesis
      by (intro exI [of _ "[WClaim ''5'' ''other'' ''5'' ''9'']"] exI [of _ "[ev]"]) (simp add: taken_over_def)
  next
    case False
    then show ?thesis by (intro exI [of _ "[]"]) (simp add: taken_over_def)
  qed
qed

theorem delivered_and_failed:
  "recorded (snd (sample_run_workflows taken_over)) ''i'' ''effect:e:delivered''
   \<and> recorded (snd (sample_run_workflows taken_over)) ''i'' ''effect:e:failed''"
proof -
  have "event_processed (snd (sample_run_workflows taken_over)) ''i'' ''effect:e:delivered''
    \<and> event_processed (snd (sample_run_workflows taken_over)) ''i'' ''effect:e:failed''
    \<and> lookup wi_id (ws_instances (snd (sample_run_workflows taken_over))) ''i'' \<noteq> None"
    by code_simp
  then show ?thesis by (auto simp: recorded_def)
qed

end
