(* ===== verification/Lifecycle.thy ===== *)
theory Lifecycle
  imports Js_Prelude
begin

text \<open>
  The lifecycle supervisor (platform/lifecycle.ts): it starts the managed components of a process in
  order, rolls back what it started when one of them fails, and stops them in reverse order. What a
  component's \<open>start\<close> and \<open>stop\<close> do are parameters (\<open>starts\<close>, \<open>stops\<close>), as is the time (\<open>clock\<close>).
  \<open>lf_calls\<close> lists the calls made so far and is not part of the code's state. A call of the
  supervisor is modelled from its beginning to its end; failures a component reports while it runs
  come between calls.
\<close>

section \<open>State\<close>

datatype component_state = CIdle | CStarting | CReady | CStopping | CStopped | CFailed

record component =
  cp_id :: string
  cp_kind :: string
  cp_critical :: "bool option"
  cp_reports :: bool

record component_status =
  ct_id :: string
  ct_kind :: string
  ct_state :: component_state
  ct_startedAt :: "timestamp option"
  ct_stoppedAt :: "timestamp option"
  ct_lastError :: "string option"

datatype call = Start string | Stop string

record lifecycle =
  lf_components :: "component list"
  lf_statuses :: "(string \<times> component_status) list"
  lf_started :: "component list"
  lf_state :: component_state
  lf_failure :: "(string \<times> string) option"
  lf_calls :: "call list"

section \<open>Operations\<close>

fun put_status :: "string \<Rightarrow> 'v \<Rightarrow> (string \<times> 'v) list \<Rightarrow> (string \<times> 'v) list" where
  "put_status k v [] = [(k, v)]"
| "put_status k v ((l, w) # kvs) = (if l = k then (k, v) # kvs else (l, w) # put_status k v kvs)"

definition idle_status :: "component \<Rightarrow> component_status" where
  "idle_status c = \<lparr> ct_id = cp_id c, ct_kind = cp_kind c, ct_state = CIdle, ct_startedAt = None,
     ct_stoppedAt = None, ct_lastError = None \<rparr>"

definition setStatus ::
  "component \<Rightarrow> component_state \<Rightarrow> timestamp option \<Rightarrow> timestamp option \<Rightarrow> string option \<Rightarrow> lifecycle \<Rightarrow> lifecycle" where
  "setStatus c st startedAt stoppedAt err l =
     l\<lparr>lf_statuses := put_status (cp_id c)
       \<lparr> ct_id = cp_id c, ct_kind = cp_kind c, ct_state = st, ct_startedAt = startedAt,
         ct_stoppedAt = stoppedAt, ct_lastError = err \<rparr> (lf_statuses l)\<rparr>"

definition create_lifecycle :: "component list \<Rightarrow> lifecycle result" where
  "create_lifecycle components =
     rbind (fold_result (\<lambda>c seen.
         if blank (cp_id c) then throw ''managed component id cannot be empty''
         else if blank (cp_kind c) then throw (''managed component '' @ cp_id c @ '' kind cannot be empty'')
         else if cp_id c \<in> set seen then throw (''duplicate managed component id: '' @ cp_id c)
         else Inr (cp_id c # seen)) components []) (\<lambda>_.
     Inr \<lparr> lf_components = components, lf_statuses = map (\<lambda>c. (cp_id c, idle_status c)) components,
           lf_started = [], lf_state = CIdle, lf_failure = None, lf_calls = [] \<rparr>)"

definition requireStatus :: "string \<Rightarrow> lifecycle \<Rightarrow> component_status result" where
  "requireStatus i l =
     (case map_of (lf_statuses l) i of None \<Rightarrow> throw (''unknown managed component: '' @ i) | Some s \<Rightarrow> Inr s)"

definition snapshot :: "lifecycle \<Rightarrow> component_status list result" where
  "snapshot l = map_result (\<lambda>c. requireStatus (cp_id c) l) (lf_components l)"

definition called :: "call \<Rightarrow> lifecycle \<Rightarrow> lifecycle" where
  "called c l = l\<lparr>lf_calls := lf_calls l @ [c]\<rparr>"

text \<open>The loop of \<open>stopStarted\<close> over the components to stop; it collects the errors.\<close>

fun stop_each ::
  "(component \<Rightarrow> unit result) \<Rightarrow> timestamp \<Rightarrow> component list \<Rightarrow> string list \<Rightarrow> lifecycle \<Rightarrow> string list result \<times> lifecycle" where
  "stop_each stops clock [] errors l = (Inr errors, l)"
| "stop_each stops clock (c # cs) errors l =
     (case requireStatus (cp_id c) l of
        Inl e \<Rightarrow> (Inl e, l)
      | Inr current \<Rightarrow>
          (let l1 = called (Stop (cp_id c)) (setStatus c CStopping None None None l) in
           case stops c of
             Inr _ \<Rightarrow> stop_each stops clock cs errors (setStatus c CStopped (ct_startedAt current) (Some clock) None l1)
           | Inl e \<Rightarrow> stop_each stops clock cs (errors @ [message e]) (setStatus c CFailed None None (Some (message e)) l1)))"

definition stopStarted :: "(component \<Rightarrow> unit result) \<Rightarrow> timestamp \<Rightarrow> lifecycle \<Rightarrow> unit result \<times> lifecycle" where
  "stopStarted stops clock l =
     (case stop_each stops clock (rev (lf_started l)) [] (l\<lparr>lf_started := []\<rparr>) of
        (Inl e, l') \<Rightarrow> (Inl e, l')
      | (Inr errors, l') \<Rightarrow>
          (if errors \<noteq> [] then throw ''one or more managed components failed to stop'' else Inr (), l'))"

text \<open>The loop of \<open>start\<close>: the component whose start failed, with the error.\<close>

fun start_each ::
  "(component \<Rightarrow> unit result) \<Rightarrow> timestamp \<Rightarrow> component list \<Rightarrow> lifecycle \<Rightarrow> (component \<times> js_error) option \<times> lifecycle" where
  "start_each starts clock [] l = (None, l)"
| "start_each starts clock (c # cs) l =
     (let l1 = setStatus c CStarting None None None l;
          l2 = called (Start (cp_id c)) (l1\<lparr>lf_started := lf_started l1 @ [c]\<rparr>) in
      case starts c of
        Inl e \<Rightarrow> (Some (c, e), l2)
      | Inr _ \<Rightarrow> start_each starts clock cs (setStatus c CReady (Some clock) None None l2))"

definition component_state_name :: "component_state \<Rightarrow> string" where
  "component_state_name s =
     (case s of CIdle \<Rightarrow> ''idle'' | CStarting \<Rightarrow> ''starting'' | CReady \<Rightarrow> ''ready''
      | CStopping \<Rightarrow> ''stopping'' | CStopped \<Rightarrow> ''stopped'' | CFailed \<Rightarrow> ''failed'')"

definition start_lifecycle ::
  "(component \<Rightarrow> unit result) \<Rightarrow> (component \<Rightarrow> unit result) \<Rightarrow> timestamp \<Rightarrow> lifecycle \<Rightarrow> unit result \<times> lifecycle" where
  "start_lifecycle starts stops clock l =
     (if lf_state l \<noteq> CIdle then (throw (''lifecycle cannot start from '' @ component_state_name (lf_state l)), l)
      else
        case start_each starts clock (lf_components l) (l\<lparr>lf_state := CStarting\<rparr>) of
          (None, l1) \<Rightarrow> (Inr (), l1\<lparr>lf_state := CReady\<rparr>)
        | (Some (c, e), l1) \<Rightarrow>
            (case stopStarted stops clock (l1\<lparr>lf_state := CFailed\<rparr>) of
               (Inr _, l2) \<Rightarrow> (Inl e, setStatus c CFailed None None (Some (message e)) l2)
             | (Inl _, l2) \<Rightarrow>
                 (throw (''component '' @ cp_id c @ '' failed to start and rollback failed: '' @ message e),
                  setStatus c CFailed None None (Some (message e)) l2)))"

definition stop_lifecycle :: "(component \<Rightarrow> unit result) \<Rightarrow> timestamp \<Rightarrow> lifecycle \<Rightarrow> unit result \<times> lifecycle" where
  "stop_lifecycle stops clock l =
     (if lf_state l = CStopped \<or> lf_state l = CIdle then (Inr (), l\<lparr>lf_state := CStopped\<rparr>)
      else if lf_state l = CStopping then (Inr (), l)
      else
        case stopStarted stops clock (l\<lparr>lf_state := CStopping\<rparr>) of
          (Inl e, l1) \<Rightarrow> (Inl e, l1)
        | (Inr _, l1) \<Rightarrow> (Inr (), l1\<lparr>lf_state := CStopped\<rparr>))"

definition reportFailure :: "component \<Rightarrow> string \<Rightarrow> lifecycle \<Rightarrow> lifecycle" where
  "reportFailure c err l =
     (if lf_state l = CStopping \<or> lf_state l = CStopped \<or> lf_failure l \<noteq> None then l
      else (setStatus c CFailed None None (Some err) (l\<lparr>lf_state := CFailed\<rparr>))\<lparr>lf_failure := Some (cp_id c, err)\<rparr>)"

section \<open>Lemmas\<close>

definition known :: "lifecycle \<Rightarrow> component list \<Rightarrow> bool" where
  "known l cs \<longleftrightarrow> (\<forall>c\<in>set cs. map_of (lf_statuses l) (cp_id c) \<noteq> None)"

lemma map_of_put_status: "map_of (put_status k v kvs) n = (if n = k then Some v else map_of kvs n)"
  by (induction kvs) auto

lemma setStatus_frame [simp]:
  "lf_started (setStatus c s a b e l) = lf_started l" "lf_calls (setStatus c s a b e l) = lf_calls l"
  "lf_state (setStatus c s a b e l) = lf_state l" "lf_components (setStatus c s a b e l) = lf_components l"
  "lf_failure (setStatus c s a b e l) = lf_failure l"
  "map_of (lf_statuses (setStatus c s a b e l)) n
     = (if n = cp_id c then Some \<lparr> ct_id = cp_id c, ct_kind = cp_kind c, ct_state = s, ct_startedAt = a, ct_stoppedAt = b, ct_lastError = e \<rparr>
        else map_of (lf_statuses l) n)"
  by (simp_all add: setStatus_def map_of_put_status)

lemma called_frame [simp]:
  "lf_started (called c l) = lf_started l" "lf_calls (called c l) = lf_calls l @ [c]"
  "lf_state (called c l) = lf_state l" "lf_components (called c l) = lf_components l"
  "lf_failure (called c l) = lf_failure l" "lf_statuses (called c l) = lf_statuses l"
  by (simp_all add: called_def)

lemma stop_each_runs:
  assumes "known l cs"
  shows "\<exists>errors l'. stop_each stops clock cs es l = (Inr (es @ errors), l')
    \<and> (errors = [] \<longleftrightarrow> (\<forall>c\<in>set cs. ok (stops c)))
    \<and> lf_calls l' = lf_calls l @ map (\<lambda>c. Stop (cp_id c)) cs
    \<and> lf_started l' = lf_started l \<and> lf_state l' = lf_state l \<and> lf_components l' = lf_components l
    \<and> (\<forall>n. n \<notin> cp_id ` set cs \<longrightarrow> map_of (lf_statuses l') n = map_of (lf_statuses l) n)"
  using assms
proof (induction cs arbitrary: l es)
  case (Cons c cs)
  then obtain current where current: "requireStatus (cp_id c) l = Inr current"
    by (auto simp: known_def requireStatus_def)
  let ?l1 = "called (Stop (cp_id c)) (setStatus c CStopping None None None l)"
  show ?case
  proof (cases "stops c")
    case (Inr u)
    let ?l2 = "setStatus c CStopped (ct_startedAt current) (Some clock) None ?l1"
    have "known ?l2 cs" using Cons.prems by (auto simp: known_def)
    from Cons.IH [OF this, of es] current Inr show ?thesis by (auto simp: Let_def)
  next
    case (Inl e)
    let ?l2 = "setStatus c CFailed None None (Some (message e)) ?l1"
    have "known ?l2 cs" using Cons.prems by (auto simp: known_def)
    from Cons.IH [OF this, of "es @ [message e]"] current Inl show ?thesis by (auto simp: Let_def)
  qed
qed simp

lemma stopStarted_runs:
  assumes "known l (lf_started l)"
  shows "\<exists>answer l'. stopStarted stops clock l = (answer, l')
    \<and> (answer = Inr () \<longleftrightarrow> (\<forall>c\<in>set (lf_started l). ok (stops c)))
    \<and> lf_calls l' = lf_calls l @ map (\<lambda>c. Stop (cp_id c)) (rev (lf_started l))
    \<and> lf_started l' = [] \<and> lf_state l' = lf_state l \<and> lf_components l' = lf_components l
    \<and> (\<forall>n. n \<notin> cp_id ` set (lf_started l) \<longrightarrow> map_of (lf_statuses l') n = map_of (lf_statuses l) n)"
proof -
  have "known (l\<lparr>lf_started := []\<rparr>) (rev (lf_started l))"
    using assms by (simp add: known_def)
  from stop_each_runs [OF this, of stops clock "[]"] show ?thesis
    by (auto simp: stopStarted_def)
qed

lemma start_each_runs:
  assumes "known l cs"
  shows "case start_each starts clock cs l of
      (None, l') \<Rightarrow> (\<forall>c\<in>set cs. ok (starts c)) \<and> lf_started l' = lf_started l @ cs
        \<and> lf_calls l' = lf_calls l @ map (\<lambda>c. Start (cp_id c)) cs
        \<and> lf_state l' = lf_state l \<and> lf_components l' = lf_components l
        \<and> (\<forall>n. map_of (lf_statuses l) n \<noteq> None \<longrightarrow> map_of (lf_statuses l') n \<noteq> None)
        \<and> (\<forall>n. n \<notin> cp_id ` set cs \<longrightarrow> map_of (lf_statuses l') n = map_of (lf_statuses l) n)
    | (Some (c, e), l') \<Rightarrow> \<exists>pre post. cs = pre @ c # post \<and> (\<forall>d\<in>set pre. ok (starts d)) \<and> starts c = Inl e
        \<and> lf_started l' = lf_started l @ pre @ [c]
        \<and> lf_calls l' = lf_calls l @ map (\<lambda>c. Start (cp_id c)) (pre @ [c])
        \<and> lf_state l' = lf_state l \<and> lf_components l' = lf_components l
        \<and> (\<forall>n. map_of (lf_statuses l) n \<noteq> None \<longrightarrow> map_of (lf_statuses l') n \<noteq> None)
        \<and> (\<forall>n. n \<notin> cp_id ` set (pre @ [c]) \<longrightarrow> map_of (lf_statuses l') n = map_of (lf_statuses l) n)"
  using assms
proof (induction cs arbitrary: l)
  case (Cons c cs)
  let ?l1 = "setStatus c CStarting None None None l"
  let ?l2 = "called (Start (cp_id c)) (?l1\<lparr>lf_started := lf_started ?l1 @ [c]\<rparr>)"
  show ?case
  proof (cases "starts c")
    case (Inl e)
    then show ?thesis by (auto simp: Let_def intro!: exI [of _ "[]"])
  next
    case (Inr u)
    let ?l3 = "setStatus c CReady (Some clock) None None ?l2"
    have "known ?l3 cs" using Cons.prems by (auto simp: known_def)
    note IH = Cons.IH [OF this]
    show ?thesis
    proof (cases "start_each starts clock cs ?l3")
      case (Pair a l')
      show ?thesis
      proof (cases a)
        case None
        with IH Pair Inr show ?thesis by (auto simp: Let_def)
      next
        case (Some p)
        obtain d e where p: "p = (d, e)" by (cases p)
        from IH Pair Some p obtain pre post where split: "cs = pre @ d # post" "\<forall>d\<in>set pre. ok (starts d)"
          "starts d = Inl e" and rest: "lf_started l' = lf_started ?l3 @ pre @ [d]"
          "lf_calls l' = lf_calls ?l3 @ map (\<lambda>c. Start (cp_id c)) (pre @ [d])"
          "lf_state l' = lf_state ?l3" "lf_components l' = lf_components ?l3"
          "\<forall>n. map_of (lf_statuses ?l3) n \<noteq> None \<longrightarrow> map_of (lf_statuses l') n \<noteq> None"
          "\<forall>n. n \<notin> cp_id ` set (pre @ [d]) \<longrightarrow> map_of (lf_statuses l') n = map_of (lf_statuses ?l3) n"
          by auto
        have "start_each starts clock (c # cs) l = (Some (d, e), l')"
          using Pair Some p Inr by (simp add: Let_def)
        moreover have "\<exists>pre post. c # cs = pre @ d # post \<and> (\<forall>d\<in>set pre. ok (starts d)) \<and> starts d = Inl e
            \<and> lf_started l' = lf_started l @ pre @ [d]
            \<and> lf_calls l' = lf_calls l @ map (\<lambda>c. Start (cp_id c)) (pre @ [d])
            \<and> lf_state l' = lf_state l \<and> lf_components l' = lf_components l
            \<and> (\<forall>n. map_of (lf_statuses l) n \<noteq> None \<longrightarrow> map_of (lf_statuses l') n \<noteq> None)
            \<and> (\<forall>n. n \<notin> cp_id ` set (pre @ [d]) \<longrightarrow> map_of (lf_statuses l') n = map_of (lf_statuses l) n)"
          using split rest Inr by (intro exI [of _ "c # pre"] exI [of _ post]) auto
        ultimately show ?thesis by simp
      qed
    qed
  qed
qed simp

lemma created_lifecycle:
  assumes "create_lifecycle components = Inr l"
  shows "lf_components l = components \<and> lf_started l = [] \<and> lf_state l = CIdle \<and> lf_calls l = []
    \<and> distinct (map cp_id components) \<and> known l components
    \<and> (\<forall>c\<in>set components. map_of (lf_statuses l) (cp_id c) = Some (idle_status c))"
proof -
  let ?check = "\<lambda>c seen. if blank (cp_id c) then throw ''managed component id cannot be empty''
         else if blank (cp_kind c) then throw (''managed component '' @ cp_id c @ '' kind cannot be empty'')
         else if cp_id c \<in> set seen then throw (''duplicate managed component id: '' @ cp_id c)
         else Inr (cp_id c # seen)"
  have "fold_result ?check cs seen = Inr seen' \<Longrightarrow> distinct (map cp_id cs) \<and> cp_id ` set cs \<inter> set seen = {}" for cs seen seen'
  proof (induction cs arbitrary: seen)
    case (Cons c cs)
    then have "cp_id c \<notin> set seen" and rest: "fold_result ?check cs (cp_id c # seen) = Inr seen'"
      by (simp_all split: if_splits)
    from Cons.IH [OF rest] \<open>cp_id c \<notin> set seen\<close> show ?case by auto
  qed simp
  with assms have distinct: "distinct (map cp_id components)"
    and l: "l = \<lparr> lf_components = components, lf_statuses = map (\<lambda>c. (cp_id c, idle_status c)) components,
           lf_started = [], lf_state = CIdle, lf_failure = None, lf_calls = [] \<rparr>"
    by (auto simp: create_lifecycle_def rbind_Inr_iff)
  have "map_of (map (\<lambda>c. (cp_id c, idle_status c)) components) (cp_id c) = Some (idle_status c)" if "c \<in> set components" for c
    using distinct that by (intro map_of_is_SomeI) (auto simp: comp_def)
  with distinct l show ?thesis by (simp add: known_def)
qed

section \<open>Property\<close>

text \<open>C38. Start is all or nothing: either every component was started in order and stopping later
stops every one of them in reverse order, whether or not some of them fail to stop; or one failed
to start, and then exactly the components whose start was attempted, the failed one included, have
been stopped, each once, in reverse order, the ones behind it were never touched, the failed one is
marked as failed, and nothing is left to stop.\<close>

theorem start_all_or_rollback:
  assumes "create_lifecycle components = Inr l" and "start_lifecycle starts stops clock l = (answer, l')"
  shows "case answer of
      Inr _ \<Rightarrow> lf_state l' = CReady \<and> lf_calls l' = map (\<lambda>c. Start (cp_id c)) components
        \<and> lf_calls (snd (stop_lifecycle stops2 clock2 l')) = lf_calls l' @ map (\<lambda>c. Stop (cp_id c)) (rev components)
        \<and> lf_started (snd (stop_lifecycle stops2 clock2 l')) = []
    | Inl _ \<Rightarrow> \<exists>pre c post. components = pre @ c # post
        \<and> (\<forall>d\<in>set pre. ok (starts d)) \<and> \<not> ok (starts c)
        \<and> lf_calls l' = map (\<lambda>c. Start (cp_id c)) (pre @ [c]) @ map (\<lambda>c. Stop (cp_id c)) (rev (pre @ [c]))
        \<and> lf_started l' = [] \<and> lf_state l' = CFailed
        \<and> map_option ct_state (map_of (lf_statuses l') (cp_id c)) = Some CFailed
        \<and> (\<forall>d\<in>set post. map_of (lf_statuses l') (cp_id d) = Some (idle_status d))"
proof -
  note created = created_lifecycle [OF assms(1)]
  have known: "known (l\<lparr>lf_state := CStarting\<rparr>) components"
    using created by (simp add: known_def)
  note started = start_each_runs [OF known, of starts clock]
  show ?thesis
  proof (cases "start_each starts clock components (l\<lparr>lf_state := CStarting\<rparr>)")
    case (Pair failed l1)
    show ?thesis
    proof (cases failed)
      case None
      with started Pair created have run: "lf_started l1 = components" "lf_calls l1 = map (\<lambda>c. Start (cp_id c)) components"
        and statuses: "\<forall>n. map_of (lf_statuses l) n \<noteq> None \<longrightarrow> map_of (lf_statuses l1) n \<noteq> None"
        by auto
      from assms(2) Pair None created have l': "answer = Inr ()" "l' = l1\<lparr>lf_state := CReady\<rparr>"
        by (simp_all add: start_lifecycle_def)
      have "known (l'\<lparr>lf_state := CStopping\<rparr>) (lf_started (l'\<lparr>lf_state := CStopping\<rparr>))"
        using created statuses by (simp add: known_def l' run)
      from stopStarted_runs [OF this, of stops2 clock2] obtain a l2 where
        stop: "stopStarted stops2 clock2 (l'\<lparr>lf_state := CStopping\<rparr>) = (a, l2)"
        "lf_calls l2 = lf_calls l' @ map (\<lambda>c. Stop (cp_id c)) (rev components)" "lf_started l2 = []"
        by (auto simp: l' run)
      then show ?thesis
        by (cases a) (simp_all add: l' run stop_lifecycle_def)
    next
      case (Some p)
      obtain c e where p: "p = (c, e)" by (cases p)
      from started Pair Some p created obtain pre post where split: "components = pre @ c # post"
        "\<forall>d\<in>set pre. ok (starts d)" "starts c = Inl e"
        and run: "lf_started l1 = pre @ [c]" "lf_calls l1 = map (\<lambda>c. Start (cp_id c)) (pre @ [c])"
        "\<forall>n. map_of (lf_statuses l) n \<noteq> None \<longrightarrow> map_of (lf_statuses l1) n \<noteq> None"
        "\<forall>n. n \<notin> cp_id ` set (pre @ [c]) \<longrightarrow> map_of (lf_statuses l1) n = map_of (lf_statuses l) n"
        by auto
      have "known (l1\<lparr>lf_state := CFailed\<rparr>) (lf_started (l1\<lparr>lf_state := CFailed\<rparr>))"
        using created run(3) by (simp add: known_def run(1) split(1))
      from stopStarted_runs [OF this, of stops clock] obtain a l2 where
        stop: "stopStarted stops clock (l1\<lparr>lf_state := CFailed\<rparr>) = (a, l2)"
        "lf_calls l2 = lf_calls l1 @ map (\<lambda>c. Stop (cp_id c)) (rev (pre @ [c]))" "lf_started l2 = []" "lf_state l2 = CFailed"
        "\<forall>n. n \<notin> cp_id ` set (pre @ [c]) \<longrightarrow> map_of (lf_statuses l2) n = map_of (lf_statuses l1) n"
        by (auto simp: run(1))
      from assms(2) Pair Some p created stop(1) have l': "isl answer" "l' = setStatus c CFailed None None (Some (message e)) l2"
        by (auto simp: start_lifecycle_def split: sum.splits)
      have "map_of (lf_statuses l') (cp_id d) = Some (idle_status d)" if "d \<in> set post" for d
      proof -
        have "cp_id d \<notin> cp_id ` set (pre @ [c])"
          using created that by (auto simp: split(1) image_iff disjoint_iff)
        with created that stop(5) run(4) show ?thesis by (auto simp: l' split(1))
      qed
      then have "lf_calls l' = map (\<lambda>c. Start (cp_id c)) (pre @ [c]) @ map (\<lambda>c. Stop (cp_id c)) (rev (pre @ [c]))
          \<and> lf_started l' = [] \<and> lf_state l' = CFailed
          \<and> map_option ct_state (map_of (lf_statuses l') (cp_id c)) = Some CFailed
          \<and> (\<forall>d\<in>set post. map_of (lf_statuses l') (cp_id d) = Some (idle_status d))"
        using stop run(2) by (simp add: l'(2))
      moreover obtain err where "answer = Inl err"
        using l'(1) by (cases answer) simp_all
      moreover have "\<not> ok (starts c)"
        using split(3) by simp
      ultimately show ?thesis
        using split(1,2) by (simp only: sum.case) blast
    qed
  qed
qed

section \<open>Witness\<close>

definition sample_component :: "string \<Rightarrow> component" where
  "sample_component i = \<lparr> cp_id = i, cp_kind = ''k'', cp_critical = None, cp_reports = False \<rparr>"

definition sample_components :: "component list" where
  "sample_components = map sample_component [''a'', ''b'', ''c'']"

text \<open>The second of three components fails to start, and stopping the first fails as well.\<close>

lemma start_all_or_rollback_witness:
  "\<exists>l. create_lifecycle sample_components = Inr l
     \<and> lf_calls (snd (start_lifecycle (\<lambda>c. if cp_id c = ''b'' then throw ''boom'' else Inr ())
           (\<lambda>c. if cp_id c = ''a'' then throw ''stuck'' else Inr ()) ''1'' l))
         = [Start ''a'', Start ''b'', Stop ''b'', Stop ''a'']"
proof -
  let ?starts = "\<lambda>c. if cp_id c = ''b'' then throw ''boom'' else Inr ()"
  let ?stops = "\<lambda>c. if cp_id c = ''a'' then throw ''stuck'' else Inr ()"
  have "case create_lifecycle sample_components of Inr l \<Rightarrow>
      isl (fst (start_lifecycle ?starts ?stops ''1'' l)) | Inl _ \<Rightarrow> False"
    by code_simp
  then obtain l where l: "create_lifecycle sample_components = Inr l" "isl (fst (start_lifecycle ?starts ?stops ''1'' l))"
    by (auto split: sum.splits)
  then obtain e l' where run: "start_lifecycle ?starts ?stops ''1'' l = (Inl e, l')"
    by (cases "start_lifecycle ?starts ?stops ''1'' l") (auto simp: isl_def)
  from start_all_or_rollback [OF l(1) run, of ?stops "''2''"] obtain pre c post where
    split: "sample_components = pre @ c # post" "\<forall>d\<in>set pre. ok (?starts d)" "\<not> ok (?starts c)"
    "lf_calls l' = map (\<lambda>c. Start (cp_id c)) (pre @ [c]) @ map (\<lambda>c. Stop (cp_id c)) (rev (pre @ [c]))"
    by auto
  have comps: "sample_components = [sample_component ''a'', sample_component ''b'', sample_component ''c'']"
    by (simp add: sample_components_def)
  have "cp_id c = ''b''" using split(3) by (auto split: if_splits)
  moreover have "pre = [sample_component ''a'']"
    using split(1) \<open>cp_id c = ''b''\<close> unfolding comps
    by (auto simp: Cons_eq_append_conv sample_component_def)
  ultimately show ?thesis
    using l(1) run split(4) by (auto simp: sample_component_def)
qed

end
