(* ===== verification/Postgres_Workflow.thy ===== *)
theory Postgres_Workflow
  imports Workflow_Store
begin

text \<open>
  The workflow half of the PostgreSQL store (storage/postgres.ts over migrations/005): the same
  contract as \<open>Workflow_Store\<close>, kept by a server that runs transactions concurrently. A column
  of type timestamptz holds an instant, in microseconds; the driver reads it as a \<open>Date\<close>, in
  milliseconds. \<open>postgres\<close> is what the server does with the text it is given: its casts to
  timestamptz and jsonb (None where the cast is an error) and the sort key of its collation.

  Transactions interleave at statements: a statement reads the snapshot \<open>seen\<close> taken when it began,
  while an insert that meets a conflict and a row locked FOR UPDATE are decided on the current rows;
  SKIP LOCKED passes over the rows \<open>locked\<close> by others. \<open>now\<close> is the start of the transaction. A
  transaction that throws is rolled back: it returns the error and no new state.
\<close>

section \<open>The server and the tables\<close>

record postgres =
  pg_timestamptz :: "string \<Rightarrow> int option"
  pg_jsonb :: "json \<Rightarrow> json option"
  pg_collate :: "string \<Rightarrow> string"

record pg_instance =
  gi_id :: string
  gi_kind :: string
  gi_version :: int
  gi_status :: workflow_status
  gi_state :: json
  gi_revision :: nat
  gi_wake_at :: "int option"
  gi_created_at :: int
  gi_updated_at :: int

record pg_event =
  ge_instance :: string
  ge_event_id :: string
  ge_type :: string
  ge_occurred_at :: int
  ge_payload :: json
  ge_revision :: nat

record pg_transition =
  gt_instance :: string
  gt_revision :: nat
  gt_event_id :: string
  gt_from :: workflow_status
  gt_to :: workflow_status
  gt_state :: json

record pg_effect =
  gx_id :: string
  gx_instance :: string
  gx_kind :: string
  gx_payload :: json
  gx_status :: effect_status
  gx_attempt :: nat
  gx_available_at :: int
  gx_lease_owner :: "string option"
  gx_lease_expires_at :: "int option"
  gx_last_error :: "string option"
  gx_delivered_at :: "int option"
  gx_created_at :: int
  gx_updated_at :: int

record pg_workflows =
  gw_instances :: "pg_instance list"
  gw_events :: "pg_event list"
  gw_transitions :: "pg_transition list"
  gw_effects :: "pg_effect list"

section \<open>Parameters and rows\<close>

definition cast_timestamptz :: "postgres \<Rightarrow> string \<Rightarrow> int result" where
  "cast_timestamptz pg s =
     (case pg_timestamptz pg s of
        None \<Rightarrow> throw (''invalid input syntax for type timestamp with time zone: '' @ s)
      | Some t \<Rightarrow> Inr t)"

definition cast_optional :: "postgres \<Rightarrow> string option \<Rightarrow> int option result" where
  "cast_optional pg v =
     (case v of None \<Rightarrow> Inr None | Some s \<Rightarrow> rbind (cast_timestamptz pg s) (\<lambda>t. Inr (Some t)))"

text \<open>\<open>JSON.stringify(v)\<close> bound to a jsonb column: undefined is bound as NULL.\<close>

definition bind_jsonb :: "postgres \<Rightarrow> jval \<Rightarrow> json result" where
  "bind_jsonb pg v =
     (case stringify v of
        None \<Rightarrow> Inl (ConstraintError ''null value violates not-null constraint'')
      | Some j \<Rightarrow>
          (case pg_jsonb pg j of
             None \<Rightarrow> throw ''unsupported Unicode escape sequence''
           | Some stored \<Rightarrow> Inr stored))"

definition bind_integer :: "int \<Rightarrow> unit result" where
  "bind_integer i =
     require (- 2147483648 \<le> i \<and> i \<le> 2147483647) (''value '' @ show_int i @ '' is out of range for type integer'')"

text \<open>A column read by the driver, as the milliseconds of its \<open>Date\<close> and as \<open>toISOString\<close> of it.\<close>

definition date_of :: "int \<Rightarrow> int" where
  "date_of t = t div 1000"

definition pgTimestamp :: "(int \<Rightarrow> timestamp) \<Rightarrow> int option \<Rightarrow> timestamp option" where
  "pgTimestamp iso_text t = map_option (\<lambda>t. iso_text (date_of t)) t"

definition pgWorkflow :: "(int \<Rightarrow> timestamp) \<Rightarrow> pg_instance \<Rightarrow> workflow_instance" where
  "pgWorkflow iso_text row =
     \<lparr> wf_id = gi_id row, wf_kind = gi_kind row, wf_version = gi_version row,
       wf_status = gi_status row, wf_state = js_of_json (gi_state row), wf_revision = gi_revision row,
       wf_wakeAt = pgTimestamp iso_text (gi_wake_at row),
       wf_createdAt = iso_text (date_of (gi_created_at row)),
       wf_updatedAt = iso_text (date_of (gi_updated_at row)) \<rparr>"

section \<open>Operations\<close>

definition pg_insertWorkflowEffect ::
  "postgres \<Rightarrow> int \<Rightarrow> string \<Rightarrow> workflow_effect_input \<Rightarrow> pg_effect list \<Rightarrow> pg_effect list result" where
  "pg_insertWorkflowEffect pg now instanceId effect rows =
     rbind (bind_jsonb pg (we_payload effect)) (\<lambda>payload.
     rbind (cast_optional pg (we_availableAt effect)) (\<lambda>availableAt.
     if \<exists>r\<in>set rows. gx_id r = we_id effect
     then Inl (ConstraintError ''duplicate key value violates unique constraint workflow_effect_pkey'')
     else
       Inr (rows @
         [\<lparr> gx_id = we_id effect, gx_instance = instanceId, gx_kind = we_kind effect,
            gx_payload = payload, gx_status = FPending, gx_attempt = 0,
            gx_available_at = (case availableAt of Some t \<Rightarrow> t | None \<Rightarrow> now),
            gx_lease_owner = None, gx_lease_expires_at = None, gx_last_error = None,
            gx_delivered_at = None, gx_created_at = now, gx_updated_at = now \<rparr>])))"

definition pg_insertWorkflowEffects ::
  "postgres \<Rightarrow> int \<Rightarrow> string \<Rightarrow> workflow_effect_input list \<Rightarrow> pg_effect list \<Rightarrow> pg_effect list result" where
  "pg_insertWorkflowEffects pg now instanceId effects rows =
     fold_result (pg_insertWorkflowEffect pg now instanceId) effects rows"

text \<open>\<open>new Date(s).toISOString()\<close>.\<close>

definition js_iso :: "(string \<Rightarrow> int option) \<Rightarrow> (int \<Rightarrow> timestamp) \<Rightarrow> string \<Rightarrow> timestamp result" where
  "js_iso date_ms iso_text s =
     (case date_ms s of None \<Rightarrow> throw ''Invalid time value'' | Some t \<Rightarrow> toISOString iso_text t)"

definition pg_effect_matches ::
  "(string \<Rightarrow> string \<Rightarrow> bool) \<Rightarrow> (string \<Rightarrow> int option) \<Rightarrow> (int \<Rightarrow> timestamp) \<Rightarrow> pg_effect \<Rightarrow> workflow_effect_input \<Rightarrow>
   bool result" where
  "pg_effect_matches lc date_ms iso_text effect wanted =
     (if gx_id effect \<noteq> we_id wanted \<or> gx_kind effect \<noteq> we_kind wanted
        \<or> canonicalJson lc (js_of_json (gx_payload effect)) \<noteq> canonicalJson lc (we_payload wanted)
      then Inr False
      else
        case we_availableAt wanted of
          None \<Rightarrow> Inr True
        | Some t \<Rightarrow> rbind (js_iso date_ms iso_text t) (\<lambda>text_of.
            Inr (iso_text (date_of (gx_available_at effect)) = text_of)))"

fun pg_every_matches ::
  "(string \<Rightarrow> string \<Rightarrow> bool) \<Rightarrow> (string \<Rightarrow> int option) \<Rightarrow> (int \<Rightarrow> timestamp) \<Rightarrow> pg_effect list \<Rightarrow>
   workflow_effect_input list \<Rightarrow> bool result" where
  "pg_every_matches lc date_ms iso_text (r # rows) (w # wanted) =
     (case pg_effect_matches lc date_ms iso_text r w of
        Inl e \<Rightarrow> Inl e
      | Inr False \<Rightarrow> Inr False
      | Inr True \<Rightarrow> pg_every_matches lc date_ms iso_text rows wanted)"
| "pg_every_matches lc date_ms iso_text rows wanted = Inr True"

definition pg_effects_match ::
  "postgres \<Rightarrow> (string \<Rightarrow> string \<Rightarrow> bool) \<Rightarrow> (string \<Rightarrow> int option) \<Rightarrow> (int \<Rightarrow> timestamp) \<Rightarrow> pg_effect list \<Rightarrow> string \<Rightarrow>
   workflow_effect_input list \<Rightarrow> bool result" where
  "pg_effects_match pg lc date_ms iso_text rows instanceId effects =
     (let stored = sort_key (\<lambda>r. pg_collate pg (gx_id r)) (filter (\<lambda>r. gx_instance r = instanceId) rows);
          expected = sort_by (\<lambda>l r. lc (we_id l) (we_id r)) effects in
      if length stored \<noteq> length expected then Inr False
      else pg_every_matches lc date_ms iso_text stored expected)"

definition pg_content_differs ::
  "(string \<Rightarrow> string \<Rightarrow> bool) \<Rightarrow> (string \<Rightarrow> int option) \<Rightarrow> (int \<Rightarrow> timestamp) \<Rightarrow> workflow_instance \<Rightarrow>
   create_workflow_input \<Rightarrow> bool result" where
  "pg_content_differs lc date_ms iso_text w input =
     (if wf_kind w \<noteq> cw_kind input \<or> wf_version w \<noteq> cw_version input \<or> wf_status w \<noteq> cw_status input
        \<or> canonicalJson lc (wf_state w) \<noteq> canonicalJson lc (cw_state input)
      then Inr True
      else
        case cw_wakeAt input of
          None \<Rightarrow> Inr (wf_wakeAt w \<noteq> None)
        | Some t \<Rightarrow>
            if t = [] then Inr (wf_wakeAt w \<noteq> None)
            else rbind (js_iso date_ms iso_text t) (\<lambda>text_of. Inr (wf_wakeAt w \<noteq> Some text_of)))"

definition pg_new_instance :: "int \<Rightarrow> create_workflow_input \<Rightarrow> json \<Rightarrow> int option \<Rightarrow> pg_instance" where
  "pg_new_instance now input state wake =
     \<lparr> gi_id = cw_id input, gi_kind = cw_kind input, gi_version = cw_version input,
       gi_status = cw_status input, gi_state = state, gi_revision = 0, gi_wake_at = wake,
       gi_created_at = now, gi_updated_at = now \<rparr>"

definition pg_createWorkflow ::
  "postgres \<Rightarrow> (string \<Rightarrow> string \<Rightarrow> bool) \<Rightarrow> (string \<Rightarrow> int option) \<Rightarrow> (int \<Rightarrow> timestamp) \<Rightarrow> pg_instance list \<Rightarrow> int \<Rightarrow>
   create_workflow_input \<Rightarrow> pg_workflows \<Rightarrow> ((bool \<times> workflow_instance) \<times> pg_workflows) result" where
  "pg_createWorkflow pg lc date_ms iso_text seen now input st =
     rbind (bind_integer (cw_version input)) (\<lambda>_.
     rbind (bind_jsonb pg (cw_state input)) (\<lambda>state.
     rbind (cast_optional pg (cw_wakeAt input)) (\<lambda>wake.
     case lookup gi_id (gw_instances st) (cw_id input) of
       None \<Rightarrow>
         (let row = pg_new_instance now input state wake in
          rbind (pg_insertWorkflowEffects pg now (cw_id input) (cw_effects input) (gw_effects st)) (\<lambda>effects.
          Inr ((True, pgWorkflow iso_text row),
            st\<lparr>gw_instances := gw_instances st @ [row], gw_effects := effects\<rparr>)))
     | Some _ \<Rightarrow>
         (case lookup gi_id seen (cw_id input) of
            None \<Rightarrow> throw (''workflow '' @ cw_id input @ '' was not persisted'')
          | Some row \<Rightarrow>
              rbind (pg_content_differs lc date_ms iso_text (pgWorkflow iso_text row) input) (\<lambda>differs.
              if differs
              then throw (''workflow '' @ cw_id input @ '' already exists with different durable content'')
              else
                rbind (pg_effects_match pg lc date_ms iso_text (gw_effects st) (cw_id input) (cw_effects input)) (\<lambda>same.
                if \<not> same
                then throw (''workflow '' @ cw_id input @ '' already exists with different durable effects'')
                else Inr ((False, pgWorkflow iso_text row), st)))))))"

definition pg_workflow :: "(int \<Rightarrow> timestamp) \<Rightarrow> string \<Rightarrow> pg_workflows \<Rightarrow> workflow_instance option" where
  "pg_workflow iso_text i st = map_option (pgWorkflow iso_text) (lookup gi_id (gw_instances st) i)"

definition pg_dueWorkflows ::
  "postgres \<Rightarrow> (int \<Rightarrow> timestamp) \<Rightarrow> string \<Rightarrow> nat \<Rightarrow> pg_workflows \<Rightarrow> workflow_instance list result" where
  "pg_dueWorkflows pg iso_text now limit st =
     rbind (cast_timestamptz pg now) (\<lambda>t.
     Inr (map (pgWorkflow iso_text)
       (ascending (\<lambda>r. (the (gi_wake_at r), pg_collate pg (gi_id r))) limit
         (filter (\<lambda>r. gi_status r \<in> {WRunning, WWaiting} \<and> (case gi_wake_at r of Some w \<Rightarrow> w \<le> t | None \<Rightarrow> False))
           (gw_instances st)))))"

text \<open>A kept wake-up goes through the driver's \<open>Date\<close> and back.\<close>

definition pg_wake_after :: "postgres \<Rightarrow> wake_change \<Rightarrow> int option \<Rightarrow> int option result" where
  "pg_wake_after pg change current =
     (case change of
        KeepWake \<Rightarrow> Inr (map_option (\<lambda>t. date_of t * 1000) current)
      | ClearWake \<Rightarrow> Inr None
      | WakeAt t \<Rightarrow> cast_optional pg (Some t))"

definition pg_advanced_row :: "int \<Rightarrow> advance_workflow_input \<Rightarrow> json \<Rightarrow> int option \<Rightarrow> pg_instance \<Rightarrow> pg_instance" where
  "pg_advanced_row now input state wake r =
     r\<lparr>gi_status := aw_status input, gi_state := state, gi_revision := aw_expectedRevision input + 1,
       gi_wake_at := wake, gi_updated_at := now\<rparr>"

definition pg_advanced_store ::
  "int \<Rightarrow> advance_workflow_input \<Rightarrow> pg_instance \<Rightarrow> int \<Rightarrow> json \<Rightarrow> json \<Rightarrow> int option \<Rightarrow> pg_effect list \<Rightarrow> pg_workflows \<Rightarrow>
   pg_workflows" where
  "pg_advanced_store now input current occurred payload state wake effects st =
     st\<lparr>gw_events := gw_events st @
          [\<lparr> ge_instance = aw_instanceId input, ge_event_id = wv_id (aw_event input),
             ge_type = wv_type (aw_event input), ge_occurred_at = occurred, ge_payload = payload,
             ge_revision = aw_expectedRevision input + 1 \<rparr>],
        gw_instances := update_where (\<lambda>r. gi_id r = aw_instanceId input)
          (pg_advanced_row now input state wake) (gw_instances st),
        gw_transitions := gw_transitions st @
          [\<lparr> gt_instance = aw_instanceId input, gt_revision = aw_expectedRevision input + 1,
             gt_event_id = wv_id (aw_event input), gt_from = gi_status current,
             gt_to = aw_status input, gt_state = state \<rparr>],
        gw_effects := effects\<rparr>"

definition pg_advanceWorkflow ::
  "postgres \<Rightarrow> (int \<Rightarrow> timestamp) \<Rightarrow> int \<Rightarrow> advance_workflow_input \<Rightarrow> pg_workflows \<Rightarrow>
   ((bool \<times> workflow_instance) \<times> pg_workflows) result" where
  "pg_advanceWorkflow pg iso_text now input st =
     (case lookup gi_id (gw_instances st) (aw_instanceId input) of
        None \<Rightarrow> throw (''workflow '' @ aw_instanceId input @ '' does not exist'')
      | Some current \<Rightarrow>
          if \<exists>r\<in>set (gw_events st). ge_instance r = aw_instanceId input \<and> ge_event_id r = wv_id (aw_event input)
          then Inr ((False, pgWorkflow iso_text current), st)
          else if gi_revision current \<noteq> aw_expectedRevision input
          then throw (''workflow '' @ aw_instanceId input @ '' revision conflict'')
          else
            rbind (cast_timestamptz pg (wv_occurredAt (aw_event input))) (\<lambda>occurred.
            rbind (bind_jsonb pg (wv_payload (aw_event input))) (\<lambda>payload.
            rbind (bind_integer (int (aw_expectedRevision input + 1))) (\<lambda>_.
            rbind (bind_jsonb pg (aw_state input)) (\<lambda>state.
            rbind (pg_wake_after pg (aw_wakeAt input) (gi_wake_at current)) (\<lambda>wake.
            if \<exists>t\<in>set (gw_transitions st). gt_instance t = aw_instanceId input
                 \<and> gt_revision t = aw_expectedRevision input + 1
            then Inl (ConstraintError ''duplicate key value violates unique constraint workflow_transition_pkey'')
            else
              rbind (pg_insertWorkflowEffects pg now (aw_instanceId input) (aw_effects input) (gw_effects st)) (\<lambda>effects.
              Inr ((True, pgWorkflow iso_text (pg_advanced_row now input state wake current)),
                pg_advanced_store now input current occurred payload state wake effects st))))))))"

definition pg_effect_due :: "int \<Rightarrow> pg_effect \<Rightarrow> bool" where
  "pg_effect_due t r =
     (gx_available_at r \<le> t \<and>
      (gx_status r = FPending \<or>
       (gx_status r = FDispatching \<and> (case gx_lease_expires_at r of Some e \<Rightarrow> e \<le> t | None \<Rightarrow> False))))"

definition pg_claimNextWorkflowEffect ::
  "postgres \<Rightarrow> string list \<Rightarrow> int \<Rightarrow> string \<Rightarrow> string \<Rightarrow> string \<Rightarrow> pg_workflows \<Rightarrow>
   (claimed_workflow_effect option \<times> pg_workflows) result" where
  "pg_claimNextWorkflowEffect pg locked now worker at_text expires_text st =
     rbind (cast_timestamptz pg at_text) (\<lambda>t.
     rbind (cast_timestamptz pg expires_text) (\<lambda>expires.
     case first_by (\<lambda>r. (gx_available_at r, gx_created_at r))
            (filter (\<lambda>r. pg_effect_due t r \<and> gx_id r \<notin> set locked) (gw_effects st)) of
       None \<Rightarrow> Inr (None, st)
     | Some row \<Rightarrow>
         Inr (Some \<lparr> cx_id = gx_id row, cx_instanceId = gx_instance row, cx_kind = gx_kind row,
                     cx_payload = js_of_json (gx_payload row), cx_attempt = gx_attempt row + 1 \<rparr>,
           st\<lparr>gw_effects := update_where (\<lambda>r. gx_id r = gx_id row)
             (\<lambda>r. r\<lparr>gx_status := FDispatching, gx_attempt := gx_attempt r + 1, gx_lease_owner := Some worker,
                gx_lease_expires_at := Some expires, gx_updated_at := now\<rparr>) (gw_effects st)\<rparr>)))"

definition pg_effect_held :: "string \<Rightarrow> string \<Rightarrow> pg_effect \<Rightarrow> bool" where
  "pg_effect_held effectId worker r =
     (gx_id r = effectId \<and> gx_status r = FDispatching \<and> gx_lease_owner r = Some worker)"

definition pg_settleWorkflowEffect ::
  "postgres \<Rightarrow> int \<Rightarrow> string \<Rightarrow> string \<Rightarrow> string \<Rightarrow> pg_workflows \<Rightarrow> pg_workflows result" where
  "pg_settleWorkflowEffect pg now effectId worker deliveredAt st =
     rbind (cast_timestamptz pg deliveredAt) (\<lambda>delivered.
     if changes (pg_effect_held effectId worker) (gw_effects st) \<noteq> 1
     then throw (''worker '' @ worker @ '' does not own workflow effect '' @ effectId)
     else
       Inr (st\<lparr>gw_effects := update_where (pg_effect_held effectId worker)
         (\<lambda>r. r\<lparr>gx_status := FDelivered, gx_delivered_at := Some delivered, gx_lease_owner := None,
            gx_lease_expires_at := None, gx_updated_at := now\<rparr>) (gw_effects st)\<rparr>))"

definition pg_releaseWorkflowEffect ::
  "postgres \<Rightarrow> int \<Rightarrow> string \<Rightarrow> string \<Rightarrow> string \<Rightarrow> string \<Rightarrow> bool \<Rightarrow> pg_workflows \<Rightarrow> pg_workflows result" where
  "pg_releaseWorkflowEffect pg now effectId worker err availableAt terminal st =
     rbind (cast_timestamptz pg availableAt) (\<lambda>available.
     if changes (pg_effect_held effectId worker) (gw_effects st) \<noteq> 1
     then throw (''worker '' @ worker @ '' does not own workflow effect '' @ effectId)
     else
       Inr (st\<lparr>gw_effects := update_where (pg_effect_held effectId worker)
         (\<lambda>r. r\<lparr>gx_status := (if terminal then FFailed else FPending), gx_available_at := available,
            gx_last_error := Some err, gx_lease_owner := None, gx_lease_expires_at := None,
            gx_updated_at := now\<rparr>) (gw_effects st)\<rparr>))"

section \<open>The abstraction to leases, operations as values, and the invariant\<close>

definition pg_lease :: "pg_effect \<Rightarrow> int lease_at" where
  "pg_lease r =
     (case gx_status r of
        FPending \<Rightarrow> Ready (gx_available_at r)
      | FDispatching \<Rightarrow> held_lease (gx_lease_owner r) (gx_lease_expires_at r)
      | _ \<Rightarrow> Closed)"

definition pg_phase :: "pg_workflows \<Rightarrow> (string, int) leases_at" where
  "pg_phase st = (\<lambda>k. map_option pg_lease (lookup gx_id (gw_effects st) k))"

definition pg_events_of :: "pg_workflows \<Rightarrow> string \<Rightarrow> pg_event list" where
  "pg_events_of st i = filter (\<lambda>r. ge_instance r = i) (gw_events st)"

definition pg_inv :: "pg_workflows \<Rightarrow> bool" where
  "pg_inv st \<longleftrightarrow>
     distinct (map gi_id (gw_instances st))
   \<and> distinct (map gx_id (gw_effects st))
   \<and> distinct (map (\<lambda>r. (ge_instance r, ge_event_id r)) (gw_events st))
   \<and> (\<forall>r\<in>set (gw_events st). ge_instance r \<in> gi_id ` set (gw_instances st))
   \<and> (\<forall>r\<in>set (gw_effects st). gx_status r = FDispatching \<longrightarrow>
        gx_lease_owner r \<noteq> None \<and> gx_lease_expires_at r \<noteq> None)
   \<and> (\<forall>w\<in>set (gw_instances st). map ge_revision (pg_events_of st (gi_id w)) = [1..<Suc (gi_revision w)])"

text \<open>The host of a server: what the store is run with.\<close>

record pg_host =
  ph_server :: postgres
  ph_locale :: "string \<Rightarrow> string \<Rightarrow> bool"
  ph_date_ms :: "string \<Rightarrow> int option"
  ph_iso_text :: "int \<Rightarrow> timestamp"

datatype pg_op =
    PCreate "pg_instance list" int create_workflow_input
  | PAdvance int advance_workflow_input
  | PClaim "string list" int string string string
  | PSettle int string string string
  | PRelease int string string string string bool

fun pg_exec :: "pg_host \<Rightarrow> pg_op \<Rightarrow> pg_workflows \<Rightarrow> pg_workflows \<times> (string, int) event_at" where
  "pg_exec h (PCreate seen now input) st =
     (case pg_createWorkflow (ph_server h) (ph_locale h) (ph_date_ms h) (ph_iso_text h) seen now input st of
        Inl _ \<Rightarrow> (st, Quiet) | Inr (_, st') \<Rightarrow> (st', Quiet))"
| "pg_exec h (PAdvance now input) st =
     (case pg_advanceWorkflow (ph_server h) (ph_iso_text h) now input st of
        Inl _ \<Rightarrow> (st, Quiet) | Inr (_, st') \<Rightarrow> (st', Quiet))"
| "pg_exec h (PClaim locked now worker at_text expires_text) st =
     (case pg_claimNextWorkflowEffect (ph_server h) locked now worker at_text expires_text st of
        Inr (Some c, st') \<Rightarrow>
          (st', Claimed (cx_id c) worker (the (pg_timestamptz (ph_server h) at_text))
                  (the (pg_timestamptz (ph_server h) expires_text)))
      | Inr (None, st') \<Rightarrow> (st', Quiet)
      | Inl _ \<Rightarrow> (st, Quiet))"
| "pg_exec h (PSettle now effectId worker deliveredAt) st =
     (case pg_settleWorkflowEffect (ph_server h) now effectId worker deliveredAt st of
        Inl _ \<Rightarrow> (st, Quiet) | Inr st' \<Rightarrow> (st', Settled effectId worker))"
| "pg_exec h (PRelease now effectId worker err availableAt terminal) st =
     (case pg_releaseWorkflowEffect (ph_server h) now effectId worker err availableAt terminal st of
        Inl _ \<Rightarrow> (st, Quiet)
      | Inr st' \<Rightarrow> (st', Released effectId worker (the (pg_timestamptz (ph_server h) availableAt)) terminal))"

section \<open>Lemmas\<close>

lemma cast_timestamptz_Inr [simp]:
  "cast_timestamptz pg s = Inr t \<longleftrightarrow> pg_timestamptz pg s = Some t"
  by (auto simp: cast_timestamptz_def split: option.splits)

text \<open>Inserting effects adds pending rows under fresh ids and touches no other.\<close>

lemma pg_insert_adds:
  assumes "pg_insertWorkflowEffects pg now i effects rows = Inr rows'"
  shows "\<exists>new. rows' = rows @ new \<and> list_all (\<lambda>r. gx_status r = FPending) new
    \<and> (distinct (map gx_id rows) \<longrightarrow> distinct (map gx_id rows'))"
  using assms unfolding pg_insertWorkflowEffects_def
proof (rule fold_result_invariant)
  fix x u u'
  assume u: "\<exists>new. u = rows @ new \<and> list_all (\<lambda>r. gx_status r = FPending) new
      \<and> (distinct (map gx_id rows) \<longrightarrow> distinct (map gx_id u))"
    and "pg_insertWorkflowEffect pg now i x u = Inr u'"
  then have "\<exists>r. u' = u @ [r] \<and> gx_status r = FPending \<and> gx_id r \<notin> gx_id ` set u"
    by (fastforce simp: pg_insertWorkflowEffect_def js_simps split: if_splits)
  with u show "\<exists>new. u' = rows @ new \<and> list_all (\<lambda>r. gx_status r = FPending) new
      \<and> (distinct (map gx_id rows) \<longrightarrow> distinct (map gx_id u'))"
    by auto
qed simp

lemma pg_quiet_added:
  assumes "gw_effects st' = gw_effects st @ new" "list_all (\<lambda>r. gx_status r = FPending) new"
  shows "quiet (pg_phase st) (pg_phase st')"
proof -
  have "pg_phase st' k = pg_phase st k" if "pg_phase st k \<noteq> None" for k
    using that by (auto simp: pg_phase_def assms(1) lookup_append)
  moreover have "\<not> (\<exists>w e. pg_phase st' k = Some (Held w e))" if "pg_phase st k = None" for k
    using that assms(2)
    by (auto simp: pg_phase_def assms(1) lookup_append pg_lease_def list_all_iff dest!: lookup_SomeD)
  ultimately show ?thesis
    by (auto simp: quiet_def split: option.splits lease_at.splits)
qed

lemma pg_effects_added:
  assumes "\<forall>r\<in>set (gw_effects st). gx_status r = FDispatching \<longrightarrow>
      gx_lease_owner r \<noteq> None \<and> gx_lease_expires_at r \<noteq> None"
    and "gw_effects st' = gw_effects st @ new" "list_all (\<lambda>r. gx_status r = FPending) new"
  shows "\<forall>r\<in>set (gw_effects st'). gx_status r = FDispatching \<longrightarrow>
      gx_lease_owner r \<noteq> None \<and> gx_lease_expires_at r \<noteq> None"
  using assms by (auto simp: list_all_iff)

lemma pg_createWorkflow_step:
  assumes inv: "pg_inv st"
    and run: "pg_createWorkflow pg lc date_ms iso_text seen now input st = Inr (r, st')"
  shows "pg_inv st' \<and> quiet (pg_phase st) (pg_phase st')"
proof (cases "lookup gi_id (gw_instances st) (cw_id input)")
  case (Some row)
  with run have "st' = st"
    by (auto simp: pg_createWorkflow_def js_simps split: option.splits if_splits)
  with inv show ?thesis by (simp add: quiet_refl)
next
  case None
  with run obtain state wake effects where
    ins: "pg_insertWorkflowEffects pg now (cw_id input) (cw_effects input) (gw_effects st) = Inr effects"
    and st': "st' = st\<lparr>gw_instances := gw_instances st @ [pg_new_instance now input state wake],
      gw_effects := effects\<rparr>"
    by (auto simp: pg_createWorkflow_def js_simps Let_def)
  from pg_insert_adds [OF ins] obtain new where new: "gw_effects st' = gw_effects st @ new"
    "list_all (\<lambda>r. gx_status r = FPending) new"
    "distinct (map gx_id (gw_effects st)) \<longrightarrow> distinct (map gx_id (gw_effects st'))"
    by (auto simp: st')
  from None have fresh: "cw_id input \<notin> gi_id ` set (gw_instances st)"
    by (simp add: lookup_None_iff)
  have "\<forall>r\<in>set (gw_events st). ge_instance r \<in> gi_id ` set (gw_instances st)"
    using inv by (simp add: pg_inv_def)
  with fresh have "pg_events_of st (cw_id input) = []"
    by (metis (mono_tags, lifting) filter_False pg_events_of_def)
  moreover have "pg_events_of st' = pg_events_of st"
    by (simp add: fun_eq_iff pg_events_of_def st')
  ultimately have "pg_inv st'"
    using inv fresh new(3) pg_effects_added [OF _ new(1,2)]
    by (auto simp: pg_inv_def st' pg_new_instance_def)
  with pg_quiet_added [OF new(1,2)] show ?thesis by simp
qed

lemma pg_advanceWorkflow_cases:
  assumes "pg_advanceWorkflow pg iso_text now input st = Inr ((b, w), st')"
  obtains (again) current where "\<not> b" "st' = st" "lookup gi_id (gw_instances st) (aw_instanceId input) = Some current"
      "w = pgWorkflow iso_text current"
      "\<exists>r\<in>set (gw_events st). ge_instance r = aw_instanceId input \<and> ge_event_id r = wv_id (aw_event input)"
    | (moved) current occurred payload state wake effects where "b"
      "lookup gi_id (gw_instances st) (aw_instanceId input) = Some current"
      "gi_revision current = aw_expectedRevision input"
      "\<not> (\<exists>r\<in>set (gw_events st). ge_instance r = aw_instanceId input \<and> ge_event_id r = wv_id (aw_event input))"
      "pg_insertWorkflowEffects pg now (aw_instanceId input) (aw_effects input) (gw_effects st) = Inr effects"
      "w = pgWorkflow iso_text (pg_advanced_row now input state wake current)"
      "st' = pg_advanced_store now input current occurred payload state wake effects st"
proof (cases "lookup gi_id (gw_instances st) (aw_instanceId input)")
  case None
  with assms show ?thesis by (simp add: pg_advanceWorkflow_def)
next
  case (Some current)
  show ?thesis
  proof (cases "\<exists>r\<in>set (gw_events st). ge_instance r = aw_instanceId input \<and> ge_event_id r = wv_id (aw_event input)")
    case True
    with Some assms show ?thesis by (intro again [of current]) (auto simp: pg_advanceWorkflow_def)
  next
    case False
    with Some assms show ?thesis
      by (auto simp: pg_advanceWorkflow_def js_simps split: if_splits intro!: moved [of current])
  qed
qed

lemma pg_advanceWorkflow_step:
  assumes inv: "pg_inv st"
    and run: "pg_advanceWorkflow pg iso_text now input st = Inr (r, st')"
  shows "pg_inv st' \<and> quiet (pg_phase st) (pg_phase st')"
proof -
  obtain b w where "r = (b, w)" by fastforce
  with run have "pg_advanceWorkflow pg iso_text now input st = Inr ((b, w), st')" by simp
  then show ?thesis
  proof (cases rule: pg_advanceWorkflow_cases)
    case again
    with inv show ?thesis by (simp add: quiet_refl)
  next
    case (moved current occurred payload state wake effects)
    let ?i = "aw_instanceId input"
    from pg_insert_adds [OF moved(5)] obtain new where new: "gw_effects st' = gw_effects st @ new"
      "list_all (\<lambda>r. gx_status r = FPending) new"
      "distinct (map gx_id (gw_effects st)) \<longrightarrow> distinct (map gx_id (gw_effects st'))"
      by (auto simp: moved(7) pg_advanced_store_def)
    from moved(2) have cur: "current \<in> set (gw_instances st)" "gi_id current = ?i"
      by (auto dest: lookup_SomeD)
    have ids: "map gi_id (gw_instances st') = map gi_id (gw_instances st)"
      by (simp add: moved(7) pg_advanced_store_def pg_advanced_row_def)
    then have idset: "gi_id ` set (gw_instances st') = gi_id ` set (gw_instances st)"
      by (metis set_map)
    have evs: "pg_events_of st' k = pg_events_of st k
        @ (if k = ?i then [last (gw_events st')] else [])" for k
      by (simp add: pg_events_of_def moved(7) pg_advanced_store_def)
    have "map ge_revision (pg_events_of st' (gi_id w)) = [1..<Suc (gi_revision w)]"
      if "w \<in> set (gw_instances st')" for w
    proof (cases "gi_id w = ?i")
      case True
      have "gi_revision w = Suc (gi_revision current)"
        using that True cur moved(3)
        by (auto simp: moved(7) pg_advanced_store_def set_update_where pg_advanced_row_def)
      moreover have "ge_revision (last (gw_events st')) = Suc (gi_revision current)"
        by (simp add: moved(7) pg_advanced_store_def moved(3))
      moreover have "map ge_revision (pg_events_of st ?i) = [1..<Suc (gi_revision current)]"
        using inv cur pg_inv_def by metis
      ultimately show ?thesis
        using True by (simp add: evs)
    next
      case False
      with that have "w \<in> set (gw_instances st)"
        by (auto simp: moved(7) pg_advanced_store_def set_update_where pg_advanced_row_def)
      with inv False show ?thesis by (simp add: evs pg_inv_def)
    qed
    moreover have "distinct (map (\<lambda>r. (ge_instance r, ge_event_id r)) (gw_events st'))"
      using inv moved(4) by (auto simp: pg_inv_def moved(7) pg_advanced_store_def)
    moreover have "\<forall>r\<in>set (gw_events st'). ge_instance r \<in> gi_id ` set (gw_instances st')"
      unfolding idset using inv cur
      by (auto simp: pg_inv_def moved(7) pg_advanced_store_def intro: rev_image_eqI)
    ultimately have "pg_inv st'"
      using inv ids new(3) pg_effects_added [OF _ new(1,2)] by (simp add: pg_inv_def)
    with pg_quiet_added [OF new(1,2)] show ?thesis by simp
  qed
qed

subsection \<open>The outbox\<close>

lemma pg_inv_effects:
  assumes "pg_inv st" and "\<And>r. gx_id (f r) = gx_id r"
    and "\<And>r. gx_status (f r) = FDispatching \<Longrightarrow> gx_lease_owner (f r) \<noteq> None \<and> gx_lease_expires_at (f r) \<noteq> None"
  shows "pg_inv (st\<lparr>gw_effects := update_where p f (gw_effects st)\<rparr>)"
proof -
  have "pg_events_of (st\<lparr>gw_effects := rows\<rparr>) = pg_events_of st" for rows
    by (simp add: fun_eq_iff pg_events_of_def)
  with assms show ?thesis
    by (auto simp: pg_inv_def set_update_where)
qed

text \<open>A change of the rows of one effect that sets its lease to \<open>l\<close>, seen in the leases.\<close>

lemma pg_phase_update:
  assumes "\<And>r. gx_id (f r) = gx_id r" "\<And>r. p r \<Longrightarrow> gx_id r = k" "\<And>r. pg_lease (f r) = l"
    and "lookup gx_id (gw_effects st) k = Some r" "p r"
  shows "pg_phase (st\<lparr>gw_effects := update_where p f (gw_effects st)\<rparr>) = (pg_phase st)(k \<mapsto> l)"
  using lookup_update_one [where key = gx_id and f = f and p = p and g = pg_lease, OF assms(1,2,4,5)]
  by (simp add: pg_phase_def assms(3))

lemma pg_claim_step:
  assumes inv: "pg_inv st"
    and run: "pg_claimNextWorkflowEffect pg locked now worker a x st = Inr (Some c, st')"
  shows "pg_inv st' \<and> (\<exists>t e. pg_timestamptz pg a = Some t \<and> pg_timestamptz pg x = Some e
    \<and> claimable t (pg_phase st (cx_id c)) \<and> pg_phase st' = (pg_phase st)(cx_id c \<mapsto> Held worker e))"
proof -
  let ?first = "\<lambda>t. first_by (\<lambda>r. (gx_available_at r, gx_created_at r))
      (filter (\<lambda>r. pg_effect_due t r \<and> gx_id r \<notin> set locked) (gw_effects st))"
  have "\<exists>t e. pg_timestamptz pg a = Some t \<and> pg_timestamptz pg x = Some e"
    using run unfolding pg_claimNextWorkflowEffect_def rbind_Inr_iff cast_timestamptz_Inr by blast
  then obtain t e where t: "pg_timestamptz pg a = Some t" and e: "pg_timestamptz pg x = Some e"
    by blast
  have "?first t \<noteq> None"
  proof
    assume "?first t = None"
    with run t e show False by (simp add: pg_claimNextWorkflowEffect_def cast_timestamptz_def)
  qed
  then obtain row where first: "?first t = Some row"
    by blast
  let ?p = "\<lambda>r. gx_id r = gx_id row"
  let ?f = "\<lambda>r. r\<lparr>gx_status := FDispatching, gx_attempt := gx_attempt r + 1, gx_lease_owner := Some worker,
      gx_lease_expires_at := Some e, gx_updated_at := now\<rparr>"
  from run t e first have c: "cx_id c = gx_id row"
    and st': "st' = st\<lparr>gw_effects := update_where ?p ?f (gw_effects st)\<rparr>"
    by (auto simp: pg_claimNextWorkflowEffect_def cast_timestamptz_def)
  have row: "row \<in> set (gw_effects st)" "pg_effect_due t row"
    using first_by_Some(1) [OF first] by auto
  then have look: "lookup gx_id (gw_effects st) (gx_id row) = Some row"
    using inv by (simp add: pg_inv_def lookupI)
  have "pg_inv st'"
    unfolding st' by (rule pg_inv_effects [OF inv]) auto
  moreover have "pg_phase st' = (pg_phase st)(gx_id row \<mapsto> Held worker e)"
    unfolding st' by (rule pg_phase_update [OF _ _ _ look]) (auto simp: pg_lease_def)
  moreover have "gx_status row = FDispatching \<longrightarrow> gx_lease_owner row \<noteq> None"
    using inv row(1) by (simp add: pg_inv_def)
  then have "claimable t (pg_phase st (gx_id row))"
    using row(2) look by (auto simp: pg_phase_def pg_lease_def pg_effect_due_def split: option.splits)
  ultimately show ?thesis using t e c by simp
qed

lemma pg_claim_None:
  "pg_claimNextWorkflowEffect pg locked now worker a x st = Inr (None, st') \<Longrightarrow> st' = st"
  by (auto simp: pg_claimNextWorkflowEffect_def js_simps split: option.splits)

lemma pg_finish_step:
  assumes inv: "pg_inv st" and one: "changes (pg_effect_held k w) (gw_effects st) = 1"
    and keep: "\<And>r. gx_id (f r) = gx_id r" and off: "\<And>r. gx_status (f r) \<noteq> FDispatching"
    and lease: "\<And>r. pg_lease (f r) = l"
  shows "pg_inv (st\<lparr>gw_effects := update_where (pg_effect_held k w) f (gw_effects st)\<rparr>)
    \<and> (\<exists>e. pg_phase st k = Some (Held w e))
    \<and> pg_phase (st\<lparr>gw_effects := update_where (pg_effect_held k w) f (gw_effects st)\<rparr>) = (pg_phase st)(k \<mapsto> l)"
proof -
  have "distinct (map gx_id (gw_effects st))"
    using inv by (simp add: pg_inv_def)
  moreover from this one obtain r where r: "r \<in> set (gw_effects st)" "pg_effect_held k w r"
    using changes_1_iff [of gx_id "gw_effects st" "pg_effect_held k w" k] by (auto simp: pg_effect_held_def)
  ultimately have look: "lookup gx_id (gw_effects st) k = Some r"
    by (simp add: lookupI pg_effect_held_def)
  have "gx_lease_expires_at r \<noteq> None"
    using inv r by (auto simp: pg_inv_def pg_effect_held_def)
  then have "\<exists>e. pg_phase st k = Some (Held w e)"
    using look r(2) by (auto simp: pg_phase_def pg_lease_def pg_effect_held_def)
  moreover have "pg_phase (st\<lparr>gw_effects := update_where (pg_effect_held k w) f (gw_effects st)\<rparr>) = (pg_phase st)(k \<mapsto> l)"
    by (rule pg_phase_update [where r = r]) (use keep lease look r(2) in \<open>auto simp: pg_effect_held_def\<close>)
  ultimately show ?thesis
    using pg_inv_effects [OF inv keep] off by simp
qed

lemma pg_settle_step:
  assumes inv: "pg_inv st" and run: "pg_settleWorkflowEffect pg now k w d st = Inr st'"
  shows "pg_inv st' \<and> (\<exists>e. pg_phase st k = Some (Held w e)) \<and> pg_phase st' = (pg_phase st)(k \<mapsto> Closed)"
proof -
  from run obtain t where one: "changes (pg_effect_held k w) (gw_effects st) = 1"
    and st': "st' = st\<lparr>gw_effects := update_where (pg_effect_held k w)
      (\<lambda>r. r\<lparr>gx_status := FDelivered, gx_delivered_at := Some t, gx_lease_owner := None,
         gx_lease_expires_at := None, gx_updated_at := now\<rparr>) (gw_effects st)\<rparr>"
    by (auto simp: pg_settleWorkflowEffect_def js_simps split: if_splits)
  show ?thesis
    unfolding st' by (rule pg_finish_step [OF inv one]) (simp_all add: pg_lease_def)
qed

lemma pg_release_step:
  assumes inv: "pg_inv st" and run: "pg_releaseWorkflowEffect pg now k w err a terminal st = Inr st'"
  shows "pg_inv st' \<and> (\<exists>e. pg_phase st k = Some (Held w e))
    \<and> pg_phase st' = (pg_phase st)(k \<mapsto> (if terminal then Closed else Ready (the (pg_timestamptz pg a))))"
proof -
  from run obtain t where t: "pg_timestamptz pg a = Some t"
    and one: "changes (pg_effect_held k w) (gw_effects st) = 1"
    and st': "st' = st\<lparr>gw_effects := update_where (pg_effect_held k w)
      (\<lambda>r. r\<lparr>gx_status := (if terminal then FFailed else FPending), gx_available_at := t,
         gx_last_error := Some err, gx_lease_owner := None, gx_lease_expires_at := None,
         gx_updated_at := now\<rparr>) (gw_effects st)\<rparr>"
    by (auto simp: pg_releaseWorkflowEffect_def js_simps split: if_splits)
  show ?thesis
    unfolding st' t option.sel by (rule pg_finish_step [OF inv one]) (simp_all add: pg_lease_def)
qed

section \<open>The store implements the lease contract\<close>

lemma pg_exec_step:
  assumes inv: "pg_inv st" and "pg_exec h oper st = (st', ev)"
  shows "pg_inv st' \<and> lease_step (pg_phase st) ev (pg_phase st')"
proof (cases oper)
  case (PCreate seen now input)
  with assms show ?thesis
    by (auto split: sum.splits intro: lease_step.quiet dest: pg_createWorkflow_step)
next
  case (PAdvance now input)
  with assms show ?thesis
    by (auto split: sum.splits intro: lease_step.quiet dest: pg_advanceWorkflow_step)
next
  case (PClaim locked now worker a x)
  let ?r = "pg_claimNextWorkflowEffect (ph_server h) locked now worker a x st"
  consider (idle) "st' = st" "ev = Quiet" | (claimed) c where "?r = Inr (Some c, st')"
      "ev = Claimed (cx_id c) worker (the (pg_timestamptz (ph_server h) a)) (the (pg_timestamptz (ph_server h) x))"
    using assms(2) PClaim pg_claim_None by (fastforce split: sum.splits option.splits)
  then show ?thesis
  proof cases
    case idle
    with inv show ?thesis by simp
  next
    case (claimed c)
    then show ?thesis
      using pg_claim_step [OF inv claimed(1)] by (metis lease_step.claim option.sel)
  qed
next
  case (PSettle now k w d)
  with assms show ?thesis
    by (auto split: sum.splits intro: lease_step.settle dest!: pg_settle_step [OF inv])
next
  case (PRelease now k w err a terminal)
  with assms show ?thesis
    by (auto split: sum.splits if_splits intro: release_closed release_ready dest!: pg_release_step [OF inv])
qed

interpretation pg_outbox: lease_store pg_phase pg_inv "pg_exec h" for h
  by unfold_locales (auto dest: pg_exec_step)

text \<open>An advance whose event another transaction has processed is answered from the table.\<close>

lemma pg_advance_again:
  assumes "pg_advanceWorkflow pg iso_text now input st = Inr ((True, w), st')"
    and "aw_instanceId input' = aw_instanceId input" "wv_id (aw_event input') = wv_id (aw_event input)"
  shows "\<exists>w'. pg_advanceWorkflow pg iso_text now' input' st' = Inr ((False, w'), st')"
  using assms(1)
proof (cases rule: pg_advanceWorkflow_cases)
  case again
  then show ?thesis by simp
next
  case (moved current occurred payload state wake effects)
  from moved(2) have "lookup gi_id (gw_instances st') (aw_instanceId input) \<noteq> None"
    by (auto simp: moved(7) pg_advanced_store_def pg_advanced_row_def lookup_update_where)
  then show ?thesis
    using assms(2,3) by (auto simp: pg_advanceWorkflow_def moved(7) pg_advanced_store_def)
qed

section \<open>Properties\<close>

text \<open>C39. Under any interleaving of its transactions the PostgreSQL outbox refines the lease machine
the SQLite outbox refines: whatever rows a claim skips because others hold them and whatever snapshot a
create reads, the leases its tables represent change only by legal claims, settlements and releases
(instants compared as instants), and every instance's revision counts, without a gap, the distinct
events it has processed.\<close>

theorem pg_outbox_refines:
  assumes "pg_inv st" and "run_ops (pg_exec h) ops st = (st', evs)"
  shows "lease_trace (pg_phase st) evs (pg_phase st') \<and> distinct (map gi_id (gw_instances st'))
    \<and> list_all (\<lambda>w. map ge_revision (pg_events_of st' (gi_id w)) = [1..<Suc (gi_revision w)]
         \<and> distinct (map ge_event_id (pg_events_of st' (gi_id w)))) (gw_instances st')"
proof -
  from pg_outbox.run_trace [OF assms] have inv: "pg_inv st'" and trace: "lease_trace (pg_phase st) evs (pg_phase st')"
    by auto
  have "distinct (map ge_event_id (pg_events_of st' i))" for i
  proof -
    have "distinct (map (\<lambda>r. (ge_instance r, ge_event_id r)) (pg_events_of st' i))"
      using inv unfolding pg_inv_def pg_events_of_def by (metis (no_types, lifting) distinct_map_filter)
    moreover have "map (\<lambda>r. (ge_instance r, ge_event_id r)) (pg_events_of st' i)
        = map (Pair i) (map ge_event_id (pg_events_of st' i))"
      by (auto simp: pg_events_of_def)
    ultimately show ?thesis
      by (metis distinct_map)
  qed
  moreover have "\<forall>w\<in>set (gw_instances st'). map ge_revision (pg_events_of st' (gi_id w)) = [1..<Suc (gi_revision w)]"
    and "distinct (map gi_id (gw_instances st'))"
    using inv unfolding pg_inv_def by blast+
  ultimately show ?thesis
    using trace unfolding list_all_iff by blast
qed

section \<open>Witnesses\<close>

definition sample_server :: pg_host where
  "sample_server =
     \<lparr> ph_server = \<lparr> pg_timestamptz = (\<lambda>s. if s = [] then None else Some (int (length s))),
         pg_jsonb = Some, pg_collate = (\<lambda>s. s) \<rparr>,
       ph_locale = (\<le>), ph_date_ms = (\<lambda>s. Some (int (length s))), ph_iso_text = (\<lambda>t. replicate (nat t) CHR ''i'') \<rparr>"

definition empty_pg :: pg_workflows where
  "empty_pg = \<lparr> gw_instances = [], gw_events = [], gw_transitions = [], gw_effects = [] \<rparr>"

definition pg_sample_ops :: "pg_op list" where
  "pg_sample_ops =
     [PCreate [] 0 \<lparr> cw_id = ''w'', cw_kind = ''k'', cw_version = 1, cw_status = WRunning,
        cw_state = JObj ObjectProto [], cw_wakeAt = None,
        cw_effects = [\<lparr> we_id = ''e'', we_kind = ''m'', we_payload = JObj ObjectProto [], we_availableAt = None \<rparr>] \<rparr>,
      PClaim [''e''] 1 ''other'' ''t'' ''tt'',
      PClaim [] 1 ''worker'' ''t'' ''tt'',
      PSettle 2 ''e'' ''worker'' ''t'']"

lemma pg_sample_run:
  "snd (run_ops (pg_exec sample_server) pg_sample_ops empty_pg)
   = [Quiet, Quiet, Claimed ''e'' ''worker'' 1 2, Settled ''e'' ''worker'']"
  by code_simp

lemma pg_outbox_refines_witness:
  "lease_trace (pg_phase empty_pg) [Quiet, Quiet, Claimed ''e'' ''worker'' 1 2, Settled ''e'' ''worker'']
     (pg_phase (fst (run_ops (pg_exec sample_server) pg_sample_ops empty_pg)))"
proof -
  have "pg_inv empty_pg"
    by (simp add: pg_inv_def empty_pg_def)
  moreover have "run_ops (pg_exec sample_server) pg_sample_ops empty_pg
      = (fst (run_ops (pg_exec sample_server) pg_sample_ops empty_pg),
         [Quiet, Quiet, Claimed ''e'' ''worker'' 1 2, Settled ''e'' ''worker''])"
    by (rule prod_eqI) (simp_all only: pg_sample_run fst_conv snd_conv)
  ultimately show ?thesis
    using pg_outbox_refines by blast
qed

end
