(* ===== verification/Event_Runtime.thy ===== *)
theory Event_Runtime
  imports Event_Store Workflow_Runtime
begin

text \<open>
  The durable event runtime (events/runtime.ts) over the event journal: consumers register for event
  keys; a run claims one due event for each, hands it to the consumer, and settles it or releases it
  for another attempt. A consumer's handler is a parameter, an error where it throws. Others act on
  the store at every \<open>await\<close>: \<open>world n\<close> is what they do before the n-th operation, \<open>clock n\<close> the
  database's clock and \<open>js_now n\<close> the host's when it is done. The consumers of a run are those
  registered when it starts. Waking the scheduler is in \<open>Wake_Scheduler\<close>.
\<close>

section \<open>Consumers\<close>

record event_consumer =
  co_name :: string
  co_eventKeys :: "string list"
  co_handle :: "channel_event \<Rightarrow> unit result"

text \<open>The registered consumers are kept in the order of their registration, as a \<open>Map\<close> lists them.\<close>

record event_runtime =
  et_workerId :: string
  et_leaseMs :: int
  et_retryDelayMs :: int
  et_maxAttempts :: int
  et_consumers :: "event_consumer list"
  et_running :: bool

record event_runtime_config =
  ec_workerId :: "string option"
  ec_leaseMs :: "int option"
  ec_retryDelayMs :: "int option"
  ec_maxAttempts :: "int option"

definition create_event_runtime :: "event_runtime_config \<Rightarrow> event_runtime result" where
  "create_event_runtime config =
     (if (case ec_workerId config of None \<Rightarrow> True | Some w \<Rightarrow> blank w)
      then throw ''durable event runtime workerId is required''
      else Inr \<lparr> et_workerId = value_or [] (ec_workerId config), et_leaseMs = value_or 120000 (ec_leaseMs config),
                 et_retryDelayMs = value_or 120000 (ec_retryDelayMs config),
                 et_maxAttempts = value_or 5 (ec_maxAttempts config), et_consumers = [], et_running = False \<rparr>)"

definition register_consumer :: "event_consumer \<Rightarrow> event_runtime \<Rightarrow> event_runtime result" where
  "register_consumer c rt =
     (if blank (co_name c) \<or> co_eventKeys c = [] \<or> list_ex (\<lambda>k. blank k) (co_eventKeys c)
      then throw ''event consumer requires a name and event keys''
      else if list_ex (\<lambda>d. co_name d = co_name c) (et_consumers rt)
      then throw (''event consumer '' @ co_name c @ '' is already registered'')
      else Inr (rt\<lparr>et_consumers := et_consumers rt @ [c]\<rparr>))"

definition unregister_consumer :: "event_consumer \<Rightarrow> event_runtime \<Rightarrow> event_runtime" where
  "unregister_consumer c rt = rt\<lparr>et_consumers := filter (\<lambda>d. co_name d \<noteq> co_name c) (et_consumers rt)\<rparr>"

section \<open>A run\<close>

datatype delivery_outcome = EvDelivered | EvRetried | EvFailed

text \<open>What happens to a claimed event: the try block, and the catch block on whatever it throws.\<close>

definition handle_event ::
  "(nat \<Rightarrow> timestamp) \<Rightarrow> (nat \<Rightarrow> timestamp) \<Rightarrow> (nat \<Rightarrow> event_store \<Rightarrow> event_store) \<Rightarrow> (int \<Rightarrow> timestamp) \<Rightarrow>
   event_runtime \<Rightarrow> int \<Rightarrow> event_consumer \<Rightarrow> claimed_event \<Rightarrow> nat \<Rightarrow> event_store \<Rightarrow>
   delivery_outcome result \<times> event_store" where
  "handle_event clock js_now world iso_text rt now c item n st =
     (let st1 = world (n + 1) st in
      case rbind (co_handle c (ce_event item)) (\<lambda>_.
             settleEvent (clock (n + 1)) (co_name c) (ce_id item) (et_workerId rt) (js_now (n + 1)) st1) of
        Inr st2 \<Rightarrow> (Inr EvDelivered, st2)
      | Inl e \<Rightarrow>
          (let terminal = (et_maxAttempts rt \<le> int (ce_attempt item)); st2 = world (n + 2) st1 in
           case rbind (toISOString iso_text (now + et_retryDelayMs rt)) (\<lambda>later.
                  releaseEvent (clock (n + 2))
                    \<lparr> rl_consumerName = co_name c, rl_eventId = ce_id item, rl_workerId = et_workerId rt,
                       rl_error = message e, rl_availableAt = later, rl_terminal = terminal \<rparr> st2) of
             Inl e' \<Rightarrow> (Inl e', st2)
           | Inr st3 \<Rightarrow> (Inr (if terminal then EvFailed else EvRetried), st3)))"

fun run_consumers ::
  "(nat \<Rightarrow> timestamp) \<Rightarrow> (nat \<Rightarrow> timestamp) \<Rightarrow> (nat \<Rightarrow> event_store \<Rightarrow> event_store) \<Rightarrow> (int \<Rightarrow> timestamp) \<Rightarrow>
   event_runtime \<Rightarrow> int \<Rightarrow> event_consumer list \<Rightarrow> nat \<Rightarrow> event_store \<Rightarrow>
   (string \<times> claimed_event \<times> delivery_outcome) list result \<times> event_store" where
  "run_consumers clock js_now world iso_text rt now [] n st = (Inr [], st)"
| "run_consumers clock js_now world iso_text rt now (c # cs) n st =
     (let st1 = world n st in
      case rbind (toISOString iso_text now) (\<lambda>stamp.
           rbind (toISOString iso_text (now + et_leaseMs rt)) (\<lambda>expires.
           claimNextEvent (clock n) (co_name c) (co_eventKeys c) (et_workerId rt) stamp expires st1)) of
        Inl e \<Rightarrow> (Inl e, st1)
      | Inr (None, st2) \<Rightarrow> run_consumers clock js_now world iso_text rt now cs (n + 3) st2
      | Inr (Some item, st2) \<Rightarrow>
          (case handle_event clock js_now world iso_text rt now c item n st2 of
             (Inl e, st3) \<Rightarrow> (Inl e, st3)
           | (Inr result, st3) \<Rightarrow>
               (case run_consumers clock js_now world iso_text rt now cs (n + 3) st3 of
                  (Inl e, st4) \<Rightarrow> (Inl e, st4)
                | (Inr rest, st4) \<Rightarrow> (Inr ((co_name c, item, result) # rest), st4))))"

record event_counts =
  en_claimed :: nat
  en_delivered :: nat
  en_failed :: nat

definition count_outcomes :: "(string \<times> claimed_event \<times> delivery_outcome) list \<Rightarrow> event_counts" where
  "count_outcomes items =
     \<lparr> en_claimed = length items, en_delivered = length (filter (\<lambda>(c, i, r). r = EvDelivered) items),
       en_failed = length (filter (\<lambda>(c, i, r). r = EvFailed) items) \<rparr>"

text \<open>The items are returned beside the answer, for the statements.\<close>

definition run_events ::
  "(nat \<Rightarrow> timestamp) \<Rightarrow> (nat \<Rightarrow> timestamp) \<Rightarrow> (nat \<Rightarrow> event_store \<Rightarrow> event_store) \<Rightarrow> (int \<Rightarrow> timestamp) \<Rightarrow>
   event_runtime \<Rightarrow> int \<Rightarrow> event_store \<Rightarrow>
   (event_counts \<times> (string \<times> claimed_event \<times> delivery_outcome) list) result \<times> event_store" where
  "run_events clock js_now world iso_text rt now st =
     (if et_running rt then (Inr (\<lparr> en_claimed = 0, en_delivered = 0, en_failed = 0 \<rparr>, []), st)
      else
        case run_consumers clock js_now world iso_text rt now (et_consumers rt) 0 st of
          (Inl e, st') \<Rightarrow> (Inl e, st')
        | (Inr items, st') \<Rightarrow> (Inr (count_outcomes items, items), st'))"

section \<open>What others may do\<close>

text \<open>Operations of the store under other worker names: they may take over, but not as this worker.\<close>

definition event_others :: "string \<Rightarrow> (nat \<Rightarrow> event_store \<Rightarrow> event_store) \<Rightarrow> bool" where
  "event_others w world \<longleftrightarrow> (\<forall>n s. \<exists>ops evs. run_ops event_exec ops s = (world n s, evs)
     \<and> (\<forall>k t e. Claimed k w t e \<notin> set evs))"

text \<open>Between two states of the leases \<open>w\<close> has gained no lease and nothing closed has reopened.\<close>

definition gained_nothing :: "string \<Rightarrow> ('k, 't) leases_at \<Rightarrow> ('k, 't) leases_at \<Rightarrow> bool" where
  "gained_nothing w m m' \<longleftrightarrow>
     (\<forall>k e. m' k = Some (Held w e) \<longrightarrow> m k = Some (Held w e)) \<and> (\<forall>k. m k = Some Closed \<longrightarrow> m' k = Some Closed)"

section \<open>Lemmas\<close>

lemma gained_nothing_refl [simp]: "gained_nothing w m m"
  unfolding gained_nothing_def by blast

lemma gained_nothing_trans: "gained_nothing w a b \<Longrightarrow> gained_nothing w b c \<Longrightarrow> gained_nothing w a c"
  unfolding gained_nothing_def by blast

lemma quiet_gains_nothing:
  assumes "quiet m m'"
  shows "gained_nothing w m m'"
proof -
  have "m k = Some (Held w e)" if "m' k = Some (Held w e)" for k e
    using assms that unfolding quiet_def
    by (cases "m k"; cases "the (m k)") (auto dest!: spec [of _ k])
  with assms show ?thesis
    by (auto simp: gained_nothing_def)
qed

lemma step_gains_nothing:
  assumes "lease_step m ev m'" "\<forall>k t e. ev \<noteq> Claimed k w t e"
  shows "gained_nothing w m m'"
  using assms(1)
proof cases
  case quiet
  then show ?thesis by (simp add: quiet_gains_nothing)
qed (use assms(2) in \<open>auto simp: gained_nothing_def\<close>)

lemma trace_gains_nothing:
  "lease_trace m evs m' \<Longrightarrow> \<forall>k t e. Claimed k w t e \<notin> set evs \<Longrightarrow> gained_nothing w m m'"
proof (induction rule: lease_trace.induct)
  case (Cons m ev m' evs m'')
  have "gained_nothing w m m'"
    by (rule step_gains_nothing [OF Cons.hyps(1)]) (use Cons.prems in auto)
  with Cons show ?case by (auto intro: gained_nothing_trans)
qed simp

lemma world_gains_nothing:
  assumes "event_others w world" "event_inv s"
  shows "event_inv (world n s) \<and> gained_nothing w (event_phase s) (event_phase (world n s))"
proof -
  from assms(1) obtain ops evs where run: "run_ops event_exec ops s = (world n s, evs)"
    "\<forall>k t e. Claimed k w t e \<notin> set evs"
    unfolding event_others_def by blast
  from event_queue.run_trace [OF assms(2) run(1)] run(2) show ?thesis
    by (auto intro: trace_gains_nothing)
qed

text \<open>What an outcome says of the leases and of the attempt.\<close>

fun item_done :: "event_runtime \<Rightarrow> (string \<times> string) leases \<Rightarrow> string \<times> claimed_event \<times> delivery_outcome \<Rightarrow> bool" where
  "item_done rt m (c, item, EvDelivered) = (m (c, ce_id item) = Some Closed)"
| "item_done rt m (c, item, EvFailed) =
     (m (c, ce_id item) = Some Closed \<and> et_maxAttempts rt \<le> int (ce_attempt item))"
| "item_done rt m (c, item, EvRetried) = (int (ce_attempt item) < et_maxAttempts rt)"

lemma item_done_later: "item_done rt m i \<Longrightarrow> gained_nothing w m m' \<Longrightarrow> item_done rt m' i"
  by (cases "(rt, m, i)" rule: item_done.cases) (auto simp: gained_nothing_def)

lemma finished_gains_nothing:
  assumes "gained_nothing w m m1" "m1 k = Some (Held w x)" "m2 = m1(k \<mapsto> l)" "\<forall>v e. l \<noteq> Held v e"
  shows "gained_nothing w m m2 \<and> (\<forall>e. m2 k \<noteq> Some (Held w e))"
  using assms unfolding gained_nothing_def by (auto split: if_splits)

lemma handle_event_after:
  assumes oth: "event_others (et_workerId rt) world" and inv: "event_inv st"
    and run: "handle_event clock js_now world iso_text rt now c item n st = (Inr res, st')"
  shows "event_inv st' \<and> gained_nothing (et_workerId rt) (event_phase st) (event_phase st')
    \<and> (\<forall>e. event_phase st' (co_name c, ce_id item) \<noteq> Some (Held (et_workerId rt) e))
    \<and> item_done rt (event_phase st') (co_name c, item, res)"
proof -
  let ?w = "et_workerId rt" and ?k = "(co_name c, ce_id item)" and ?st1 = "world (n + 1) st"
  let ?attempt = "rbind (co_handle c (ce_event item)) (\<lambda>_.
      settleEvent (clock (n + 1)) (co_name c) (ce_id item) ?w (js_now (n + 1)) ?st1)"
  note one = world_gains_nothing [OF oth inv, of "n + 1"]
  show ?thesis
  proof (cases ?attempt)
    case (Inr st2)
    with run have out: "res = EvDelivered" "st' = st2"
      by (simp_all add: handle_event_def Let_def)
    from Inr have "settleEvent (clock (n + 1)) (co_name c) (ce_id item) ?w (js_now (n + 1)) ?st1 = Inr st2"
      by (auto simp: rbind_Inr_iff)
    from settleEvent_step [OF conjunct1 [OF one] this]
      finished_gains_nothing [OF conjunct2 [OF one], where k = ?k and l = Closed] out
    show ?thesis by auto
  next
    case (Inl e)
    let ?terminal = "et_maxAttempts rt \<le> int (ce_attempt item)" and ?st2 = "world (n + 2) ?st1"
    have two: "event_inv ?st2 \<and> gained_nothing ?w (event_phase st) (event_phase ?st2)"
      using world_gains_nothing [OF oth conjunct1 [OF one], of "n + 2"] one gained_nothing_trans by blast
    let ?rel = "\<lambda>later. \<lparr> rl_consumerName = co_name c, rl_eventId = ce_id item, rl_workerId = ?w,
        rl_error = message e, rl_availableAt = later, rl_terminal = ?terminal \<rparr>"
    from run Inl obtain later where release: "releaseEvent (clock (n + 2)) (?rel later) ?st2 = Inr st'"
      and out: "res = (if ?terminal then EvFailed else EvRetried)"
      by (auto simp: handle_event_def Let_def rbind_Inr_iff split: sum.splits)
    from releaseEvent_step [OF conjunct1 [OF two] release]
      finished_gains_nothing [OF conjunct2 [OF two], where k = ?k and l = "if ?terminal then Closed else Ready later"] out
    show ?thesis by (cases ?terminal) auto
  qed
qed

lemma claimed_then_finished:
  assumes "m1 = m(k \<mapsto> Held w e)" "claimable t (m k)" "gained_nothing w m1 m2" "\<forall>e. m2 k \<noteq> Some (Held w e)"
  shows "gained_nothing w m m2"
  using assms unfolding gained_nothing_def by (auto split: if_splits)

lemma run_consumers_after:
  assumes oth: "event_others (et_workerId rt) world"
  shows "event_inv st \<Longrightarrow> run_consumers clock js_now world iso_text rt now cs n st = (Inr items, st') \<Longrightarrow>
    event_inv st' \<and> gained_nothing (et_workerId rt) (event_phase st) (event_phase st')
    \<and> list_all (item_done rt (event_phase st')) items"
proof (induction cs arbitrary: n st items)
  case (Cons c cs)
  let ?w = "et_workerId rt" and ?st1 = "world n st"
  note one = world_gains_nothing [OF oth Cons.prems(1), of n]
  let ?claim = "rbind (toISOString iso_text now) (\<lambda>stamp. rbind (toISOString iso_text (now + et_leaseMs rt)) (\<lambda>expires.
      claimNextEvent (clock n) (co_name c) (co_eventKeys c) ?w stamp expires ?st1))"
  from Cons.prems(2) obtain r where "?claim = Inr r"
    by (cases ?claim) (simp_all add: Let_def)
  then obtain stamp expires x st2 where claim: "?claim = Inr (x, st2)"
    and step: "claimNextEvent (clock n) (co_name c) (co_eventKeys c) ?w stamp expires ?st1 = Inr (x, st2)"
    by (cases r) (auto simp: rbind_Inr_iff)
  show ?case
  proof (cases x)
    case None
    with step have "st2 = ?st1" by (auto dest: claimNextEvent_None)
    with Cons.prems(2) claim None have "run_consumers clock js_now world iso_text rt now cs (n + 3) ?st1 = (Inr items, st')"
      by (simp add: Let_def)
    from Cons.IH [OF conjunct1 [OF one] this] one show ?thesis
      using gained_nothing_trans by blast
  next
    case (Some item)
    from Cons.prems(2) claim Some obtain res st3 rest where
      handled: "handle_event clock js_now world iso_text rt now c item n st2 = (Inr res, st3)"
      and rest: "run_consumers clock js_now world iso_text rt now cs (n + 3) st3 = (Inr rest, st')"
      and items: "items = (co_name c, item, res) # rest"
      by (auto simp: Let_def split: prod.splits sum.splits)
    note claimed = claimNextEvent_Some [OF conjunct1 [OF one] step [unfolded Some]]
    have inv2: "event_inv st2" using claimed by blast
    note after = handle_event_after [OF oth inv2 handled]
    note rec = Cons.IH [OF conjunct1 [OF after] rest]
    have "gained_nothing ?w (event_phase ?st1) (event_phase st3)"
      using claimed after by (blast intro: claimed_then_finished)
    then have "gained_nothing ?w (event_phase st) (event_phase st')"
      using one rec gained_nothing_trans by blast
    moreover have "item_done rt (event_phase st') (co_name c, item, res)"
      using after rec item_done_later by blast
    ultimately show ?thesis
      using rec items by simp
  qed
qed simp

lemma outcomes_partition:
  "length items = length (filter (\<lambda>(c, i, r). r = EvDelivered) items)
     + length (filter (\<lambda>(c, i, r). r = EvFailed) items) + length (filter (\<lambda>(c, i, r). r = EvRetried) items)"
proof (induction items)
  case (Cons x items)
  obtain c i r where "x = (c, i, r)" by (metis prod.collapse)
  with Cons show ?case by (cases r) auto
qed simp

section \<open>Properties\<close>

text \<open>C21. A run of the event runtime that answers leaves no lease behind: its worker holds nothing it
did not hold before, whatever others do meanwhile; each event it counts as delivered or failed is closed
for good, failed only at the last attempt and released for another one before; and the counts add up.\<close>

theorem run_events_leaves_no_lease:
  assumes "event_inv st" and "event_others (et_workerId rt) world"
    and "run_events clock js_now world iso_text rt now st = (Inr (counts, items), st')"
  shows "event_inv st' \<and> gained_nothing (et_workerId rt) (event_phase st) (event_phase st')
    \<and> list_all (item_done rt (event_phase st')) items
    \<and> en_claimed counts = en_delivered counts + en_failed counts
        + length (filter (\<lambda>(c, i, r). r = EvRetried) items)"
proof (cases "et_running rt")
  case True
  with assms show ?thesis by (auto simp: run_events_def)
next
  case False
  with assms(3) have run: "run_consumers clock js_now world iso_text rt now (et_consumers rt) 0 st = (Inr items, st')"
    and counts: "counts = count_outcomes items"
    by (auto simp: run_events_def split: prod.splits sum.splits)
  from run_consumers_after [OF assms(2,1) run] outcomes_partition [of items] show ?thesis
    by (simp add: counts count_outcomes_def)
qed

section \<open>Witnesses\<close>

definition sample_event_runtime :: event_runtime where
  "sample_event_runtime =
     \<lparr> et_workerId = ''w'', et_leaseMs = 5, et_retryDelayMs = 5, et_maxAttempts = 2,
        et_consumers = [\<lparr> co_name = ''c'', co_eventKeys = [''k''], co_handle = (\<lambda>e. throw ''no'') \<rparr>,
          \<lparr> co_name = ''d'', co_eventKeys = [''k''], co_handle = (\<lambda>e. Inr ()) \<rparr>], et_running = False \<rparr>"

definition sample_event_run ::
  "(event_counts \<times> (string \<times> claimed_event \<times> delivery_outcome) list) result \<times> event_store" where
  "sample_event_run =
     run_events (\<lambda>n. ''2'') (\<lambda>n. ''2'') (\<lambda>n s. s) sample_iso_text sample_event_runtime 1 one_event"

lemma events_alone: "event_others w (\<lambda>n s. s)"
  unfolding event_others_def by (intro allI exI [of _ "[]"]) simp

lemma run_events_leaves_no_lease_witness:
  "\<exists>counts items. fst sample_event_run = Inr (counts, items)
    \<and> map (\<lambda>(c, i, r). (c, ce_id i, r)) items = [(''c'', ''e'', EvRetried), (''d'', ''e'', EvDelivered)]
    \<and> list_all (item_done sample_event_runtime (event_phase (snd sample_event_run))) items
    \<and> gained_nothing ''w'' (event_phase one_event) (event_phase (snd sample_event_run))"
proof -
  have "case fst sample_event_run of
      Inr (counts, items) \<Rightarrow> map (\<lambda>(c, i, r). (c, ce_id i, r)) items = [(''c'', ''e'', EvRetried), (''d'', ''e'', EvDelivered)]
    | Inl _ \<Rightarrow> False"
    by code_simp
  then obtain counts items where run: "fst sample_event_run = Inr (counts, items)"
    "map (\<lambda>(c, i, r). (c, ce_id i, r)) items = [(''c'', ''e'', EvRetried), (''d'', ''e'', EvDelivered)]"
    by (auto split: sum.splits prod.splits)
  then have "run_events (\<lambda>n. ''2'') (\<lambda>n. ''2'') (\<lambda>n s. s) sample_iso_text sample_event_runtime 1 one_event
      = (Inr (counts, items), snd sample_event_run)"
    unfolding sample_event_run_def by (metis prod.collapse)
  from run_events_leaves_no_lease [OF one_event_inv events_alone this] run show ?thesis
    by (auto simp: sample_event_runtime_def)
qed

end
