(* ===== verification/Durable_State.thy ===== *)
theory Durable_State
  imports Event_Store Workflow_Store Action_Store Workspace_Policy
begin

text \<open>
  The durable state host (storage/service.ts): it opens one store for the configuration and offers
  each component its part of it. Most operations only pass the call on; those that make work due
  also emit a wake for the runtime concerned, now or at a time. \<open>js_now\<close> is the host's clock when the
  wake is computed, \<open>date_ms\<close> its date parser. Wakes are emitted after the store's transaction.
\<close>

section \<open>Opening the store\<close>

record state_config =
  sf_storageKind :: "string option"
  sf_sqlitePath :: "string option"
  sf_databaseUrl :: "string option"

datatype store_choice = Postgres string | Sqlite "string list"

definition createStateStore :: "string list \<Rightarrow> state_config \<Rightarrow> store_choice result" where
  "createStateStore cwd config =
     (if sf_storageKind config = Some ''postgres''
      then (case sf_databaseUrl config of
              Some url \<Rightarrow> if blank url then throw ''durable state databaseUrl is required for PostgreSQL'' else Inr (Postgres url)
            | None \<Rightarrow> throw ''durable state databaseUrl is required for PostgreSQL'')
      else (case sf_sqlitePath config of
              Some p \<Rightarrow> if blank p \<or> \<not> isAbsolute p then throw ''durable state sqlitePath must be an absolute path''
                        else Inr (Sqlite (resolve cwd p))
            | None \<Rightarrow> throw ''durable state sqlitePath must be an absolute path''))"

section \<open>Wakes\<close>

datatype wake_signal =
    EventWake "timestamp option"
  | WorkflowWake "timestamp option"
  | ActionWake "timestamp option"

text \<open>\<open>new Date(a).getTime() < new Date(b).getTime()\<close>; NaN is below nothing.\<close>

definition date_before :: "(string \<Rightarrow> int option) \<Rightarrow> timestamp \<Rightarrow> timestamp \<Rightarrow> bool" where
  "date_before date_ms a b = (case (date_ms a, date_ms b) of (Some x, Some y) \<Rightarrow> x < y | _ \<Rightarrow> False)"

definition earlier :: "(string \<Rightarrow> int option) \<Rightarrow> timestamp option \<Rightarrow> timestamp \<Rightarrow> timestamp option" where
  "earlier date_ms current candidate =
     (case current of
        None \<Rightarrow> Some candidate
      | Some c \<Rightarrow> if date_before date_ms candidate c then Some candidate else current)"

definition wake_candidates :: "timestamp \<Rightarrow> workflow_instance \<Rightarrow> workflow_effect_input list \<Rightarrow> timestamp list" where
  "wake_candidates js_now w effects =
     (case wf_wakeAt w of Some t \<Rightarrow> if t = [] then [] else [t] | None \<Rightarrow> [])
     @ map (\<lambda>e. case we_availableAt e of Some t \<Rightarrow> t | None \<Rightarrow> js_now) effects"

definition signalWorkflowWake ::
  "(string \<Rightarrow> int option) \<Rightarrow> timestamp \<Rightarrow> workflow_instance \<Rightarrow> workflow_effect_input list \<Rightarrow> wake_signal list" where
  "signalWorkflowWake date_ms js_now w effects =
     (case foldl (earlier date_ms) None (wake_candidates js_now w effects) of
        None \<Rightarrow> []
      | Some t \<Rightarrow> if t = [] then [] else [WorkflowWake (Some t)])"

section \<open>The operations that emit wakes\<close>

definition host_appendEvent ::
  "(string \<Rightarrow> int option) \<Rightarrow> timestamp \<Rightarrow> raw_event \<Rightarrow> event_store \<Rightarrow>
   ((string \<times> bool) \<times> wake_signal list \<times> event_store) result" where
  "host_appendEvent date_ms clock event st =
     rbind (eventRecordId date_ms event) (\<lambda>eid.
     rbind (appendEvent clock eid (typed_event event) st) (\<lambda>((i, inserted), st').
     Inr ((i, inserted), (if inserted then [EventWake None] else []), st')))"

definition host_releaseEvent ::
  "timestamp \<Rightarrow> event_release \<Rightarrow> event_store \<Rightarrow> (wake_signal list \<times> event_store) result" where
  "host_releaseEvent clock input st =
     rbind (releaseEvent clock input st) (\<lambda>st'.
     Inr (if rl_terminal input then [] else [EventWake (Some (rl_availableAt input))], st'))"

definition host_enqueueAction ::
  "(string \<Rightarrow> string \<Rightarrow> bool) \<Rightarrow> timestamp \<Rightarrow> action_input \<Rightarrow> action_store \<Rightarrow>
   (bool \<times> wake_signal list \<times> action_store) result" where
  "host_enqueueAction lc clock input st =
     rbind (enqueueAction lc clock input st) (\<lambda>(inserted, st').
     Inr (inserted, (if inserted \<and> da_approval input = None then [ActionWake None] else []), st'))"

definition host_decideApproval ::
  "timestamp \<Rightarrow> string \<Rightarrow> decision \<Rightarrow> jval \<Rightarrow> timestamp \<Rightarrow> action_store \<Rightarrow>
   (wake_signal list \<times> action_store) result" where
  "host_decideApproval clock approvalId d metadata decidedAt st =
     rbind (decideApproval clock approvalId d metadata decidedAt st) (\<lambda>st'.
     Inr (if d = Approve then [ActionWake None] else [], st'))"

definition host_releaseActionClaim ::
  "timestamp \<Rightarrow> timestamp \<Rightarrow> action_release \<Rightarrow> action_store \<Rightarrow> (wake_signal list \<times> action_store) result" where
  "host_releaseActionClaim clock js_now input st =
     rbind (releaseActionClaim clock js_now input st) (\<lambda>st'.
     Inr (if al_disposition input = Retry then [ActionWake (al_availableAt input)] else [], st'))"

definition host_createWorkflow ::
  "(string \<Rightarrow> string \<Rightarrow> bool) \<Rightarrow> (string \<Rightarrow> int option) \<Rightarrow> timestamp \<Rightarrow> timestamp \<Rightarrow> create_workflow_input \<Rightarrow>
   workflow_store \<Rightarrow> ((bool \<times> workflow_instance) \<times> wake_signal list \<times> workflow_store) result" where
  "host_createWorkflow lc date_ms clock js_now input st =
     rbind (createWorkflow lc clock input st) (\<lambda>((inserted, w), st').
     Inr ((inserted, w), (if inserted then signalWorkflowWake date_ms js_now w (cw_effects input) else []), st'))"

definition host_advanceWorkflow ::
  "(string \<Rightarrow> string \<Rightarrow> bool) \<Rightarrow> (string \<Rightarrow> int option) \<Rightarrow> timestamp \<Rightarrow> timestamp \<Rightarrow> advance_workflow_input \<Rightarrow>
   workflow_store \<Rightarrow> ((bool \<times> workflow_instance) \<times> wake_signal list \<times> workflow_store) result" where
  "host_advanceWorkflow lc date_ms clock js_now input st =
     rbind (advanceWorkflow lc clock input st) (\<lambda>((advanced, w), st').
     Inr ((advanced, w), (if advanced then signalWorkflowWake date_ms js_now w (aw_effects input) else []), st'))"

definition host_releaseWorkflowEffect ::
  "timestamp \<Rightarrow> string \<Rightarrow> string \<Rightarrow> string \<Rightarrow> timestamp \<Rightarrow> bool \<Rightarrow> workflow_store \<Rightarrow>
   (wake_signal list \<times> workflow_store) result" where
  "host_releaseWorkflowEffect clock effectId worker err availableAt terminal st =
     rbind (releaseWorkflowEffect clock effectId worker err availableAt terminal st) (\<lambda>st'.
     Inr (if terminal then [] else [WorkflowWake (Some availableAt)], st'))"

section \<open>Operations as values\<close>

record durable_state =
  ds_events :: event_store
  ds_workflows :: workflow_store
  ds_actions :: action_store

datatype host_op =
    HAppendEvent raw_event
  | HClaimEvent string "string list" string timestamp timestamp
  | HSettleEvent string string string timestamp
  | HReleaseEvent event_release
  | HEnqueueAction action_input
  | HDecideApproval string decision jval timestamp
  | HClaimAction string string timestamp timestamp
  | HSettleAction string string executor_result
  | HReleaseAction action_release
  | HCreateWorkflow create_workflow_input
  | HAdvanceWorkflow advance_workflow_input
  | HClaimEffect string timestamp timestamp
  | HSettleEffect string string timestamp
  | HReleaseEffect string string string timestamp bool

text \<open>The state after an operation and the wakes it emitted; one that throws leaves both alone.\<close>

definition events_after :: "durable_state \<Rightarrow> (wake_signal list \<times> event_store) result \<Rightarrow> durable_state \<times> wake_signal list" where
  "events_after d r = (case r of Inl _ \<Rightarrow> (d, []) | Inr (wakes, st) \<Rightarrow> (d\<lparr>ds_events := st\<rparr>, wakes))"

definition actions_after :: "durable_state \<Rightarrow> (wake_signal list \<times> action_store) result \<Rightarrow> durable_state \<times> wake_signal list" where
  "actions_after d r = (case r of Inl _ \<Rightarrow> (d, []) | Inr (wakes, st) \<Rightarrow> (d\<lparr>ds_actions := st\<rparr>, wakes))"

definition workflows_after :: "durable_state \<Rightarrow> (wake_signal list \<times> workflow_store) result \<Rightarrow> durable_state \<times> wake_signal list" where
  "workflows_after d r = (case r of Inl _ \<Rightarrow> (d, []) | Inr (wakes, st) \<Rightarrow> (d\<lparr>ds_workflows := st\<rparr>, wakes))"

fun host_exec ::
  "(string \<Rightarrow> string \<Rightarrow> bool) \<Rightarrow> (string \<Rightarrow> int option) \<Rightarrow> timestamp \<Rightarrow> timestamp \<Rightarrow> host_op \<Rightarrow> durable_state \<Rightarrow>
   durable_state \<times> wake_signal list" where
  "host_exec lc date_ms clock js_now (HAppendEvent event) d =
     events_after d (rbind (host_appendEvent date_ms clock event (ds_events d)) (\<lambda>(_, wakes, st). Inr (wakes, st)))"
| "host_exec lc date_ms clock js_now (HClaimEvent consumer keys worker now expires) d =
     events_after d (rbind (claimNextEvent clock consumer keys worker now expires (ds_events d)) (\<lambda>(_, st). Inr ([], st)))"
| "host_exec lc date_ms clock js_now (HSettleEvent consumer eid worker t) d =
     events_after d (rbind (settleEvent clock consumer eid worker t (ds_events d)) (\<lambda>st. Inr ([], st)))"
| "host_exec lc date_ms clock js_now (HReleaseEvent input) d =
     events_after d (host_releaseEvent clock input (ds_events d))"
| "host_exec lc date_ms clock js_now (HEnqueueAction input) d =
     actions_after d (rbind (host_enqueueAction lc clock input (ds_actions d)) (\<lambda>(_, wakes, st). Inr (wakes, st)))"
| "host_exec lc date_ms clock js_now (HDecideApproval i dec meta t) d =
     actions_after d (host_decideApproval clock i dec meta t (ds_actions d))"
| "host_exec lc date_ms clock js_now (HClaimAction worker workspace now expires) d =
     actions_after d (rbind (claimNextAction clock worker workspace now expires (ds_actions d)) (\<lambda>(_, st). Inr ([], st)))"
| "host_exec lc date_ms clock js_now (HSettleAction i worker res) d =
     actions_after d (rbind (settleAction clock i worker res (ds_actions d)) (\<lambda>st. Inr ([], st)))"
| "host_exec lc date_ms clock js_now (HReleaseAction input) d =
     actions_after d (host_releaseActionClaim clock js_now input (ds_actions d))"
| "host_exec lc date_ms clock js_now (HCreateWorkflow input) d =
     workflows_after d (rbind (host_createWorkflow lc date_ms clock js_now input (ds_workflows d)) (\<lambda>(_, wakes, st). Inr (wakes, st)))"
| "host_exec lc date_ms clock js_now (HAdvanceWorkflow input) d =
     workflows_after d (rbind (host_advanceWorkflow lc date_ms clock js_now input (ds_workflows d)) (\<lambda>(_, wakes, st). Inr (wakes, st)))"
| "host_exec lc date_ms clock js_now (HClaimEffect worker now expires) d =
     workflows_after d (rbind (claimNextWorkflowEffect clock worker now expires (ds_workflows d)) (\<lambda>(_, st). Inr ([], st)))"
| "host_exec lc date_ms clock js_now (HSettleEffect i worker t) d =
     workflows_after d (rbind (settleWorkflowEffect clock i worker t (ds_workflows d)) (\<lambda>st. Inr ([], st)))"
| "host_exec lc date_ms clock js_now (HReleaseEffect i worker err t terminal) d =
     workflows_after d (host_releaseWorkflowEffect clock i worker err t terminal (ds_workflows d))"

section \<open>Work and the wakes it needs\<close>

text \<open>Work a runtime can take, and from when on: at once or at a time.\<close>

datatype work = EventWork string string | ActionWork string | EffectWork string | TimerWork string

definition startable :: "action_store \<Rightarrow> string \<Rightarrow> timestamp \<Rightarrow> bool" where
  "startable st k t \<longleftrightarrow>
     (\<exists>x a. lookup xe_action (as_executions st) k = Some x \<and> xe_status x = XPending \<and> xe_available_at x = t
        \<and> lookup ar_id (as_actions st) k = Some a \<and> (ar_approval_id a = None \<or> approval_granted st a))"

definition timer_set :: "workflow_store \<Rightarrow> string \<Rightarrow> timestamp \<Rightarrow> bool" where
  "timer_set st i t \<longleftrightarrow>
     (\<exists>r. lookup wi_id (ws_instances st) i = Some r \<and> wi_status r \<in> {WRunning, WWaiting} \<and> wi_wake_at r = Some t)"

fun due_at :: "durable_state \<Rightarrow> work \<Rightarrow> timestamp option \<Rightarrow> bool" where
  "due_at d (EventWork c e) None = (event_phase (ds_events d) (c, e) = Some Fresh)"
| "due_at d (EventWork c e) (Some t) = (event_phase (ds_events d) (c, e) = Some (Ready t))"
| "due_at d (ActionWork k) (Some t) = startable (ds_actions d) k t"
| "due_at d (EffectWork k) (Some t) = (effect_phase (ds_workflows d) k = Some (Ready t))"
| "due_at d (TimerWork i) (Some t) = timer_set (ds_workflows d) i t"
| "due_at d _ None = False"

fun wake_for :: "work \<Rightarrow> timestamp option \<Rightarrow> wake_signal" where
  "wake_for (EventWork c e) t = EventWake t"
| "wake_for (ActionWork k) t = ActionWake t"
| "wake_for _ t = WorkflowWake t"

text \<open>
  A wake without a time, or whose text is no date, is for now; any other must not come after both the
  work's time and the moment of the call.
\<close>

definition in_time :: "(string \<Rightarrow> int option) \<Rightarrow> timestamp \<Rightarrow> timestamp option \<Rightarrow> timestamp option \<Rightarrow> bool" where
  "in_time date_ms js_now t w \<longleftrightarrow>
     (case w of
        None \<Rightarrow> True
      | Some u \<Rightarrow>
          (case date_ms u of
             None \<Rightarrow> True
           | Some m \<Rightarrow> (case date_ms js_now of Some n \<Rightarrow> m \<le> n | None \<Rightarrow> False)
               \<or> (case t of Some s \<Rightarrow> (case date_ms s of Some k \<Rightarrow> m \<le> k | None \<Rightarrow> True) | None \<Rightarrow> False)))"

section \<open>Lemmas\<close>

subsection \<open>The earliest candidate\<close>

lemma earliest_None: "foldl (earlier date_ms) None cs = None \<longleftrightarrow> cs = []"
  by (induction cs rule: rev_induct) (auto simp: earlier_def split: option.splits)

lemma earliest_Some:
  "foldl (earlier date_ms) None cs = Some w \<Longrightarrow>
   w \<in> set cs \<and> (\<forall>m. date_ms w = Some m \<longrightarrow> (\<forall>c\<in>set cs. \<forall>k. date_ms c = Some k \<longrightarrow> m \<le> k))"
proof (induction cs arbitrary: w rule: rev_induct)
  case (snoc c cs)
  then have step: "earlier date_ms (foldl (earlier date_ms) None cs) c = Some w"
    by simp
  show ?case
  proof (cases "foldl (earlier date_ms) None cs")
    case None
    with step have "cs = []" "w = c"
      by (auto simp: earliest_None earlier_def)
    then show ?thesis by simp
  next
    case (Some v)
    note IH = snoc.IH [OF Some]
    show ?thesis
    proof (cases "date_before date_ms c v")
      case True
      with step Some have "w = c" by (simp add: earlier_def)
      with True IH show ?thesis by (fastforce simp: date_before_def split: option.splits)
    next
      case False
      with step Some have "w = v" by (simp add: earlier_def)
      with False IH show ?thesis by (fastforce simp: date_before_def split: option.splits)
    qed
  qed
qed simp

text \<open>What a workflow's wake promises each candidate.\<close>

lemma signalWorkflowWake_in_time:
  assumes "c \<in> set (wake_candidates js_now w effects)" "c = t \<or> c = js_now"
    and "list_all (\<lambda>e. we_availableAt e \<noteq> Some []) effects" "js_now \<noteq> []" "date_ms js_now \<noteq> None"
  shows "\<exists>u. WorkflowWake u \<in> set (signalWorkflowWake date_ms js_now w effects) \<and> in_time date_ms js_now (Some t) u"
proof -
  let ?cs = "wake_candidates js_now w effects"
  have "?cs \<noteq> []" using assms(1) by auto
  then obtain u where u: "foldl (earlier date_ms) None ?cs = Some u"
    using earliest_None by fastforce
  note least = earliest_Some [OF u]
  have "[] \<notin> set ?cs"
    using assms(3,4) by (auto simp: wake_candidates_def list_all_iff split: option.splits if_splits)
  with least have "u \<noteq> []" by auto
  with u have "WorkflowWake (Some u) \<in> set (signalWorkflowWake date_ms js_now w effects)"
    by (simp add: signalWorkflowWake_def)
  moreover have "in_time date_ms js_now (Some t) (Some u)"
    using least assms(1,2,5) by (fastforce simp: in_time_def split: option.splits)
  ultimately show ?thesis by blast
qed

subsection \<open>Events\<close>

lemma event_work_step:
  assumes "lease_step m ev m'" "m' k = Some l" "l = Fresh \<or> (\<exists>t. l = Ready t)" "m k \<noteq> Some l"
  shows "ev = Quiet \<or> (\<exists>w t. ev = Released k w t False \<and> l = Ready t)"
  using assms by cases (auto split: if_splits)

lemma event_work_quiet:
  assumes "event_inv st" "event_exec oper st = (st', ev)" "event_phase st' k = Some l"
    and "l = Fresh \<or> (\<exists>t. l = Ready t)" "event_phase st k \<noteq> Some l" "\<nexists>a b c. oper = EAppend a b c"
  shows "\<exists>clock input. oper = ERelease clock input \<and> \<not> rl_terminal input \<and> l = Ready (rl_availableAt input)
    \<and> k = (rl_consumerName input, rl_eventId input) \<and> releaseEvent clock input st = Inr st'"
proof -
  have step: "lease_step (event_phase st) ev (event_phase st')"
    using event_exec_step [OF assms(1,2)] by blast
  note ev = event_work_step [OF step assms(3-5)]
  from assms(2,5,3,6) have "ev \<noteq> Quiet"
    by (cases oper) (auto split: sum.splits option.splits dest: claimNextEvent_None)
  with ev show ?thesis
    using assms(2) by (cases oper) (auto split: sum.splits option.splits)
qed

subsection \<open>Effects and timers\<close>

lemma insertWorkflowEffects_pending:
  assumes "insertWorkflowEffects lc clock i effects rows = Inr rows'"
    and "lookup fx_id rows' k = Some r" "lookup fx_id rows k = None"
  shows "\<exists>e\<in>set effects. fx_available_at r = (case we_availableAt e of Some t \<Rightarrow> t | None \<Rightarrow> clock)"
  using assms unfolding insertWorkflowEffects_def
proof (induction effects arbitrary: rows)
  case (Cons e effects)
  then obtain mid where mid: "insertWorkflowEffect lc clock i e rows = Inr mid"
    "fold_result (insertWorkflowEffect lc clock i) effects mid = Inr rows'"
    by (auto split: sum.splits)
  show ?case
  proof (cases "lookup fx_id mid k")
    case None
    from Cons.IH [OF mid(2) Cons.prems(2) None] show ?thesis by auto
  next
    case (Some q)
    from insertWorkflowEffects_added [unfolded insertWorkflowEffects_def, OF mid(2)] Some Cons.prems(2)
    have "r = q" by (auto simp: added_effects_def lookup_append)
    with mid(1) Some Cons.prems(3) show ?thesis
      by (auto simp: insertWorkflowEffect_def lookup_append split: jtext.splits if_splits)
  qed
qed simp

lemma pending_at: "effect_lease r = Ready t \<Longrightarrow> fx_available_at r = t"
  by (cases "fx_status r"; cases "fx_lease_owner r"; cases "fx_lease_expires_at r") (auto simp: effect_lease_def)

text \<open>An effect that became pending by an insert was among the effects inserted.\<close>

lemma new_effect_candidate:
  assumes "insertWorkflowEffects lc clock i effects (ws_effects st) = Inr (ws_effects st')"
    and "effect_phase st' k = Some (Ready t)" "effect_phase st k \<noteq> Some (Ready t)"
  shows "\<exists>c\<in>set (map (\<lambda>e. case we_availableAt e of Some t \<Rightarrow> t | None \<Rightarrow> js_now) effects). c = t \<or> c = js_now"
proof -
  from assms(2) obtain r where r: "lookup fx_id (ws_effects st') k = Some r" "effect_lease r = Ready t"
    by (auto simp: effect_phase_def)
  have "lookup fx_id (ws_effects st) k = None"
  proof (cases "lookup fx_id (ws_effects st) k")
    case (Some q)
    with insertWorkflowEffects_added [OF assms(1)] r(1) have "r = q"
      by (auto simp: added_effects_def lookup_append)
    with Some r(2) assms(3) show ?thesis by (simp add: effect_phase_def)
  qed simp
  from insertWorkflowEffects_pending [OF assms(1) r(1) this] pending_at [OF r(2)] show ?thesis
    by (auto split: option.splits)
qed

lemma effect_work_quiet:
  assumes "workflow_inv st" "workflow_exec lc oper st = (st', ev)" "effect_phase st' k = Some (Ready t)"
    and "effect_phase st k \<noteq> Some (Ready t)" "\<nexists>a b. oper = WCreate a b" "\<nexists>a b. oper = WAdvance a b"
  shows "\<exists>clock w err. oper = WRelease clock k w err t False \<and> releaseWorkflowEffect clock k w err t False st = Inr st'"
proof -
  have step: "lease_step (effect_phase st) ev (effect_phase st')"
    using workflow_exec_step [OF assms(1,2)] by blast
  note ev = event_work_step [OF step assms(3) _ assms(4)]
  from assms have "ev \<noteq> Quiet"
    by (cases oper) (auto split: sum.splits option.splits dest: claimNextWorkflowEffect_None)
  with ev show ?thesis
    using assms(2,5,6) by (cases oper) (auto split: sum.splits option.splits)
qed

subsection \<open>Actions\<close>

lemma startable_kept:
  assumes "startable st' k t"
    and "as_executions st' = update_where px fx (as_executions st)" "as_actions st' = update_where pa fa (as_actions st)"
    and "as_approvals st' = as_approvals st"
    and keep: "\<And>x. xe_action (fx x) = xe_action x" "\<And>a. ar_id (fa a) = ar_id a" "\<And>a. ar_approval_id (fa a) = ar_approval_id a"
    and off: "\<And>x. px x \<Longrightarrow> xe_action x = k \<Longrightarrow> xe_status (fx x) \<noteq> XPending"
  shows "startable st k t"
proof -
  from assms(1) obtain x' a' where new: "lookup xe_action (as_executions st') k = Some x'" "xe_status x' = XPending"
    "xe_available_at x' = t" "lookup ar_id (as_actions st') k = Some a'"
    "ar_approval_id a' = None \<or> approval_granted st' a'"
    unfolding startable_def by blast
  from new(1) assms(2) obtain x where x: "lookup xe_action (as_executions st) k = Some x" "x' = (if px x then fx x else x)"
    by (auto simp: lookup_update_where [where key = xe_action and f = fx, OF keep(1)])
  with new(2) off [of x] have "x' = x" by (auto dest: lookup_SomeD)
  from new(4) assms(3) obtain a where a: "lookup ar_id (as_actions st) k = Some a" "a' = (if pa a then fa a else a)"
    by (auto simp: lookup_update_where [where key = ar_id and f = fa, OF keep(2)])
  then have "ar_approval_id a' = ar_approval_id a" "ar_id a' = ar_id a"
    using keep by auto
  with new(5) assms(4) have "ar_approval_id a = None \<or> approval_granted st a"
    by (simp add: approval_granted_def)
  then show ?thesis
    unfolding startable_def using x(1) a(1) new(2,3) \<open>x' = x\<close> by (intro exI [of _ x] exI [of _ a]) simp
qed

lemma claim_startable:
  assumes "claimNextAction clock worker workspace now expires st = Inr (c, st')" "startable st' k t"
  shows "startable st k t"
proof (cases "st' = st")
  case False
  from False assms(1) obtain row a where
    "first_by (\<lambda>x. (xe_available_at x, xe_created_at x)) (filter (action_due st workspace now) (as_executions st)) = Some row"
    "lookup ar_id (as_actions st) (xe_action row) = Some a"
    by (auto simp: claimNextAction_def split: option.splits)
  with assms(1) have "\<exists>tr. st' = st\<lparr>
      as_executions := update_where (\<lambda>x. xe_action x = xe_action row \<and> execution_open now x)
        (\<lambda>x. x\<lparr>xe_status := XExecuting, xe_lease_owner := Some worker, xe_lease_expires_at := Some expires,
           xe_attempt := xe_attempt row + 1, xe_updated_at := clock\<rparr>) (as_executions st),
      as_actions := update_where (\<lambda>r. ar_id r = xe_action row)
        (\<lambda>r. r\<lparr>ar_state := Executing, ar_updated_at := clock\<rparr>) (as_actions st),
      as_transitions := as_transitions st @ [tr]\<rparr>"
    by (simp add: claimNextAction_def Let_def rbind_Inr_iff add_transition_Inr split: if_splits) blast
  then obtain tr where st': "st' = st\<lparr>
      as_executions := update_where (\<lambda>x. xe_action x = xe_action row \<and> execution_open now x)
        (\<lambda>x. x\<lparr>xe_status := XExecuting, xe_lease_owner := Some worker, xe_lease_expires_at := Some expires,
           xe_attempt := xe_attempt row + 1, xe_updated_at := clock\<rparr>) (as_executions st),
      as_actions := update_where (\<lambda>r. ar_id r = xe_action row)
        (\<lambda>r. r\<lparr>ar_state := Executing, ar_updated_at := clock\<rparr>) (as_actions st),
      as_transitions := as_transitions st @ [tr]\<rparr>"
    by blast
  show ?thesis
    by (rule startable_kept [OF assms(2)],
      simp add: st' split del: if_split, simp add: st' split del: if_split, simp add: st') auto
qed (use assms in simp)

lemma settle_startable:
  assumes "settleAction clock i w res st = Inr st'" "startable st' k t"
  shows "startable st k t"
proof -
  have off: "settled_status s \<noteq> XPending" for s by (cases s) auto
  from assms(1) obtain tr where st': "st' = st\<lparr>
      as_executions := update_where (\<lambda>x. xe_action x = i)
        (\<lambda>x. x\<lparr>xe_status := settled_status (rs_status res), xe_result := Some (result_json res),
           xe_last_error := (if rs_status res = ExFailed then Some (rs_summary res) else None),
           xe_lease_owner := None, xe_lease_expires_at := None, xe_updated_at := clock\<rparr>) (as_executions st),
      as_actions := update_where (\<lambda>a. ar_id a = i)
        (\<lambda>a. a\<lparr>ar_state := settled_state (rs_status res), ar_executor := Some (rs_executor res),
           ar_updated_at := clock\<rparr>) (as_actions st),
      as_transitions := as_transitions st @ [tr]\<rparr>"
    by (auto simp: settleAction_def add_transition_Inr split: option.splits)
  show ?thesis
    by (rule startable_kept [OF assms(2)],
      simp add: st' split del: if_split, simp add: st' split del: if_split, simp add: st') (auto simp: off)
qed

lemma release_startable:
  assumes "releaseActionClaim clock js_now input st = Inr st'" "startable st' k t" "\<not> startable st k t"
  shows "al_disposition input = Retry \<and> t = (case al_availableAt input of Some u \<Rightarrow> u | None \<Rightarrow> js_now)"
proof -
  let ?t = "case al_availableAt input of Some u \<Rightarrow> u | None \<Rightarrow> js_now"
  let ?fx = "\<lambda>x. x\<lparr>xe_status := (if al_disposition input = Retry then XPending else XFailed),
      xe_lease_owner := None, xe_lease_expires_at := None, xe_available_at := ?t,
      xe_last_error := Some (al_error input), xe_updated_at := clock\<rparr>"
  from assms(1) obtain tr where st': "st' = st\<lparr>
      as_executions := update_where (\<lambda>x. xe_action x = al_actionId input) ?fx (as_executions st),
      as_actions := update_where (\<lambda>a. ar_id a = al_actionId input)
        (\<lambda>a. a\<lparr>ar_state := (if al_disposition input = Retry then Planned else Failed), ar_updated_at := clock\<rparr>) (as_actions st),
      as_transitions := as_transitions st @ [tr]\<rparr>"
    by (auto simp: releaseActionClaim_def Let_def add_transition_Inr split: option.splits)
  have kept: "startable st k t" if "al_disposition input \<noteq> Retry \<or> k \<noteq> al_actionId input"
    by (rule startable_kept [OF assms(2)],
      simp add: st' split del: if_split, simp add: st' split del: if_split, simp add: st') (use that in auto)
  with assms(3) have now: "al_disposition input = Retry" "k = al_actionId input" by auto
  from assms(2) obtain x' where "lookup xe_action (as_executions st') k = Some x'" "xe_available_at x' = t"
    unfolding startable_def by blast
  moreover have "lookup xe_action (as_executions st') k
      = map_option (\<lambda>x. if xe_action x = al_actionId input then ?fx x else x) (lookup xe_action (as_executions st) k)"
    by (simp add: st' lookup_update_where)
  ultimately have "t = ?t"
    using now(2) by (cases "lookup xe_action (as_executions st) k") (auto dest: lookup_SomeD)
  with now show ?thesis by simp
qed

lemma reject_startable:
  assumes "decideApproval clock i Reject meta decidedAt st = Inr st'" "startable st' k t"
  shows "startable st k t"
proof (cases "st' = st")
  case False
  from False assms(1) obtain p m where "lookup ap_id (as_approvals st) i = Some p" "ap_status p = ApPending"
    "stringify meta = Some m"
    by (auto simp: decideApproval_def split: option.splits if_splits)
  with assms(1) have "\<exists>tr. st' = st\<lparr>
      as_approvals := update_where (\<lambda>p. ap_id p = i)
        (\<lambda>p. p\<lparr>ap_status := ApRejected, ap_decision := Some m, ap_decided_at := Some decidedAt\<rparr>) (as_approvals st),
      as_actions := update_where (\<lambda>a. ar_id a = ap_action p)
        (\<lambda>a. a\<lparr>ar_state := Failed, ar_updated_at := clock\<rparr>) (as_actions st),
      as_executions := update_where (\<lambda>x. xe_action x = ap_action p)
        (\<lambda>x. x\<lparr>xe_status := XFailed, xe_last_error := Some ''approval rejected'', xe_updated_at := clock\<rparr>) (as_executions st),
      as_transitions := as_transitions st @ [tr]\<rparr>"
    by (simp add: decideApproval_def add_transition_Inr) blast
  then obtain tr where st': "st' = st\<lparr>
      as_approvals := update_where (\<lambda>p. ap_id p = i)
        (\<lambda>p. p\<lparr>ap_status := ApRejected, ap_decision := Some m, ap_decided_at := Some decidedAt\<rparr>) (as_approvals st),
      as_actions := update_where (\<lambda>a. ar_id a = ap_action p)
        (\<lambda>a. a\<lparr>ar_state := Failed, ar_updated_at := clock\<rparr>) (as_actions st),
      as_executions := update_where (\<lambda>x. xe_action x = ap_action p)
        (\<lambda>x. x\<lparr>xe_status := XFailed, xe_last_error := Some ''approval rejected'', xe_updated_at := clock\<rparr>) (as_executions st),
      as_transitions := as_transitions st @ [tr]\<rparr>"
    by blast
  let ?st0 = "st'\<lparr>as_approvals := as_approvals st\<rparr>"
  have "approval_granted ?st0 a" if "approval_granted st' a" for a
    using that by (auto simp: approval_granted_def st' set_update_where)
  with assms(2) have "startable ?st0 k t"
    unfolding startable_def by auto
  then show ?thesis
    by (rule startable_kept,
      simp add: st' split del: if_split, simp add: st' split del: if_split, simp add: st') auto
qed (use assms in simp)

lemma enqueue_startable:
  assumes "enqueueAction lc clock input st = Inr (b, st')" "startable st' k t" "\<not> startable st k t" "action_inv st"
  shows "b \<and> da_approval input = None"
  using assms(1)
proof (cases rule: enqueueAction_cases)
  case (replay a x)
  with assms(2,3) show ?thesis by (simp add: startable_def approval_granted_def)
next
  case (new request source)
  have grant: "approval_granted st a" if "approval_granted st' a" for a
    using that new(7) by (auto simp: approval_granted_def new_approval_def split: option.splits)
  have fresh: "lookup xe_action (as_executions st) (da_actionId input) = None"
    using assms(4) new(2) by (auto simp: action_inv_def lookup_None_iff)
  from assms(2) obtain x a where x: "lookup xe_action (as_executions st') k = Some x" "xe_status x = XPending"
    "xe_available_at x = t" "lookup ar_id (as_actions st') k = Some a" "ar_approval_id a = None \<or> approval_granted st' a"
    unfolding startable_def by blast
  show ?thesis
  proof (cases "k = da_actionId input")
    case True
    with x(4) new(2,7) have a: "a = new_action clock input source"
      by (simp add: lookup_append new_action_def)
    have "\<not> approval_granted st a" if "da_approval input = Some (i, p)" for i p
      using new(6) that by (auto simp: approval_granted_def a new_action_def)
    with x(5) grant have "da_approval input = None"
      by (cases "da_approval input") (auto simp: a new_action_def)
    with new(1) show ?thesis by simp
  next
    case False
    with x new(7) grant have "startable st k t"
      by (auto simp: startable_def lookup_append new_execution_def new_action_def split: option.splits if_splits)
    with assms(3) show ?thesis by simp
  qed
qed

subsection \<open>Workflow operations\<close>

lemma in_time_simps [simp]:
  "in_time date_ms js_now t None"
  "in_time date_ms js_now (Some s) (Some s)"
  by (auto simp: in_time_def split: option.splits)

lemma create_wakes:
  assumes "host_createWorkflow lc date_ms clock js_now input st = Inr (r, wakes, st')"
    and "effect_phase st' k = Some (Ready t) \<and> effect_phase st k \<noteq> Some (Ready t)
      \<or> timer_set st' k t \<and> \<not> timer_set st k t \<and> t \<noteq> []"
  shows "\<exists>w c. wakes = signalWorkflowWake date_ms js_now w (cw_effects input)
    \<and> c \<in> set (wake_candidates js_now w (cw_effects input)) \<and> (c = t \<or> c = js_now)"
proof -
  from assms(1) obtain b w where run: "createWorkflow lc clock input st = Inr ((b, w), st')"
    and wakes: "wakes = (if b then signalWorkflowWake date_ms js_now w (cw_effects input) else [])"
    by (auto simp: host_createWorkflow_def rbind_Inr_iff)
  from run show ?thesis
  proof (cases rule: createWorkflow_cases)
    case (old row)
    with assms(2) show ?thesis by blast
  next
    case (new row effects)
    have ins: "insertWorkflowEffects lc clock (cw_id input) (cw_effects input) (ws_effects st) = Inr (ws_effects st')"
      using new(11,12) by simp
    have "\<exists>c\<in>set (wake_candidates js_now w (cw_effects input)). c = t \<or> c = js_now"
      using assms(2)
    proof
      assume "effect_phase st' k = Some (Ready t) \<and> effect_phase st k \<noteq> Some (Ready t)"
      then have "\<exists>c\<in>set (map (\<lambda>e. case we_availableAt e of Some t \<Rightarrow> t | None \<Rightarrow> js_now) (cw_effects input)). c = t \<or> c = js_now"
        using new_effect_candidate [OF ins] by blast
      then show ?thesis unfolding wake_candidates_def set_append by blast
    next
      assume "timer_set st' k t \<and> \<not> timer_set st k t \<and> t \<noteq> []"
      then have "wi_wake_at row = Some t" "t \<noteq> []"
        by (auto simp: timer_set_def new(12) lookup_append split: option.splits if_splits)
      then show ?thesis by (simp add: wake_candidates_def new(5) sqliteWorkflow_def)
    qed
    with wakes new(1) show ?thesis by auto
  qed
qed

lemma advance_wakes:
  assumes "host_advanceWorkflow lc date_ms clock js_now input st = Inr (r, wakes, st')"
    and "effect_phase st' k = Some (Ready t) \<and> effect_phase st k \<noteq> Some (Ready t)
      \<or> timer_set st' k t \<and> \<not> timer_set st k t \<and> t \<noteq> []"
  shows "\<exists>w c. wakes = signalWorkflowWake date_ms js_now w (aw_effects input)
    \<and> c \<in> set (wake_candidates js_now w (aw_effects input)) \<and> (c = t \<or> c = js_now)"
proof -
  from assms(1) obtain b w where run: "advanceWorkflow lc clock input st = Inr ((b, w), st')"
    and wakes: "wakes = (if b then signalWorkflowWake date_ms js_now w (aw_effects input) else [])"
    by (auto simp: host_advanceWorkflow_def rbind_Inr_iff)
  from run show ?thesis
  proof (cases rule: advanceWorkflow_cases)
    case (duplicate current)
    with assms(2) show ?thesis by blast
  next
    case (advanced current state payload effects pe tr)
    have ins: "insertWorkflowEffects lc clock (aw_instanceId input) (aw_effects input) (ws_effects st) = Inr (ws_effects st')"
      using advanced(7,10) by simp
    have "\<exists>c\<in>set (wake_candidates js_now w (aw_effects input)). c = t \<or> c = js_now"
      using assms(2)
    proof
      assume "effect_phase st' k = Some (Ready t) \<and> effect_phase st k \<noteq> Some (Ready t)"
      then have "\<exists>c\<in>set (map (\<lambda>e. case we_availableAt e of Some t \<Rightarrow> t | None \<Rightarrow> js_now) (aw_effects input)). c = t \<or> c = js_now"
        using new_effect_candidate [OF ins] by blast
      then show ?thesis unfolding wake_candidates_def set_append by blast
    next
      assume set: "timer_set st' k t \<and> \<not> timer_set st k t \<and> t \<noteq> []"
      let ?f = "advanced_row clock input state"
      have look: "lookup wi_id (ws_instances st') k
          = map_option (\<lambda>r. if wi_id r = aw_instanceId input then ?f r else r) (lookup wi_id (ws_instances st) k)"
        by (simp add: advanced(10) lookup_update_where advanced_row_def)
      from set obtain q where q: "lookup wi_id (ws_instances st) k = Some q" "wi_id q = aw_instanceId input"
        "wi_wake_at (?f q) = Some t"
        unfolding timer_set_def look by (auto split: if_splits)
      then have "q = current"
        using advanced(2) lookup_SomeD [OF q(1)] by auto
      with q(3) have "wi_wake_at (?f current) = Some t" by simp
      with set show ?thesis
        by (simp add: wake_candidates_def advanced(5) sqliteWorkflow_def)
    qed
    with wakes advanced(1) show ?thesis by auto
  qed
qed

text \<open>The outbox's own operations leave every timer alone.\<close>

lemma outbox_timers:
  "claimNextWorkflowEffect clock worker now expires st = Inr (c, st') \<Longrightarrow> timer_set st' i t = timer_set st i t"
  "settleWorkflowEffect clock k w d st = Inr st' \<Longrightarrow> timer_set st' i t = timer_set st i t"
  "releaseWorkflowEffect clock k w err a terminal st = Inr st' \<Longrightarrow> timer_set st' i t = timer_set st i t"
  by (auto simp: timer_set_def claimNextWorkflowEffect_def settleWorkflowEffect_def releaseWorkflowEffect_def Let_def
      split: option.splits if_splits)

fun op_effects :: "host_op \<Rightarrow> workflow_effect_input list" where
  "op_effects (HCreateWorkflow input) = cw_effects input"
| "op_effects (HAdvanceWorkflow input) = aw_effects input"
| "op_effects _ = []"

lemma events_after_due:
  assumes "events_after d r = (d', wakes)" "due_at d' work t" "\<not> due_at d work t"
  shows "\<exists>st c e l. r = Inr (wakes, st) \<and> work = EventWork c e
    \<and> event_phase st (c, e) = Some l \<and> event_phase (ds_events d) (c, e) \<noteq> Some l
    \<and> l = (case t of None \<Rightarrow> Fresh | Some u \<Rightarrow> Ready u)"
  using assms by (cases "(d', work, t)" rule: due_at.cases) (auto simp: events_after_def split: sum.splits)

lemma actions_after_due:
  assumes "actions_after d r = (d', wakes)" "due_at d' work t" "\<not> due_at d work t"
  shows "\<exists>st k u. r = Inr (wakes, st) \<and> work = ActionWork k \<and> t = Some u
    \<and> startable st k u \<and> \<not> startable (ds_actions d) k u"
  using assms by (cases "(d', work, t)" rule: due_at.cases) (auto simp: actions_after_def split: sum.splits)

text \<open>An effect or a timer that became due.\<close>

definition workflow_work_due :: "workflow_store \<Rightarrow> workflow_store \<Rightarrow> string \<Rightarrow> timestamp \<Rightarrow> bool" where
  "workflow_work_due st st' k u \<longleftrightarrow>
     effect_phase st' k = Some (Ready u) \<and> effect_phase st k \<noteq> Some (Ready u)
     \<or> timer_set st' k u \<and> \<not> timer_set st k u"

lemma workflows_after_due:
  assumes "workflows_after d r = (d', wakes)" "due_at d' work t" "\<not> due_at d work t"
  shows "\<exists>st k u. r = Inr (wakes, st) \<and> t = Some u \<and> (\<forall>s. wake_for work s = WorkflowWake s)
    \<and> workflow_work_due (ds_workflows d) st k u"
  using assms
  by (cases "(d', work, t)" rule: due_at.cases) (auto simp: workflows_after_def workflow_work_due_def split: sum.splits)

lemma event_work_woken:
  assumes "event_inv st" "event_exec oper st = (st', ev)"
    and "event_phase st' (c, e) = Some l" "event_phase st (c, e) \<noteq> Some l"
    and "l = (case t of None \<Rightarrow> Fresh | Some u \<Rightarrow> Ready u)" "\<nexists>a b c. oper = EAppend a b c"
  shows "\<exists>clock input. oper = ERelease clock input \<and> \<not> rl_terminal input \<and> t = Some (rl_availableAt input)"
  using event_work_quiet [OF assms(1-3) _ assms(4,6)] assms(5) by (auto split: option.splits)

lemma events_woken:
  assumes inv: "event_inv (ds_events d)" and run: "host_exec lc date_ms clock js_now oper d = (d', wakes)"
    and due: "due_at d' (EventWork c e) t" "\<not> due_at d (EventWork c e) t"
  shows "EventWake None \<in> set wakes \<or> EventWake t \<in> set wakes"
proof (cases oper)
  case (HAppendEvent event)
  with run events_after_due [OF _ due] obtain st l where
    "rbind (host_appendEvent date_ms clock event (ds_events d)) (\<lambda>(_, wakes, st). Inr (wakes, st)) = Inr (wakes, st)"
    and new: "event_phase st (c, e) = Some l" "event_phase (ds_events d) (c, e) \<noteq> Some l"
    by fastforce
  then obtain i b k where "appendEvent clock i (typed_event event) (ds_events d) = Inr ((k, b), st)"
    "wakes = (if b then [EventWake None] else [])"
    by (auto simp: host_appendEvent_def rbind_Inr_iff)
  with new show ?thesis by (auto elim!: appendEvent_cases)
next
  case (HClaimEvent consumer keys worker now expires)
  with run events_after_due [OF _ due] obtain st l where
    r: "rbind (claimNextEvent clock consumer keys worker now expires (ds_events d)) (\<lambda>(_, st). Inr ([], st)) = Inr (wakes, st)"
    and new: "event_phase st (c, e) = Some l" "event_phase (ds_events d) (c, e) \<noteq> Some l"
      "l = (case t of None \<Rightarrow> Fresh | Some u \<Rightarrow> Ready u)"
    by fastforce
  from r obtain x where "claimNextEvent clock consumer keys worker now expires (ds_events d) = Inr (x, st)"
    by (auto simp: rbind_Inr_iff)
  then obtain ev where "event_exec (EClaim clock consumer keys worker now expires) (ds_events d) = (st, ev)"
    by (cases x) auto
  from event_work_woken [OF inv this new] show ?thesis by simp
next
  case (HSettleEvent consumer eid worker delivered)
  with run events_after_due [OF _ due] obtain st l where
    r: "rbind (settleEvent clock consumer eid worker delivered (ds_events d)) (\<lambda>st. Inr ([], st)) = Inr (wakes, st)"
    and new: "event_phase st (c, e) = Some l" "event_phase (ds_events d) (c, e) \<noteq> Some l"
      "l = (case t of None \<Rightarrow> Fresh | Some u \<Rightarrow> Ready u)"
    by fastforce
  from r obtain ev where "event_exec (ESettle clock consumer eid worker delivered) (ds_events d) = (st, ev)"
    by (auto simp: rbind_Inr_iff)
  from event_work_woken [OF inv this new] show ?thesis by simp
next
  case (HReleaseEvent input)
  with run events_after_due [OF _ due] obtain st l where
    r: "host_releaseEvent clock input (ds_events d) = Inr (wakes, st)"
    and new: "event_phase st (c, e) = Some l" "event_phase (ds_events d) (c, e) \<noteq> Some l"
      "l = (case t of None \<Rightarrow> Fresh | Some u \<Rightarrow> Ready u)"
    by fastforce
  from r obtain ev where "event_exec (ERelease clock input) (ds_events d) = (st, ev)"
    and wakes: "wakes = (if rl_terminal input then [] else [EventWake (Some (rl_availableAt input))])"
    by (auto simp: host_releaseEvent_def rbind_Inr_iff)
  from event_work_woken [OF inv this(1) new] wakes show ?thesis by auto
qed (use run due in \<open>cases t; auto simp: actions_after_def workflows_after_def split: sum.splits\<close>)+

lemma actions_woken:
  assumes inv: "action_inv (ds_actions d)" and run: "host_exec lc date_ms clock js_now oper d = (d', wakes)"
    and due: "due_at d' (ActionWork k) t" "\<not> due_at d (ActionWork k) t"
  shows "ActionWake None \<in> set wakes \<or> ActionWake t \<in> set wakes"
proof (cases oper)
  case (HEnqueueAction input)
  with run actions_after_due [OF _ due] obtain st u where
    r: "rbind (host_enqueueAction lc clock input (ds_actions d)) (\<lambda>(_, wakes, st). Inr (wakes, st)) = Inr (wakes, st)"
    and new: "startable st k u" "\<not> startable (ds_actions d) k u"
    by fastforce
  from r obtain b where "enqueueAction lc clock input (ds_actions d) = Inr (b, st)"
    "wakes = (if b \<and> da_approval input = None then [ActionWake None] else [])"
    by (auto simp: host_enqueueAction_def rbind_Inr_iff)
  with enqueue_startable [OF this(1) new inv] show ?thesis by simp
next
  case (HDecideApproval i dec meta decided)
  with run actions_after_due [OF _ due] obtain st u where
    r: "host_decideApproval clock i dec meta decided (ds_actions d) = Inr (wakes, st)"
    and new: "startable st k u" "\<not> startable (ds_actions d) k u"
    by fastforce
  from r have "decideApproval clock i dec meta decided (ds_actions d) = Inr st"
    "wakes = (if dec = Approve then [ActionWake None] else [])"
    by (auto simp: host_decideApproval_def rbind_Inr_iff)
  with new reject_startable show ?thesis by (cases dec) auto
next
  case (HClaimAction worker workspace now expires)
  with run actions_after_due [OF _ due] obtain st u where
    "rbind (claimNextAction clock worker workspace now expires (ds_actions d)) (\<lambda>(_, st). Inr ([], st)) = Inr (wakes, st)"
    "startable st k u" "\<not> startable (ds_actions d) k u"
    by fastforce
  then show ?thesis using claim_startable by (auto simp: rbind_Inr_iff)
next
  case (HSettleAction i worker res)
  with run actions_after_due [OF _ due] obtain st u where
    "rbind (settleAction clock i worker res (ds_actions d)) (\<lambda>st. Inr ([], st)) = Inr (wakes, st)"
    "startable st k u" "\<not> startable (ds_actions d) k u"
    by fastforce
  then show ?thesis using settle_startable by (auto simp: rbind_Inr_iff)
next
  case (HReleaseAction input)
  with run actions_after_due [OF _ due] obtain st u where
    r: "host_releaseActionClaim clock js_now input (ds_actions d) = Inr (wakes, st)" and t: "t = Some u"
    and new: "startable st k u" "\<not> startable (ds_actions d) k u"
    by fastforce
  from r have "releaseActionClaim clock js_now input (ds_actions d) = Inr st"
    "wakes = (if al_disposition input = Retry then [ActionWake (al_availableAt input)] else [])"
    by (auto simp: host_releaseActionClaim_def rbind_Inr_iff)
  with release_startable [OF this(1) new] t show ?thesis by (cases "al_availableAt input") auto
qed (use run due in \<open>cases t; auto simp: events_after_def workflows_after_def split: sum.splits\<close>)+

lemma workflows_woken:
  assumes inv: "workflow_inv (ds_workflows d)" and run: "host_exec lc date_ms clock js_now oper d = (d', wakes)"
    and dates: "list_all (\<lambda>e. we_availableAt e \<noteq> Some []) (op_effects oper)" "js_now \<noteq> []" "date_ms js_now \<noteq> None"
    and work: "work = EffectWork k \<or> work = TimerWork k"
    and due: "due_at d' work t" "\<not> due_at d work t" "t \<noteq> Some []"
  shows "\<exists>u. WorkflowWake u \<in> set wakes \<and> in_time date_ms js_now t u"
proof (cases oper)
  case (HCreateWorkflow input)
  with run workflows_after_due [OF _ due(1,2)] obtain st i u where
    r: "rbind (host_createWorkflow lc date_ms clock js_now input (ds_workflows d)) (\<lambda>(_, wakes, st). Inr (wakes, st)) = Inr (wakes, st)"
    and new: "t = Some u" "workflow_work_due (ds_workflows d) st i u"
    by fastforce
  from r obtain q where "host_createWorkflow lc date_ms clock js_now input (ds_workflows d) = Inr (q, wakes, st)"
    by (auto simp: rbind_Inr_iff)
  from create_wakes [OF this, of i u] new due(3) obtain w c where
    "wakes = signalWorkflowWake date_ms js_now w (cw_effects input)"
    "c \<in> set (wake_candidates js_now w (cw_effects input))" "c = u \<or> c = js_now"
    unfolding workflow_work_due_def by blast
  with signalWorkflowWake_in_time [OF this(2,3)] dates HCreateWorkflow new(1) show ?thesis by simp
next
  case (HAdvanceWorkflow input)
  with run workflows_after_due [OF _ due(1,2)] obtain st i u where
    r: "rbind (host_advanceWorkflow lc date_ms clock js_now input (ds_workflows d)) (\<lambda>(_, wakes, st). Inr (wakes, st)) = Inr (wakes, st)"
    and new: "t = Some u" "workflow_work_due (ds_workflows d) st i u"
    by fastforce
  from r obtain q where "host_advanceWorkflow lc date_ms clock js_now input (ds_workflows d) = Inr (q, wakes, st)"
    by (auto simp: rbind_Inr_iff)
  from advance_wakes [OF this, of i u] new due(3) obtain w c where
    "wakes = signalWorkflowWake date_ms js_now w (aw_effects input)"
    "c \<in> set (wake_candidates js_now w (aw_effects input))" "c = u \<or> c = js_now"
    unfolding workflow_work_due_def by blast
  with signalWorkflowWake_in_time [OF this(2,3)] dates HAdvanceWorkflow new(1) show ?thesis by simp
next
  case (HClaimEffect worker now expires)
  with run workflows_after_due [OF _ due(1,2)] obtain st i u where
    r: "rbind (claimNextWorkflowEffect clock worker now expires (ds_workflows d)) (\<lambda>(_, st). Inr ([], st)) = Inr (wakes, st)"
    and new: "t = Some u" "workflow_work_due (ds_workflows d) st i u"
    by fastforce
  from r obtain x where x: "claimNextWorkflowEffect clock worker now expires (ds_workflows d) = Inr (x, st)"
    by (auto simp: rbind_Inr_iff)
  then obtain ev where "workflow_exec lc (WClaim clock worker now expires) (ds_workflows d) = (st, ev)"
    by (cases x) auto
  from effect_work_quiet [OF inv this] outbox_timers(1) [OF x] new(2) show ?thesis
    by (auto simp: workflow_work_due_def)
next
  case (HSettleEffect i worker delivered)
  with run workflows_after_due [OF _ due(1,2)] obtain st j u where
    r: "rbind (settleWorkflowEffect clock i worker delivered (ds_workflows d)) (\<lambda>st. Inr ([], st)) = Inr (wakes, st)"
    and new: "t = Some u" "workflow_work_due (ds_workflows d) st j u"
    by fastforce
  from r have x: "settleWorkflowEffect clock i worker delivered (ds_workflows d) = Inr st"
    by (auto simp: rbind_Inr_iff)
  then have "workflow_exec lc (WSettle clock i worker delivered) (ds_workflows d) = (st, Settled i worker)"
    by simp
  from effect_work_quiet [OF inv this] outbox_timers(2) [OF x] new(2) show ?thesis
    by (auto simp: workflow_work_due_def)
next
  case (HReleaseEffect i worker err available terminal)
  with run workflows_after_due [OF _ due(1,2)] obtain st j u where
    r: "host_releaseWorkflowEffect clock i worker err available terminal (ds_workflows d) = Inr (wakes, st)"
    and new: "t = Some u" "workflow_work_due (ds_workflows d) st j u"
    by fastforce
  from r have x: "releaseWorkflowEffect clock i worker err available terminal (ds_workflows d) = Inr st"
    and wakes: "wakes = (if terminal then [] else [WorkflowWake (Some available)])"
    by (auto simp: host_releaseWorkflowEffect_def rbind_Inr_iff)
  from x have "workflow_exec lc (WRelease clock i worker err available terminal) (ds_workflows d)
      = (st, Released i worker available terminal)"
    by simp
  from effect_work_quiet [OF inv this] outbox_timers(3) [OF x] new(2) have "\<not> terminal" "u = available"
    by (auto simp: workflow_work_due_def)
  with wakes new(1) show ?thesis by auto
qed (use run due work in \<open>cases t; auto simp: events_after_def actions_after_def split: sum.splits\<close>)+

section \<open>Properties\<close>

text \<open>C40. No work is committed without its wake: whenever an operation through the host makes work due
that was not (an event for a consumer, an action that may start, an effect, a timer), the same call emits
a wake for the runtime that takes it: for now, or for a time that is not after both the work's time and
the moment of the call, however many workflow effects and timers share the one wake.\<close>

theorem host_wakes_in_time:
  assumes "event_inv (ds_events d)" "workflow_inv (ds_workflows d)" "action_inv (ds_actions d)"
    and "host_exec lc date_ms clock js_now oper d = (d', wakes)"
    and "list_all (\<lambda>e. we_availableAt e \<noteq> Some []) (op_effects oper)" "js_now \<noteq> []" "date_ms js_now \<noteq> None"
    and "due_at d' work t" "\<not> due_at d work t" "t \<noteq> Some []"
  shows "\<exists>u. wake_for work u \<in> set wakes \<and> in_time date_ms js_now t u"
proof (cases work)
  case (EventWork c e)
  with assms(8,9) have "EventWake None \<in> set wakes \<or> EventWake t \<in> set wakes"
    using events_woken [OF assms(1,4)] by blast
  with EventWork show ?thesis by (cases t) (auto intro: in_time_simps)
next
  case (ActionWork k)
  with assms(8,9) have "ActionWake None \<in> set wakes \<or> ActionWake t \<in> set wakes"
    using actions_woken [OF assms(3,4)] by blast
  with ActionWork show ?thesis by (cases t) (auto intro: in_time_simps)
next
  case (EffectWork k)
  with workflows_woken [OF assms(2,4-7) _ assms(8-10)] show ?thesis by simp
next
  case (TimerWork k)
  with workflows_woken [OF assms(2,4-7) _ assms(8-10)] show ?thesis by simp
qed

section \<open>Witnesses\<close>

definition sample_durable :: durable_state where
  "sample_durable = \<lparr> ds_events = empty_events, ds_workflows = empty_workflows, ds_actions = empty_actions \<rparr>"

text \<open>A workflow with a timer at 7 and two effects, one for now and one at 5, shares one wake.\<close>

definition sample_host_op :: host_op where
  "sample_host_op = HCreateWorkflow
     \<lparr> cw_id = ''w'', cw_kind = ''k'', cw_version = 1, cw_status = WWaiting, cw_state = JObj ObjectProto [],
        cw_wakeAt = Some ''7'',
        cw_effects = [\<lparr> we_id = ''a'', we_kind = ''m'', we_payload = JObj ObjectProto [], we_availableAt = Some ''5'' \<rparr>,
          \<lparr> we_id = ''b'', we_kind = ''m'', we_payload = JObj ObjectProto [], we_availableAt = None \<rparr>] \<rparr>"

definition digit_date :: "string \<Rightarrow> int option" where
  "digit_date s = (case s of [c] \<Rightarrow> Some (int (of_char c) - 48) | _ \<Rightarrow> None)"

lemma sample_host_run:
  "snd (host_exec (\<le>) digit_date ''2'' ''3'' sample_host_op sample_durable) = [WorkflowWake (Some ''3'')]
   \<and> timer_set (ds_workflows (fst (host_exec (\<le>) digit_date ''2'' ''3'' sample_host_op sample_durable))) ''w'' ''7''"
  unfolding timer_set_def
  by (simp add: sample_host_op_def sample_durable_def host_createWorkflow_def createWorkflow_def insertWorkflowEffects_def
      insertWorkflowEffect_def workflows_after_def signalWorkflowWake_def wake_candidates_def sqliteWorkflow_def
      earlier_def date_before_def digit_date_def empty_workflows_def Let_def object_text_def)

lemma host_wakes_in_time_witness:
  "\<exists>u. WorkflowWake u \<in> set [WorkflowWake (Some ''3'')] \<and> in_time digit_date ''3'' (Some ''7'') u"
proof -
  obtain d' where run: "host_exec (\<le>) digit_date ''2'' ''3'' sample_host_op sample_durable = (d', [WorkflowWake (Some ''3'')])"
    and timer: "timer_set (ds_workflows d') ''w'' ''7''"
    using sample_host_run by (metis prod.collapse)
  have "\<exists>u. wake_for (TimerWork ''w'') u \<in> set [WorkflowWake (Some ''3'')] \<and> in_time digit_date ''3'' (Some ''7'') u"
  proof (rule host_wakes_in_time [OF _ _ _ run])
    show "event_inv (ds_events sample_durable)"
      by (simp add: sample_durable_def empty_events_def event_inv_def)
    show "due_at d' (TimerWork ''w'') (Some ''7'')" using timer by simp
    show "\<not> due_at sample_durable (TimerWork ''w'') (Some ''7'')"
      by (simp add: sample_durable_def timer_set_def empty_workflows_def)
  qed (simp_all add: sample_durable_def empty_workflows_inv empty_actions_inv sample_host_op_def digit_date_def)
  then show ?thesis by simp
qed

end
