(* ===== verification/Session_Lifecycle.thy ===== *)
theory Session_Lifecycle
  imports Workflow_Runtime Channel_Domain
begin

text \<open>
  The life cycle of an automatic research session (session-lifecycle/workflow.ts): it is inspected,
  its task is checked, it is archived and, after a retention period, deleted. The definition's
  \<open>initialize\<close> and \<open>reduce\<close> with every branch; the state is the one the definition itself writes, as a
  record. Parameters are the parser of dates \<open>date_ms\<close>, the text of a date \<open>iso_text\<close>, SHA-256 and
  the Chinese wording of the notifications, whose code units do not fit a \<open>char\<close>.
\<close>

section \<open>The state\<close>

datatype session_phase = SWaiting | SInspecting | SChecking | SArchiving | SArchived | SDeleting | SCompleted

datatype session_operation = OpInspect | OpTaskCheck | OpArchive | OpDelete

record session_failure =
  sf_operation :: session_operation
  sf_at :: timestamp
  sf_count :: int
  sf_lastNotifiedAt :: "timestamp option"

record session_authorization =
  sz_evidence :: authorization_evidence
  sz_minimumArchivedDays :: int

record session_state =
  ss_sessionId :: string
  ss_taskId :: string
  ss_eligible :: bool
  ss_phase :: session_phase
  ss_sequence :: int
  ss_pollIntervalMs :: int
  ss_retryBaseMs :: int
  ss_retryMaxMs :: int
  ss_deleteAfterMs :: int
  ss_failureThreshold :: int
  ss_failureNotifyCooldownMs :: int
  ss_authorization :: session_authorization
  ss_createdAt :: "timestamp option"
  ss_archivedAt :: "timestamp option"
  ss_deletedAt :: "timestamp option"
  ss_failure :: "session_failure option"

record session_decision =
  sd_status :: workflow_status
  sd_state :: session_state
  sd_wakeAt :: wake_change
  sd_effects :: "workflow_effect_input list"

record session_wording =
  sw_archivedTitle :: string
  sw_deleteFailedTitle :: string
  sw_maintainFailedTitle :: string
  sw_sessionLabel :: string
  sw_taskLabel :: string
  sw_failedBefore :: string
  sw_failedAfter :: string

section \<open>Helpers\<close>


definition inspect_kind :: string where "inspect_kind = ''codex-session.inspect.v1''"
definition archive_kind :: string where "archive_kind = ''codex-session.archive-if-needed.v1''"
definition delete_kind :: string where "delete_kind = ''codex-session.delete-if-archived.v1''"
definition isCompleted_kind :: string where "isCompleted_kind = ''task-store.is-completed.v1''"
definition notifyOwner_kind :: string where "notifyOwner_kind = ''assistant.notify-owner.v1''"


definition date_text :: "(string \<Rightarrow> int option) \<Rightarrow> jval \<Rightarrow> string \<Rightarrow> timestamp result" where
  "date_text date_ms v label =
     (case v of
        JStr s \<Rightarrow> if date_ms s = None then throw (label @ '' must be a timestamp'') else Inr s
      | _ \<Rightarrow> throw (label @ '' must be a timestamp''))"

text \<open>\<open>new Date(new Date(now).getTime() + delayMs).toISOString()\<close>\<close>

definition date_after :: "(string \<Rightarrow> int option) \<Rightarrow> (int \<Rightarrow> timestamp) \<Rightarrow> timestamp \<Rightarrow> int \<Rightarrow> timestamp result" where
  "date_after date_ms iso_text now delay =
     (case date_ms now of
        None \<Rightarrow> throw ''Invalid time value''
      | Some ms \<Rightarrow> toISOString iso_text (ms + delay))"



definition operation_text :: "session_operation \<Rightarrow> string" where
  "operation_text op =
     (case op of OpInspect \<Rightarrow> ''inspect'' | OpTaskCheck \<Rightarrow> ''task-check'' | OpArchive \<Rightarrow> ''archive'' | OpDelete \<Rightarrow> ''delete'')"

definition session_effectId :: "(string \<Rightarrow> string) \<Rightarrow> session_state \<Rightarrow> session_operation \<Rightarrow> string" where
  "session_effectId sha state op =
     operation_text op @ '':'' @ take 32 (sha (ss_sessionId state @ [CHR 0x00] @ show_int (ss_sequence state)))"

definition effectKind :: "workflow_event \<Rightarrow> string option" where
  "effectKind event = (case js_get (wv_payload event) ''effectKind'' of JStr k \<Rightarrow> Some k | _ \<Rightarrow> None)"

definition withoutFailure :: "session_state \<Rightarrow> session_state" where
  "withoutFailure state = state\<lparr>ss_failure := None\<rparr>"

definition session_effect :: "string \<Rightarrow> string \<Rightarrow> timestamp \<Rightarrow> (string \<times> jval) list \<Rightarrow> workflow_effect_input" where
  "session_effect i kind now entries =
     \<lparr> we_id = i, we_kind = kind, we_payload = JObj ObjectProto entries, we_availableAt = Some now \<rparr>"

definition notification ::
  "(string \<Rightarrow> string) \<Rightarrow> session_state \<Rightarrow> string \<Rightarrow> string \<Rightarrow> string \<Rightarrow> timestamp \<Rightarrow> workflow_effect_input" where
  "notification sha state suffix title body now =
     (let i = ''session-notification:'' @ take 32 (sha (ss_sessionId state @ [CHR 0x00] @ suffix)) in
      session_effect i notifyOwner_kind now
        [(''title'', JStr title), (''body'', JStr body), (''idempotencyKey'', JStr i)])"

definition authorization_json :: "session_authorization \<Rightarrow> jval" where
  "authorization_json a =
     (let e = sz_evidence a in
      JObj ObjectProto
        [(''id'', JStr (au_id e)), (''grantedBy'', JStr (au_grantedBy e)), (''grantedAt'', JStr (au_grantedAt e)),
         (''scope'', JStr (au_scope e)), (''revision'', JNum (Fin (of_int (au_revision e)))), (''source'', JStr (au_source e)),
         (''minimumArchivedDays'', JNum (Fin (of_int (sz_minimumArchivedDays a))))])"

definition managedBy_text :: string where
  "managedBy_text = ''quarkselfai-auto-research''"

definition operationFor :: "string option \<Rightarrow> session_phase \<Rightarrow> session_operation option" where
  "operationFor kind phase =
     (if kind = Some inspect_kind \<and> phase = SInspecting then Some OpInspect
      else if kind = Some isCompleted_kind \<and> phase = SChecking then Some OpTaskCheck
      else if kind = Some archive_kind \<and> phase = SArchiving then Some OpArchive
      else if kind = Some delete_kind \<and> phase = SDeleting then Some OpDelete
      else None)"

section \<open>A failed effect\<close>

definition failure_after :: "(string \<Rightarrow> int option) \<Rightarrow> session_state \<Rightarrow> session_operation \<Rightarrow> workflow_event \<Rightarrow> session_failure" where
  "failure_after date_ms state op event =
     (let prior = (case ss_failure state of Some f \<Rightarrow> if sf_operation f = op then Some f else None | None \<Rightarrow> None) in
      \<lparr> sf_operation = op,
        sf_at = (case prior of Some f \<Rightarrow> sf_at f | None \<Rightarrow> wv_occurredAt event),
        sf_count = (case prior of Some f \<Rightarrow> sf_count f | None \<Rightarrow> 0) + 1,
        sf_lastNotifiedAt = (case prior of
            Some f \<Rightarrow> if sf_lastNotifiedAt f = Some [] then None else sf_lastNotifiedAt f
          | None \<Rightarrow> None) \<rparr>)"

text \<open>A comparison with the time of an invalid date is false.\<close>

definition notify_due :: "(string \<Rightarrow> int option) \<Rightarrow> session_state \<Rightarrow> session_failure \<Rightarrow> timestamp \<Rightarrow> bool" where
  "notify_due date_ms state failure now =
     (ss_failureThreshold state \<le> sf_count failure \<and>
      (case Option.bind (sf_lastNotifiedAt failure) date_ms of
         None \<Rightarrow> True
       | Some last_ms \<Rightarrow>
           (case date_ms now of
              None \<Rightarrow> False
            | Some now_ms \<Rightarrow> ss_failureNotifyCooldownMs state \<le> now_ms - last_ms)))"

definition retry_delay :: "session_state \<Rightarrow> session_failure \<Rightarrow> int" where
  "retry_delay state failure =
     min (ss_retryMaxMs state) (ss_retryBaseMs state * 2 ^ nat (min (sf_count failure - 1) 10))"

definition failure_notice ::
  "(string \<Rightarrow> string) \<Rightarrow> session_wording \<Rightarrow> session_state \<Rightarrow> session_operation \<Rightarrow> session_failure \<Rightarrow> timestamp \<Rightarrow> workflow_effect_input" where
  "failure_notice sha words state op failure now =
     notification sha state (''failure:'' @ operation_text op @ '':'' @ now)
       (if op = OpDelete then sw_deleteFailedTitle words else sw_maintainFailedTitle words)
       (sw_sessionLabel words @ ss_sessionId state @ [CHR 0x0A] @ sw_failedBefore words @ show_int (sf_count failure) @ sw_failedAfter words)
       now"

definition retryDecision ::
  "(string \<Rightarrow> int option) \<Rightarrow> (int \<Rightarrow> timestamp) \<Rightarrow> (string \<Rightarrow> string) \<Rightarrow> session_wording \<Rightarrow>
   session_state \<Rightarrow> session_operation \<Rightarrow> workflow_event \<Rightarrow> session_decision result" where
  "retryDecision date_ms iso_text sha words state op event =
     (let now = wv_occurredAt event; failure = failure_after date_ms state op event;
          should = notify_due date_ms state failure now;
          settled = (if should then failure\<lparr>sf_lastNotifiedAt := Some now\<rparr> else failure) in
      rbind (date_after date_ms iso_text now (retry_delay state failure)) (\<lambda>wakeAt.
      Inr \<lparr> sd_status = WWaiting,
            sd_state = state\<lparr>ss_phase := (if op = OpDelete then SArchived else SWaiting), ss_failure := Some settled\<rparr>,
            sd_wakeAt = WakeAt wakeAt,
            sd_effects = (if should then [failure_notice sha words state op failure now] else []) \<rparr>))"

section \<open>Creation\<close>





section \<open>An event\<close>

definition phase_text :: "session_phase \<Rightarrow> string" where
  "phase_text phase =
     (case phase of SWaiting \<Rightarrow> ''waiting'' | SInspecting \<Rightarrow> ''inspecting'' | SChecking \<Rightarrow> ''checking-task''
      | SArchiving \<Rightarrow> ''archiving'' | SArchived \<Rightarrow> ''archived'' | SDeleting \<Rightarrow> ''deleting'' | SCompleted \<Rightarrow> ''completed'')"

text \<open>\<open>String(outcome)\<close>, where it can be the text of an outcome: an array of one element has that element's text.\<close>

fun outcome_text :: "jval \<Rightarrow> string" where
  "outcome_text (JStr s) = s"
| "outcome_text (JArr [v]) = outcome_text v"
| "outcome_text _ = []"

abbreviation stay :: "session_state \<Rightarrow> wake_change \<Rightarrow> workflow_effect_input list \<Rightarrow> session_decision" where
  "stay state wake effects \<equiv> \<lparr> sd_status = WWaiting, sd_state = state, sd_wakeAt = wake, sd_effects = effects \<rparr>"

definition on_eligible :: "session_state \<Rightarrow> timestamp \<Rightarrow> session_decision result" where
  "on_eligible state now =
     (if ss_phase state \<noteq> SWaiting then throw (''session eligibility cannot change during '' @ phase_text (ss_phase state))
      else Inr (stay (state\<lparr>ss_eligible := True\<rparr>) (WakeAt now) []))"

definition on_poll ::
  "(string \<Rightarrow> int option) \<Rightarrow> (int \<Rightarrow> timestamp) \<Rightarrow> (string \<Rightarrow> string) \<Rightarrow> session_state \<Rightarrow> timestamp \<Rightarrow> session_decision result" where
  "on_poll date_ms iso_text sha state now =
     (if \<not> ss_eligible state
      then rbind (date_after date_ms iso_text now (ss_pollIntervalMs state)) (\<lambda>t. Inr (stay state (WakeAt t) []))
      else (let next_state = state\<lparr>ss_phase := SInspecting, ss_sequence := ss_sequence state + 1\<rparr> in
            Inr (stay next_state ClearWake
                   [session_effect (session_effectId sha next_state OpInspect) inspect_kind now
                      [(''sessionId'', JStr (ss_sessionId state))]])))"

definition on_inspected ::
  "(string \<Rightarrow> int option) \<Rightarrow> (int \<Rightarrow> timestamp) \<Rightarrow> (string \<Rightarrow> string) \<Rightarrow> session_state \<Rightarrow> workflow_event \<Rightarrow> session_decision result" where
  "on_inspected date_ms iso_text sha state event =
     (let now = wv_occurredAt event; exists = js_get (wv_payload event) ''exists'';
          archived = js_get (wv_payload event) ''archived''; running = js_get (wv_payload event) ''running'' in
      if exists \<notin> {JBool True, JBool False} \<or> archived \<notin> {JBool True, JBool False}
         \<or> running \<notin> {JBool True, JBool False, JStr ''unknown''}
      then throw ''session inspect result is invalid''
      else if exists = JBool False
      then Inr \<lparr> sd_status = WCompleted, sd_state = (withoutFailure state)\<lparr>ss_phase := SCompleted, ss_deletedAt := Some now\<rparr>,
                 sd_wakeAt = ClearWake, sd_effects = [] \<rparr>
      else if running \<noteq> JBool False
      then rbind (date_after date_ms iso_text now (ss_pollIntervalMs state)) (\<lambda>t.
           Inr (stay ((withoutFailure state)\<lparr>ss_phase := SWaiting\<rparr>) (WakeAt t) []))
      else if archived = JBool True
      then rbind (date_after date_ms iso_text now (ss_deleteAfterMs state)) (\<lambda>t.
           Inr (stay ((withoutFailure state)\<lparr>ss_phase := SArchived, ss_archivedAt := Some now\<rparr>) (WakeAt t) []))
      else Inr (stay ((withoutFailure state)\<lparr>ss_phase := SChecking\<rparr>) ClearWake
                  [session_effect (session_effectId sha state OpTaskCheck) isCompleted_kind now
                     [(''taskId'', JStr (ss_taskId state))]]))"

definition on_task_checked ::
  "(string \<Rightarrow> int option) \<Rightarrow> (int \<Rightarrow> timestamp) \<Rightarrow> (string \<Rightarrow> string) \<Rightarrow> session_state \<Rightarrow> workflow_event \<Rightarrow> session_decision result" where
  "on_task_checked date_ms iso_text sha state event =
     (let now = wv_occurredAt event; completed = js_get (wv_payload event) ''completed'' in
      if completed \<notin> {JBool True, JBool False} then throw ''task completion result is invalid''
      else if completed = JBool False
      then rbind (date_after date_ms iso_text now (ss_pollIntervalMs state)) (\<lambda>t.
           Inr (stay ((withoutFailure state)\<lparr>ss_phase := SWaiting\<rparr>) (WakeAt t) []))
      else Inr (stay ((withoutFailure state)\<lparr>ss_phase := SArchiving\<rparr>) ClearWake
                  [session_effect (session_effectId sha state OpArchive) archive_kind now
                     [(''sessionId'', JStr (ss_sessionId state)), (''managedBy'', JStr managedBy_text), (''effectiveAt'', JStr now),
                      (''authorization'', authorization_json (ss_authorization state))]]))"

definition on_archived ::
  "(string \<Rightarrow> int option) \<Rightarrow> (int \<Rightarrow> timestamp) \<Rightarrow> (string \<Rightarrow> string) \<Rightarrow> session_wording \<Rightarrow> session_state \<Rightarrow> workflow_event \<Rightarrow>
   session_decision result" where
  "on_archived date_ms iso_text sha words state event =
     (let now = wv_occurredAt event; already = js_get (wv_payload event) ''alreadyArchived'' in
      rbind (date_text date_ms (js_get (wv_payload event) ''archivedAt'') ''archive effect archivedAt'') (\<lambda>archivedAt.
      if already \<notin> {JBool True, JBool False} then throw ''archive effect alreadyArchived is invalid''
      else rbind (date_after date_ms iso_text archivedAt (ss_deleteAfterMs state)) (\<lambda>t.
           Inr (stay ((withoutFailure state)\<lparr>ss_phase := SArchived, ss_archivedAt := Some archivedAt\<rparr>) (WakeAt t)
                  (if already = JBool True then []
                   else [notification sha state ''archived'' (sw_archivedTitle words)
                           (sw_sessionLabel words @ ss_sessionId state @ [CHR 0x0A] @ sw_taskLabel words @ ss_taskId state) now])))))"

definition archivedAt_json :: "session_state \<Rightarrow> jval" where
  "archivedAt_json state = (case ss_archivedAt state of None \<Rightarrow> JUndefined | Some t \<Rightarrow> JStr t)"

definition on_retention_over :: "(string \<Rightarrow> string) \<Rightarrow> session_state \<Rightarrow> timestamp \<Rightarrow> session_decision" where
  "on_retention_over sha state now =
     (let next_state = state\<lparr>ss_phase := SDeleting, ss_sequence := ss_sequence state + 1\<rparr> in
      stay next_state ClearWake
        [session_effect (session_effectId sha next_state OpDelete) delete_kind now
           [(''sessionId'', JStr (ss_sessionId state)), (''managedBy'', JStr managedBy_text),
            (''archivedAt'', archivedAt_json state), (''effectiveAt'', JStr now),
            (''authorization'', authorization_json (ss_authorization state))]])"

definition on_deleted ::
  "(string \<Rightarrow> int option) \<Rightarrow> (int \<Rightarrow> timestamp) \<Rightarrow> session_state \<Rightarrow> workflow_event \<Rightarrow> session_decision result" where
  "on_deleted date_ms iso_text state event =
     (let now = wv_occurredAt event; outcome = js_get (wv_payload event) ''outcome'' in
      if outcome = JStr ''deleted'' \<or> outcome = JStr ''missing''
      then Inr \<lparr> sd_status = WCompleted, sd_state = (withoutFailure state)\<lparr>ss_phase := SCompleted, ss_deletedAt := Some now\<rparr>,
                 sd_wakeAt = KeepWake, sd_effects = [] \<rparr>
      else if outcome_text outcome \<in> {''deleted'', ''missing'', ''not-archived'', ''running''}
      then rbind (date_after date_ms iso_text now (ss_pollIntervalMs state)) (\<lambda>t.
           Inr (stay ((withoutFailure state)\<lparr>ss_phase := SArchived\<rparr>) (WakeAt t) []))
      else throw ''delete effect outcome is invalid'')"

text \<open>\<open>reduce\<close>: the branches in the order of the code.\<close>

definition session_reduce ::
  "(string \<Rightarrow> int option) \<Rightarrow> (int \<Rightarrow> timestamp) \<Rightarrow> (string \<Rightarrow> string) \<Rightarrow> session_wording \<Rightarrow> session_state \<Rightarrow> workflow_event \<Rightarrow>
   session_decision result" where
  "session_reduce date_ms iso_text sha words state event =
     (let kind = effectKind event; phase = ss_phase state; now = wv_occurredAt event;
          delivered = (wv_type event = ''effect.delivered''); failed = (wv_type event = ''effect.failed'') in
      if wv_type event = ''session.eligible'' then on_eligible state now
      else if wv_type event = ''timer'' \<and> phase = SWaiting then on_poll date_ms iso_text sha state now
      else if delivered \<and> phase = SInspecting \<and> kind = Some inspect_kind then on_inspected date_ms iso_text sha state event
      else if delivered \<and> phase = SChecking \<and> kind = Some isCompleted_kind then on_task_checked date_ms iso_text sha state event
      else if delivered \<and> phase = SArchiving \<and> kind = Some archive_kind then on_archived date_ms iso_text sha words state event
      else if wv_type event = ''timer'' \<and> phase = SArchived then Inr (on_retention_over sha state now)
      else if (delivered \<or> failed) \<and> kind = Some notifyOwner_kind then Inr (stay state KeepWake [])
      else if delivered \<and> phase = SDeleting \<and> kind = Some delete_kind then on_deleted date_ms iso_text state event
      else (case (if failed then operationFor kind phase else None) of
              Some op \<Rightarrow> retryDecision date_ms iso_text sha words state op event
            | None \<Rightarrow>
                if phase = SWaiting \<or> phase = SArchived
                then rbind (date_after date_ms iso_text now (ss_pollIntervalMs state)) (\<lambda>t. Inr (stay state (WakeAt t) []))
                else Inr \<lparr> sd_status = (if phase = SCompleted then WCompleted else WWaiting), sd_state = state,
                           sd_wakeAt = KeepWake, sd_effects = [] \<rparr>))"

section \<open>A session under the workflow runtime\<close>






definition as_claimed :: "workflow_effect_input \<Rightarrow> claimed_workflow_effect" where
  "as_claimed e = \<lparr> cx_id = we_id e, cx_instanceId = [], cx_kind = we_kind e, cx_payload = we_payload e, cx_attempt = 1 \<rparr>"






text \<open>The effect a phase waits for.\<close>

definition phase_operation :: "session_phase \<Rightarrow> session_operation option" where
  "phase_operation phase =
     (case phase of SInspecting \<Rightarrow> Some OpInspect | SChecking \<Rightarrow> Some OpTaskCheck | SArchiving \<Rightarrow> Some OpArchive
      | SDeleting \<Rightarrow> Some OpDelete | _ \<Rightarrow> None)"

definition operation_kind :: "session_operation \<Rightarrow> string" where
  "operation_kind op =
     (case op of OpInspect \<Rightarrow> inspect_kind | OpTaskCheck \<Rightarrow> isCompleted_kind | OpArchive \<Rightarrow> archive_kind | OpDelete \<Rightarrow> delete_kind)"



section \<open>Lemmas\<close>

lemma kinds_differ [simp]:
  "inspect_kind \<noteq> isCompleted_kind" "inspect_kind \<noteq> archive_kind" "inspect_kind \<noteq> delete_kind" "inspect_kind \<noteq> notifyOwner_kind"
  "isCompleted_kind \<noteq> archive_kind" "isCompleted_kind \<noteq> delete_kind" "isCompleted_kind \<noteq> notifyOwner_kind"
  "archive_kind \<noteq> delete_kind" "archive_kind \<noteq> notifyOwner_kind" "delete_kind \<noteq> notifyOwner_kind"
  by (simp_all add: inspect_kind_def isCompleted_kind_def archive_kind_def delete_kind_def notifyOwner_kind_def)

lemmas kinds_differ_sym [simp] = kinds_differ [symmetric]


lemma session_effect_fields [simp]:
  "we_id (session_effect i kind now entries) = i" "we_kind (session_effect i kind now entries) = kind"
  "we_payload (session_effect i kind now entries) = JObj ObjectProto entries"
  "we_availableAt (session_effect i kind now entries) = Some now"
  by (simp_all add: session_effect_def)

lemma session_effectId_cong [simp]:
  "session_effectId sha (s\<lparr>ss_phase := p\<rparr>) op = session_effectId sha s op"
  "session_effectId sha (withoutFailure s) op = session_effectId sha s op"
  "session_effectId sha (s\<lparr>ss_failure := f\<rparr>) op = session_effectId sha s op"
  by (simp_all add: session_effectId_def withoutFailure_def)

text \<open>What a decision leaves: a wake, an effect of the new phase, completion, or everything as it was.\<close>

definition makes_progress :: "(string \<Rightarrow> string) \<Rightarrow> session_decision \<Rightarrow> bool" where
  "makes_progress sha d =
     (case phase_operation (ss_phase (sd_state d)) of
        Some op \<Rightarrow> \<exists>e. sd_effects d = [e] \<and> we_kind e = operation_kind op \<and> we_id e = session_effectId sha (sd_state d) op
      | None \<Rightarrow> ss_phase (sd_state d) = SCompleted \<or> (\<exists>t. sd_wakeAt d = WakeAt t))"






lemma on_retention_over_progress [simp]: "makes_progress sha (on_retention_over sha s now)"
  by (simp add: on_retention_over_def makes_progress_def phase_operation_def operation_kind_def Let_def)






lemma map_of_put_entry: "map_of (put_entry k v kvs) l = (if l = k then Some v else map_of kvs l)"
  by (induction kvs) auto

lemma answer_kind [simp]:
  "effectKind (delivered_event e output now) = Some (cx_kind e)" "effectKind (failed_event e msg now) = Some (cx_kind e)"
  "wv_type (delivered_event e output now) = ''effect.delivered''" "wv_type (failed_event e msg now) = ''effect.failed''"
  "wv_occurredAt (delivered_event e output now) = now" "wv_occurredAt (failed_event e msg now) = now"
  "wv_type (timer_event w now) = ''timer''" "wv_occurredAt (timer_event w now) = now"
  by (simp_all add: effectKind_def delivered_event_def failed_event_def timer_event_def map_of_put_entry)

lemma as_claimed_kind [simp]: "cx_kind (as_claimed e) = we_kind e"
  by (simp add: as_claimed_def)








section \<open>The retention period\<close>






abbreviation "operations pending \<equiv> filter (\<lambda>e. we_kind e \<noteq> notifyOwner_kind) pending"








text \<open>Beside notifications a decision asks for nothing but the operation of its phase.\<close>

lemma notification_kind [simp]: "we_kind (notification sha s suffix title body now) = notifyOwner_kind"
  by (simp add: notification_def Let_def)

lemma failure_notice_kind [simp]: "we_kind (failure_notice sha words s op f now) = notifyOwner_kind"
  by (simp add: failure_notice_def)







lemma notification_answered:
  assumes "wv_type event \<in> {''effect.delivered'', ''effect.failed''}" "effectKind event = Some notifyOwner_kind"
  shows "session_reduce date_ms iso_text sha words s event = Inr (stay s KeepWake [])"
  using assms by (auto simp: session_reduce_def)


















text \<open>
  What the retention rests on: an event that no branch of \<open>archived\<close> expects puts the timer at the poll
  interval, and the answer to a notification puts a completed session back to waiting.
\<close>

lemma stray_event_shortens_retention:
  assumes "ss_phase s = SArchived" "wv_type event \<notin> {''timer'', ''session.eligible''}" "effectKind event \<noteq> Some notifyOwner_kind"
    and "date_after date_ms iso_text (wv_occurredAt event) (ss_pollIntervalMs s) = Inr t"
  shows "session_reduce date_ms iso_text sha words s event = Inr (stay s (WakeAt t) [])"
proof -
  from assms(1) have "operationFor (effectKind event) (ss_phase s) = None" by (simp add: operationFor_def)
  with assms show ?thesis by (auto simp: session_reduce_def Let_def)
qed

lemma notification_reopens_completed:
  assumes "ss_phase s = SCompleted" "wv_type event \<in> {''effect.delivered'', ''effect.failed''}" "effectKind event = Some notifyOwner_kind"
  obtains d where "session_reduce date_ms iso_text sha words s event = Inr d" "sd_status d = WWaiting" "sd_state d = s"
  using notification_answered [OF assms(2,3)] by fastforce

section \<open>Witnesses\<close>

text \<open>Dates written in 54 binary digits.\<close>

fun binary_text :: "nat \<Rightarrow> int \<Rightarrow> string" where
  "binary_text 0 i = []"
| "binary_text (Suc n) i = (if i mod 2 = 1 then CHR ''1'' else CHR ''0'') # binary_text n (i div 2)"

fun binary_value :: "string \<Rightarrow> int" where
  "binary_value [] = 0"
| "binary_value (c # cs) = (if c = CHR ''1'' then 1 else 0) + 2 * binary_value cs"

lemma binary_text_value: "0 \<le> i \<Longrightarrow> i < 2 ^ n \<Longrightarrow> binary_value (binary_text n i) = i"
proof (induction n arbitrary: i)
  case (Suc n)
  then have "binary_value (binary_text n (i div 2)) = i div 2" by simp
  then show ?case by (simp add: mult.commute) presburger
qed simp

definition binary_iso :: "int \<Rightarrow> timestamp" where
  "binary_iso ms = binary_text 54 (ms + 9007199254740992)"

definition binary_date :: "string \<Rightarrow> int option" where
  "binary_date s = (if length s = 54 then Some (binary_value s - 9007199254740992) else None)"

lemma length_binary_text [simp]: "length (binary_text n i) = n"
  by (induction n arbitrary: i) auto

lemma binary_dates [simp]: "\<bar>ms\<bar> \<le> 8640000000000000 \<Longrightarrow> binary_date (binary_iso ms) = Some ms"
  by (simp add: binary_date_def binary_iso_def binary_text_value)

lemma set_binary_text: "c \<in> set (binary_text n i) \<Longrightarrow> c = CHR ''0'' \<or> c = CHR ''1''"
  by (induction n arbitrary: i) (auto split: if_splits)

lemma binary_iso_length [simp]: "length (binary_iso ms) = 54"
  by (simp add: binary_iso_def)

lemma binary_iso_not_blank [simp]: "\<not> blank (binary_iso ms)"
proof -
  from binary_iso_length [of ms] obtain c where "c \<in> set (binary_iso ms)" by (cases "binary_iso ms") auto
  with set_binary_text show ?thesis by (fastforce simp: blank_iff binary_iso_def is_ws_def)
qed














end
