(* ===== verification/Session_Effects.thy ===== *)
theory Session_Effects
  imports Session_Lifecycle
begin

text \<open>
  The adapter that carries out the effects of a session (session-lifecycle/codex-effect-plugin.ts):
  inspection, archiving and deletion of a Codex session with the guards before each, the reader of
  Codex's thread table and the probe of the app server. Codex itself is a parameter: what its tables
  and its server answer and what its command does to the outside, whose state has type \<open>'w\<close>; an
  \<open>await\<close> lets others act on it. Every command that is run is recorded with the state it found.
\<close>

section \<open>Reading a session\<close>





section \<open>The probe of the app server\<close>

datatype activity = Running | Idle | UnknownActivity

definition codexThreadActivity :: "jval \<Rightarrow> activity" where
  "codexThreadActivity answer =
     (if \<not> is_record answer then UnknownActivity
      else let thread = js_get answer ''thread'';
               status = (if is_record thread then js_get thread ''status'' else JUndefined);
               type = (if is_record status then js_get status ''type'' else JUndefined) in
           if type = JStr ''active'' then Running else if type = JStr ''idle'' then Idle else UnknownActivity)"

definition create_probe :: "string \<Rightarrow> jnum \<Rightarrow> unit result" where
  "create_probe socket timeoutMs =
     (if blank socket then throw ''Codex app-server socket is required''
      else if \<not> safe_integer timeoutMs \<or> int_num timeoutMs < 100 \<or> int_num timeoutMs > 30000
      then throw ''Codex activity timeout must be between 100 and 30000 milliseconds''
      else Inr ())"

text \<open>
  A probe has settled or not, and has sent messages. A line is what \<open>JSON.parse\<close> makes of it, if
  anything; the flag says whether writing an answer to it throws.
\<close>

record probe =
  pb_settled :: "activity option"
  pb_sent :: "jval list"

datatype probe_event = ProbeLine "jval option" bool | ProbeTimeout | ChildError | ChildExit | StdinError

definition probe_finish :: "activity \<Rightarrow> probe \<Rightarrow> probe" where
  "probe_finish answer p = (if pb_settled p \<noteq> None then p else p\<lparr>pb_settled := Some answer\<rparr>)"

definition probe_send :: "bool \<Rightarrow> jval \<Rightarrow> probe \<Rightarrow> probe" where
  "probe_send throws msg p = (if throws then probe_finish UnknownActivity p else p\<lparr>pb_sent := pb_sent p @ [msg]\<rparr>)"

definition initialize_message :: jval where
  "initialize_message = JObj ObjectProto
     [(''id'', JNum (Fin 1)), (''method'', JStr ''initialize''),
      (''params'', JObj ObjectProto
         [(''clientInfo'', JObj ObjectProto [(''name'', JStr ''quarkselfai-session-lifecycle''), (''version'', JStr ''1.0.0'')]),
          (''capabilities'', JObj ObjectProto [])])]"

definition read_message :: "string \<Rightarrow> jval" where
  "read_message sessionId = JObj ObjectProto
     [(''id'', JNum (Fin 2)), (''method'', JStr ''thread/read''),
      (''params'', JObj ObjectProto [(''threadId'', JStr sessionId), (''includeTurns'', JBool False)])]"

definition initialized_message :: jval where
  "initialized_message = JObj ObjectProto [(''method'', JStr ''initialized'')]"

definition on_line :: "string \<Rightarrow> jval option \<Rightarrow> bool \<Rightarrow> probe \<Rightarrow> probe" where
  "on_line sessionId line throws p =
     (case line of
        None \<Rightarrow> p
      | Some msg \<Rightarrow>
          if \<not> is_record msg then p
          else if js_get msg ''id'' = JNum (Fin 1) \<and> is_record (js_get msg ''result'')
          then probe_send throws (read_message sessionId) (probe_send throws initialized_message p)
          else if js_get msg ''id'' \<noteq> JNum (Fin 2) \<or> \<not> is_record (js_get msg ''result'') then p
          else probe_finish (codexThreadActivity (js_get msg ''result'')) p)"

fun probe_step :: "string \<Rightarrow> probe_event \<Rightarrow> probe \<Rightarrow> probe" where
  "probe_step sessionId (ProbeLine line throws) p = on_line sessionId line throws p"
| "probe_step sessionId ProbeTimeout p = probe_finish UnknownActivity p"
| "probe_step sessionId ChildError p = probe_finish UnknownActivity p"
| "probe_step sessionId ChildExit p = probe_finish UnknownActivity p"
| "probe_step sessionId StdinError p = probe_finish UnknownActivity p"

definition probe_started :: "bool \<Rightarrow> probe" where
  "probe_started throws = probe_send throws initialize_message \<lparr> pb_settled = None, pb_sent = [] \<rparr>"

definition probe_running :: "string \<Rightarrow> bool \<Rightarrow> probe_event list \<Rightarrow> activity option" where
  "probe_running sessionId throws events = pb_settled (fold (probe_step sessionId) events (probe_started throws))"

section \<open>The adapter\<close>



record codex_config =
  cc_executable :: "string option"
  cc_stateDatabase :: string
  cc_workspace :: string

definition create_adapter :: "codex_config \<Rightarrow> unit result" where
  "create_adapter config =
     (if blank (cc_stateDatabase config) then throw ''Codex session stateDatabase is required''
      else if blank (cc_workspace config) then throw ''Codex session workspace is required''
      else Inr ())"


















section \<open>Lemmas\<close>

lemma probe_finish_settled: "pb_settled (probe_finish a p) = (if pb_settled p = None then Some a else pb_settled p)"
  by (auto simp: probe_finish_def)

text \<open>What a probe can settle on: nothing is reported idle but what the server's answer calls idle.\<close>

definition idle_answer :: "probe_event \<Rightarrow> bool" where
  "idle_answer ev =
     (case ev of
        ProbeLine (Some msg) _ \<Rightarrow> js_get msg ''id'' = JNum (Fin 2) \<and>
          js_get (js_get (js_get (js_get msg ''result'') ''thread'') ''status'') ''type'' = JStr ''idle''
      | _ \<Rightarrow> False)"

lemma js_get_not_record: "\<not> is_record v \<Longrightarrow> js_get v k = JUndefined"
  by (cases v) (simp_all add: is_record_def)

lemma codexThreadActivity_idle:
  "codexThreadActivity answer = Idle \<longleftrightarrow> js_get (js_get (js_get answer ''thread'') ''status'') ''type'' = JStr ''idle''"
  by (auto simp: codexThreadActivity_def Let_def js_get_not_record)

lemma probe_step_idle:
  "pb_settled (probe_step sessionId ev p) = Some Idle \<Longrightarrow> pb_settled p = Some Idle \<or> idle_answer ev"
  by (cases ev)
    (auto simp: probe_finish_settled probe_send_def on_line_def idle_answer_def codexThreadActivity_idle split: option.splits if_splits)

text \<open>A session is reported idle only when an answer of the server said so.\<close>

lemma probe_idle_only_when_told:
  assumes "probe_running sessionId throws events = Some Idle"
  shows "\<exists>ev\<in>set events. idle_answer ev"
proof -
  have "pb_settled p = Some Idle \<or> (\<exists>ev\<in>set events. idle_answer ev)"
    if "pb_settled (fold (probe_step sessionId) events p) = Some Idle" for p
    using that by (induction events arbitrary: p) (auto dest: probe_step_idle)
  moreover have "pb_settled (probe_started throws) \<noteq> Some Idle"
    by (simp add: probe_started_def probe_send_def probe_finish_settled)
  ultimately show ?thesis using assms unfolding probe_running_def by blast
qed





section \<open>A session's own request for deletion\<close>









lemma of_int_number [simp]:
  "int_num (Fin (of_int k)) = k" "safe_integer (Fin (of_int k)) \<longleftrightarrow> \<bar>k\<bar> \<le> 9007199254740991"
proof -
  show "int_num (Fin (of_int k)) = k" by simp
  have "\<bar>of_int k :: rat\<bar> \<le> 9007199254740991 \<longleftrightarrow> \<bar>k\<bar> \<le> 9007199254740991"
    by (metis of_int_abs of_int_le_numeral_iff)
  then show "safe_integer (Fin (of_int k)) \<longleftrightarrow> \<bar>k\<bar> \<le> 9007199254740991" by simp
qed






lemma js_get_request [simp]:
  "js_get (JObj ObjectProto [(''sessionId'', a), (''managedBy'', b), (''archivedAt'', c), (''effectiveAt'', d), (''authorization'', e)]) ''sessionId'' = a"
  "js_get (JObj ObjectProto [(''sessionId'', a), (''managedBy'', b), (''archivedAt'', c), (''effectiveAt'', d), (''authorization'', e)]) ''managedBy'' = b"
  "js_get (JObj ObjectProto [(''sessionId'', a), (''managedBy'', b), (''archivedAt'', c), (''effectiveAt'', d), (''authorization'', e)]) ''archivedAt'' = c"
  "js_get (JObj ObjectProto [(''sessionId'', a), (''managedBy'', b), (''archivedAt'', c), (''effectiveAt'', d), (''authorization'', e)]) ''effectiveAt'' = d"
  "js_get (JObj ObjectProto [(''sessionId'', a), (''managedBy'', b), (''archivedAt'', c), (''effectiveAt'', d), (''authorization'', e)]) ''authorization'' = e"
  by simp_all

lemma authorization_json_reads [simp]:
  "is_record (authorization_json a)"
  "js_get (authorization_json a) ''minimumArchivedDays'' = JNum (Fin (of_int (sz_minimumArchivedDays a)))"
  by (simp_all add: authorization_json_def is_record_def Let_def)


section \<open>Witnesses\<close>








end
