(* ===== verification/Network_Recovery.thy ===== *)
theory Network_Recovery
  imports Channel_Domain
begin

text \<open>
  Network recovery (network-recovery/): which failures call for it, the staged recovery that probes the
  endpoints and runs the reviewed helper once per stage, and the service that starts it. The command
  runner and the clock are parameters over the outside world, whose state has type \<open>'w\<close>.
\<close>

section \<open>Policy\<close>

record failure_signal =
  fg_actionId :: string
  fg_attempt :: int
  fg_error :: string
  fg_occurredAt :: timestamp

record connectivity =
  cy_currentGoogle :: bool
  cy_directGoogle :: bool
  cy_codex :: bool
  cy_feishu :: bool
  cy_blacklake :: bool
  cy_observedAt :: timestamp

datatype recovery_step = DisableClash | SwitchCalvin | SwitchBlacklake | EnableBlacklakeRoute

text \<open>The patterns ignore case. \<open>rate.?limit\<close> allows one character between, no line terminator.\<close>

definition connection_words :: "string list" where
  "connection_words =
     [''time out'', ''timed out'', ''timeout'', ''reconnect'', ''connection'', ''network'', ''transport'', ''websocket'',
      ''dns'', ''no such host'', ''econn'', ''socket'', ''tls'', ''certificate'', ''502'', ''503'', ''504'']"

definition non_network_words :: "string list" where
  "non_network_words =
     [''401'', ''403'', ''unauthorised'', ''unauthorized'', ''authentication'', ''api key'', ''quota'', ''ratelimit'', ''429'',
      ''schema'', ''response_format'', ''invalid_request'', ''model not found'', ''permission denied'']"

fun rate_limit :: "string \<Rightarrow> bool" where
  "rate_limit [] = False"
| "rate_limit (c # cs) =
     (starts_with ''rate'' (c # cs) \<and> starts_with ''limit'' (drop 5 (c # cs)) \<and> (c # cs) ! 4 \<notin> {CHR 0x0A, CHR 0x0D}
      \<or> rate_limit cs)"

definition connection_failure :: "string \<Rightarrow> bool" where
  "connection_failure err = (\<exists>word\<in>set connection_words. str_includes word (map lower_char err))"

definition non_network_failure :: "string \<Rightarrow> bool" where
  "non_network_failure err =
     ((\<exists>word\<in>set non_network_words. str_includes word (map lower_char err)) \<or> rate_limit (map lower_char err))"

definition isNetworkRecoveryCandidate :: "failure_signal \<Rightarrow> int \<Rightarrow> bool" where
  "isNetworkRecoveryCandidate signal minimumAttempts =
     (minimumAttempts \<le> fg_attempt signal \<and> connection_failure (fg_error signal) \<and> \<not> non_network_failure (fg_error signal))"

definition endpointHealthy :: "connectivity \<Rightarrow> bool" where
  "endpointHealthy probe = (cy_codex probe \<and> cy_feishu probe)"

definition nextRecoveryStep :: "connectivity \<Rightarrow> recovery_step list \<Rightarrow> recovery_step option" where
  "nextRecoveryStep probe completed =
     (if endpointHealthy probe then None
      else if DisableClash \<notin> set completed then Some DisableClash
      else if SwitchCalvin \<notin> set completed then Some SwitchCalvin
      else if SwitchBlacklake \<notin> set completed then Some SwitchBlacklake
      else if EnableBlacklakeRoute \<notin> set completed then Some EnableBlacklakeRoute
      else None)"

text \<open>\<open>String(Math.floor(timestamp / bucketMs))\<close>, with the quotients by zero.\<close>

definition recoveryBucket :: "(string \<Rightarrow> int option) \<Rightarrow> timestamp \<Rightarrow> int \<Rightarrow> string result" where
  "recoveryBucket date_ms t bucketMs =
     (case date_ms t of
        None \<Rightarrow> throw ''network recovery timestamp is invalid''
      | Some ms \<Rightarrow>
          Inr (if bucketMs \<noteq> 0 then show_int (ms div bucketMs)
               else if ms = 0 then ''NaN'' else if ms > 0 then ''Infinity'' else ''-Infinity''))"

section \<open>The adapter\<close>

record recovery_config =
  nc_enabled :: bool
  nc_mutationsEnabled :: bool
  nc_minimumExecutorAttempts :: "int option"
  nc_cooldownMs :: "int option"
  nc_helperExecutable :: "string option"
  nc_googleUrl :: "string option"
  nc_codexUrl :: "string option"
  nc_feishuUrl :: "string option"
  nc_blacklakeUrl :: "string option"

record run_output =
  ro_stdout :: string
  ro_stderr :: string
  ro_exitCode :: int

record 'w network_host =
  nh_run :: "string \<Rightarrow> string list \<Rightarrow> int \<Rightarrow> 'w \<Rightarrow> run_output \<times> 'w"
  nh_now :: "'w \<Rightarrow> timestamp"

datatype recovery_attempt =
    Probed connectivity
  | Mutated recovery_step bool string

datatype recovery_outcome = Healthy | Recovered | RecoveryFailed | Skipped

record recovery_report =
  rr_outcome :: recovery_outcome
  rr_startedAt :: timestamp
  rr_completedAt :: timestamp
  rr_attempts :: "recovery_attempt list"
  rr_notificationRequired :: bool
  rr_reason :: string

definition step_text :: "recovery_step \<Rightarrow> string" where
  "step_text step =
     (case step of DisableClash \<Rightarrow> ''disable-clash'' | SwitchCalvin \<Rightarrow> ''switch-calvin''
      | SwitchBlacklake \<Rightarrow> ''switch-blacklake'' | EnableBlacklakeRoute \<Rightarrow> ''enable-blacklake-route'')"

definition url_or :: "string \<Rightarrow> string option \<Rightarrow> string" where
  "url_or d u = (case u of Some x \<Rightarrow> x | None \<Rightarrow> d)"

definition status_ok :: "string \<Rightarrow> bool" where
  "status_ok s = (length s = 3 \<and> s ! 0 \<in> {CHR ''2'', CHR ''3'', CHR ''4''} \<and> digit_char (s ! 1) \<and> digit_char (s ! 2))"

definition curl :: "'w network_host \<Rightarrow> string \<Rightarrow> bool \<Rightarrow> 'w \<Rightarrow> bool \<times> 'w" where
  "curl host url direct w =
     (let args = [''--silent'', ''--show-error'', ''--output'', ''/dev/null'', ''--connect-timeout'', ''3'', ''--max-time'', ''8'',
                  ''--write-out'', ''%{http_code}''] @ (if direct then [''--noproxy'', ''*''] else []) @ [url];
          (result, w') = nh_run host ''/usr/bin/curl'' args 10000 w in
      (ro_exitCode result = 0 \<and> status_ok (js_trim (ro_stdout result)), w'))"

text \<open>The five requests run together; the model runs them in the order they are started in.\<close>

definition probe_network :: "'w network_host \<Rightarrow> recovery_config \<Rightarrow> 'w \<Rightarrow> connectivity \<times> 'w" where
  "probe_network host config w =
     (let google = url_or ''https://www.google.com/generate_204'' (nc_googleUrl config);
          (currentGoogle, w1) = curl host google False w;
          (directGoogle, w2) = curl host google True w1;
          (codex, w3) = curl host (url_or ''https://chatgpt.com/'' (nc_codexUrl config)) False w2;
          (feishu, w4) = curl host (url_or ''https://open.feishu.cn/'' (nc_feishuUrl config)) False w3;
          (blacklake, w5) = (case nc_blacklakeUrl config of
                               None \<Rightarrow> (False, w4)
                             | Some url \<Rightarrow> if url = [] then (False, w4) else curl host url False w4) in
      (\<lparr> cy_currentGoogle = currentGoogle, cy_directGoogle = directGoogle, cy_codex = codex, cy_feishu = feishu,
         cy_blacklake = blacklake, cy_observedAt = nh_now host w5 \<rparr>, w5))"

definition absolute_helper :: "recovery_config \<Rightarrow> string option" where
  "absolute_helper config =
     (case nc_helperExecutable config of None \<Rightarrow> None | Some x \<Rightarrow> if starts_with ''/'' x then Some x else None)"

definition mutate :: "'w network_host \<Rightarrow> recovery_config \<Rightarrow> recovery_step \<Rightarrow> 'w \<Rightarrow> (bool \<times> string) \<times> 'w" where
  "mutate host config step w =
     (case absolute_helper config of
        None \<Rightarrow> ((False, ''an absolute, reviewed helperExecutable is required''), w)
      | Some executable \<Rightarrow>
          (let (result, w') = nh_run host executable [step_text step] 45000 w;
               detail = take 1000 (js_trim (if ro_exitCode result = 0 then ro_stdout result else ro_stderr result)) in
           ((ro_exitCode result = 0,
             if detail \<noteq> [] then detail else ''helper exited '' @ show_int (ro_exitCode result)), w')))"

definition report ::
  "'w network_host \<Rightarrow> recovery_outcome \<Rightarrow> timestamp \<Rightarrow> recovery_attempt list \<Rightarrow> bool \<Rightarrow> string \<Rightarrow> 'w \<Rightarrow> recovery_report \<times> 'w" where
  "report host outcome startedAt attempts notificationRequired reason w =
     (\<lparr> rr_outcome = outcome, rr_startedAt = startedAt, rr_completedAt = nh_now host w, rr_attempts = attempts,
        rr_notificationRequired = notificationRequired, rr_reason = reason \<rparr>, w)"

definition open_steps :: "recovery_step list \<Rightarrow> recovery_step set" where
  "open_steps completed = {DisableClash, SwitchCalvin, SwitchBlacklake, EnableBlacklakeRoute} - set completed"

lemma nextRecoveryStep_open: "nextRecoveryStep probe completed = Some step \<Longrightarrow> step \<in> open_steps completed"
  by (auto simp: nextRecoveryStep_def open_steps_def split: if_splits)

lemma open_steps_shrink:
  assumes "nextRecoveryStep probe completed = Some step"
  shows "card (open_steps (completed @ [step])) < card (open_steps completed)"
proof -
  have "finite (open_steps completed)" by (simp add: open_steps_def)
  moreover have "open_steps (completed @ [step]) \<subset> open_steps completed"
    using nextRecoveryStep_open [OF assms] by (auto simp: open_steps_def)
  ultimately show ?thesis by (rule psubset_card_mono)
qed

function recovery_loop ::
  "'w network_host \<Rightarrow> recovery_config \<Rightarrow> timestamp \<Rightarrow> connectivity \<Rightarrow> recovery_step list \<Rightarrow> recovery_attempt list \<Rightarrow> 'w \<Rightarrow>
   recovery_report \<times> 'w" where
  "recovery_loop host config startedAt probe completed attempts w =
     (case nextRecoveryStep probe completed of
        None \<Rightarrow> report host RecoveryFailed startedAt attempts True ''all authorized recovery stages were exhausted'' w
      | Some step \<Rightarrow>
          (case mutate host config step w of
             ((changed, detail), w1) \<Rightarrow>
               (let attempts1 = attempts @ [Mutated step changed detail]; completed1 = completed @ [step] in
                if \<not> changed then recovery_loop host config startedAt probe completed1 attempts1 w1
                else (case probe_network host config w1 of
                        (probe2, w2) \<Rightarrow>
                          (let attempts2 = attempts1 @ [Probed probe2] in
                           if endpointHealthy probe2
                           then report host Recovered startedAt attempts2 False (''connectivity recovered after '' @ step_text step) w2
                           else recovery_loop host config startedAt probe2 completed1 attempts2 w2)))))"
  by pat_completeness auto
termination
  by (relation "measure (\<lambda>(host, config, startedAt, probe, completed, attempts, w). card (open_steps completed))")
    (simp_all add: open_steps_shrink)

definition recover_network :: "'w network_host \<Rightarrow> recovery_config \<Rightarrow> 'w \<Rightarrow> recovery_report \<times> 'w" where
  "recover_network host config w =
     (let startedAt = nh_now host w in
      if \<not> nc_enabled config then report host Skipped startedAt [] False ''network recovery is disabled'' w
      else (case probe_network host config w of
              (probe, w1) \<Rightarrow>
                (let attempts = [Probed probe] in
                 if endpointHealthy probe
                 then report host Healthy startedAt attempts False ''Codex and Feishu endpoints are reachable'' w1
                 else if \<not> nc_mutationsEnabled config
                 then report host RecoveryFailed startedAt attempts True
                        ''connectivity is unhealthy and network mutations are not authorized'' w1
                 else recovery_loop host config startedAt probe [] attempts w1)))"

section \<open>The service\<close>

text \<open>
  The service between two signals: the recovery in flight, if any, and the bucket of the last one
  started. A signal is handled up to its first \<open>await\<close>; what \<open>handle\<close> answers for it is known then, or
  when the recovery it joins or starts ends.
\<close>

record recovery_service =
  nv_active :: bool
  nv_lastBucket :: "string option"

datatype signal_answer = SignalIgnored | SignalRejected js_error | SignalJoined | SignalStarts string

definition handle_signal ::
  "(string \<Rightarrow> int option) \<Rightarrow> recovery_config \<Rightarrow> failure_signal \<Rightarrow> recovery_service \<Rightarrow> signal_answer \<times> recovery_service" where
  "handle_signal date_ms config signal s =
     (if \<not> isNetworkRecoveryCandidate signal (case nc_minimumExecutorAttempts config of Some n \<Rightarrow> n | None \<Rightarrow> 2)
      then (SignalIgnored, s)
      else case recoveryBucket date_ms (fg_occurredAt signal) (case nc_cooldownMs config of Some n \<Rightarrow> n | None \<Rightarrow> 30 * 60000) of
             Inl e \<Rightarrow> (SignalRejected e, s)
           | Inr bucket \<Rightarrow>
               if nv_lastBucket s = Some bucket then (SignalIgnored, s)
               else if nv_active s then (SignalJoined, s)
               else (SignalStarts bucket, s\<lparr>nv_lastBucket := Some bucket, nv_active := True\<rparr>))"

text \<open>The end of the recovery in flight, and whether the failure event is emitted.\<close>

definition recovery_ends :: "recovery_report \<Rightarrow> recovery_service \<Rightarrow> bool \<times> recovery_service" where
  "recovery_ends rep s = (rr_notificationRequired rep, s\<lparr>nv_active := False\<rparr>)"

datatype service_input = SignalArrives failure_signal | RecoveryEnds recovery_report

text \<open>The buckets of the recoveries that a sequence of inputs starts.\<close>

fun recoveries_started :: "(string \<Rightarrow> int option) \<Rightarrow> recovery_config \<Rightarrow> service_input list \<Rightarrow> recovery_service \<Rightarrow> string list" where
  "recoveries_started date_ms config [] s = []"
| "recoveries_started date_ms config (SignalArrives signal # inputs) s =
     (case handle_signal date_ms config signal s of
        (SignalStarts bucket, s') \<Rightarrow> bucket # recoveries_started date_ms config inputs s'
      | (_, s') \<Rightarrow> recoveries_started date_ms config inputs s')"
| "recoveries_started date_ms config (RecoveryEnds rep # inputs) s =
     recoveries_started date_ms config inputs (snd (recovery_ends rep s))"

section \<open>Lemmas\<close>


definition steps_of :: "recovery_attempt list \<Rightarrow> recovery_step list" where
  "steps_of attempts = concat (map (\<lambda>a. case a of Mutated step _ _ \<Rightarrow> [step] | Probed _ \<Rightarrow> []) attempts)"

lemma steps_of_simps [simp]:
  "steps_of [] = []" "steps_of (xs @ ys) = steps_of xs @ steps_of ys"
  "steps_of (Probed p # xs) = steps_of xs" "steps_of (Mutated step c d # xs) = step # steps_of xs"
  by (simp_all add: steps_of_def)

declare recovery_loop.simps [simp del]





text \<open>The text of a number determines it.\<close>

definition digits_value :: "string \<Rightarrow> nat" where
  "digits_value s = foldl (\<lambda>a c. 10 * a + (of_char c - 48)) 0 s"

lemma digits_value_show_nat: "digits_value (show_nat n) = n"
proof (induction n rule: show_nat.induct)
  case (1 n)
  then show ?case
    by (subst show_nat.simps) (auto simp: digits_value_def of_char_of take_bit_eq_mod)
qed

lemma show_nat_inj: "show_nat m = show_nat n \<longleftrightarrow> m = n"
  by (metis digits_value_show_nat)

lemma show_nat_no_sign: "CHR ''-'' \<notin> set (show_nat n)"
proof (induction n rule: show_nat.induct)
  case (1 n)
  have "CHR ''-'' \<noteq> char_of (48 + d)" if "d < 10" for d :: nat
  proof
    assume "CHR ''-'' = char_of (48 + d)"
    then have "(of_char (CHR ''-'') :: nat) = of_char (char_of (48 + d) :: char)" by (rule arg_cong)
    with that show False by (simp add: of_char_of take_bit_eq_mod)
  qed
  with 1 show ?case by (subst show_nat.simps) auto
qed

lemma show_int_inj: "show_int i = show_int j \<longleftrightarrow> i = j"
proof -
  have "''-'' @ show_nat m \<noteq> show_nat n" for m n using show_nat_no_sign [of n] by (metis append_Cons list.set_intros(1))
  then show ?thesis by (auto simp: show_int_def show_nat_inj) (metis append_Cons append_Nil)+
qed

fun signals_ordered :: "(string \<Rightarrow> int option) \<Rightarrow> int \<Rightarrow> service_input list \<Rightarrow> bool" where
  "signals_ordered date_ms t [] = True"
| "signals_ordered date_ms t (SignalArrives signal # inputs) =
     (case date_ms (fg_occurredAt signal) of
        None \<Rightarrow> signals_ordered date_ms t inputs
      | Some ms \<Rightarrow> t \<le> ms \<and> signals_ordered date_ms ms inputs)"
| "signals_ordered date_ms t (RecoveryEnds rep # inputs) = signals_ordered date_ms t inputs"

abbreviation cooldown :: "recovery_config \<Rightarrow> int" where
  "cooldown config \<equiv> (case nc_cooldownMs config of Some n \<Rightarrow> n | None \<Rightarrow> 30 * 60000)"

lemma handle_signal_cases:
  assumes "0 < cooldown config"
  obtains (started) ms where "date_ms (fg_occurredAt signal) = Some ms" "\<not> nv_active s"
      "nv_lastBucket s \<noteq> Some (show_int (ms div cooldown config))"
      "handle_signal date_ms config signal s = (SignalStarts (show_int (ms div cooldown config)),
         s\<lparr>nv_lastBucket := Some (show_int (ms div cooldown config)), nv_active := True\<rparr>)"
  | (other) answer where "handle_signal date_ms config signal s = (answer, s)" "\<forall>bucket. answer \<noteq> SignalStarts bucket"
proof (cases "date_ms (fg_occurredAt signal)")
  case None
  then have "fst (handle_signal date_ms config signal s) = SignalIgnored
      \<or> (\<exists>e. fst (handle_signal date_ms config signal s) = SignalRejected e)" "snd (handle_signal date_ms config signal s) = s"
    by (simp_all add: handle_signal_def recoveryBucket_def)
  then show ?thesis by (intro other [of "fst (handle_signal date_ms config signal s)"]) (auto simp: prod_eq_iff)
next
  case (Some ms)
  let ?k = "show_int (ms div cooldown config)"
  have bucket: "recoveryBucket date_ms (fg_occurredAt signal) (cooldown config) = Inr ?k"
    using Some assms by (simp add: recoveryBucket_def)
  consider "\<not> isNetworkRecoveryCandidate signal (case nc_minimumExecutorAttempts config of Some n \<Rightarrow> n | None \<Rightarrow> 2)"
      | "nv_lastBucket s = Some ?k" | "nv_active s"
      | "isNetworkRecoveryCandidate signal (case nc_minimumExecutorAttempts config of Some n \<Rightarrow> n | None \<Rightarrow> 2)"
        "nv_lastBucket s \<noteq> Some ?k" "\<not> nv_active s" by blast
  then show ?thesis
  proof cases
    case 1 then show ?thesis by (intro other [of SignalIgnored]) (simp_all add: handle_signal_def)
  next
    case 2 then show ?thesis by (intro other [of SignalIgnored]) (simp_all add: handle_signal_def bucket)
  next
    case 3
    then have "handle_signal date_ms config signal s \<in> {(SignalIgnored, s), (SignalJoined, s)}"
      by (simp add: handle_signal_def bucket)
    then show ?thesis using other by blast
  next
    case 4 with Some show ?thesis by (intro started [of ms]) (simp_all add: handle_signal_def bucket)
  qed
qed

lemma recoveries_started_increase:
  assumes "0 < cooldown config" "signals_ordered date_ms t inputs"
    and "\<forall>bucket. nv_lastBucket s = Some bucket \<longrightarrow> bucket = show_int k0 \<and> k0 \<le> t div cooldown config"
  shows "\<exists>ks. recoveries_started date_ms config inputs s = map show_int ks \<and> sorted_wrt (<) ks
    \<and> (\<forall>k\<in>set ks. t div cooldown config \<le> k \<and> (nv_lastBucket s \<noteq> None \<longrightarrow> k0 < k))"
  using assms
proof (induction inputs arbitrary: t s k0)
  case (Cons input inputs)
  show ?case
  proof (cases input)
    case (SignalArrives signal)
    let ?b = "cooldown config"
    define t' where "t' = (case date_ms (fg_occurredAt signal) of Some ms \<Rightarrow> ms | None \<Rightarrow> t)"
    from Cons.prems(2) SignalArrives have order: "t \<le> t'" "signals_ordered date_ms t' inputs"
      by (auto simp: t'_def split: option.splits)
    with Cons.prems(1) have le: "t div ?b \<le> t' div ?b" by (simp add: zdiv_mono1)
    from Cons.prems(1) show ?thesis
    proof (cases rule: handle_signal_cases [of config date_ms signal s])
      case (started ms)
      then have "t' = ms" by (simp add: t'_def)
      let ?k = "ms div ?b" and ?s = "s\<lparr>nv_lastBucket := Some (show_int (ms div ?b)), nv_active := True\<rparr>"
      from Cons.IH [OF Cons.prems(1) order(2), of ?s ?k] \<open>t' = ms\<close> obtain ks where
        ks: "recoveries_started date_ms config inputs ?s = map show_int ks" "sorted_wrt (<) ks" "\<forall>k\<in>set ks. ?k < k"
        by auto
      have "nv_lastBucket s \<noteq> None \<longrightarrow> k0 < ?k"
        using Cons.prems(3) started(3) le \<open>t' = ms\<close> by (auto simp: show_int_inj)
      with ks started SignalArrives le \<open>t' = ms\<close> show ?thesis by (intro exI [of _ "?k # ks"]) auto
    next
      case (other answer)
      from Cons.prems(3) le have "\<forall>bucket. nv_lastBucket s = Some bucket \<longrightarrow> bucket = show_int k0 \<and> k0 \<le> t' div ?b"
        by auto
      from Cons.IH [OF Cons.prems(1) order(2) this] other SignalArrives le show ?thesis
        by (cases answer) (auto intro!: order_trans [OF le])
    qed
  next
    case (RecoveryEnds rep)
    with Cons.IH [OF Cons.prems(1), of t "snd (recovery_ends rep s)" k0] Cons.prems show ?thesis
      by (simp add: recovery_ends_def)
  qed
qed simp

theorem one_recovery_per_bucket:
  assumes "0 < cooldown config" "signals_ordered date_ms t inputs"
  shows "distinct (recoveries_started date_ms config inputs \<lparr> nv_active = False, nv_lastBucket = None \<rparr>)"
proof -
  from recoveries_started_increase [OF assms, of "\<lparr> nv_active = False, nv_lastBucket = None \<rparr>" 0] obtain ks where
    "recoveries_started date_ms config inputs \<lparr> nv_active = False, nv_lastBucket = None \<rparr> = map show_int ks" "sorted_wrt (<) ks"
    by auto
  then show ?thesis by (simp add: distinct_map inj_on_def show_int_inj strict_sorted_iff)
qed

section \<open>Witnesses\<close>

text \<open>A network that heals after the second stage: requests fail until ten commands have been run.\<close>

definition sample_network :: "nat network_host" where
  "sample_network =
     \<lparr> nh_run = (\<lambda>executable args timeout n.
          (\<lparr> ro_stdout = (if n < 10 then ''000'' else ''204''), ro_stderr = [], ro_exitCode = 0 \<rparr>, n + 1)),
       nh_now = (\<lambda>n. ''now'') \<rparr>"

definition sample_recovery :: recovery_config where
  "sample_recovery =
     \<lparr> nc_enabled = True, nc_mutationsEnabled = True, nc_minimumExecutorAttempts = None, nc_cooldownMs = Some 1000,
       nc_helperExecutable = Some ''/opt/recover'', nc_googleUrl = None, nc_codexUrl = None, nc_feishuUrl = None,
       nc_blacklakeUrl = None \<rparr>"


definition sample_date :: "string \<Rightarrow> int option" where
  "sample_date s = (if s = ''first'' then Some 10500 else if s = ''second'' then Some 10900 else if s = ''third'' then Some 11000 else None)"

definition sample_signal :: "timestamp \<Rightarrow> service_input" where
  "sample_signal at_time = SignalArrives
     \<lparr> fg_actionId = ''a'', fg_attempt = 2, fg_error = ''connection reset'', fg_occurredAt = at_time \<rparr>"

definition sample_report :: recovery_report where
  "sample_report = fst (recover_network sample_network sample_recovery 0)"

definition sample_service_inputs :: "service_input list" where
  "sample_service_inputs =
     [sample_signal ''first'', RecoveryEnds sample_report, sample_signal ''second'', sample_signal ''third'']"

theorem one_recovery_per_bucket_witness:
  "recoveries_started sample_date sample_recovery sample_service_inputs \<lparr> nv_active = False, nv_lastBucket = None \<rparr> = [''10'', ''11'']
   \<and> distinct (recoveries_started sample_date sample_recovery sample_service_inputs \<lparr> nv_active = False, nv_lastBucket = None \<rparr>)"
proof (intro conjI)
  show "recoveries_started sample_date sample_recovery sample_service_inputs \<lparr> nv_active = False, nv_lastBucket = None \<rparr> = [''10'', ''11'']"
    by code_simp
  have "signals_ordered sample_date 0 sample_service_inputs"
    by (simp add: sample_service_inputs_def sample_signal_def sample_date_def)
  then show "distinct (recoveries_started sample_date sample_recovery sample_service_inputs \<lparr> nv_active = False, nv_lastBucket = None \<rparr>)"
    by (intro one_recovery_per_bucket) (simp add: sample_recovery_def)
qed

end
