(* ===== verification/Device_Sessions.thy ===== *)
theory Device_Sessions
  imports Capability_Checks Step_History
begin

text \<open>
  Device sessions of the control plane (control-plane/sqlite-device-session-provider.ts): a registered
  device is given a challenge, proves possession of its key and opens a session. The tables are lists
  of rows; an operation answers with a result and the store it leaves, since an expired session is
  marked even though the call fails. Tokens are arguments, in the order they are drawn; the verifier
  of a proof is a parameter. \<open>openSession\<close> awaits it, so it is two steps with others in between.
\<close>

section \<open>Tables\<close>

record cp_user =
  us_tenant :: string
  us_user :: string
  us_state :: string

record cp_device =
  dv_tenant :: string
  dv_device :: string
  dv_user :: string
  dv_publicKey :: string
  dv_state :: string

record challenge_row =
  hl_id :: string
  hl_tenant :: string
  hl_user :: string
  hl_device :: string
  hl_nonce :: string
  hl_issued_at :: timestamp
  hl_expires_at :: timestamp
  hl_consumed_at :: "timestamp option"

record device_session =
  dn_id :: string
  dn_tenant :: string
  dn_user :: string
  dn_device :: string
  dn_issuedAt :: timestamp
  dn_expiresAt :: timestamp
  dn_state :: string

record device_tables =
  tb_users :: "cp_user list"
  tb_devices :: "cp_device list"
  tb_challenges :: "challenge_row list"
  tb_sessions :: "device_session list"

section \<open>Checks\<close>

definition token_char :: "char \<Rightarrow> bool" where
  "token_char c = (lower_letter c \<or> digit_char c \<or> c \<in> {CHR ''.'', CHR ''_'', CHR '':'', CHR ''-''})"

definition tokenPattern :: "string \<Rightarrow> bool" where
  "tokenPattern s =
     (s \<noteq> [] \<and> length s \<le> 256 \<and> (lower_letter (hd s) \<or> digit_char (hd s)) \<and> list_all token_char s)"

datatype tenant_mode = TestOnly | Registered

definition deviceScope :: "string \<Rightarrow> string \<Rightarrow> string \<Rightarrow> tenant_mode \<Rightarrow> unit result" where
  "deviceScope tenantId userId deviceId mode =
     (if (mode = TestOnly \<and> \<not> starts_with ''test.'' tenantId)
         \<or> \<not> tokenPattern tenantId \<or> \<not> tokenPattern userId \<or> \<not> tokenPattern deviceId
      then throw ''inactive device provider tenant admission is invalid'' else Inr ())"

definition positive :: "jnum \<Rightarrow> string \<Rightarrow> unit result" where
  "positive value label =
     (if \<not> safe_integer value \<or> int_num value \<le> 0 then throw (label @ '' must be positive'') else Inr ())"

definition checked_token :: "string \<Rightarrow> string \<Rightarrow> string result" where
  "checked_token label value = (if \<not> tokenPattern value then throw (label @ '' token is invalid'') else Inr value)"

text \<open>A comparison with the time of a text that is no date is false.\<close>

definition past :: "(string \<Rightarrow> int option) \<Rightarrow> timestamp \<Rightarrow> int \<Rightarrow> bool" where
  "past date_ms t now = (case date_ms t of Some e \<Rightarrow> e \<le> now | None \<Rightarrow> False)"

definition device_row :: "device_tables \<Rightarrow> string \<Rightarrow> string \<Rightarrow> cp_device option" where
  "device_row st tenant device = find (\<lambda>d. dv_tenant d = tenant \<and> dv_device d = device) (tb_devices st)"

definition user_row :: "device_tables \<Rightarrow> string \<Rightarrow> string \<Rightarrow> cp_user option" where
  "user_row st tenant user = find (\<lambda>u. us_tenant u = tenant \<and> us_user u = user) (tb_users st)"

section \<open>Challenges\<close>

definition new_challenge ::
  "(int \<Rightarrow> timestamp) \<Rightarrow> tenant_mode \<Rightarrow> string \<Rightarrow> string \<Rightarrow> string \<Rightarrow> int \<Rightarrow> jnum \<Rightarrow> string \<Rightarrow> string \<Rightarrow> device_tables \<Rightarrow>
   challenge_row result" where
  "new_challenge iso_text mode tenantId userId deviceId now ttlMs challengeToken nonceToken st =
     rbind (deviceScope tenantId userId deviceId mode) (\<lambda>_.
     rbind (positive ttlMs ''challenge ttl'') (\<lambda>_.
     rbind (case device_row st tenantId deviceId of
              None \<Rightarrow> throw ''registered device is unavailable''
            | Some d \<Rightarrow>
                (case user_row st (dv_tenant d) (dv_user d) of
                   None \<Rightarrow> throw ''registered device is unavailable''
                 | Some u \<Rightarrow> if dv_user d \<noteq> userId \<or> dv_state d \<noteq> ''registered'' \<or> us_state u \<noteq> ''active''
                             then throw ''registered device is unavailable'' else Inr ())) (\<lambda>_.
     rbind (checked_token ''challenge'' challengeToken) (\<lambda>challengeId.
     rbind (checked_token ''nonce'' nonceToken) (\<lambda>nonce.
     rbind (toISOString iso_text now) (\<lambda>issuedAt.
     rbind (toISOString iso_text (now + int_num ttlMs)) (\<lambda>expiresAt.
     Inr \<lparr> hl_id = challengeId, hl_tenant = tenantId, hl_user = userId, hl_device = deviceId, hl_nonce = nonce,
           hl_issued_at = issuedAt, hl_expires_at = expiresAt, hl_consumed_at = None \<rparr>)))))))"

definition issueChallenge ::
  "(int \<Rightarrow> timestamp) \<Rightarrow> tenant_mode \<Rightarrow> string \<Rightarrow> string \<Rightarrow> string \<Rightarrow> int \<Rightarrow> jnum \<Rightarrow> string \<Rightarrow> string \<Rightarrow> device_tables \<Rightarrow>
   challenge_row result \<times> device_tables" where
  "issueChallenge iso_text mode tenantId userId deviceId now ttlMs challengeToken nonceToken st =
     (case new_challenge iso_text mode tenantId userId deviceId now ttlMs challengeToken nonceToken st of
        Inl e \<Rightarrow> (Inl e, st)
      | Inr challenge \<Rightarrow>
          if \<exists>c\<in>set (tb_challenges st). hl_id c = hl_id challenge \<or> hl_nonce c = hl_nonce challenge
          then (Inl (ConstraintError ''UNIQUE constraint failed: cp_device_challenge''), st)
          else (Inr challenge, st\<lparr>tb_challenges := tb_challenges st @ [challenge]\<rparr>))"

section \<open>Opening a session\<close>

record device_proof =
  pf_schemaVersion :: jnum
  pf_challengeId :: string
  pf_deviceId :: string
  pf_keyId :: string
  pf_algorithm :: string
  pf_signature :: string

text \<open>What is read before the proof is verified: the challenge with the key of its device.\<close>

definition read_challenge ::
  "(string \<Rightarrow> int option) \<Rightarrow> device_proof \<Rightarrow> int \<Rightarrow> jnum \<Rightarrow> device_tables \<Rightarrow> (challenge_row \<times> string) result" where
  "read_challenge date_ms proof now ttlMs st =
     rbind (positive ttlMs ''session ttl'') (\<lambda>_.
     if pf_schemaVersion proof \<noteq> Fin 1 \<or> pf_algorithm proof \<noteq> ''ed25519'' \<or> pf_keyId proof = [] \<or> pf_signature proof = []
     then throw ''device proof is invalid''
     else (case find (\<lambda>c. hl_id c = pf_challengeId proof) (tb_challenges st) of
             None \<Rightarrow> throw ''device challenge is unavailable or out of scope''
           | Some c \<Rightarrow>
               (case (device_row st (hl_tenant c) (hl_device c), user_row st (hl_tenant c) (hl_user c)) of
                  (Some d, Some u) \<Rightarrow>
                    if hl_device c \<noteq> pf_deviceId proof \<or> (hl_consumed_at c \<noteq> None \<and> hl_consumed_at c \<noteq> Some [])
                       \<or> dv_state d \<noteq> ''registered'' \<or> us_state u \<noteq> ''active''
                    then throw ''device challenge is unavailable or out of scope''
                    else if past date_ms (hl_expires_at c) now then throw ''device challenge expired''
                    else Inr (c, dv_publicKey d)
                | _ \<Rightarrow> throw ''device challenge is unavailable or out of scope'')))"

definition new_session ::
  "(int \<Rightarrow> timestamp) \<Rightarrow> challenge_row \<Rightarrow> device_proof \<Rightarrow> int \<Rightarrow> jnum \<Rightarrow> string \<Rightarrow> device_session result" where
  "new_session iso_text row proof now ttlMs sessionToken =
     rbind (checked_token ''session'' sessionToken) (\<lambda>sessionId.
     rbind (toISOString iso_text now) (\<lambda>issuedAt.
     rbind (toISOString iso_text (now + int_num ttlMs)) (\<lambda>expiresAt.
     Inr \<lparr> dn_id = sessionId, dn_tenant = hl_tenant row, dn_user = hl_user row, dn_device = pf_deviceId proof,
           dn_issuedAt = issuedAt, dn_expiresAt = expiresAt, dn_state = ''active'' \<rparr>)))"

text \<open>The transaction after the proof was verified.\<close>

definition commit_session ::
  "(int \<Rightarrow> timestamp) \<Rightarrow> challenge_row \<Rightarrow> device_proof \<Rightarrow> int \<Rightarrow> jnum \<Rightarrow> string \<Rightarrow> device_tables \<Rightarrow>
   device_session result \<times> device_tables" where
  "commit_session iso_text row proof now ttlMs sessionToken st =
     (case new_session iso_text row proof now ttlMs sessionToken of
        Inl e \<Rightarrow> (Inl e, st)
      | Inr session \<Rightarrow>
          (let open_challenge = (\<lambda>c. hl_id c = pf_challengeId proof \<and> hl_consumed_at c = None) in
           if changes open_challenge (tb_challenges st) \<noteq> 1 then (throw ''device challenge was already consumed'', st)
           else if \<exists>s\<in>set (tb_sessions st). dn_id s = dn_id session
           then (Inl (ConstraintError ''UNIQUE constraint failed: cp_device_session.session_id''), st)
           else if device_row st (dn_tenant session) (dn_device session) = None
           then (Inl (ConstraintError ''FOREIGN KEY constraint failed''), st)
           else (Inr session,
             st\<lparr>tb_challenges := update_where open_challenge (\<lambda>c. c\<lparr>hl_consumed_at := Some (dn_issuedAt session)\<rparr>) (tb_challenges st),
                tb_sessions := update_where
                    (\<lambda>s. dn_tenant s = dn_tenant session \<and> dn_device s = dn_device session \<and> dn_state s = ''active'')
                    (\<lambda>s. s\<lparr>dn_state := ''superseded''\<rparr>) (tb_sessions st) @ [session]\<rparr>)))"

text \<open>The whole call; \<open>world\<close> is what others do while the proof is verified.\<close>

definition openSession ::
  "(string \<Rightarrow> int option) \<Rightarrow> (int \<Rightarrow> timestamp) \<Rightarrow> (string \<Rightarrow> string \<Rightarrow> string \<Rightarrow> string \<Rightarrow> bool) \<Rightarrow>
   (device_tables \<Rightarrow> device_tables) \<Rightarrow> device_proof \<Rightarrow> int \<Rightarrow> jnum \<Rightarrow> string \<Rightarrow> device_tables \<Rightarrow>
   device_session result \<times> device_tables" where
  "openSession date_ms iso_text verify world proof now ttlMs sessionToken st =
     (case read_challenge date_ms proof now ttlMs st of
        Inl e \<Rightarrow> (Inl e, st)
      | Inr (row, publicKey) \<Rightarrow>
          (let st1 = world st in
           if \<not> verify publicKey (pf_algorithm proof) (hl_nonce row) (pf_signature proof)
           then (throw ''device proof verification failed'', st1)
           else commit_session iso_text row proof now ttlMs sessionToken st1))"

section \<open>The session of a call\<close>

definition activeSession :: "(string \<Rightarrow> int option) \<Rightarrow> string \<Rightarrow> int \<Rightarrow> device_tables \<Rightarrow> device_session result \<times> device_tables" where
  "activeSession date_ms sessionId now st =
     (case find (\<lambda>s. dn_id s = sessionId) (tb_sessions st) of
        None \<Rightarrow> (throw ''device session is not active'', st)
      | Some s \<Rightarrow>
          if dn_state s \<noteq> ''active'' then (throw ''device session is not active'', st)
          else if past date_ms (dn_expiresAt s) now
          then (throw ''device session expired'',
                st\<lparr>tb_sessions := update_where (\<lambda>s. dn_id s = sessionId) (\<lambda>s. s\<lparr>dn_state := ''expired''\<rparr>) (tb_sessions st)\<rparr>)
          else (Inr s, st))"

section \<open>Sequences of calls\<close>

text \<open>Administration may change users and devices as it likes.\<close>

datatype device_op =
    IssueChallenge tenant_mode string string string int jnum string string
  | CommitSession challenge_row device_proof int jnum string
  | UseSession string int
  | Administer "cp_user list" "cp_device list"

fun device_exec :: "(string \<Rightarrow> int option) \<Rightarrow> (int \<Rightarrow> timestamp) \<Rightarrow> device_op \<Rightarrow> device_tables \<Rightarrow> device_tables" where
  "device_exec date_ms iso_text (IssueChallenge mode tenant user device now ttl t1 t2) st =
     snd (issueChallenge iso_text mode tenant user device now ttl t1 t2 st)"
| "device_exec date_ms iso_text (CommitSession row proof now ttl t) st = snd (commit_session iso_text row proof now ttl t st)"
| "device_exec date_ms iso_text (UseSession i now) st = snd (activeSession date_ms i now st)"
| "device_exec date_ms iso_text (Administer users devices) st = st\<lparr>tb_users := users, tb_devices := devices\<rparr>"

definition device_run :: "(string \<Rightarrow> int option) \<Rightarrow> (int \<Rightarrow> timestamp) \<Rightarrow> device_op list \<Rightarrow> device_tables \<Rightarrow> device_tables" where
  "device_run date_ms iso_text ops st = fold (device_exec date_ms iso_text) ops st"

definition active_of :: "string \<times> string \<Rightarrow> device_tables \<Rightarrow> device_session list" where
  "active_of k st = filter (\<lambda>s. (dn_tenant s, dn_device s) = k \<and> dn_state s = ''active'') (tb_sessions st)"

definition consumed :: "string \<Rightarrow> device_tables \<Rightarrow> bool" where
  "consumed i st = list_all (\<lambda>c. hl_id c = i \<longrightarrow> hl_consumed_at c \<noteq> None) (tb_challenges st)"

definition device_inv :: "device_tables \<Rightarrow> bool" where
  "device_inv st =
     (distinct (map hl_id (tb_challenges st)) \<and> distinct (map dn_id (tb_sessions st)) \<and> (\<forall>k. length (active_of k st) \<le> 1))"

section \<open>Lemmas\<close>

lemma update_where_keeps_map: "(\<And>r. f (g r) = f r) \<Longrightarrow> map f (update_where p g rows) = map f rows"
  by (induction rows) auto

lemma challenge_ids_kept [simp]:
  "map hl_id (update_where p (\<lambda>c. c\<lparr>hl_consumed_at := v\<rparr>) rows) = map hl_id rows"
  by (rule update_where_keeps_map) simp

lemma session_ids_kept [simp]: "map dn_id (update_where p (\<lambda>s. s\<lparr>dn_state := v\<rparr>) rows) = map dn_id rows"
  by (rule update_where_keeps_map) simp

lemma issueChallenge_cases:
  obtains (refused) e where "issueChallenge iso_text mode tenant user device now ttl t1 t2 st = (Inl e, st)"
  | (issued) c where "issueChallenge iso_text mode tenant user device now ttl t1 t2 st = (Inr c, st\<lparr>tb_challenges := tb_challenges st @ [c]\<rparr>)"
      "hl_id c \<notin> hl_id ` set (tb_challenges st)" "hl_consumed_at c = None"
proof (cases "new_challenge iso_text mode tenant user device now ttl t1 t2 st")
  case (Inl e) then show ?thesis by (intro refused [of e]) (simp add: issueChallenge_def)
next
  case (Inr c)
  then have "hl_consumed_at c = None" by (auto simp: new_challenge_def rbind_Inr_iff)
  show ?thesis
  proof (cases "\<exists>r\<in>set (tb_challenges st). hl_id r = hl_id c \<or> hl_nonce r = hl_nonce c")
    case True
    with Inr have "\<exists>e. issueChallenge iso_text mode tenant user device now ttl t1 t2 st = (Inl e, st)"
      by (simp add: issueChallenge_def)
    then show ?thesis using refused by blast
  next
    case False
    with Inr \<open>hl_consumed_at c = None\<close> show ?thesis by (intro issued [of c]) (auto simp: issueChallenge_def)
  qed
qed

lemma active_of_superseded:
  "filter (\<lambda>s. (dn_tenant s, dn_device s) = k \<and> dn_state s = ''active'')
     (update_where (\<lambda>s. dn_tenant s = fst j \<and> dn_device s = snd j \<and> dn_state s = ''active'') (\<lambda>s. s\<lparr>dn_state := ''superseded''\<rparr>) rows)
   = (if k = j then [] else filter (\<lambda>s. (dn_tenant s, dn_device s) = k \<and> dn_state s = ''active'') rows)"
  by (induction rows) (auto simp: prod_eq_iff)

lemma active_of_expired:
  "length (active_of k (st\<lparr>tb_sessions := update_where p (\<lambda>s. s\<lparr>dn_state := ''expired''\<rparr>) (tb_sessions st)\<rparr>)) \<le> length (active_of k st)"
proof -
  have "length (filter (\<lambda>s. (dn_tenant s, dn_device s) = k \<and> dn_state s = ''active'')
       (update_where p (\<lambda>s. s\<lparr>dn_state := ''expired''\<rparr>) rows))
     \<le> length (filter (\<lambda>s. (dn_tenant s, dn_device s) = k \<and> dn_state s = ''active'') rows)" for rows
    by (induction rows) auto
  then show ?thesis by (simp add: active_of_def)
qed

lemma commit_session_cases:
  obtains (refused) e where "commit_session iso_text row proof now ttl t st = (Inl e, st)"
  | (opened) s where "fst (commit_session iso_text row proof now ttl t st) = Inr s"
      "dn_id s \<notin> dn_id ` set (tb_sessions st)" "dn_state s = ''active''"
      "dn_tenant s = hl_tenant row" "dn_user s = hl_user row" "dn_device s = pf_deviceId proof"
      "changes (\<lambda>c. hl_id c = pf_challengeId proof \<and> hl_consumed_at c = None) (tb_challenges st) = 1"
      "tb_challenges (snd (commit_session iso_text row proof now ttl t st))
        = update_where (\<lambda>c. hl_id c = pf_challengeId proof \<and> hl_consumed_at c = None)
            (\<lambda>c. c\<lparr>hl_consumed_at := Some (dn_issuedAt s)\<rparr>) (tb_challenges st)"
      "\<And>k. active_of k (snd (commit_session iso_text row proof now ttl t st))
        = (if k = (dn_tenant s, dn_device s) then [s] else active_of k st)"
      "map dn_id (tb_sessions (snd (commit_session iso_text row proof now ttl t st))) = map dn_id (tb_sessions st) @ [dn_id s]"
proof (cases "fst (commit_session iso_text row proof now ttl t st)")
  case (Inl e)
  then have "commit_session iso_text row proof now ttl t st = (Inl e, st)"
    by (auto simp: commit_session_def Let_def split: sum.splits if_splits)
  then show ?thesis by (rule refused)
next
  case (Inr s)
  then have st: "commit_session iso_text row proof now ttl t st = (Inr s,
       st\<lparr>tb_challenges := update_where (\<lambda>c. hl_id c = pf_challengeId proof \<and> hl_consumed_at c = None)
              (\<lambda>c. c\<lparr>hl_consumed_at := Some (dn_issuedAt s)\<rparr>) (tb_challenges st),
          tb_sessions := update_where
              (\<lambda>r. dn_tenant r = dn_tenant s \<and> dn_device r = dn_device s \<and> dn_state r = ''active'')
              (\<lambda>r. r\<lparr>dn_state := ''superseded''\<rparr>) (tb_sessions st) @ [s]\<rparr>)"
    and s: "dn_id s \<notin> dn_id ` set (tb_sessions st)" "dn_state s = ''active''"
      "dn_tenant s = hl_tenant row" "dn_user s = hl_user row" "dn_device s = pf_deviceId proof"
      "changes (\<lambda>c. hl_id c = pf_challengeId proof \<and> hl_consumed_at c = None) (tb_challenges st) = 1"
    by (auto simp: commit_session_def new_session_def rbind_Inr_iff Let_def split: sum.splits if_splits)
  have "active_of k (snd (commit_session iso_text row proof now ttl t st))
      = (if k = (dn_tenant s, dn_device s) then [s] else active_of k st)" for k
    using active_of_superseded [of k "(dn_tenant s, dn_device s)" "tb_sessions st"] s(2) st
    by (auto simp: active_of_def)
  with st s show ?thesis by (intro opened [of s]) simp_all
qed

lemma consumed_after_commit:
  "list_all (\<lambda>c. hl_id c = i \<longrightarrow> hl_consumed_at c \<noteq> None)
     (update_where (\<lambda>c. hl_id c = i \<and> hl_consumed_at c = None) (\<lambda>c. c\<lparr>hl_consumed_at := Some t\<rparr>) rows)"
  by (induction rows) simp_all

lemma list_all_update_where:
  "list_all P rows \<Longrightarrow> (\<And>r. P r \<Longrightarrow> P (g r)) \<Longrightarrow> list_all P (update_where p g rows)"
  by (induction rows) auto

text \<open>Every call keeps the invariant, and a challenge that is known and consumed stays so.\<close>

lemma device_exec_keeps:
  assumes inv: "device_inv st"
  shows "device_inv (device_exec date_ms iso_text oper st)
    \<and> (i \<in> hl_id ` set (tb_challenges st) \<and> consumed i st \<longrightarrow>
       i \<in> hl_id ` set (tb_challenges (device_exec date_ms iso_text oper st)) \<and> consumed i (device_exec date_ms iso_text oper st))"
proof (cases oper)
  case (IssueChallenge mode tenant user device now ttl t1 t2)
  show ?thesis
  proof (cases rule: issueChallenge_cases [of iso_text mode tenant user device now ttl t1 t2 st])
    case refused with inv IssueChallenge show ?thesis by simp
  next
    case issued with inv IssueChallenge show ?thesis
      by (auto simp: device_inv_def consumed_def active_of_def list_all_iff)
  qed
next
  case (CommitSession row pf now ttl t)
  show ?thesis
  proof (cases rule: commit_session_cases [of iso_text row pf now ttl t st])
    case refused with inv CommitSession show ?thesis by simp
  next
    case (opened s)
    have "device_inv (snd (commit_session iso_text row pf now ttl t st))"
      using inv opened unfolding device_inv_def by auto
    moreover have "hl_id ` set (tb_challenges (snd (commit_session iso_text row pf now ttl t st))) = hl_id ` set (tb_challenges st)"
      unfolding opened(8) by (metis challenge_ids_kept set_map)
    moreover have "consumed i (snd (commit_session iso_text row pf now ttl t st))" if "consumed i st"
      using that unfolding consumed_def opened(8) by (rule list_all_update_where) simp
    ultimately show ?thesis using CommitSession by simp
  qed
next
  case (UseSession sid now)
  with inv show ?thesis
    by (auto simp: activeSession_def device_inv_def consumed_def intro: order_trans [OF active_of_expired] split: option.splits)
next
  case (Administer users devices)
  with inv show ?thesis by (simp add: device_inv_def consumed_def active_of_def)
qed

interpretation device_history: step_history "device_exec date_ms iso_text" device_inv
  "\<lambda>st st'. \<forall>i. i \<in> hl_id ` set (tb_challenges st) \<and> consumed i st \<longrightarrow> i \<in> hl_id ` set (tb_challenges st') \<and> consumed i st'"
  for date_ms iso_text
  by unfold_locales (use device_exec_keeps in blast)+

lemma device_run_keeps:
  assumes "device_inv st"
  shows "device_inv (device_run date_ms iso_text ops st)
    \<and> (i \<in> hl_id ` set (tb_challenges st) \<and> consumed i st \<longrightarrow>
       i \<in> hl_id ` set (tb_challenges (device_run date_ms iso_text ops st)) \<and> consumed i (device_run date_ms iso_text ops st))"
  using device_history.run_keeps [OF assms, of date_ms iso_text ops] unfolding device_run_def by blast

lemma openSession_Inr:
  assumes "openSession date_ms iso_text verify world pf now ttl t st = (Inr s, st')"
  obtains row key where "read_challenge date_ms pf now ttl st = Inr (row, key)"
    "verify key (pf_algorithm pf) (hl_nonce row) (pf_signature pf)"
    "commit_session iso_text row pf now ttl t (world st) = (Inr s, st')"
  using assms by (auto simp: openSession_def Let_def split: sum.splits prod.splits if_splits)

lemma read_challenge_Inr:
  assumes "read_challenge date_ms pf now ttl st = Inr (row, key)"
  shows "row \<in> set (tb_challenges st) \<and> hl_id row = pf_challengeId pf \<and> hl_device row = pf_deviceId pf
    \<and> \<not> past date_ms (hl_expires_at row) now
    \<and> (\<exists>d u. device_row st (hl_tenant row) (hl_device row) = Some d \<and> dv_publicKey d = key \<and> dv_state d = ''registered''
         \<and> user_row st (hl_tenant row) (hl_user row) = Some u \<and> us_state u = ''active'')"
  using assms
  by (auto simp: read_challenge_def rbind_Inr_iff dest: find_SomeD split: if_splits option.splits)

lemma commit_refused_when_consumed:
  assumes "consumed (pf_challengeId pf) st"
  shows "\<exists>e. fst (commit_session iso_text row pf now ttl t st) = Inl e"
proof (cases rule: commit_session_cases [of iso_text row pf now ttl t st])
  case refused then show ?thesis by simp
next
  case opened
  from assms have "changes (\<lambda>c. hl_id c = pf_challengeId pf \<and> hl_consumed_at c = None) (tb_challenges st) = 0"
    by (auto simp: changes_eq_0 consumed_def list_all_iff)
  with opened show ?thesis by simp
qed

lemma openSession_refused_when_consumed:
  assumes "device_inv st" "pf_challengeId pf \<in> hl_id ` set (tb_challenges st)" "consumed (pf_challengeId pf) st"
  shows "\<exists>e. fst (openSession date_ms iso_text verify (device_run date_ms iso_text others) pf now ttl t st) = Inl e"
proof (rule ccontr)
  assume "\<not> ?thesis"
  then obtain s st' where "openSession date_ms iso_text verify (device_run date_ms iso_text others) pf now ttl t st = (Inr s, st')"
    by (metis prod.collapse sumE)
  then obtain row where "commit_session iso_text row pf now ttl t (device_run date_ms iso_text others st) = (Inr s, st')"
    by (rule openSession_Inr)
  moreover have "consumed (pf_challengeId pf) (device_run date_ms iso_text others st)"
    using device_run_keeps [OF assms(1)] assms(2,3) by blast
  ultimately show False using commit_refused_when_consumed by (metis fst_conv Inl_Inr_False)
qed

text \<open>C11. A challenge opens at most one session. If a call of openSession returns a session, whatever
others do while the proof is verified, then the session is the only active one of its device; when the
challenge was read, the device was registered, its user active, and the key of the device verified the
signature of the nonce. Afterwards, whatever happens, no call opens a session on the same challenge again,
and no device has two active sessions.\<close>

theorem one_session_per_challenge:
  assumes inv: "device_inv st"
    and opened: "openSession date_ms iso_text verify (device_run date_ms iso_text meanwhile) pf now ttl t st = (Inr s, st1)"
  shows "active_of (dn_tenant s, dn_device s) st1 = [s]
    \<and> (\<exists>d u row. row \<in> set (tb_challenges st) \<and> hl_id row = pf_challengeId pf
         \<and> device_row st (dn_tenant s) (dn_device s) = Some d \<and> dv_state d = ''registered''
         \<and> user_row st (dn_tenant s) (dn_user s) = Some u \<and> us_state u = ''active''
         \<and> verify (dv_publicKey d) (pf_algorithm pf) (hl_nonce row) (pf_signature pf))
    \<and> (\<forall>later others pf' now' ttl' t'. pf_challengeId pf' = pf_challengeId pf \<longrightarrow>
         (\<exists>e. fst (openSession date_ms iso_text verify (device_run date_ms iso_text others) pf' now' ttl' t'
                 (device_run date_ms iso_text later st1)) = Inl e))
    \<and> (\<forall>later k. length (active_of k (device_run date_ms iso_text later st1)) \<le> 1)"
proof -
  let ?w = "device_run date_ms iso_text meanwhile st"
  from opened obtain row key where row: "read_challenge date_ms pf now ttl st = Inr (row, key)"
    "verify key (pf_algorithm pf) (hl_nonce row) (pf_signature pf)"
    and commit: "commit_session iso_text row pf now ttl t ?w = (Inr s, st1)" by (rule openSession_Inr)
  note read = read_challenge_Inr [OF row(1)]
  from device_run_keeps [OF inv] have inv': "device_inv ?w" by blast
  from commit have st1: "st1 = device_exec date_ms iso_text (CommitSession row pf now ttl t) ?w" by simp
  have "active_of (dn_tenant s, dn_device s) st1 = [s] \<and> dn_tenant s = hl_tenant row \<and> dn_user s = hl_user row
    \<and> dn_device s = pf_deviceId pf \<and> pf_challengeId pf \<in> hl_id ` set (tb_challenges st1) \<and> consumed (pf_challengeId pf) st1"
  proof (cases rule: commit_session_cases [of iso_text row pf now ttl t ?w])
    case refused with commit show ?thesis by simp
  next
    case (opened r)
    with commit have "r = s" by simp
    have "\<exists>c\<in>set (tb_challenges ?w). hl_id c = pf_challengeId pf"
      using opened(7) changes_eq_0 [of "\<lambda>c. hl_id c = pf_challengeId pf \<and> hl_consumed_at c = None" "tb_challenges ?w"] by auto
    moreover have "map hl_id (tb_challenges st1) = map hl_id (tb_challenges ?w)"
      using opened(8) commit by simp
    then have "hl_id ` set (tb_challenges st1) = hl_id ` set (tb_challenges ?w)" by (metis list.set_map)
    ultimately have "pf_challengeId pf \<in> hl_id ` set (tb_challenges st1)" by (metis imageI)
    moreover have "consumed (pf_challengeId pf) st1"
      using opened(8) commit consumed_after_commit by (simp add: consumed_def)
    ultimately show ?thesis using opened commit \<open>r = s\<close> by simp
  qed
  then have s: "active_of (dn_tenant s, dn_device s) st1 = [s]" "dn_tenant s = hl_tenant row" "dn_user s = hl_user row"
      "dn_device s = pf_deviceId pf"
    and gone: "pf_challengeId pf \<in> hl_id ` set (tb_challenges st1)" "consumed (pf_challengeId pf) st1" by blast+
  have inv1: "device_inv st1" unfolding st1 using device_exec_keeps [OF inv'] by blast
  have "\<exists>e. fst (openSession date_ms iso_text verify (device_run date_ms iso_text others) pf' now' ttl' t'
      (device_run date_ms iso_text later st1)) = Inl e" if "pf_challengeId pf' = pf_challengeId pf" for later others pf' now' ttl' t'
    using device_run_keeps [OF inv1] gone that by (intro openSession_refused_when_consumed) auto
  moreover have "length (active_of k (device_run date_ms iso_text later st1)) \<le> 1" for later k
  proof -
    from device_run_keeps [OF inv1] have "device_inv (device_run date_ms iso_text later st1)" by blast
    then show ?thesis unfolding device_inv_def by blast
  qed
  ultimately show ?thesis using s read row(2) by auto
qed

section \<open>Witness\<close>

definition device_date :: "string \<Rightarrow> int option" where
  "device_date s = map_of [(''t0'', 0), (''t1'', 1000), (''t9'', 9000)] s"

definition device_iso :: "int \<Rightarrow> timestamp" where
  "device_iso ms = (if ms = 0 then ''t0'' else if ms = 1000 then ''t1'' else ''t9'')"

definition sample_tables :: device_tables where
  "sample_tables =
     \<lparr> tb_users = [\<lparr> us_tenant = ''test.a'', us_user = ''u'', us_state = ''active'' \<rparr>],
       tb_devices = [\<lparr> dv_tenant = ''test.a'', dv_device = ''d'', dv_user = ''u'', dv_publicKey = ''key'', dv_state = ''registered'' \<rparr>],
       tb_challenges = [\<lparr> hl_id = ''c1'', hl_tenant = ''test.a'', hl_user = ''u'', hl_device = ''d'', hl_nonce = ''n1'',
         hl_issued_at = ''t0'', hl_expires_at = ''t9'', hl_consumed_at = None \<rparr>],
       tb_sessions = [\<lparr> dn_id = ''s0'', dn_tenant = ''test.a'', dn_user = ''u'', dn_device = ''d'', dn_issuedAt = ''t0'',
         dn_expiresAt = ''t9'', dn_state = ''active'' \<rparr>] \<rparr>"

definition sample_proof :: device_proof where
  "sample_proof = \<lparr> pf_schemaVersion = Fin 1, pf_challengeId = ''c1'', pf_deviceId = ''d'', pf_keyId = ''k'',
     pf_algorithm = ''ed25519'', pf_signature = ''key/n1'' \<rparr>"

definition sample_verify :: "string \<Rightarrow> string \<Rightarrow> string \<Rightarrow> string \<Rightarrow> bool" where
  "sample_verify key algorithm nonce signature = (signature = key @ ''/'' @ nonce)"

definition sample_opened :: device_session where
  "sample_opened = \<lparr> dn_id = ''s1'', dn_tenant = ''test.a'', dn_user = ''u'', dn_device = ''d'', dn_issuedAt = ''t1'',
     dn_expiresAt = ''t9'', dn_state = ''active'' \<rparr>"

lemma sample_tables_inv: "device_inv sample_tables"
  by (simp add: device_inv_def sample_tables_def active_of_def)

lemma sample_open:
  "fst (openSession device_date device_iso sample_verify (device_run device_date device_iso []) sample_proof 1000 (Fin 8000) ''s1'' sample_tables)
   = Inr sample_opened"
  by code_simp

theorem one_session_per_challenge_witness:
  "\<exists>st1. openSession device_date device_iso sample_verify (device_run device_date device_iso []) sample_proof 1000 (Fin 8000) ''s1'' sample_tables
       = (Inr sample_opened, st1)
    \<and> active_of (''test.a'', ''d'') st1 = [sample_opened]"
proof -
  from sample_open obtain st1 where
    "openSession device_date device_iso sample_verify (device_run device_date device_iso []) sample_proof 1000 (Fin 8000) ''s1'' sample_tables
     = (Inr sample_opened, st1)" by (metis prod.collapse)
  with one_session_per_challenge [OF sample_tables_inv this] show ?thesis by (simp add: sample_opened_def)
qed

end
