(* ===== verification/Matter_Lease.thy ===== *)
theory Matter_Lease
  imports Device_Sessions
begin

text \<open>
  Ownership of a user's matters by one device (control-plane/sqlite-matter-owner-lease.ts): a lease per
  tenant, user and namespace with an epoch that grows when the ownership moves to another device. A
  transaction that throws changes nothing. A transfer awaits the verifier of the recovery, so it is a
  read and a commit with others in between; the verifier and the clock are parameters.
\<close>

section \<open>State\<close>

record owner_row =
  lo_tenant :: string
  lo_user :: string
  lo_namespace :: string
  lo_device :: string
  lo_epoch :: int
  lo_expires_at :: timestamp
  lo_released_at :: "timestamp option"
  lo_updated_at :: timestamp

record transfer_row =
  tf_tenant :: string
  tf_user :: string
  tf_namespace :: string
  tf_from_device :: string
  tf_to_device :: string
  tf_from_epoch :: int
  tf_to_epoch :: int
  tf_recovery_digest :: string
  tf_approval_digest :: string
  tf_transferred_at :: timestamp

record owner_store =
  os_tables :: device_tables
  os_leases :: "owner_row list"
  os_transfers :: "transfer_row list"

record matter_lease =
  ml_tenantId :: string
  ml_userId :: string
  ml_namespace :: string
  ml_deviceId :: string
  ml_epoch :: int
  ml_expiresAt :: timestamp

record transfer_input =
  ti_expectedEpoch :: jnum
  ti_recoveryDigest :: string
  ti_approvalDigest :: string

section \<open>Checks\<close>

definition namespacePattern :: "string \<Rightarrow> bool" where
  "namespacePattern s = (s \<noteq> [] \<and> length s \<le> 64 \<and> lower_letter (hd s) \<and> list_all id_char s)"

definition check_scope :: "string \<Rightarrow> unit result" where
  "check_scope ns = require (namespacePattern ns) ''Matter namespace is invalid''"

definition check_epoch :: "jnum \<Rightarrow> unit result" where
  "check_epoch value = require (safe_integer value \<and> 1 \<le> int_num value) ''Matter owner epoch is invalid''"

definition check_ttl :: "jnum \<Rightarrow> unit result" where
  "check_ttl value = require (safe_integer value \<and> 1000 \<le> int_num value \<and> int_num value \<le> 300000) ''Matter owner ttl is invalid''"

text \<open>\<open>row.epoch === expectedEpoch\<close>\<close>

definition epoch_is :: "owner_row \<Rightarrow> jnum \<Rightarrow> bool" where
  "epoch_is row n = (n = Fin (of_int (lo_epoch row)))"

definition expects :: "jnum option \<Rightarrow> owner_row \<Rightarrow> bool" where
  "expects expectedEpoch row = (case expectedEpoch of None \<Rightarrow> False | Some n \<Rightarrow> epoch_is row n)"

definition inactive :: "(string \<Rightarrow> int option) \<Rightarrow> owner_row \<Rightarrow> int \<Rightarrow> bool" where
  "inactive date_ms row now = (lo_released_at row \<noteq> None \<or> past date_ms (lo_expires_at row) now)"

text \<open>The active session of a registered device of an active user.\<close>

definition matter_session ::
  "(int \<Rightarrow> timestamp) \<Rightarrow> string \<Rightarrow> int \<Rightarrow> device_tables \<Rightarrow> device_session result" where
  "matter_session iso_text sessionId now tables =
     rbind (toISOString iso_text now) (\<lambda>stamp.
     if sessionId = [] \<or> 256 < length sessionId then throw ''device session is invalid''
     else (case find (\<lambda>s. dn_id s = sessionId \<and> dn_state s = ''active'' \<and> stamp < dn_expiresAt s
                 \<and> (\<exists>d\<in>set (tb_devices tables). dv_tenant d = dn_tenant s \<and> dv_device d = dn_device s \<and> dv_user d = dn_user s
                      \<and> dv_state d = ''registered'')
                 \<and> (\<exists>u\<in>set (tb_users tables). us_tenant u = dn_tenant s \<and> us_user u = dn_user s \<and> us_state u = ''active''))
               (tb_sessions tables) of
             None \<Rightarrow> throw ''active registered device session is unavailable''
           | Some s \<Rightarrow> Inr s))"

definition owner_key :: "owner_row \<Rightarrow> string \<times> string \<times> string" where
  "owner_key r = (lo_tenant r, lo_user r, lo_namespace r)"

definition session_key :: "device_session \<Rightarrow> string \<Rightarrow> string \<times> string \<times> string" where
  "session_key s ns = (dn_tenant s, dn_user s, ns)"

definition owner_of :: "owner_store \<Rightarrow> string \<times> string \<times> string \<Rightarrow> owner_row option" where
  "owner_of st k = lookup owner_key (os_leases st) k"

definition lease_for :: "device_session \<Rightarrow> string \<Rightarrow> int \<Rightarrow> timestamp \<Rightarrow> matter_lease" where
  "lease_for s ns epoch expiresAt =
     \<lparr> ml_tenantId = dn_tenant s, ml_userId = dn_user s, ml_namespace = ns, ml_deviceId = dn_device s,
       ml_epoch = epoch, ml_expiresAt = expiresAt \<rparr>"

definition lease_of_row :: "owner_row \<Rightarrow> matter_lease" where
  "lease_of_row r =
     \<lparr> ml_tenantId = lo_tenant r, ml_userId = lo_user r, ml_namespace = lo_namespace r, ml_deviceId = lo_device r,
       ml_epoch = lo_epoch r, ml_expiresAt = lo_expires_at r \<rparr>"

text \<open>The rows the statements write.\<close>

definition first_lease :: "device_session \<Rightarrow> string \<Rightarrow> timestamp \<Rightarrow> timestamp \<Rightarrow> owner_row" where
  "first_lease s ns expiresAt stamp =
     \<lparr> lo_tenant = dn_tenant s, lo_user = dn_user s, lo_namespace = ns, lo_device = dn_device s, lo_epoch = 1,
       lo_expires_at = expiresAt, lo_released_at = None, lo_updated_at = stamp \<rparr>"

definition renewed :: "timestamp \<Rightarrow> timestamp \<Rightarrow> owner_row \<Rightarrow> owner_row" where
  "renewed expiresAt stamp r = r\<lparr>lo_expires_at := expiresAt, lo_released_at := None, lo_updated_at := stamp\<rparr>"

definition lease_ended :: "timestamp \<Rightarrow> owner_row \<Rightarrow> owner_row" where
  "lease_ended stamp r = r\<lparr>lo_released_at := Some stamp, lo_expires_at := stamp, lo_updated_at := stamp\<rparr>"

definition moved_to :: "device_session \<Rightarrow> int \<Rightarrow> timestamp \<Rightarrow> timestamp \<Rightarrow> owner_row \<Rightarrow> owner_row" where
  "moved_to target nextEpoch expiresAt stamp r =
     r\<lparr>lo_device := dn_device target, lo_epoch := nextEpoch, lo_expires_at := expiresAt, lo_released_at := None,
       lo_updated_at := stamp\<rparr>"

definition transfer_record :: "device_session \<Rightarrow> owner_row \<Rightarrow> string \<Rightarrow> transfer_input \<Rightarrow> timestamp \<Rightarrow> transfer_row" where
  "transfer_record target current ns input stamp =
     \<lparr> tf_tenant = dn_tenant target, tf_user = dn_user target, tf_namespace = ns, tf_from_device = lo_device current,
       tf_to_device = dn_device target, tf_from_epoch = int_num (ti_expectedEpoch input), tf_to_epoch = lo_epoch current + 1,
       tf_recovery_digest = ti_recoveryDigest input, tf_approval_digest = ti_approvalDigest input, tf_transferred_at = stamp \<rparr>"

section \<open>Operations\<close>

definition claim_owner ::
  "(int \<Rightarrow> timestamp) \<Rightarrow> string \<Rightarrow> string \<Rightarrow> jnum option \<Rightarrow> int \<Rightarrow> jnum \<Rightarrow> owner_store \<Rightarrow> (matter_lease \<times> owner_store) result" where
  "claim_owner iso_text sessionId ns expectedEpoch now ttlMs st =
     rbind (toISOString iso_text now) (\<lambda>stamp.
     rbind (check_scope ns) (\<lambda>_.
     rbind (check_ttl ttlMs) (\<lambda>_.
     rbind (matter_session iso_text sessionId now (os_tables st)) (\<lambda>s.
     rbind (toISOString iso_text (now + int_num ttlMs)) (\<lambda>expiresAt.
     case owner_of st (session_key s ns) of
       None \<Rightarrow>
         if expectedEpoch \<noteq> None then throw ''Matter owner epoch is unavailable''
         else Inr (lease_for s ns 1 expiresAt,
           st\<lparr>os_leases := os_leases st @
             [first_lease s ns expiresAt stamp]\<rparr>)
     | Some row \<Rightarrow>
         if lo_device row \<noteq> dn_device s \<or> \<not> expects expectedEpoch row
         then throw ''Matter owner belongs to another device or epoch''
         else Inr (lease_for s ns (lo_epoch row) expiresAt,
           st\<lparr>os_leases := update_where (\<lambda>r. owner_key r = session_key s ns)
             (renewed expiresAt stamp) (os_leases st)\<rparr>))))))"

definition verifyCurrent ::
  "(string \<Rightarrow> int option) \<Rightarrow> (int \<Rightarrow> timestamp) \<Rightarrow> string \<Rightarrow> string \<Rightarrow> jnum \<Rightarrow> int \<Rightarrow> owner_store \<Rightarrow> bool result" where
  "verifyCurrent date_ms iso_text sessionId ns expectedEpoch now st =
     rbind (check_scope ns) (\<lambda>_.
     rbind (check_epoch expectedEpoch) (\<lambda>_.
     rbind (matter_session iso_text sessionId now (os_tables st)) (\<lambda>s.
     Inr (case owner_of st (session_key s ns) of
            None \<Rightarrow> False
          | Some row \<Rightarrow> lo_device row = dn_device s \<and> epoch_is row expectedEpoch \<and> lo_released_at row = None
              \<and> (case date_ms (lo_expires_at row) of Some e \<Rightarrow> now < e | None \<Rightarrow> False)))))"

definition release_owner ::
  "(int \<Rightarrow> timestamp) \<Rightarrow> string \<Rightarrow> string \<Rightarrow> jnum \<Rightarrow> int \<Rightarrow> owner_store \<Rightarrow> owner_store result" where
  "release_owner iso_text sessionId ns expectedEpoch now st =
     rbind (toISOString iso_text now) (\<lambda>stamp.
     rbind (check_scope ns) (\<lambda>_.
     rbind (check_epoch expectedEpoch) (\<lambda>_.
     rbind (matter_session iso_text sessionId now (os_tables st)) (\<lambda>s.
     case owner_of st (session_key s ns) of
       None \<Rightarrow> throw ''Matter owner release is out of scope''
     | Some row \<Rightarrow>
         if lo_device row \<noteq> dn_device s \<or> \<not> epoch_is row expectedEpoch \<or> lo_released_at row \<noteq> None
         then throw ''Matter owner release is out of scope''
         else Inr (st\<lparr>os_leases := update_where (\<lambda>r. owner_key r = session_key s ns)
                (lease_ended stamp) (os_leases st)\<rparr>)))))"

text \<open>A transfer up to its \<open>await\<close>: the lease it takes over and the device it goes to.\<close>

definition transfer_read ::
  "(string \<Rightarrow> int option) \<Rightarrow> (int \<Rightarrow> timestamp) \<Rightarrow> string \<Rightarrow> string \<Rightarrow> transfer_input \<Rightarrow> int \<Rightarrow> jnum \<Rightarrow> owner_store \<Rightarrow>
   (owner_row \<times> string) result" where
  "transfer_read date_ms iso_text sessionId ns input now ttlMs st =
     rbind (toISOString iso_text now) (\<lambda>_.
     rbind (check_scope ns) (\<lambda>_.
     rbind (check_ttl ttlMs) (\<lambda>_.
     rbind (check_epoch (ti_expectedEpoch input)) (\<lambda>_.
     rbind (require (digestPattern (ti_recoveryDigest input) \<and> digestPattern (ti_approvalDigest input))
              ''Matter transfer evidence digest is invalid'') (\<lambda>_.
     rbind (matter_session iso_text sessionId now (os_tables st)) (\<lambda>target.
     case owner_of st (session_key target ns) of
       None \<Rightarrow> throw ''Matter transfer source is unavailable''
     | Some prior \<Rightarrow>
         if lo_device prior = dn_device target \<or> \<not> epoch_is prior (ti_expectedEpoch input) \<or> \<not> inactive date_ms prior now
         then throw ''Matter transfer source is unavailable''
         else Inr (prior, dn_device target)))))))"

definition transfer_commit ::
  "(string \<Rightarrow> int option) \<Rightarrow> (int \<Rightarrow> timestamp) \<Rightarrow> owner_row \<Rightarrow> string \<Rightarrow> string \<Rightarrow> transfer_input \<Rightarrow> int \<Rightarrow> int \<Rightarrow> jnum \<Rightarrow> owner_store \<Rightarrow>
   (matter_lease \<times> owner_store) result" where
  "transfer_commit date_ms iso_text prior sessionId ns input now commitNow ttlMs st =
     rbind (require (now \<le> commitNow) ''Matter transfer clock moved backwards'') (\<lambda>_.
     rbind (matter_session iso_text sessionId commitNow (os_tables st)) (\<lambda>target.
     case owner_of st (session_key target ns) of
       None \<Rightarrow> throw ''Matter transfer source changed while verifying recovery''
     | Some current \<Rightarrow>
         if lo_device current \<noteq> lo_device prior \<or> \<not> epoch_is current (ti_expectedEpoch input) \<or> \<not> inactive date_ms current commitNow
         then throw ''Matter transfer source changed while verifying recovery''
         else if 9007199254740991 \<le> lo_epoch current then throw ''Matter owner epoch exhausted''
         else
           rbind (toISOString iso_text commitNow) (\<lambda>stamp.
           rbind (toISOString iso_text (commitNow + int_num ttlMs)) (\<lambda>expiresAt.
           let nextEpoch = lo_epoch current + 1 in
           if \<exists>t\<in>set (os_transfers st). (tf_tenant t, tf_user t, tf_namespace t) = session_key target ns \<and> tf_to_epoch t = nextEpoch
           then Inl (ConstraintError ''UNIQUE constraint failed: cp_matter_owner_transfer'')
           else Inr (lease_for target ns nextEpoch expiresAt,
             st\<lparr>os_leases := update_where (\<lambda>r. owner_key r = session_key target ns)
                  (moved_to target nextEpoch expiresAt stamp) (os_leases st),
                os_transfers := os_transfers st @ [transfer_record target current ns input stamp]\<rparr>)))))"

text \<open>The whole call; others act (\<open>world\<close>) while the verifier decides.\<close>

definition transfer_owner ::
  "(string \<Rightarrow> int option) \<Rightarrow> (int \<Rightarrow> timestamp) \<Rightarrow> (matter_lease \<Rightarrow> transfer_input \<Rightarrow> string \<Rightarrow> bool) \<Rightarrow> (owner_store \<Rightarrow> owner_store) \<Rightarrow>
   string \<Rightarrow> string \<Rightarrow> transfer_input \<Rightarrow> int \<Rightarrow> int \<Rightarrow> jnum \<Rightarrow> owner_store \<Rightarrow> matter_lease result \<times> owner_store" where
  "transfer_owner date_ms iso_text verify world sessionId ns input now commitNow ttlMs st =
     (case transfer_read date_ms iso_text sessionId ns input now ttlMs st of
        Inl e \<Rightarrow> (Inl e, st)
      | Inr (prior, targetDeviceId) \<Rightarrow>
          (let st1 = world st in
           if \<not> verify (lease_of_row prior) input targetDeviceId
           then (throw ''Matter recovery and owner approval were not verified'', st1)
           else (case transfer_commit date_ms iso_text prior sessionId ns input now commitNow ttlMs st1 of
                   Inl e \<Rightarrow> (Inl e, st1)
                 | Inr (l, st2) \<Rightarrow> (Inr l, st2))))"

section \<open>Sequences of calls\<close>

text \<open>Sessions, devices and users may change in any way between the calls.\<close>

datatype owner_op =
    ClaimOwner string string "jnum option" int jnum
  | ReleaseOwner string string jnum int
  | CommitTransfer owner_row string string transfer_input int int jnum
  | ChangeTables device_tables

fun owner_exec :: "(string \<Rightarrow> int option) \<Rightarrow> (int \<Rightarrow> timestamp) \<Rightarrow> owner_op \<Rightarrow> owner_store \<Rightarrow> owner_store" where
  "owner_exec date_ms iso_text (ClaimOwner sid ns e now ttl) st =
     (case claim_owner iso_text sid ns e now ttl st of Inl _ \<Rightarrow> st | Inr (l, st') \<Rightarrow> st')"
| "owner_exec date_ms iso_text (ReleaseOwner sid ns e now) st =
     (case release_owner iso_text sid ns e now st of Inl _ \<Rightarrow> st | Inr st' \<Rightarrow> st')"
| "owner_exec date_ms iso_text (CommitTransfer prior sid ns input now commitNow ttl) st =
     (case transfer_commit date_ms iso_text prior sid ns input now commitNow ttl st of Inl _ \<Rightarrow> st | Inr (l, st') \<Rightarrow> st')"
| "owner_exec date_ms iso_text (ChangeTables tables) st = st\<lparr>os_tables := tables\<rparr>"

definition owner_run :: "(string \<Rightarrow> int option) \<Rightarrow> (int \<Rightarrow> timestamp) \<Rightarrow> owner_op list \<Rightarrow> owner_store \<Rightarrow> owner_store" where
  "owner_run date_ms iso_text ops st = fold (owner_exec date_ms iso_text) ops st"

section \<open>Lemmas\<close>

definition trail_of :: "string \<times> string \<times> string \<Rightarrow> owner_store \<Rightarrow> transfer_row list" where
  "trail_of k st = filter (\<lambda>t. (tf_tenant t, tf_user t, tf_namespace t) = k) (os_transfers st)"

text \<open>The transfers of an ownership lead from epoch 1 to the present one, from device to device.\<close>

fun trail_from :: "int \<Rightarrow> transfer_row list \<Rightarrow> int \<Rightarrow> string \<Rightarrow> bool" where
  "trail_from e [] epoch device = (e = epoch)"
| "trail_from e [t] epoch device = (tf_from_epoch t = e \<and> tf_to_epoch t = e + 1 \<and> e + 1 = epoch \<and> tf_to_device t = device)"
| "trail_from e (t # u # ts) epoch device =
     (tf_from_epoch t = e \<and> tf_to_epoch t = e + 1 \<and> tf_to_device t = tf_from_device u \<and> trail_from (e + 1) (u # ts) epoch device)"

definition trail_ok :: "owner_store \<Rightarrow> string \<times> string \<times> string \<Rightarrow> bool" where
  "trail_ok st k =
     (case owner_of st k of
        None \<Rightarrow> trail_of k st = []
      | Some r \<Rightarrow> trail_from 1 (trail_of k st) (lo_epoch r) (lo_device r))"

definition owner_inv :: "owner_store \<Rightarrow> bool" where
  "owner_inv st = (distinct (map owner_key (os_leases st)) \<and> (\<forall>k. trail_ok st k))"

lemma trail_from_snoc:
  assumes "trail_from e ts epoch device" "tf_from_epoch t = epoch" "tf_to_epoch t = epoch + 1" "tf_from_device t = device"
    "tf_to_device t = device'"
  shows "trail_from e (ts @ [t]) (epoch + 1) device'"
  using assms by (induction e ts epoch device rule: trail_from.induct) auto

lemma epoch_is_int: "epoch_is row n \<Longrightarrow> int_num n = lo_epoch row"
  by (simp add: epoch_is_def)

lemma owner_row_fields [simp]:
  "owner_key (first_lease s ns x y) = session_key s ns" "lo_epoch (first_lease s ns x y) = 1" "lo_device (first_lease s ns x y) = dn_device s"
  "owner_key (renewed x y r) = owner_key r" "lo_epoch (renewed x y r) = lo_epoch r" "lo_device (renewed x y r) = lo_device r"
  "owner_key (lease_ended y r) = owner_key r" "lo_epoch (lease_ended y r) = lo_epoch r" "lo_device (lease_ended y r) = lo_device r"
  "owner_key (moved_to t e x y r) = owner_key r" "lo_epoch (moved_to t e x y r) = e" "lo_device (moved_to t e x y r) = dn_device t"
  by (simp_all add: owner_key_def session_key_def first_lease_def renewed_def lease_ended_def moved_to_def)

lemma claim_owner_Inr:
  assumes "claim_owner iso_text sid ns e now ttl st = Inr (l, st')"
  obtains (first) s x y where "owner_of st (session_key s ns) = None" "st' = st\<lparr>os_leases := os_leases st @ [first_lease s ns x y]\<rparr>"
  | (renew) s x y where "st' = st\<lparr>os_leases := update_where (\<lambda>r. owner_key r = session_key s ns) (renewed x y) (os_leases st)\<rparr>"
proof -
  from assms obtain s where s: "matter_session iso_text sid now (os_tables st) = Inr s" by (auto simp: claim_owner_def rbind_Inr_iff)
  show thesis
  proof (cases "owner_of st (session_key s ns)")
    case None
    with assms s obtain x y where "st' = st\<lparr>os_leases := os_leases st @ [first_lease s ns x y]\<rparr>"
      by (auto simp: claim_owner_def rbind_Inr_iff split: if_split_asm)
    with None show ?thesis by (rule first)
  next
    case (Some row)
    with assms s obtain x y where "st' = st\<lparr>os_leases := update_where (\<lambda>r. owner_key r = session_key s ns) (renewed x y) (os_leases st)\<rparr>"
      by (auto simp: claim_owner_def rbind_Inr_iff split: if_split_asm)
    then show ?thesis by (rule renew)
  qed
qed

lemma release_owner_Inr:
  assumes "release_owner iso_text sid ns e now st = Inr st'"
  obtains s y where "st' = st\<lparr>os_leases := update_where (\<lambda>r. owner_key r = session_key s ns) (lease_ended y) (os_leases st)\<rparr>"
  using assms by (auto simp: release_owner_def rbind_Inr_iff split: option.split_asm if_split_asm)

lemma transfer_commit_Inr:
  assumes "transfer_commit date_ms iso_text prior sid ns input now commitNow ttl st = Inr (l, st')"
  obtains target row x y where "matter_session iso_text sid commitNow (os_tables st) = Inr target"
    "owner_of st (session_key target ns) = Some row" "lo_device row = lo_device prior"
    "epoch_is row (ti_expectedEpoch input)" "inactive date_ms row commitNow" "now \<le> commitNow"
    "l = lease_for target ns (lo_epoch row + 1) x"
    "st' = st\<lparr>os_leases := update_where (\<lambda>r. owner_key r = session_key target ns) (moved_to target (lo_epoch row + 1) x y) (os_leases st),
       os_transfers := os_transfers st @ [transfer_record target row ns input y]\<rparr>"
  using assms
  by (auto simp: transfer_commit_def rbind_Inr_iff require_def Let_def split: option.split_asm if_split_asm)

text \<open>What a call does to the leases: nothing, a first claim, a change within the epoch, or a transfer.\<close>

lemma owner_exec_cases:
  obtains (same) "os_leases (owner_exec date_ms iso_text oper st) = os_leases st"
      "os_transfers (owner_exec date_ms iso_text oper st) = os_transfers st"
  | (first) r where "owner_of st (owner_key r) = None" "lo_epoch r = 1"
      "os_leases (owner_exec date_ms iso_text oper st) = os_leases st @ [r]"
      "os_transfers (owner_exec date_ms iso_text oper st) = os_transfers st"
  | (within) k f where "os_leases (owner_exec date_ms iso_text oper st) = update_where (\<lambda>r. owner_key r = k) f (os_leases st)"
      "os_transfers (owner_exec date_ms iso_text oper st) = os_transfers st"
      "\<And>r. owner_key (f r) = owner_key r \<and> lo_epoch (f r) = lo_epoch r \<and> lo_device (f r) = lo_device r"
  | (moved) k f t row where "os_leases (owner_exec date_ms iso_text oper st) = update_where (\<lambda>r. owner_key r = k) f (os_leases st)"
      "os_transfers (owner_exec date_ms iso_text oper st) = os_transfers st @ [t]"
      "owner_of st k = Some row" "(tf_tenant t, tf_user t, tf_namespace t) = k"
      "\<And>r. owner_key (f r) = owner_key r \<and> lo_epoch (f r) = lo_epoch row + 1 \<and> lo_device (f r) = tf_to_device t"
      "tf_from_device t = lo_device row" "tf_from_epoch t = lo_epoch row" "tf_to_epoch t = lo_epoch row + 1"
proof (cases oper)
  case (ClaimOwner sid ns e now ttl)
  show ?thesis
  proof (cases "claim_owner iso_text sid ns e now ttl st")
    case (Inl err) with ClaimOwner show ?thesis by (intro same) simp_all
  next
    case (Inr lst)
    then have claimed: "claim_owner iso_text sid ns e now ttl st = Inr (fst lst, snd lst)" by simp
    then show ?thesis
    proof (cases rule: claim_owner_Inr)
      case (first s x y) with claimed ClaimOwner show ?thesis by (intro that(2) [of "first_lease s ns x y"]) simp_all
    next
      case (renew s x y) with claimed ClaimOwner show ?thesis by (intro within [of "session_key s ns" "renewed x y"]) simp_all
    qed
  qed
next
  case (ReleaseOwner sid ns e now)
  show ?thesis
  proof (cases "release_owner iso_text sid ns e now st")
    case (Inl err) with ReleaseOwner show ?thesis by (intro same) simp_all
  next
    case (Inr st')
    then obtain s y where "st' = st\<lparr>os_leases := update_where (\<lambda>r. owner_key r = session_key s ns) (lease_ended y) (os_leases st)\<rparr>"
      by (rule release_owner_Inr)
    with Inr ReleaseOwner show ?thesis by (intro within [of "session_key s ns" "lease_ended y"]) simp_all
  qed
next
  case (CommitTransfer prior sid ns input now commitNow ttl)
  show ?thesis
  proof (cases "transfer_commit date_ms iso_text prior sid ns input now commitNow ttl st")
    case (Inl err) with CommitTransfer show ?thesis by (intro same) simp_all
  next
    case (Inr lst)
    then have committed: "transfer_commit date_ms iso_text prior sid ns input now commitNow ttl st = Inr (fst lst, snd lst)" by simp
    then show ?thesis
    proof (cases rule: transfer_commit_Inr)
      case (1 target row x y)
      with committed CommitTransfer epoch_is_int [OF 1(4)] show ?thesis
        by (intro moved [of "session_key target ns" "moved_to target (lo_epoch row + 1) x y" "transfer_record target row ns input y" row])
          (simp_all add: transfer_record_def session_key_def)
    qed
  qed
next
  case (ChangeTables tables) then show ?thesis by (intro same) simp_all
qed

declare split_paired_All [simp del] split_paired_Ex [simp del]

lemma owner_of_update:
  assumes "\<And>r. owner_key (f r) = owner_key r"
  shows "owner_of (st\<lparr>os_leases := update_where (\<lambda>r. owner_key r = k) f (os_leases st)\<rparr>) j
    = map_option (\<lambda>r. if j = k then f r else r) (owner_of st j)"
proof -
  have "owner_of (st\<lparr>os_leases := update_where (\<lambda>r. owner_key r = k) f (os_leases st)\<rparr>) j
      = map_option (\<lambda>r. if owner_key r = k then f r else r) (owner_of st j)"
    using assms by (simp add: owner_of_def lookup_update_where)
  also have "\<dots> = map_option (\<lambda>r. if j = k then f r else r) (owner_of st j)"
    by (rule option.map_cong) (auto simp: owner_of_def dest: lookup_SomeD)
  finally show ?thesis .
qed

lemma owner_of_leases: "os_leases st' = os_leases st \<Longrightarrow> owner_of st' = owner_of st"
  by (rule ext) (simp add: owner_of_def)

lemma trail_of_transfers: "os_transfers st' = os_transfers st \<Longrightarrow> trail_of k st' = trail_of k st"
  by (simp add: trail_of_def)

text \<open>An ownership is kept, or moves to a later epoch.\<close>

definition advances :: "owner_store \<Rightarrow> owner_store \<Rightarrow> bool" where
  "advances st st' \<longleftrightarrow> (\<forall>k r. owner_of st k = Some r \<longrightarrow>
     (\<exists>r'. owner_of st' k = Some r' \<and> (lo_epoch r' = lo_epoch r \<and> lo_device r' = lo_device r \<or> lo_epoch r < lo_epoch r')))"

lemma advances_refl: "advances st st"
  by (simp add: advances_def)

lemma advances_trans:
  assumes "advances a b" "advances b c"
  shows "advances a c"
  unfolding advances_def
proof (intro allI impI)
  fix k r
  assume "owner_of a k = Some r"
  with assms(1) obtain r1 where r1: "owner_of b k = Some r1" "lo_epoch r1 = lo_epoch r \<and> lo_device r1 = lo_device r \<or> lo_epoch r < lo_epoch r1"
    unfolding advances_def by blast
  with assms(2) obtain r2 where "owner_of c k = Some r2" "lo_epoch r2 = lo_epoch r1 \<and> lo_device r2 = lo_device r1 \<or> lo_epoch r1 < lo_epoch r2"
    unfolding advances_def by blast
  with r1(2) show "\<exists>r'. owner_of c k = Some r' \<and> (lo_epoch r' = lo_epoch r \<and> lo_device r' = lo_device r \<or> lo_epoch r < lo_epoch r')"
    by auto
qed

definition kept_or_later :: "owner_row option \<Rightarrow> owner_row option \<Rightarrow> bool" where
  "kept_or_later o1 o2 = (case o1 of None \<Rightarrow> True | Some r \<Rightarrow>
     (case o2 of None \<Rightarrow> False
      | Some r' \<Rightarrow> lo_epoch r' = lo_epoch r \<and> lo_device r' = lo_device r \<or> lo_epoch r < lo_epoch r'))"

lemma advances_iff: "advances st st' \<longleftrightarrow> (\<forall>k. kept_or_later (owner_of st k) (owner_of st' k))"
  unfolding advances_def kept_or_later_def by (intro all_cong1) (auto split: option.splits)

lemma owner_exec_key:
  assumes inv: "owner_inv st"
  shows "trail_ok (owner_exec date_ms iso_text oper st) k
    \<and> kept_or_later (owner_of st k) (owner_of (owner_exec date_ms iso_text oper st) k)
    \<and> distinct (map owner_key (os_leases (owner_exec date_ms iso_text oper st)))"
proof -
  let ?st = "owner_exec date_ms iso_text oper st"
  from inv have ok: "trail_ok st k" and ids: "distinct (map owner_key (os_leases st))" by (simp_all add: owner_inv_def)
  show ?thesis
  proof (cases rule: owner_exec_cases [of date_ms iso_text oper st])
    case same
    with ok ids owner_of_leases [OF same(1)] trail_of_transfers [where k = k, OF same(2)] show ?thesis
      by (simp add: trail_ok_def kept_or_later_def split: option.splits)
  next
    case (first r)
    have "owner_of ?st k = (if k = owner_key r then Some r else owner_of st k)"
      using first(1,3) by (auto simp: owner_of_def lookup_append split: option.split)
    moreover from first(1) have "owner_key r \<notin> owner_key ` set (os_leases st)" by (simp add: owner_of_def lookup_None_iff)
    ultimately show ?thesis using ok ids first trail_of_transfers [where k = k, OF first(4)]
      by (auto simp: trail_ok_def kept_or_later_def split: option.splits)
  next
    case (within j f)
    have "owner_of ?st k = map_option (\<lambda>r. if k = j then f r else r) (owner_of st k)"
      using within(1,3) owner_of_update [where f = f and st = st and k = j and j = k] by (simp add: owner_of_def)
    moreover have "map owner_key (os_leases ?st) = map owner_key (os_leases st)"
      unfolding within(1) by (rule update_where_keeps_map) (simp add: within(3))
    ultimately show ?thesis using ok ids within(3) trail_of_transfers [where k = k, OF within(2)]
      by (auto simp: trail_ok_def kept_or_later_def split: option.splits)
  next
    case (moved j f t row)
    have "owner_of ?st k = map_option (\<lambda>r. if k = j then f r else r) (owner_of st k)"
      using moved(1,5) owner_of_update [where f = f and st = st and k = j and j = k] by (simp add: owner_of_def)
    moreover have "map owner_key (os_leases ?st) = map owner_key (os_leases st)"
      unfolding moved(1) by (rule update_where_keeps_map) (simp add: moved(5))
    moreover have "trail_of k ?st = (if k = j then trail_of k st @ [t] else trail_of k st)"
      using moved(2,4) by (auto simp: trail_of_def)
    moreover have "trail_from 1 (trail_of k st @ [t]) (lo_epoch row + 1) (tf_to_device t)" if "k = j"
      using ok moved(3) that by (intro trail_from_snoc [OF _ moved(7,8,6) refl]) (simp add: trail_ok_def)
    ultimately show ?thesis using ok ids moved(3,5)
      by (auto simp: trail_ok_def kept_or_later_def split: option.splits)
  qed
qed

lemma owner_exec_step:
  "owner_inv st \<Longrightarrow> owner_inv (owner_exec date_ms iso_text oper st) \<and> advances st (owner_exec date_ms iso_text oper st)"
  using owner_exec_key unfolding owner_inv_def advances_iff by blast

interpretation owner_history: step_history "owner_exec date_ms iso_text" owner_inv advances for date_ms iso_text
  by unfold_locales (use owner_exec_step in blast, rule advances_refl, rule advances_trans)

lemma owner_run_step: "owner_inv st \<Longrightarrow> owner_inv (owner_run date_ms iso_text ops st) \<and> advances st (owner_run date_ms iso_text ops st)"
  unfolding owner_run_def by (rule owner_history.run_keeps)

lemma verifyCurrent_owner:
  assumes "verifyCurrent date_ms iso_text sid ns e now st = Inr True"
  obtains s row where "matter_session iso_text sid now (os_tables st) = Inr s" "owner_of st (session_key s ns) = Some row"
    "lo_device row = dn_device s" "epoch_is row e" "\<not> inactive date_ms row now"
proof -
  from assms obtain s where s: "matter_session iso_text sid now (os_tables st) = Inr s"
    by (auto simp: verifyCurrent_def rbind_Inr_iff)
  with assms show thesis
    by (cases "owner_of st (session_key s ns)")
      (auto simp: verifyCurrent_def rbind_Inr_iff inactive_def past_def intro!: that [of s] split: option.splits)
qed

theorem matter_epoch_fenced:
  assumes inv: "owner_inv st"
    and first: "verifyCurrent date_ms iso_text sid ns e now st = Inr True" "matter_session iso_text sid now (os_tables st) = Inr s"
    and later: "verifyCurrent date_ms iso_text sid' ns e' now' (owner_run date_ms iso_text ops st) = Inr True"
      "matter_session iso_text sid' now' (os_tables (owner_run date_ms iso_text ops st)) = Inr s'"
    and same: "session_key s' ns = session_key s ns"
  shows "int_num e \<le> int_num e' \<and> (int_num e' = int_num e \<longrightarrow> dn_device s' = dn_device s)"
proof -
  from first obtain row where row: "owner_of st (session_key s ns) = Some row" "lo_device row = dn_device s" "epoch_is row e"
    by (auto elim: verifyCurrent_owner)
  from later same obtain row' where row': "owner_of (owner_run date_ms iso_text ops st) (session_key s ns) = Some row'"
      "lo_device row' = dn_device s'" "epoch_is row' e'"
    by (auto elim: verifyCurrent_owner)
  from owner_run_step [OF inv] have "advances st (owner_run date_ms iso_text ops st)" by blast
  with row(1) row'(1) have "lo_epoch row' = lo_epoch row \<and> lo_device row' = lo_device row \<or> lo_epoch row < lo_epoch row'"
    unfolding advances_def by fastforce
  moreover have "int_num e = lo_epoch row" "int_num e' = lo_epoch row'"
    using row(3) row'(3) by (simp_all add: epoch_is_int)
  ultimately show ?thesis using row(2) row'(2) by auto
qed

text \<open>C27. A transfer moves the ownership of a user's matters safely. If it succeeds, whatever others
did while the recovery was verified, the verifier accepted the lease that was read for the target device; at
the commit the previous device still owned the matters, with a lease that was released or over; the new
epoch is the next one. Afterwards, whatever calls follow, only a call with at least the new epoch is
verified as owner: the device that lost the matters is fenced off.\<close>

theorem transfer_moves_safely:
  assumes inv: "owner_inv st"
    and moved: "transfer_owner date_ms iso_text verify (owner_run date_ms iso_text meanwhile) sid ns input now commitNow ttl st = (Inr l, st')"
  shows "\<exists>prior target row. transfer_read date_ms iso_text sid ns input now ttl st = Inr (prior, target)
    \<and> verify (lease_of_row prior) input target
    \<and> owner_of (owner_run date_ms iso_text meanwhile st) (ml_tenantId l, ml_userId l, ns) = Some row
    \<and> lo_device row = lo_device prior \<and> inactive date_ms row commitNow \<and> ml_epoch l = lo_epoch row + 1
    \<and> (\<forall>later sid' e now' s. verifyCurrent date_ms iso_text sid' ns e now' (owner_run date_ms iso_text later st') = Inr True
         \<and> matter_session iso_text sid' now' (os_tables (owner_run date_ms iso_text later st')) = Inr s
         \<and> session_key s ns = (ml_tenantId l, ml_userId l, ns) \<longrightarrow> ml_epoch l \<le> int_num e)"
proof -
  let ?w = "owner_run date_ms iso_text meanwhile st"
  from moved obtain prior target where prior: "transfer_read date_ms iso_text sid ns input now ttl st = Inr (prior, target)"
      "verify (lease_of_row prior) input target"
    and commit: "transfer_commit date_ms iso_text prior sid ns input now commitNow ttl ?w = Inr (l, st')"
    by (auto simp: transfer_owner_def Let_def split: sum.split_asm prod.split_asm if_split_asm)
  from owner_run_step [OF inv] have inv': "owner_inv ?w" by blast
  from commit have st': "st' = owner_exec date_ms iso_text (CommitTransfer prior sid ns input now commitNow ttl) ?w" by simp
  from owner_exec_step [OF inv'] have inv1: "owner_inv st'" unfolding st' by blast
  from commit obtain s row x y where row: "owner_of ?w (session_key s ns) = Some row" "lo_device row = lo_device prior"
      "inactive date_ms row commitNow" "l = lease_for s ns (lo_epoch row + 1) x"
    and after: "os_leases st' = update_where (\<lambda>r. owner_key r = session_key s ns) (moved_to s (lo_epoch row + 1) x y) (os_leases ?w)"
    by (rule transfer_commit_Inr) simp
  have key: "(ml_tenantId l, ml_userId l, ns) = session_key s ns" "ml_epoch l = lo_epoch row + 1"
    by (simp_all add: row(4) lease_for_def session_key_def)
  have new: "owner_of st' (session_key s ns) = Some (moved_to s (lo_epoch row + 1) x y row)"
    using after row(1) owner_of_update [where f = "moved_to s (lo_epoch row + 1) x y" and st = ?w and k = "session_key s ns" and j = "session_key s ns"]
    by (simp add: owner_of_def)
  have "ml_epoch l \<le> int_num e"
    if "verifyCurrent date_ms iso_text sid' ns e now' (owner_run date_ms iso_text later st') = Inr True"
      "matter_session iso_text sid' now' (os_tables (owner_run date_ms iso_text later st')) = Inr s'" "session_key s' ns = session_key s ns"
    for later sid' e now' s'
  proof -
    from that obtain r where r: "owner_of (owner_run date_ms iso_text later st') (session_key s ns) = Some r" "epoch_is r e"
      by (auto elim: verifyCurrent_owner)
    from owner_run_step [OF inv1] have "advances st' (owner_run date_ms iso_text later st')" by blast
    with new r(1) have "lo_epoch row + 1 \<le> lo_epoch r" unfolding advances_def by fastforce
    with key(2) epoch_is_int [OF r(2)] show ?thesis by simp
  qed
  with prior row key show ?thesis by auto
qed

section \<open>Witnesses\<close>

text \<open>The matters of a user on device a, which is lost; device d takes them over.\<close>

definition two_devices :: device_tables where
  "two_devices = sample_tables\<lparr>
     tb_devices := \<lparr> dv_tenant = ''test.a'', dv_device = ''a'', dv_user = ''u'', dv_publicKey = ''key'', dv_state = ''registered'' \<rparr>
       # tb_devices sample_tables,
     tb_sessions := \<lparr> dn_id = ''sa'', dn_tenant = ''test.a'', dn_user = ''u'', dn_device = ''a'', dn_issuedAt = ''t0'',
       dn_expiresAt = ''t9'', dn_state = ''active'' \<rparr> # tb_sessions sample_tables\<rparr>"

definition owned_by_a :: owner_store where
  "owned_by_a =
     \<lparr> os_tables = two_devices,
       os_leases = [\<lparr> lo_tenant = ''test.a'', lo_user = ''u'', lo_namespace = ''mail'', lo_device = ''a'', lo_epoch = 1,
         lo_expires_at = ''t1'', lo_released_at = None, lo_updated_at = ''t0'' \<rparr>],
       os_transfers = [] \<rparr>"

definition sample_takeover :: transfer_input where
  "sample_takeover = \<lparr> ti_expectedEpoch = Fin 1, ti_recoveryDigest = ''sha256:'' @ replicate 64 (CHR ''a''),
     ti_approvalDigest = ''sha256:'' @ replicate 64 (CHR ''b'') \<rparr>"

definition session_a :: device_session where
  "session_a = hd (tb_sessions two_devices)"

definition session_d :: device_session where
  "session_d = hd (tb_sessions sample_tables)"

lemma owned_by_a_inv: "owner_inv owned_by_a"
  by (auto simp: owner_inv_def trail_ok_def trail_of_def owned_by_a_def owner_of_def lookup_def owner_key_def split: option.split)

definition sample_commit :: owner_op where
  "sample_commit = CommitTransfer (hd (os_leases owned_by_a)) ''s0'' ''mail'' sample_takeover 1000 1000 (Fin 8000)"

lemma sample_fence:
  "verifyCurrent device_date device_iso ''sa'' ''mail'' (Fin 1) 0 owned_by_a = Inr True"
  "matter_session device_iso ''sa'' 0 (os_tables owned_by_a) = Inr session_a"
  "verifyCurrent device_date device_iso ''s0'' ''mail'' (Fin 2) 1000 (owner_run device_date device_iso [sample_commit] owned_by_a) = Inr True"
  "matter_session device_iso ''s0'' 1000 (os_tables (owner_run device_date device_iso [sample_commit] owned_by_a)) = Inr session_d"
  "session_key session_d ''mail'' = session_key session_a ''mail''"
  by code_simp+

theorem matter_epoch_fenced_witness: "int_num (Fin 1) \<le> int_num (Fin 2) \<and> dn_device session_d \<noteq> dn_device session_a"
  using matter_epoch_fenced [OF owned_by_a_inv sample_fence] by (simp add: session_a_def session_d_def two_devices_def sample_tables_def)

definition sample_verifier :: "matter_lease \<Rightarrow> transfer_input \<Rightarrow> string \<Rightarrow> bool" where
  "sample_verifier l input target = (ml_deviceId l = ''a'' \<and> target = ''d'')"

definition lease_d :: matter_lease where
  "lease_d = lease_for session_d ''mail'' 2 ''t9''"

lemma sample_transfer:
  "fst (transfer_owner device_date device_iso sample_verifier (owner_run device_date device_iso []) ''s0'' ''mail'' sample_takeover 1000 1000
     (Fin 8000) owned_by_a) = Inr lease_d"
  by code_simp

theorem transfer_moves_safely_witness:
  "\<exists>prior target. transfer_read device_date device_iso ''s0'' ''mail'' sample_takeover 1000 (Fin 8000) owned_by_a = Inr (prior, target)
    \<and> sample_verifier (lease_of_row prior) sample_takeover target \<and> ml_epoch lease_d = 2"
proof -
  from sample_transfer obtain st' where
    "transfer_owner device_date device_iso sample_verifier (owner_run device_date device_iso []) ''s0'' ''mail'' sample_takeover 1000 1000
       (Fin 8000) owned_by_a = (Inr lease_d, st')" by (metis prod.collapse)
  from transfer_moves_safely [OF owned_by_a_inv this] show ?thesis by (auto simp: lease_d_def lease_for_def)
qed

end
