(* ===== verification/Signed_Plan.thy ===== *)
theory Signed_Plan
  imports Execution_Envelope Device_Sessions
begin

text \<open>
  What a device and its control plane agree on (client-runtime/validation.ts, negotiation.ts, discovery.ts,
  plan-signature.ts, device-identity.ts): the identity of a device, the report on an executor, the signed
  plan with its verification, the choice of an executor, and the proof of possession a device signs. A plan
  is the object it is on the wire, since the code compares its text and takes its digest. Ed25519 and SHA-256
  are parameters.
\<close>

section \<open>Checks\<close>

definition valid_time :: "(string \<Rightarrow> int option) \<Rightarrow> string \<Rightarrow> string \<Rightarrow> int result" where
  "valid_time date_ms value label =
     (case date_ms value of None \<Rightarrow> throw (label @ '' must be an ISO timestamp'') | Some t \<Rightarrow> Inr t)"

definition valid_id :: "string \<Rightarrow> string \<Rightarrow> unit result" where
  "valid_id value label = require (id_part value) (label @ '' is invalid'')"

text \<open>\<open>/(?:^|[\\/])Users[\\/]|(?:token|secret|password|private[_-]?key)\s*[:=]/i\<close>\<close>

definition slash :: "char \<Rightarrow> bool" where
  "slash c = (c = CHR 0x5C \<or> c = CHR ''/'')"

definition users_at :: "string \<Rightarrow> bool" where
  "users_at s = (starts_with ''users'' s \<and> (case drop 5 s of [] \<Rightarrow> False | c # _ \<Rightarrow> slash c))"

fun users_after_slash :: "string \<Rightarrow> bool" where
  "users_after_slash [] = False"
| "users_after_slash (c # cs) = ((slash c \<and> users_at cs) \<or> users_after_slash cs)"

definition unsafeEvidence :: "string \<Rightarrow> bool" where
  "unsafeEvidence s =
     (let t = map lower_char s in users_at t \<or> users_after_slash t \<or> secretAssignmentPattern s)"

section \<open>Identities and reports\<close>

record device_identity =
  di_schemaVersion :: jnum
  di_tenantId :: string
  di_userId :: string
  di_deviceId :: string
  di_publicKey :: string
  di_keyAlgorithm :: string
  di_createdAt :: timestamp
  di_attestation_kind :: string
  di_attestation_reference :: string

definition validateDeviceIdentity :: "(string \<Rightarrow> int option) \<Rightarrow> device_identity \<Rightarrow> device_identity result" where
  "validateDeviceIdentity date_ms v =
     rbind (require (di_schemaVersion v = Fin 1 \<and> di_keyAlgorithm v = ''ed25519'') ''device identity contract is unsupported'') (\<lambda>_.
     rbind (all_of (map (\<lambda>(label, i). valid_id i label)
              [(''tenantId'', di_tenantId v), (''userId'', di_userId v), (''deviceId'', di_deviceId v)])) (\<lambda>_.
     rbind (require (di_publicKey v \<noteq> [] \<and> \<not> unsafeEvidence (di_publicKey v)) ''device identity public key is invalid'') (\<lambda>_.
     rbind (valid_time date_ms (di_createdAt v) ''device identity createdAt'') (\<lambda>_.
     rbind (require (di_attestation_reference v \<noteq> [] \<and> \<not> unsafeEvidence (di_attestation_reference v))
              ''device attestation must be an opaque public reference'') (\<lambda>_.
     Inr v)))))"

record executor_report =
  er_schemaVersion :: jnum
  er_deviceId :: string
  er_executorId :: string
  er_availability :: string
  er_version :: "string option"
  er_protocolVersions :: "string list"
  er_capabilities :: "string list"
  er_constraints :: "string list"
  er_discoveredAt :: timestamp
  er_expiresAt :: timestamp

definition availabilities :: "string list" where
  "availabilities = [''ready'', ''not-installed'', ''auth-required'', ''version-unsupported'', ''unavailable'']"

definition or_empty :: "string option \<Rightarrow> string" where
  "or_empty v = (case v of None \<Rightarrow> [] | Some s \<Rightarrow> s)"

definition validateExecutorCapabilityReport ::
  "(string \<Rightarrow> int option) \<Rightarrow> executor_report \<Rightarrow> executor_report result" where
  "validateExecutorCapabilityReport date_ms v =
     rbind (require (er_schemaVersion v = Fin 1) ''executor report schema is unsupported'') (\<lambda>_.
     rbind (valid_id (er_deviceId v) ''executor report deviceId'') (\<lambda>_.
     rbind (valid_id (er_executorId v) ''executor report executorId'') (\<lambda>_.
     rbind (require (er_availability v \<in> set availabilities) ''executor availability is invalid'') (\<lambda>_.
     rbind (require (list_all (\<lambda>s. \<not> unsafeEvidence s)
                (or_empty (er_version v) # er_protocolVersions v @ er_capabilities v @ er_constraints v))
              ''executor report contains a local path or secret-shaped value'') (\<lambda>_.
     rbind (require (length (first_occurrences (er_capabilities v)) = length (er_capabilities v)
                \<and> length (first_occurrences (er_protocolVersions v)) = length (er_protocolVersions v))
              ''executor report capabilities must be unique'') (\<lambda>_.
     rbind (require (er_availability v \<noteq> ''ready'' \<or> (or_empty (er_version v) \<noteq> [] \<and> er_protocolVersions v \<noteq> []))
              ''ready executor report requires a version and protocol'') (\<lambda>_.
     rbind (valid_time date_ms (er_expiresAt v) ''executor report expiresAt'') (\<lambda>expires.
     rbind (valid_time date_ms (er_discoveredAt v) ''executor report discoveredAt'') (\<lambda>discovered.
     rbind (require (discovered < expires) ''executor report must expire after discovery'') (\<lambda>_.
     Inr v))))))))))"

text \<open>The coordinator of discovery: probes with unique ids, each answering for its own executor.\<close>

definition create_discovery :: "(string \<times> 'p) list \<Rightarrow> (string \<times> 'p) list result" where
  "create_discovery probes =
     rbind (require (list_all id_part (map fst probes)) ''executor probe id is invalid'') (\<lambda>_.
     rbind (require (length (first_occurrences (map fst probes)) = length probes) ''executor probe ids must be unique'') (\<lambda>_.
     Inr probes))"

definition inspect_executors ::
  "(string \<Rightarrow> int option) \<Rightarrow> (string \<times> (string \<Rightarrow> int \<Rightarrow> executor_report result)) list \<Rightarrow> string \<Rightarrow> int \<Rightarrow>
   executor_report list result" where
  "inspect_executors date_ms probes deviceId now =
     map_result (\<lambda>(probeId, probe).
       rbind (probe deviceId now) (\<lambda>answer.
       rbind (validateExecutorCapabilityReport date_ms answer) (\<lambda>report.
       rbind (require (er_deviceId report = deviceId \<and> er_executorId report = probeId)
                ''executor report identity does not match its probe'') (\<lambda>_.
       Inr report)))) probes"

section \<open>Signed plans\<close>

definition plan_text :: "jval \<Rightarrow> string \<Rightarrow> string" where
  "plan_text plan f = js_string (js_get plan f)"

definition plan_envelope :: "jval \<Rightarrow> jval" where
  "plan_envelope plan = js_get plan ''envelope''"

text \<open>\<open>envelope.allowedEffects.length || envelope.approvalGrants.length\<close>\<close>

definition has_effects :: "jval \<Rightarrow> bool" where
  "has_effects plan =
     (items_of (js_get (plan_envelope plan) ''allowedEffects'') \<noteq> []
      \<or> items_of (js_get (plan_envelope plan) ''approvalGrants'') \<noteq> [])"

text \<open>The functions of the host a verification uses.\<close>

record plan_host =
  ph_date :: "string \<Rightarrow> int option"
  ph_num :: "rat \<Rightarrow> string"
  ph_sha :: "string \<Rightarrow> string"
  ph_verify :: "string \<Rightarrow> string \<Rightarrow> string \<Rightarrow> bool"

definition verifySignedExecutionPlan :: "plan_host \<Rightarrow> jval \<Rightarrow> int \<Rightarrow> jval result" where
  "verifySignedExecutionPlan h v now =
     rbind (require (js_get v ''schemaVersion'' = JNum (Fin 1) \<and> js_get v ''algorithm'' = JStr ''ed25519'')
              ''signed plan contract is unsupported'') (\<lambda>_.
     rbind (valid_id (plan_text v ''planId'') ''signed plan id'') (\<lambda>_.
     rbind (require (digestPattern (plan_text v ''payloadDigest'')) ''signed plan payload digest is invalid'') (\<lambda>_.
     rbind (valid_time (ph_date h) (plan_text v ''issuedAt'') ''signed plan issuedAt'') (\<lambda>issuedAt.
     rbind (valid_time (ph_date h) (plan_text v ''expiresAt'') ''signed plan expiresAt'') (\<lambda>expiresAt.
     rbind (require (issuedAt \<le> now \<and> now < expiresAt) ''signed plan is not currently valid'') (\<lambda>_.
     rbind (validateExecutionEnvelope (ph_date h) (ph_num h) (plan_envelope v)) (\<lambda>envelope.
     rbind (executionEnvelopePayloadDigest (ph_date h) (ph_num h) (ph_sha h) envelope) (\<lambda>d.
     rbind (require (JStr d = js_get v ''payloadDigest''
                \<and> js_get (js_get envelope ''plan'') ''digest'' = js_get v ''payloadDigest'')
              ''signed plan payload digest does not match its envelope'') (\<lambda>_.
     rbind (require (js_get (js_get envelope ''plan'') ''keyId'' = js_get v ''keyId''
                \<and> js_get (js_get envelope ''plan'') ''signature'' = js_get v ''signature'')
              ''signed plan metadata does not match its envelope'') (\<lambda>_.
     rbind (require (ph_verify h (plan_text v ''keyId'') (plan_text v ''payloadDigest'') (plan_text v ''signature''))
              ''signed plan signature is invalid'') (\<lambda>_.
     Inr v)))))))))))"

text \<open>The verifier pinned to one key; \<open>ed25519 text signature\<close> is the check with that key, which may throw.\<close>

definition base64url_char :: "char \<Rightarrow> bool" where
  "base64url_char c = (upper_letter c \<or> lower_letter c \<or> digit_char c \<or> c = CHR ''_'' \<or> c = CHR ''-'')"

definition signaturePattern :: "string \<Rightarrow> bool" where
  "signaturePattern s = (length s = 86 \<and> list_all base64url_char s)"

definition pinned_verify :: "string \<Rightarrow> (string \<Rightarrow> string \<Rightarrow> bool result) \<Rightarrow> string \<Rightarrow> string \<Rightarrow> string \<Rightarrow> bool" where
  "pinned_verify pinnedKey ed25519 keyId payloadDigest signature =
     (if keyId \<noteq> pinnedKey \<or> \<not> digestPattern payloadDigest \<or> \<not> signaturePattern signature then False
      else (case ed25519 payloadDigest signature of Inl _ \<Rightarrow> False | Inr valid \<Rightarrow> valid))"

section \<open>The choice of an executor\<close>

record executor_selection =
  xs_executorId :: string
  xs_reportExpiresAt :: timestamp
  xs_matchedProtocolVersion :: string
  xs_matchedCapabilities :: "string list"
  xs_reason :: string

definition requirement_texts :: "jval \<Rightarrow> string \<Rightarrow> string list" where
  "requirement_texts requirement f = texts_of (js_get requirement f)"

definition executor_order :: "jval \<Rightarrow> string list" where
  "executor_order requirement =
     (let preferred = requirement_texts requirement ''preferredExecutors'' in
      preferred @ filter (\<lambda>i. i \<notin> set preferred) (requirement_texts requirement ''allowedExecutors''))"

text \<open>The later of two reports on an executor wins, as in the \<open>Map\<close> made of them.\<close>

definition report_of :: "executor_report list \<Rightarrow> string \<Rightarrow> executor_report option" where
  "report_of reports i = find (\<lambda>r. er_executorId r = i) (rev reports)"

definition select_executor ::
  "(string \<Rightarrow> int option) \<Rightarrow> jval \<Rightarrow> executor_report list \<Rightarrow> int \<Rightarrow> string \<Rightarrow> executor_selection option" where
  "select_executor date_ms requirement reports now executorId =
     (if executorId \<notin> set (requirement_texts requirement ''allowedExecutors'') then None
      else (case report_of reports executorId of
              None \<Rightarrow> None
            | Some report \<Rightarrow>
                if er_availability report \<noteq> ''ready'' \<or> past date_ms (er_expiresAt report) now then None
                else (case find (\<lambda>p. p \<in> set (er_protocolVersions report)) (requirement_texts requirement ''protocolVersions'') of
                        None \<Rightarrow> None
                      | Some protocol \<Rightarrow>
                          if protocol = [] \<or> list_ex (\<lambda>c. c \<notin> set (er_capabilities report)) (requirement_texts requirement ''capabilities'')
                          then None
                          else Some \<lparr> xs_executorId = executorId, xs_reportExpiresAt = er_expiresAt report,
                                      xs_matchedProtocolVersion = protocol,
                                      xs_matchedCapabilities = requirement_texts requirement ''capabilities'',
                                      xs_reason = (if executorId \<in> set (requirement_texts requirement ''preferredExecutors'')
                                                   then ''preferred-ready'' else ''fallback-ready'') \<rparr>)))"

fun first_selected :: "(string \<Rightarrow> executor_selection option) \<Rightarrow> string list \<Rightarrow> executor_selection option" where
  "first_selected f [] = None"
| "first_selected f (i # is) = (case f i of Some s \<Rightarrow> Some s | None \<Rightarrow> first_selected f is)"

definition negotiateExecutor ::
  "(string \<Rightarrow> int option) \<Rightarrow> jval \<Rightarrow> executor_report list \<Rightarrow> int \<Rightarrow> executor_selection result" where
  "negotiateExecutor date_ms requirement reports now =
     (case first_selected (select_executor date_ms requirement reports now) (executor_order requirement) of
        Some s \<Rightarrow> Inr s
      | None \<Rightarrow> throw ''no eligible executor satisfies the signed plan requirements'')"

section \<open>The proof of possession\<close>

text \<open>
  \<open>sg_public\<close> derives the public key of a private one, \<open>sg_sign\<close> signs a text with it,
  \<open>sg_secrets\<close> is the local store of secrets.
\<close>

record device_signer =
  sg_secrets :: "string \<Rightarrow> string option"
  sg_public :: "string \<Rightarrow> string result"
  sg_sign :: "string \<Rightarrow> string \<Rightarrow> string"
  sg_sha :: "string \<Rightarrow> string"

definition token_tail :: "string \<Rightarrow> bool" where
  "token_tail s =
     (s \<noteq> [] \<and> length s \<le> 128 \<and> (lower_letter (hd s) \<or> digit_char (hd s)) \<and> list_all token_char s)"

definition referencePattern :: "string \<Rightarrow> bool" where
  "referencePattern s =
     ((starts_with ''secret:'' s \<and> token_tail (drop 7 s)) \<or> (starts_with ''keychain:'' s \<and> token_tail (drop 9 s)))"

definition proofPayload :: "string \<Rightarrow> string" where
  "proofPayload nonce = ''quark-device-proof-v1'' @ [CHR 0x00] @ nonce"

definition publicKeyPrefix :: string where
  "publicKeyPrefix = ''ed25519-spki:''"

definition key_id :: "(string \<Rightarrow> string) \<Rightarrow> string \<Rightarrow> string" where
  "key_id sha publicKey = ''device-key.'' @ take 24 (sha publicKey)"

definition signDeviceSessionChallenge ::
  "(string \<Rightarrow> int option) \<Rightarrow> device_signer \<Rightarrow> device_identity \<Rightarrow> string \<Rightarrow> challenge_row \<Rightarrow> device_proof result" where
  "signDeviceSessionChallenge date_ms sg identityInput privateKeyRef challenge =
     rbind (validateDeviceIdentity date_ms identityInput) (\<lambda>identity.
     rbind (require (referencePattern privateKeyRef) ''device proof secret reference is invalid'') (\<lambda>_.
     rbind (require (hl_tenant challenge = di_tenantId identity \<and> hl_user challenge = di_userId identity
                \<and> hl_device challenge = di_deviceId identity)
              ''device challenge is outside the enrolled identity scope'') (\<lambda>_.
     rbind (case sg_secrets sg privateKeyRef of None \<Rightarrow> throw ''device private key is unavailable'' | Some k \<Rightarrow> Inr k) (\<lambda>key.
     rbind (sg_public sg key) (\<lambda>public.
     rbind (require (publicKeyPrefix @ public = di_publicKey identity)
              ''device private key does not match enrolled public identity'') (\<lambda>_.
     Inr \<lparr> pf_schemaVersion = Fin 1, pf_challengeId = hl_id challenge, pf_deviceId = di_deviceId identity,
           pf_keyId = key_id (sg_sha sg) (di_publicKey identity), pf_algorithm = ''ed25519'',
           pf_signature = sg_sign sg key (proofPayload (hl_nonce challenge)) \<rparr>))))))"

text \<open>The verifier of the control plane; \<open>ed25519 key text signature\<close> may throw.\<close>

definition device_proof_verify ::
  "(string \<Rightarrow> string \<Rightarrow> string \<Rightarrow> bool result) \<Rightarrow> string \<Rightarrow> string \<Rightarrow> string \<Rightarrow> string \<Rightarrow> bool" where
  "device_proof_verify ed25519 publicKey algorithm challenge signature =
     (if algorithm \<noteq> ''ed25519'' \<or> \<not> starts_with publicKeyPrefix publicKey \<or> signature = [] \<or> challenge = [] then False
      else (case ed25519 (drop (length publicKeyPrefix) publicKey) (proofPayload challenge) signature of
              Inl _ \<Rightarrow> False | Inr valid \<Rightarrow> valid))"

section \<open>Lemmas\<close>

lemma verifySignedExecutionPlan_Inr:
  assumes "verifySignedExecutionPlan h v now = Inr w"
  shows "w = v" "validateExecutionEnvelope (ph_date h) (ph_num h) (plan_envelope v) = Inr (plan_envelope v)"
    "\<exists>a b. ph_date h (plan_text v ''issuedAt'') = Some a \<and> ph_date h (plan_text v ''expiresAt'') = Some b \<and> a \<le> now \<and> now < b"
    "\<exists>d. executionEnvelopePayloadDigest (ph_date h) (ph_num h) (ph_sha h) (plan_envelope v) = Inr d \<and> js_get v ''payloadDigest'' = JStr d"
    "ph_verify h (plan_text v ''keyId'') (plan_text v ''payloadDigest'') (plan_text v ''signature'')"
  using assms
  by (auto simp: verifySignedExecutionPlan_def rbind_Inr_iff valid_time_def validateExecutionEnvelope_def split: option.split_asm)

lemma verify_later:
  "verifySignedExecutionPlan h v now = Inr w \<Longrightarrow> ph_date h (plan_text v ''expiresAt'') = Some b \<Longrightarrow> now \<le> t \<Longrightarrow> t < b \<Longrightarrow>
     verifySignedExecutionPlan h v t = Inr w"
  by (auto simp: verifySignedExecutionPlan_def rbind_Inr_iff valid_time_def split: option.split_asm)

lemma first_selected_Some:
  assumes "first_selected f is = Some s"
  obtains pre i post where "is = pre @ i # post" "f i = Some s" "\<forall>j\<in>set pre. f j = None"
  using assms
proof (induction "is" arbitrary: thesis)
  case (Cons i "is")
  show ?case
  proof (cases "f i")
    case None
    with Cons.prems(2) have "first_selected f is = Some s" by simp
    then obtain pre k post where "is = pre @ k # post" "f k = Some s" "\<forall>j\<in>set pre. f j = None" by (rule Cons.IH [rotated])
    with None show ?thesis by (intro Cons.prems(1) [of "i # pre" k post]) simp_all
  next
    case (Some t)
    with Cons.prems show ?thesis by (intro Cons.prems(1) [of "[]" i "is"]) simp_all
  qed
qed simp

lemma first_selected_None: "first_selected f is = None \<longleftrightarrow> (\<forall>i\<in>set is. f i = None)"
  by (induction "is") (auto split: option.splits)

text \<open>What the requirement of a plan asks of an executor: its latest report is ready, current and has what is needed.\<close>

definition meets :: "(string \<Rightarrow> int option) \<Rightarrow> jval \<Rightarrow> executor_report list \<Rightarrow> int \<Rightarrow> string \<Rightarrow> bool" where
  "meets date_ms requirement reports now i \<longleftrightarrow>
     i \<in> set (requirement_texts requirement ''allowedExecutors'')
     \<and> (\<exists>r. report_of reports i = Some r \<and> er_availability r = ''ready'' \<and> \<not> past date_ms (er_expiresAt r) now
          \<and> set (requirement_texts requirement ''capabilities'') \<subseteq> set (er_capabilities r)
          \<and> set (requirement_texts requirement ''protocolVersions'') \<inter> set (er_protocolVersions r) \<noteq> {})"

lemma report_of_SomeD: "report_of reports i = Some r \<Longrightarrow> r \<in> set reports \<and> er_executorId r = i"
  by (auto simp: report_of_def dest: find_SomeD)

lemma select_executor_meets:
  assumes "[] \<notin> set (requirement_texts requirement ''protocolVersions'')"
  shows "select_executor date_ms requirement reports now i \<noteq> None \<longleftrightarrow> meets date_ms requirement reports now i"
proof (cases "report_of reports i")
  case None then show ?thesis by (simp add: select_executor_def meets_def)
next
  case (Some r)
  let ?p = "find (\<lambda>p. p \<in> set (er_protocolVersions r)) (requirement_texts requirement ''protocolVersions'')"
  have "?p = None \<longleftrightarrow> set (requirement_texts requirement ''protocolVersions'') \<inter> set (er_protocolVersions r) = {}"
    by (auto simp: find_None_iff)
  moreover have "?p \<noteq> Some []" using assms by (auto dest: find_SomeD)
  ultimately show ?thesis using Some
    by (cases ?p) (auto simp: select_executor_def meets_def list_ex_iff)
qed

lemma select_executor_Some:
  assumes "select_executor date_ms requirement reports now i = Some s"
  shows "xs_executorId s = i \<and> xs_matchedProtocolVersion s \<in> set (requirement_texts requirement ''protocolVersions'')
    \<and> xs_matchedCapabilities s = requirement_texts requirement ''capabilities''
    \<and> (\<exists>r. report_of reports i = Some r \<and> xs_reportExpiresAt s = er_expiresAt r
         \<and> xs_matchedProtocolVersion s \<in> set (er_protocolVersions r))"
  using assms by (auto simp: select_executor_def dest: find_SomeD split: if_split_asm option.split_asm)

lemma envelope_protocols:
  assumes "validateExecutionEnvelope date_ms num_text v = Inr env"
  shows "[] \<notin> set (requirement_texts (js_get v ''executorRequirement'') ''protocolVersions'')"
proof -
  let ?r = "js_get v ''executorRequirement''"
  from assms have "envelope_checks date_ms num_text v = Inr ()" by (auto simp: validateExecutionEnvelope_def rbind_Inr_iff)
  note checks = this [unfolded envelope_checks_def Let_def]
  have "check_executor_requirement ?r = Inr ()" by (rule all_of_member [OF checks]) simp
  note checks = this [unfolded check_executor_requirement_def Let_def]
  have items: "check_items check_identifier (js_get ?r ''protocolVersions'') ''envelope.executorRequirement.protocolVersions'' = Inr ()"
    by (rule all_of_member [OF checks]) simp
  have "[] \<noteq> js_string x" if "x \<in> set (items_of (js_get ?r ''protocolVersions''))" for x
    using check_items_ok [OF items that] by (auto simp: check_identifier_def check_text_def require_def split: jval.splits if_splits)
  then show ?thesis by (auto simp: requirement_texts_def texts_of_def)
qed

lemma prefix_of_split: "as @ bs = pre @ i # post \<Longrightarrow> i \<notin> set as \<Longrightarrow> set as \<subseteq> set pre"
  by (fastforce simp: append_eq_append_conv2 Cons_eq_append_conv append_eq_Cons_conv)

theorem negotiates_first_eligible:
  assumes "validateExecutionEnvelope date_ms num_text env = Inr env"
  defines "requirement \<equiv> js_get env ''executorRequirement''"
  shows "case negotiateExecutor date_ms requirement reports now of
      Inl e \<Rightarrow> (\<forall>i. \<not> meets date_ms requirement reports now i)
    | Inr s \<Rightarrow> meets date_ms requirement reports now (xs_executorId s)
        \<and> (\<exists>pre post. executor_order requirement = pre @ xs_executorId s # post \<and> (\<forall>i\<in>set pre. \<not> meets date_ms requirement reports now i))
        \<and> (xs_executorId s \<notin> set (requirement_texts requirement ''preferredExecutors'') \<longrightarrow>
             (\<forall>i\<in>set (requirement_texts requirement ''preferredExecutors''). \<not> meets date_ms requirement reports now i))"
proof -
  let ?select = "select_executor date_ms requirement reports now"
  have meets: "?select i = None \<longleftrightarrow> \<not> meets date_ms requirement reports now i" for i
    using select_executor_meets [OF envelope_protocols [OF assms(1)]] unfolding requirement_def by blast
  show ?thesis
  proof (cases "first_selected ?select (executor_order requirement)")
    case None
    then have "\<not> meets date_ms requirement reports now i" if "i \<in> set (executor_order requirement)" for i
      using that meets by (auto simp: first_selected_None)
    moreover have "i \<in> set (executor_order requirement)" if "meets date_ms requirement reports now i" for i
      using that by (auto simp: meets_def executor_order_def Let_def)
    ultimately show ?thesis using None by (auto simp: negotiateExecutor_def)
  next
    case (Some s)
    then obtain pre i post where split: "executor_order requirement = pre @ i # post" "?select i = Some s" "\<forall>j\<in>set pre. ?select j = None"
      by (rule first_selected_Some)
    have i: "xs_executorId s = i" using select_executor_Some [OF split(2)] by simp
    have before: "\<forall>j\<in>set pre. \<not> meets date_ms requirement reports now j" using split(3) meets by blast
    moreover have "meets date_ms requirement reports now i" using meets [of i] split(2) by simp
    moreover have "\<not> meets date_ms requirement reports now j"
      if "i \<notin> set (requirement_texts requirement ''preferredExecutors'')" "j \<in> set (requirement_texts requirement ''preferredExecutors'')" for j
    proof -
      have "j \<in> set pre"
        using prefix_of_split [OF split(1) [unfolded executor_order_def Let_def] that(1)] that(2) by blast
      with before show ?thesis by blast
    qed
    ultimately show ?thesis using Some split(1) by (auto simp: negotiateExecutor_def i)
  qed
qed

lemma changes_single:
  assumes "\<forall>r\<in>set rows. \<not> p r" "p x"
  shows "changes p (rows @ [x]) = 1"
  using assms by (simp add: changes_def filter_empty_conv)

lemma find_append_new: "\<forall>r\<in>set rows. \<not> p r \<Longrightarrow> p x \<Longrightarrow> find p (rows @ [x]) = Some x"
  by (induction rows) auto

lemma device_row_tenant: "device_row st tenant device = Some d \<Longrightarrow> dv_tenant d = tenant"
  by (auto simp: device_row_def dest: find_SomeD)

lemma new_challenge_Inr:
  assumes "new_challenge iso_text mode tenant user device now ttl t1 t2 st = Inr c"
  shows "hl_tenant c = tenant" "hl_user c = user" "hl_device c = device" "hl_consumed_at c = None"
    "hl_expires_at c = iso_text (now + int_num ttl)" "hl_nonce c = t2" "tokenPattern t2" "\<bar>now\<bar> \<le> 8640000000000000"
    "\<exists>d. device_row st tenant device = Some d \<and> dv_user d = user \<and> dv_state d = ''registered''"
    "\<exists>u. user_row st tenant user = Some u \<and> us_state u = ''active''"
  using assms
  by (auto simp: new_challenge_def rbind_Inr_iff checked_token_def toISOString_def dest: device_row_tenant split: option.split_asm if_split_asm)

text \<open>
  A device that holds its key opens a session on the challenge it is given. The hypotheses on the host:
  a signature made with a key verifies under its public key and is not empty, and the expiry reads back.
\<close>

text \<open>C29. A device that holds its key gets in. The proof signDeviceSessionChallenge makes for a
challenge just issued is accepted by openSession, and the session is an active one of that tenant, user and
device under the new token.\<close>

theorem enrolled_device_opens_session:
  assumes signs: "\<And>k p t. sg_public sg k = Inr p \<Longrightarrow> ed25519 p t (sg_sign sg k t) = Inr True \<and> sg_sign sg k t \<noteq> []"
    and dates: "date_ms (iso_text (now + int_num ttl)) = Some (now + int_num ttl)"
    and challenge: "issueChallenge iso_text mode tenant user device now ttl t1 t2 st = (Inr c, st1)"
    and proven: "signDeviceSessionChallenge date_ms sg identity ref c = Inr pf"
    and same_key: "\<exists>d. device_row st tenant device = Some d \<and> dv_publicKey d = di_publicKey identity"
    and fresh: "tokenPattern t" "t \<notin> dn_id ` set (tb_sessions st)"
    and time: "0 < int_num ttl" "safe_integer ttl2" "0 < int_num ttl2" "now + int_num ttl2 \<le> 8640000000000000"
  shows "\<exists>s st2. openSession date_ms iso_text (device_proof_verify ed25519) (\<lambda>st. st) pf now ttl2 t st1 = (Inr s, st2)
    \<and> dn_id s = t \<and> dn_tenant s = tenant \<and> dn_user s = user \<and> dn_device s = device \<and> dn_state s = ''active''"
proof -
  from challenge have new: "new_challenge iso_text mode tenant user device now ttl t1 t2 st = Inr c"
    and st1: "st1 = st\<lparr>tb_challenges := tb_challenges st @ [c]\<rparr>" "\<forall>r\<in>set (tb_challenges st). hl_id r \<noteq> hl_id c"
    by (auto simp: issueChallenge_def split: sum.split_asm if_split_asm)
  note c = new_challenge_Inr [OF new]
  from c(9) same_key obtain d where d: "device_row st tenant device = Some d" "dv_state d = ''registered''" "dv_user d = user"
    "dv_publicKey d = di_publicKey identity" by auto
  from c(10) obtain u where u: "user_row st tenant user = Some u" "us_state u = ''active''" by blast
  have rows: "device_row st1 = device_row st" "user_row st1 = user_row st"
    by (auto simp: st1(1) device_row_def user_row_def fun_eq_iff)
  from proven obtain key public where key: "sg_public sg key = Inr public" "publicKeyPrefix @ public = di_publicKey identity"
    and pf: "pf = \<lparr> pf_schemaVersion = Fin 1, pf_challengeId = hl_id c, pf_deviceId = di_deviceId identity,
           pf_keyId = key_id (sg_sha sg) (di_publicKey identity), pf_algorithm = ''ed25519'',
           pf_signature = sg_sign sg key (proofPayload (hl_nonce c)) \<rparr>"
    and scope: "hl_device c = di_deviceId identity"
    by (auto simp: signDeviceSessionChallenge_def rbind_Inr_iff validateDeviceIdentity_def require_def split: option.split_asm if_split_asm)
  have found: "find (\<lambda>r. hl_id r = hl_id c) (tb_challenges st1) = Some c"
    using st1 find_append_new [of "tb_challenges st" "\<lambda>r. hl_id r = hl_id c" c] by simp
  have "\<not> past date_ms (hl_expires_at c) now" using time(1) by (simp add: c(5) past_def dates)
  then have read: "read_challenge date_ms pf now ttl2 st1 = Inr (c, dv_publicKey d)"
    using found d u c time signs [OF key(1)] scope
    by (simp add: read_challenge_def pf rows positive_def key_id_def)
  have "c_nonce \<noteq> []" if "tokenPattern c_nonce" for c_nonce using that by (simp add: tokenPattern_def)
  then have verified: "device_proof_verify ed25519 (dv_publicKey d) (pf_algorithm pf) (hl_nonce c) (pf_signature pf)"
    using signs [OF key(1)] c(6,7) key(2) d(4) by (auto simp: device_proof_verify_def pf publicKeyPrefix_def simp flip: key(2))
  have unused: "changes (\<lambda>r. hl_id r = hl_id c \<and> hl_consumed_at r = None) (tb_challenges st1) = 1"
    using st1 c(4) by (simp add: changes_single)
  have session: "new_session iso_text c pf now ttl2 t = Inr \<lparr> dn_id = t, dn_tenant = tenant, dn_user = user, dn_device = device,
      dn_issuedAt = iso_text now, dn_expiresAt = iso_text (now + int_num ttl2), dn_state = ''active'' \<rparr>"
    using fresh(1) c time scope by (simp add: new_session_def checked_token_def toISOString_def pf)
  have "dn_id s \<noteq> t" if "s \<in> set (tb_sessions st1)" for s using that fresh(2) st1(1) by auto
  then show ?thesis
    unfolding openSession_def read Let_def prod.case sum.case commit_session_def session
    using verified unused rows d by (auto simp: pf)
qed

section \<open>Witnesses\<close>

definition sample_ed25519 :: "string \<Rightarrow> string \<Rightarrow> string \<Rightarrow> bool result" where
  "sample_ed25519 public t signature = Inr (signature = ''s'' @ public @ t)"

definition sample_signer :: device_signer where
  "sample_signer = \<lparr> sg_secrets = (\<lambda>r. if r = ''secret:k'' then Some ''key'' else None), sg_public = Inr,
     sg_sign = (\<lambda>k t. ''s'' @ k @ t), sg_sha = (\<lambda>t. t) \<rparr>"

definition sample_identity :: device_identity where
  "sample_identity =
     \<lparr> di_schemaVersion = Fin 1, di_tenantId = ''test.a'', di_userId = ''u'', di_deviceId = ''d'', di_publicKey = ''ed25519-spki:key'',
       di_keyAlgorithm = ''ed25519'', di_createdAt = ''t0'', di_attestation_kind = ''self'', di_attestation_reference = ''self:ed25519'' \<rparr>"

definition enrolled_tables :: device_tables where
  "enrolled_tables = sample_tables\<lparr>tb_devices := [\<lparr> dv_tenant = ''test.a'', dv_device = ''d'', dv_user = ''u'',
     dv_publicKey = ''ed25519-spki:key'', dv_state = ''registered'' \<rparr>]\<rparr>"

definition sample_challenge :: challenge_row where
  "sample_challenge = \<lparr> hl_id = ''c2'', hl_tenant = ''test.a'', hl_user = ''u'', hl_device = ''d'', hl_nonce = ''n2'',
     hl_issued_at = ''t0'', hl_expires_at = ''t9'', hl_consumed_at = None \<rparr>"

definition signed_challenge :: device_proof where
  "signed_challenge = \<lparr> pf_schemaVersion = Fin 1, pf_challengeId = ''c2'', pf_deviceId = ''d'',
     pf_keyId = ''device-key.ed25519-spki:key'', pf_algorithm = ''ed25519'',
     pf_signature = ''skey'' @ proofPayload ''n2'' \<rparr>"

lemma sample_challenged:
  "issueChallenge device_iso TestOnly ''test.a'' ''u'' ''d'' 0 (Fin 9000) ''c2'' ''n2'' enrolled_tables
   = (Inr sample_challenge, enrolled_tables\<lparr>tb_challenges := tb_challenges enrolled_tables @ [sample_challenge]\<rparr>)"
  by code_simp

lemma sample_signed: "signDeviceSessionChallenge device_date sample_signer sample_identity ''secret:k'' sample_challenge = Inr signed_challenge"
  by code_simp

lemma sample_signs: "sg_public sample_signer k = Inr p \<Longrightarrow>
    sample_ed25519 p t (sg_sign sample_signer k t) = Inr True \<and> sg_sign sample_signer k t \<noteq> []"
  by (simp add: sample_signer_def sample_ed25519_def)

theorem enrolled_device_opens_session_witness:
  "\<exists>s st2. openSession device_date device_iso (device_proof_verify sample_ed25519) (\<lambda>st. st) signed_challenge 0 (Fin 1000) ''s1''
      (enrolled_tables\<lparr>tb_challenges := tb_challenges enrolled_tables @ [sample_challenge]\<rparr>) = (Inr s, st2) \<and> dn_id s = ''s1''"
proof -
  have "device_date (device_iso (0 + int_num (Fin 9000))) = Some (0 + int_num (Fin 9000))" by code_simp
  moreover have "\<exists>d. device_row enrolled_tables ''test.a'' ''d'' = Some d \<and> dv_publicKey d = di_publicKey sample_identity"
    by (simp add: device_row_def enrolled_tables_def sample_identity_def)
  moreover have "tokenPattern ''s1''" "''s1'' \<notin> dn_id ` set (tb_sessions enrolled_tables)" by code_simp+
  ultimately show ?thesis
    using enrolled_device_opens_session [where ?ed25519.0 = sample_ed25519 and t = "''s1''" and ?ttl2.0 = "Fin 1000",
        OF sample_signs _ sample_challenged sample_signed] by force
qed

section \<open>Enrollment of a new device\<close>

text \<open>
  The secrets are a map that the signer reads and an enrollment writes; the key pair comes from
  \<open>generateKeyPairSync\<close>: \<open>keyPrivate\<close> in its encoding, \<open>public\<close> the encoding of the public half.
\<close>

definition assertDeviceEnrollmentSecret ::
  "(string \<Rightarrow> int option) \<Rightarrow> device_signer \<Rightarrow> device_identity \<Rightarrow> string \<Rightarrow> unit result" where
  "assertDeviceEnrollmentSecret date_ms sg identityInput privateKeyRef =
     rbind (validateDeviceIdentity date_ms identityInput) (\<lambda>identity.
     rbind (require (referencePattern privateKeyRef) ''device enrollment secret reference is invalid'') (\<lambda>_.
     rbind (case sg_secrets sg privateKeyRef of None \<Rightarrow> throw ''device private key is unavailable'' | Some k \<Rightarrow> Inr k) (\<lambda>key.
     rbind (sg_public sg key) (\<lambda>public.
     require (publicKeyPrefix @ public = di_publicKey identity) ''device private key does not match enrolled public identity''))))"

record enrollment_input =
  ei_tenantId :: string
  ei_userId :: string
  ei_deviceId :: string
  ei_privateKeyRef :: string
  ei_attestationReference :: "string option"

definition new_identity :: "enrollment_input \<Rightarrow> string \<Rightarrow> timestamp \<Rightarrow> device_identity" where
  "new_identity input public at_text =
     \<lparr> di_schemaVersion = Fin 1, di_tenantId = ei_tenantId input, di_userId = ei_userId input, di_deviceId = ei_deviceId input,
       di_publicKey = publicKeyPrefix @ public, di_keyAlgorithm = ''ed25519'', di_createdAt = at_text, di_attestation_kind = ''self'',
       di_attestation_reference = (case ei_attestationReference input of None \<Rightarrow> ''self:ed25519'' | Some r \<Rightarrow> r) \<rparr>"

definition createEd25519DeviceEnrollment ::
  "(string \<Rightarrow> int option) \<Rightarrow> (int \<Rightarrow> timestamp) \<Rightarrow> enrollment_input \<Rightarrow> string \<Rightarrow> string \<Rightarrow> int \<Rightarrow> device_signer \<Rightarrow>
   ((device_identity \<times> string \<times> string) \<times> device_signer) result" where
  "createEd25519DeviceEnrollment date_ms iso_text input keyPrivate public now sg =
     rbind (require (referencePattern (ei_privateKeyRef input)) ''device enrollment secret reference or timestamp is invalid'') (\<lambda>_.
     rbind (toISOString iso_text now) (\<lambda>at_text.
     rbind (require (sg_secrets sg (ei_privateKeyRef input) = None) ''device enrollment secret reference already exists'') (\<lambda>_.
     rbind (validateDeviceIdentity date_ms (new_identity input public at_text)) (\<lambda>identity.
     Inr ((identity, ei_privateKeyRef input, key_id (sg_sha sg) (publicKeyPrefix @ public)),
          sg\<lparr>sg_secrets := (sg_secrets sg)(ei_privateKeyRef input \<mapsto> keyPrivate)\<rparr>)))))"

lemma validateDeviceIdentity_same: "validateDeviceIdentity date_ms i = Inr j \<Longrightarrow> j = i"
  by (auto simp: validateDeviceIdentity_def rbind_Inr_iff Let_def split: if_split_asm option.split_asm)

theorem created_enrollment_signs:
  assumes pair: "sg_public sg keyPrivate = Inr public"
    and created: "createEd25519DeviceEnrollment date_ms iso_text input keyPrivate public now sg = Inr ((identity, ref, keyId), sg')"
  shows "assertDeviceEnrollmentSecret date_ms sg' identity ref = Inr ()
    \<and> (\<forall>r. r \<noteq> ei_privateKeyRef input \<longrightarrow> sg_secrets sg' r = sg_secrets sg r)
    \<and> (\<forall>again other publicOther now2. ei_privateKeyRef again = ref \<longrightarrow>
         (\<exists>e. createEd25519DeviceEnrollment date_ms iso_text again other publicOther now2 sg' = Inl e))
    \<and> (\<forall>challenge. hl_tenant challenge = di_tenantId identity \<and> hl_user challenge = di_userId identity \<and> hl_device challenge = di_deviceId identity \<longrightarrow>
         (\<exists>proof. signDeviceSessionChallenge date_ms sg' identity ref challenge = Inr proof \<and> pf_keyId proof = keyId
            \<and> pf_signature proof = sg_sign sg keyPrivate (proofPayload (hl_nonce challenge))))"
proof -
  from created obtain at_text where at_text: "validateDeviceIdentity date_ms (new_identity input public at_text) = Inr identity"
    "ref = ei_privateKeyRef input" "keyId = key_id (sg_sha sg) (publicKeyPrefix @ public)" "referencePattern ref"
    "sg' = sg\<lparr>sg_secrets := (sg_secrets sg)(ref \<mapsto> keyPrivate)\<rparr>"
    by (auto simp: createEd25519DeviceEnrollment_def rbind_Inr_iff require_def split: if_split_asm)
  from validateDeviceIdentity_same [OF at_text(1)] have identity: "identity = new_identity input public at_text" .
  have key: "di_publicKey identity = publicKeyPrefix @ public" by (simp add: identity new_identity_def)
  have "assertDeviceEnrollmentSecret date_ms sg' identity ref = Inr ()"
    using at_text identity pair key by (simp add: assertDeviceEnrollmentSecret_def require_def)
  moreover have "\<exists>e. createEd25519DeviceEnrollment date_ms iso_text again other publicOther now2 sg' = Inl e" if "ei_privateKeyRef again = ref"
    for again other publicOther now2
    using that at_text(4,5) by (cases "toISOString iso_text now2") (simp_all add: createEd25519DeviceEnrollment_def require_def)
  moreover have "\<exists>proof. signDeviceSessionChallenge date_ms sg' identity ref challenge = Inr proof \<and> pf_keyId proof = keyId
      \<and> pf_signature proof = sg_sign sg keyPrivate (proofPayload (hl_nonce challenge))"
    if "hl_tenant challenge = di_tenantId identity \<and> hl_user challenge = di_userId identity \<and> hl_device challenge = di_deviceId identity" for challenge
    using that at_text identity pair key by (simp add: signDeviceSessionChallenge_def require_def)
  ultimately show ?thesis using at_text(2,5) by simp
qed

definition sample_request :: enrollment_input where
  "sample_request = \<lparr> ei_tenantId = ''test.a'', ei_userId = ''u'', ei_deviceId = ''d'', ei_privateKeyRef = ''keychain:new'',
     ei_attestationReference = None \<rparr>"

theorem created_enrollment_signs_witness:
  "\<exists>identity ref keyId sg'. createEd25519DeviceEnrollment device_date device_iso sample_request ''key'' ''key'' 0 sample_signer
      = Inr ((identity, ref, keyId), sg') \<and> assertDeviceEnrollmentSecret device_date sg' identity ref = Inr ()"
proof -
  have pair: "sg_public sample_signer ''key'' = Inr ''key''" by (simp add: sample_signer_def)
  have "(case createEd25519DeviceEnrollment device_date device_iso sample_request ''key'' ''key'' 0 sample_signer of Inr _ \<Rightarrow> True | Inl _ \<Rightarrow> False)"
    by code_simp
  then obtain identity ref keyId sg' where
    made: "createEd25519DeviceEnrollment device_date device_iso sample_request ''key'' ''key'' 0 sample_signer = Inr ((identity, ref, keyId), sg')"
    by (auto split: sum.split_asm)
  from created_enrollment_signs [OF pair made] made show ?thesis by blast
qed

end
