(* ===== verification/Device_Dispatch.thy ===== *)
theory Device_Dispatch
  imports Signed_Plan
begin

text \<open>
  The dispatch queue of a device (control-plane/sqlite-device-session-provider.ts): enqueue, poll,
  acknowledge and submitResult over the sessions of Device_Sessions. A poll awaits the verifier of the
  plan, so it is a read and a commit with others in between; the other calls change the store in one
  step. Plans and results are the objects of the wire, a JSON column the tree of its text.
\<close>

section \<open>Rows\<close>

record dispatch =
  dp_tenantId :: string
  dp_userId :: string
  dp_taskId :: string
  dp_deviceId :: string
  dp_plan :: jval
  dp_idempotencyKey :: string
  dp_state :: string
  dp_createdAt :: timestamp

record dispatch_row =
  dq_tenant :: string
  dq_task :: string
  dq_user :: string
  dq_device :: string
  dq_planId :: string
  dq_plan :: json
  dq_key :: string
  dq_state :: string
  dq_createdAt :: timestamp
  dq_leaseToken :: "string option"
  dq_attempt :: int
  dq_leasedAt :: "timestamp option"
  dq_leaseExpires :: "timestamp option"
  dq_ackAt :: "timestamp option"

record result_row =
  rr_tenant :: string
  rr_task :: string
  rr_json :: json
  rr_completedAt :: timestamp

record queue_store =
  qs_tables :: device_tables
  qs_dispatches :: "dispatch_row list"
  qs_results :: "result_row list"

record task_lease =
  tl_taskId :: string
  tl_planId :: string
  tl_plan :: jval
  tl_deviceId :: string
  tl_leaseToken :: string
  tl_attempt :: int
  tl_leasedAt :: timestamp
  tl_expiresAt :: timestamp

record task_ack =
  tk_taskId :: string
  tk_planId :: string
  tk_deviceId :: string
  tk_acceptedAt :: timestamp

text \<open>A nullable text read as a condition, and \<open>String(x)\<close> of it.\<close>

definition truthy :: "string option \<Rightarrow> bool" where
  "truthy x = (case x of None \<Rightarrow> False | Some s \<Rightarrow> s \<noteq> [])"

definition text_or_null :: "string option \<Rightarrow> string" where
  "text_or_null x = (case x of None \<Rightarrow> ''null'' | Some s \<Rightarrow> s)"

definition dispatch_key :: "dispatch_row \<Rightarrow> string \<times> string" where
  "dispatch_key r = (dq_tenant r, dq_task r)"

definition dispatch_at :: "queue_store \<Rightarrow> string \<times> string \<Rightarrow> dispatch_row option" where
  "dispatch_at st k = lookup dispatch_key (qs_dispatches st) k"

text \<open>\<open>#taskRow\<close>: the row of a task as far as the session may see it.\<close>

definition task_row :: "queue_store \<Rightarrow> device_session \<Rightarrow> string \<Rightarrow> dispatch_row option" where
  "task_row st s taskId =
     find (\<lambda>r. dq_tenant r = dn_tenant s \<and> dq_task r = taskId \<and> dq_user r = dn_user s \<and> dq_device r = dn_device s) (qs_dispatches st)"

definition dispatch_from :: "dispatch_row \<Rightarrow> dispatch" where
  "dispatch_from r =
     \<lparr> dp_tenantId = dq_tenant r, dp_userId = dq_user r, dp_taskId = dq_task r, dp_deviceId = dq_device r,
       dp_plan = js_of_json (dq_plan r), dp_idempotencyKey = dq_key r, dp_state = dq_state r, dp_createdAt = dq_createdAt r \<rparr>"

definition lease_of :: "dispatch_row \<Rightarrow> jval \<Rightarrow> task_lease" where
  "lease_of r plan =
     \<lparr> tl_taskId = dq_task r, tl_planId = dq_planId r, tl_plan = plan, tl_deviceId = dq_device r,
       tl_leaseToken = text_or_null (dq_leaseToken r), tl_attempt = dq_attempt r, tl_leasedAt = text_or_null (dq_leasedAt r),
       tl_expiresAt = text_or_null (dq_leaseExpires r) \<rparr>"

text \<open>A lease that is still running: \<open>row.lease_token && Date.parse(String(row.lease_expires_at)) > now\<close>.\<close>

definition held :: "(string \<Rightarrow> int option) \<Rightarrow> dispatch_row \<Rightarrow> int \<Rightarrow> bool" where
  "held date_ms r now =
     (truthy (dq_leaseToken r) \<and> (case date_ms (text_or_null (dq_leaseExpires r)) of Some e \<Rightarrow> now < e | None \<Rightarrow> False))"

section \<open>Enqueue\<close>

definition new_dispatch_row :: "dispatch \<Rightarrow> json \<Rightarrow> dispatch_row" where
  "new_dispatch_row d plan_json =
     \<lparr> dq_tenant = dp_tenantId d, dq_task = dp_taskId d, dq_user = dp_userId d, dq_device = dp_deviceId d,
       dq_planId = plan_text (dp_plan d) ''planId'', dq_plan = plan_json, dq_key = dp_idempotencyKey d, dq_state = ''queued'',
       dq_createdAt = dp_createdAt d, dq_leaseToken = None, dq_attempt = 0, dq_leasedAt = None, dq_leaseExpires = None,
       dq_ackAt = None \<rparr>"

text \<open>The checks of the dispatch itself, before and with the verifier.\<close>

definition check_dispatch :: "plan_host \<Rightarrow> tenant_mode \<Rightarrow> dispatch \<Rightarrow> int \<Rightarrow> unit result" where
  "check_dispatch h mode d now =
     (let env = plan_envelope (dp_plan d) in
      if (mode = TestOnly \<and> \<not> starts_with ''test.'' (dp_tenantId d)) \<or> dp_state d \<noteq> ''queued'' \<or> has_effects (dp_plan d)
      then throw ''inactive device queue accepts admitted no-effect dispatches only''
      else if js_get env ''tenantId'' \<noteq> JStr (dp_tenantId d) \<or> js_get env ''userId'' \<noteq> JStr (dp_userId d)
              \<or> js_get env ''deviceId'' \<noteq> JStr (dp_deviceId d)
      then throw ''dispatch plan scope mismatch''
      else rbind (verifySignedExecutionPlan h (dp_plan d) now) (\<lambda>_. Inr ()))"

definition enqueue_dispatch :: "plan_host \<Rightarrow> tenant_mode \<Rightarrow> dispatch \<Rightarrow> int \<Rightarrow> queue_store \<Rightarrow> (dispatch \<times> queue_store) result" where
  "enqueue_dispatch h mode d now st =
     rbind (check_dispatch h mode d now) (\<lambda>_.
     rbind (case device_row (qs_tables st) (dp_tenantId d) (dp_deviceId d) of
              None \<Rightarrow> throw ''dispatch device is unavailable''
            | Some device \<Rightarrow> require (dv_user device = dp_userId d \<and> dv_state device = ''registered'') ''dispatch device is unavailable'') (\<lambda>_.
     case dispatch_at st (dp_tenantId d, dp_taskId d) of
       Some existing \<Rightarrow>
         if dq_key existing \<noteq> dp_idempotencyKey d \<or> stringify (js_of_json (dq_plan existing)) \<noteq> stringify (dp_plan d)
         then throw ''immutable dispatch already exists with different content''
         else Inr (dispatch_from existing, st)
     | None \<Rightarrow>
         (case stringify (dp_plan d) of
            None \<Rightarrow> Inl (ConstraintError ''NOT NULL constraint failed: cp_device_dispatch.plan_json'')
          | Some plan_json \<Rightarrow>
              if \<exists>r\<in>set (qs_dispatches st). dq_tenant r = dp_tenantId d \<and> dq_key r = dp_idempotencyKey d
              then throw ''idempotency key is already assigned to another task''
              else Inr (d, st\<lparr>qs_dispatches := qs_dispatches st @ [new_dispatch_row d plan_json]\<rparr>))))"

section \<open>Poll\<close>

definition next_dispatch :: "queue_store \<Rightarrow> device_session \<Rightarrow> dispatch_row option" where
  "next_dispatch st s =
     first_by (\<lambda>r. (dq_createdAt r, dq_task r))
       (filter (\<lambda>r. dq_tenant r = dn_tenant s \<and> dq_user r = dn_user s \<and> dq_device r = dn_device s \<and> dq_ackAt r = None
                 \<and> dq_state r \<in> {''queued'', ''leased''}) (qs_dispatches st))"

definition leased_row :: "string \<Rightarrow> timestamp \<Rightarrow> timestamp \<Rightarrow> dispatch_row \<Rightarrow> dispatch_row" where
  "leased_row token leasedAt expiresAt r =
     r\<lparr>dq_state := ''leased'', dq_leaseToken := Some token, dq_attempt := dq_attempt r + 1, dq_leasedAt := Some leasedAt,
       dq_leaseExpires := Some expiresAt\<rparr>"

text \<open>The transaction of a poll for the task it read.\<close>

definition poll_commit ::
  "plan_host \<Rightarrow> (int \<Rightarrow> timestamp) \<Rightarrow> device_session \<Rightarrow> string \<Rightarrow> jval \<Rightarrow> int \<Rightarrow> jnum \<Rightarrow> string \<Rightarrow> queue_store \<Rightarrow>
   (task_lease option \<times> queue_store) result" where
  "poll_commit h iso_text s taskId plan now ttlMs leaseToken st =
     (case task_row st s taskId of
        None \<Rightarrow> Inr (None, st)
      | Some current \<Rightarrow>
          if truthy (dq_ackAt current) \<or> dq_state current \<notin> {''queued'', ''leased''} then Inr (None, st)
          else if held (ph_date h) current now then Inr (Some (lease_of current plan), st)
          else
            rbind (checked_token ''lease'' leaseToken) (\<lambda>token.
            rbind (toISOString iso_text now) (\<lambda>leasedAt.
            rbind (toISOString iso_text (now + int_num ttlMs)) (\<lambda>expiresAt.
            Inr (Some \<lparr> tl_taskId = dq_task current, tl_planId = dq_planId current, tl_plan = plan, tl_deviceId = dn_device s,
                        tl_leaseToken = token, tl_attempt = dq_attempt current + 1, tl_leasedAt = leasedAt, tl_expiresAt = expiresAt \<rparr>,
                 st\<lparr>qs_dispatches := update_where (\<lambda>r. dispatch_key r = (dn_tenant s, dq_task current))
                      (leased_row token leasedAt expiresAt) (qs_dispatches st)\<rparr>)))))"

text \<open>The session of a call, with the mark it leaves on one that is over.\<close>

definition queue_session :: "plan_host \<Rightarrow> string \<Rightarrow> int \<Rightarrow> queue_store \<Rightarrow> device_session result \<times> queue_store" where
  "queue_session h sessionId now st =
     (let (r, tables) = activeSession (ph_date h) sessionId now (qs_tables st) in (r, st\<lparr>qs_tables := tables\<rparr>))"

definition poll_tasks ::
  "plan_host \<Rightarrow> (int \<Rightarrow> timestamp) \<Rightarrow> (queue_store \<Rightarrow> queue_store) \<Rightarrow> string \<Rightarrow> int \<Rightarrow> jnum \<Rightarrow> string \<Rightarrow> queue_store \<Rightarrow>
   task_lease option result \<times> queue_store" where
  "poll_tasks h iso_text world sessionId now ttlMs leaseToken st =
     (case positive ttlMs ''lease ttl'' of Inl e \<Rightarrow> (Inl e, st) | Inr _ \<Rightarrow>
     (case queue_session h sessionId now st of (Inl e, st1) \<Rightarrow> (Inl e, st1) | (Inr s, st1) \<Rightarrow>
     (case next_dispatch st1 s of None \<Rightarrow> (Inr None, st1) | Some row \<Rightarrow>
       (let st2 = world st1 in
        case verifySignedExecutionPlan h (js_of_json (dq_plan row)) now of
          Inl e \<Rightarrow> (Inl e, st2)
        | Inr plan \<Rightarrow>
            if held (ph_date h) row now then (Inr (Some (lease_of row plan)), st2)
            else (case poll_commit h iso_text s (dq_task row) plan now ttlMs leaseToken st2 of
                    Inl e \<Rightarrow> (Inl e, st2)
                  | Inr (l, st3) \<Rightarrow> (Inr l, st3))))))"

section \<open>Acknowledgement and result\<close>

definition acknowledge_task ::
  "plan_host \<Rightarrow> (int \<Rightarrow> timestamp) \<Rightarrow> string \<Rightarrow> string \<Rightarrow> string \<Rightarrow> int \<Rightarrow> queue_store \<Rightarrow> task_ack result \<times> queue_store" where
  "acknowledge_task h iso_text sessionId leaseToken taskId now st =
     (case queue_session h sessionId now st of (Inl e, st1) \<Rightarrow> (Inl e, st1) | (Inr s, st1) \<Rightarrow>
     (case task_row st1 s taskId of
        None \<Rightarrow> (throw ''task lease is unavailable, expired or out of scope'', st1)
      | Some row \<Rightarrow>
          if dq_leaseToken row \<noteq> Some leaseToken \<or> \<not> truthy (dq_leaseExpires row)
             \<or> past (ph_date h) (text_or_null (dq_leaseExpires row)) now
          then (throw ''task lease is unavailable, expired or out of scope'', st1)
          else (case (if truthy (dq_ackAt row) then Inr (text_or_null (dq_ackAt row)) else toISOString iso_text now) of
                  Inl e \<Rightarrow> (Inl e, st1)
                | Inr acceptedAt \<Rightarrow>
                    (Inr \<lparr> tk_taskId = taskId, tk_planId = dq_planId row, tk_deviceId = dn_device s, tk_acceptedAt = acceptedAt \<rparr>,
                     st1\<lparr>qs_dispatches := update_where (\<lambda>r. dispatch_key r = (dn_tenant s, taskId) \<and> dq_ackAt r = None)
                           (\<lambda>r. r\<lparr>dq_ackAt := Some acceptedAt\<rparr>) (qs_dispatches st1)\<rparr>))))"

text \<open>\<open>/^(?:\/|[A-Za-z]:[\\/]|~[\\/])|(?:token|secret|password|private[_-]?key)\s*[:=]/i\<close>\<close>

definition path_shaped :: "string \<Rightarrow> bool" where
  "path_shaped s =
     (case s of
        [] \<Rightarrow> False
      | c # rest \<Rightarrow>
          c = CHR ''/''
          \<or> (upper_letter c \<or> lower_letter c) \<and> (case rest of d # e # _ \<Rightarrow> d = CHR '':'' \<and> slash e | _ \<Rightarrow> False)
          \<or> c = CHR ''~'' \<and> (case rest of d # _ \<Rightarrow> slash d | [] \<Rightarrow> False))"

definition unsafeResult :: "string \<Rightarrow> bool" where
  "unsafeResult s = (path_shaped s \<or> secretAssignmentPattern s)"

definition outcomes :: "string list" where
  "outcomes = [''succeeded'', ''failed'', ''cancelled'']"

definition validateResult :: "(string \<Rightarrow> int option) \<Rightarrow> jval \<Rightarrow> unit result" where
  "validateResult date_ms input =
     (let digests = texts_of (js_get input ''artifactDigests'') in
      require
        (tokenPattern (plan_text input ''deviceId'') \<and> tokenPattern (plan_text input ''taskId'') \<and> tokenPattern (plan_text input ''planId'')
         \<and> js_get input ''outcome'' \<in> JStr ` set outcomes
         \<and> tokenPattern (plan_text input ''summaryCode'') \<and> \<not> unsafeResult (plan_text input ''summaryCode'')
         \<and> length digests \<le> 64 \<and> length (first_occurrences digests) = length digests \<and> list_all digestPattern digests
         \<and> date_ms (plan_text input ''completedAt'') \<noteq> None)
        ''result is not privacy bounded'')"

text \<open>\<open>{ ...input, k: v }\<close>\<close>

definition set_entry :: "string \<Rightarrow> jval \<Rightarrow> (string \<times> jval) list \<Rightarrow> (string \<times> jval) list" where
  "set_entry k v kvs =
     (if k \<in> fst ` set kvs then map (\<lambda>kv. if fst kv = k then (k, v) else kv) kvs else kvs @ [(k, v)])"

definition with_field :: "string \<Rightarrow> jval \<Rightarrow> jval \<Rightarrow> jval" where
  "with_field k v x = (case x of JObj _ kvs \<Rightarrow> JObj ObjectProto (set_entry k v kvs) | _ \<Rightarrow> JObj ObjectProto [(k, v)])"

definition scoped_result :: "device_session \<Rightarrow> jval \<Rightarrow> jval" where
  "scoped_result s input = with_field ''userId'' (JStr (dn_user s)) (with_field ''tenantId'' (JStr (dn_tenant s)) input)"

definition final_state :: "string \<Rightarrow> string" where
  "final_state outcome = (if outcome = ''succeeded'' then ''completed'' else outcome)"

definition result_key :: "result_row \<Rightarrow> string \<times> string" where
  "result_key r = (rr_tenant r, rr_task r)"

definition record_result ::
  "device_session \<Rightarrow> jval \<Rightarrow> queue_store \<Rightarrow> (jval \<times> queue_store) result" where
  "record_result s input st =
     (let result = scoped_result s input; k = (dn_tenant s, plan_text input ''taskId'') in
      case lookup result_key (qs_results st) k of
        Some existing \<Rightarrow>
          (let v = js_of_json (rr_json existing) in
           if stringify v \<noteq> stringify result then throw ''immutable result already exists with different evidence'' else Inr (v, st))
      | None \<Rightarrow>
          (case stringify result of
             None \<Rightarrow> Inl (ConstraintError ''NOT NULL constraint failed: cp_device_result.result_json'')
           | Some result_json \<Rightarrow>
               Inr (result, st\<lparr>qs_results := qs_results st @ [\<lparr> rr_tenant = fst k, rr_task = snd k, rr_json = result_json,
                                   rr_completedAt = plan_text input ''completedAt'' \<rparr>],
                                 qs_dispatches := update_where (\<lambda>r. dispatch_key r = k)
                                   (\<lambda>r. r\<lparr>dq_state := final_state (plan_text input ''outcome'')\<rparr>) (qs_dispatches st)\<rparr>)))"

definition submitResult ::
  "plan_host \<Rightarrow> string \<Rightarrow> jval \<Rightarrow> int \<Rightarrow> queue_store \<Rightarrow> jval result \<times> queue_store" where
  "submitResult h sessionId input now st =
     (case queue_session h sessionId now st of (Inl e, st1) \<Rightarrow> (Inl e, st1) | (Inr s, st1) \<Rightarrow>
     (case (case task_row st1 s (plan_text input ''taskId'') of
              None \<Rightarrow> throw ''result is outside the acknowledged lease scope''
            | Some row \<Rightarrow>
                if \<not> truthy (dq_ackAt row) \<or> js_get input ''planId'' \<noteq> JStr (dq_planId row)
                   \<or> js_get input ''deviceId'' \<noteq> JStr (dn_device s)
                then throw ''result is outside the acknowledged lease scope''
                else rbind (validateResult (ph_date h) input) (\<lambda>_. record_result s input st1)) of
        Inl e \<Rightarrow> (Inl e, st1)
      | Inr (r, st2) \<Rightarrow> (Inr r, st2)))"

section \<open>Sequences of calls\<close>

datatype queue_op =
    EnqueueOp tenant_mode dispatch int
  | SessionOp string int
  | PollCommitOp device_session string jval int jnum string
  | AcknowledgeOp string string string int
  | SubmitOp string jval int
  | TablesOp device_op

fun queue_exec :: "plan_host \<Rightarrow> (int \<Rightarrow> timestamp) \<Rightarrow> queue_op \<Rightarrow> queue_store \<Rightarrow> queue_store" where
  "queue_exec h iso_text (EnqueueOp mode d now) st =
     (case enqueue_dispatch h mode d now st of Inl _ \<Rightarrow> st | Inr (_, st1) \<Rightarrow> st1)"
| "queue_exec h iso_text (SessionOp sid now) st = snd (queue_session h sid now st)"
| "queue_exec h iso_text (PollCommitOp s taskId plan now ttl token) st =
     (case poll_commit h iso_text s taskId plan now ttl token st of Inl _ \<Rightarrow> st | Inr (_, st1) \<Rightarrow> st1)"
| "queue_exec h iso_text (AcknowledgeOp sid token taskId now) st = snd (acknowledge_task h iso_text sid token taskId now st)"
| "queue_exec h iso_text (SubmitOp sid input now) st = snd (submitResult h sid input now st)"
| "queue_exec h iso_text (TablesOp oper) st = st\<lparr>qs_tables := device_exec (ph_date h) iso_text oper (qs_tables st)\<rparr>"

definition queue_run :: "plan_host \<Rightarrow> (int \<Rightarrow> timestamp) \<Rightarrow> queue_op list \<Rightarrow> queue_store \<Rightarrow> queue_store" where
  "queue_run h iso_text ops st = fold (queue_exec h iso_text) ops st"

section \<open>Plans on the way through the queue\<close>

text \<open>A plan without effects for one device of one user, and that it stays one as JSON.\<close>

definition effect_free :: "jval \<Rightarrow> string \<Rightarrow> string \<Rightarrow> string \<Rightarrow> bool" where
  "effect_free plan tenant user device =
     (let env = plan_envelope plan in
      js_get env ''allowedEffects'' = JArr [] \<and> js_get env ''approvalGrants'' = JArr []
      \<and> js_get env ''tenantId'' = JStr tenant \<and> js_get env ''userId'' = JStr user \<and> js_get env ''deviceId'' = JStr device)"

lemma js_get_entry:
  "js_get v k = w \<Longrightarrow> w \<noteq> JUndefined \<Longrightarrow> w \<noteq> JFun \<Longrightarrow> k \<noteq> ''__proto__'' \<Longrightarrow> \<exists>p kvs. v = JObj p kvs \<and> map_of kvs k = Some w"
  by (cases v) (auto split: option.splits if_splits)

lemma map_of_stringified:
  "map_of kvs k = Some w \<Longrightarrow> stringify w = Some j \<Longrightarrow>
     map_of (concat (map (\<lambda>kv. case stringify (snd kv) of None \<Rightarrow> [] | Some x \<Rightarrow> [(fst kv, x)]) kvs)) k = Some j"
  by (induction kvs) (auto split: option.splits if_splits)

lemma map_of_js_of_json: "map_of (map (\<lambda>kv. (fst kv, js_of_json (snd kv))) kvs) k = map_option js_of_json (map_of kvs k)"
  by (induction kvs) auto

lemma js_get_stringify:
  assumes "stringify v = Some j" "js_get v k = w" "stringify w = Some i" "k \<noteq> ''__proto__''"
  shows "js_get (js_of_json j) k = js_of_json i"
proof -
  have "w \<noteq> JUndefined" "w \<noteq> JFun" using assms(3) by auto
  then obtain p kvs where v: "v = JObj p kvs" "map_of kvs k = Some w" using js_get_entry [OF assms(2) _ _ assms(4)] by blast
  with assms(1) map_of_stringified [OF v(2) assms(3)] show ?thesis
    by (auto simp: map_of_js_of_json)
qed

lemma stringify_js_of_json: "stringify (js_of_json j) = Some j"
proof (induction j rule: js_of_json.induct)
  case (5 js)
  then have "map (\<lambda>x. case stringify (js_of_json x) of None \<Rightarrow> Null | Some i \<Rightarrow> i) js = js" by (induction js) auto
  then show ?case by (simp add: o_def)
next
  case (6 kvs)
  then have "\<forall>kv\<in>set kvs. stringify (js_of_json (snd kv)) = Some (snd kv)" by auto
  then have "concat (map (\<lambda>kv. case stringify (js_of_json (snd kv)) of None \<Rightarrow> [] | Some x \<Rightarrow> [(fst kv, x)]) kvs) = kvs"
    by (induction kvs) auto
  then show ?case by (simp add: o_def cong: option.case_cong)
qed simp_all

lemma validated_shape:
  assumes "validateExecutionEnvelope date_ms num_text env = Inr env"
  shows "is_record env" "\<exists>xs. js_get env ''allowedEffects'' = JArr xs" "\<exists>xs. js_get env ''approvalGrants'' = JArr xs"
proof -
  from assms have "envelope_checks date_ms num_text env = Inr ()" by (auto simp: validateExecutionEnvelope_def rbind_Inr_iff)
  note checks = this [unfolded envelope_checks_def Let_def]
  have "check_record env ''envelope'' = Inr ()" by (rule all_of_member [OF checks]) simp
  then show "is_record env" by (simp add: check_record_def require_def split: if_split_asm)
  have "check_items (check_text 500) (js_get env ''allowedEffects'') ''envelope.allowedEffects'' = Inr ()"
    by (rule all_of_member [OF checks]) simp
  then show "\<exists>xs. js_get env ''allowedEffects'' = JArr xs"
    by (auto simp: check_items_def check_array_def require_def split: jval.splits if_split_asm)
  have "check_array (js_get env ''approvalGrants'') ''envelope.approvalGrants'' = Inr ()" by (rule all_of_member [OF checks]) simp
  then show "\<exists>xs. js_get env ''approvalGrants'' = JArr xs"
    by (auto simp: check_array_def require_def split: jval.splits if_split_asm)
qed

lemma check_dispatch_effect_free:
  assumes "check_dispatch h mode d now = Inr ()" "stringify (dp_plan d) = Some j"
  shows "effect_free (js_of_json j) (dp_tenantId d) (dp_userId d) (dp_deviceId d)"
proof -
  let ?env = "plan_envelope (dp_plan d)"
  from assms(1) have scope: "js_get ?env ''tenantId'' = JStr (dp_tenantId d)" "js_get ?env ''userId'' = JStr (dp_userId d)"
      "js_get ?env ''deviceId'' = JStr (dp_deviceId d)" and "\<not> has_effects (dp_plan d)"
    and verified: "\<exists>w. verifySignedExecutionPlan h (dp_plan d) now = Inr w"
    by (auto simp: check_dispatch_def Let_def rbind_Inr_iff split: if_split_asm)
  from verified have "validateExecutionEnvelope (ph_date h) (ph_num h) ?env = Inr ?env" using verifySignedExecutionPlan_Inr(2) by blast
  note shape = validated_shape [OF this]
  with \<open>\<not> has_effects (dp_plan d)\<close> have none: "js_get ?env ''allowedEffects'' = JArr []" "js_get ?env ''approvalGrants'' = JArr []"
    by (auto simp: has_effects_def items_of_def)
  from shape(1) obtain i where i: "stringify ?env = Some i" by (cases ?env) (auto simp: is_record_def)
  have "js_get (js_of_json j) ''envelope'' = js_of_json i"
    by (rule js_get_stringify [OF assms(2) _ i]) (simp_all add: plan_envelope_def)
  then have env: "plan_envelope (js_of_json j) = js_of_json i" by (simp add: plan_envelope_def)
  have "js_get (js_of_json i) ''allowedEffects'' = JArr []" using js_get_stringify [OF i none(1), of "Arr []"] by simp
  moreover have "js_get (js_of_json i) ''approvalGrants'' = JArr []" using js_get_stringify [OF i none(2), of "Arr []"] by simp
  moreover have "js_get (js_of_json i) ''tenantId'' = JStr (dp_tenantId d)"
    using js_get_stringify [OF i scope(1), of "Str (dp_tenantId d)"] by simp
  moreover have "js_get (js_of_json i) ''userId'' = JStr (dp_userId d)"
    using js_get_stringify [OF i scope(2), of "Str (dp_userId d)"] by simp
  moreover have "js_get (js_of_json i) ''deviceId'' = JStr (dp_deviceId d)"
    using js_get_stringify [OF i scope(3), of "Str (dp_deviceId d)"] by simp
  ultimately show ?thesis by (simp add: effect_free_def env Let_def)
qed

section \<open>The invariant\<close>

definition row_effect_free :: "dispatch_row \<Rightarrow> bool" where
  "row_effect_free r = effect_free (js_of_json (dq_plan r)) (dq_tenant r) (dq_user r) (dq_device r)"

definition terminal_states :: "string list" where
  "terminal_states = [''completed'', ''failed'', ''cancelled'']"

definition result_settled :: "queue_store \<Rightarrow> result_row \<Rightarrow> bool" where
  "result_settled st x \<longleftrightarrow> (\<exists>r. dispatch_at st (result_key x) = Some r \<and> dq_state r \<in> set terminal_states)"

definition queue_inv :: "queue_store \<Rightarrow> bool" where
  "queue_inv st \<longleftrightarrow> distinct (map dispatch_key (qs_dispatches st)) \<and> distinct (map result_key (qs_results st))
     \<and> (\<forall>r\<in>set (qs_dispatches st). row_effect_free r) \<and> (\<forall>x\<in>set (qs_results st). result_settled st x)"

text \<open>What a call does: it adds a row, changes one of an unsettled task within its key, settles a task, or neither.\<close>

definition same_task :: "dispatch_row \<Rightarrow> dispatch_row \<Rightarrow> bool" where
  "same_task r r' \<longleftrightarrow> dispatch_key r' = dispatch_key r \<and> dq_user r' = dq_user r \<and> dq_device r' = dq_device r \<and> dq_plan r' = dq_plan r"

lemma queue_session_cases:
  "queue_session h sid now st = (r, st1) \<Longrightarrow> qs_dispatches st1 = qs_dispatches st \<and> qs_results st1 = qs_results st"
  by (auto simp: queue_session_def split: prod.split_asm)

lemma outcome_terminal: "validateResult date_ms input = Inr () \<Longrightarrow> final_state (plan_text input ''outcome'') \<in> set terminal_states"
  by (auto simp: validateResult_def require_def outcomes_def final_state_def terminal_states_def plan_text_def Let_def split: if_split_asm)

lemma enqueue_dispatch_Inr:
  assumes "enqueue_dispatch h mode d now st = Inr (d', st')"
  obtains (existing) "st' = st"
  | (added) r where "st' = st\<lparr>qs_dispatches := qs_dispatches st @ [r]\<rparr>" "dispatch_at st (dispatch_key r) = None" "row_effect_free r"
proof -
  from assms have ok: "check_dispatch h mode d now = Inr ()" by (auto simp: enqueue_dispatch_def rbind_Inr_iff)
  show thesis
  proof (cases "dispatch_at st (dp_tenantId d, dp_taskId d)")
    case (Some r)
    with assms show ?thesis by (intro existing) (auto simp: enqueue_dispatch_def rbind_Inr_iff split: if_split_asm)
  next
    case None
    with assms obtain j where j: "stringify (dp_plan d) = Some j" "st' = st\<lparr>qs_dispatches := qs_dispatches st @ [new_dispatch_row d j]\<rparr>"
      by (auto simp: enqueue_dispatch_def rbind_Inr_iff split: if_split_asm option.split_asm)
    from check_dispatch_effect_free [OF ok j(1)] None j(2) show ?thesis
      by (intro added [of "new_dispatch_row d j"]) (simp_all add: row_effect_free_def new_dispatch_row_def dispatch_key_def)
  qed
qed

lemma task_row_at:
  assumes "queue_inv st" "task_row st s taskId = Some r"
  shows "dispatch_at st (dn_tenant s, taskId) = Some r" "dispatch_key r = (dn_tenant s, taskId)" "dq_user r = dn_user s" "dq_device r = dn_device s"
proof -
  from find_SomeD [OF assms(2) [unfolded task_row_def]]
  have r: "r \<in> set (qs_dispatches st)" "dispatch_key r = (dn_tenant s, taskId)" "dq_user r = dn_user s" "dq_device r = dn_device s"
    by (auto simp: dispatch_key_def)
  with assms(1) show "dispatch_at st (dn_tenant s, taskId) = Some r" unfolding dispatch_at_def queue_inv_def by (intro lookupI) auto
  from r show "dispatch_key r = (dn_tenant s, taskId)" "dq_user r = dn_user s" "dq_device r = dn_device s" by blast+
qed

lemma dispatch_at_unique:
  "queue_inv st \<Longrightarrow> dispatch_at st k = Some r \<Longrightarrow> x \<in> set (qs_dispatches st) \<Longrightarrow> dispatch_key x = k \<Longrightarrow> x = r"
  by (auto simp: dispatch_at_def queue_inv_def dest: lookupI)

lemma poll_commit_Inr:
  assumes "poll_commit h iso_text s taskId plan now ttl token st = Inr (l, st')"
  obtains (kept) "st' = st" "case l of None \<Rightarrow> True | Some x \<Rightarrow> \<exists>r. task_row st s taskId = Some r \<and> x = lease_of r plan"
  | (leased) r a e where "task_row st s taskId = Some r" "dq_state r \<in> {''queued'', ''leased''}" "\<not> held (ph_date h) r now"
      "\<not> truthy (dq_ackAt r)" "tokenPattern token"
      "st' = st\<lparr>qs_dispatches := update_where (\<lambda>x. dispatch_key x = (dn_tenant s, dq_task r)) (leased_row token a e) (qs_dispatches st)\<rparr>"
      "l = Some \<lparr> tl_taskId = dq_task r, tl_planId = dq_planId r, tl_plan = plan, tl_deviceId = dn_device s,
                  tl_leaseToken = token, tl_attempt = dq_attempt r + 1, tl_leasedAt = a, tl_expiresAt = e \<rparr>"
proof (cases "task_row st s taskId")
  case None with assms show ?thesis by (intro kept) (auto simp: poll_commit_def)
next
  case (Some r)
  show ?thesis
  proof (cases "truthy (dq_ackAt r) \<or> dq_state r \<notin> {''queued'', ''leased''} \<or> held (ph_date h) r now")
    case True
    with Some assms show ?thesis by (intro kept) (auto simp: poll_commit_def split: if_split_asm option.split)
  next
    case False
    with Some assms obtain a e where "st' = st\<lparr>qs_dispatches := update_where (\<lambda>x. dispatch_key x = (dn_tenant s, dq_task r)) (leased_row token a e) (qs_dispatches st)\<rparr>"
      "l = Some \<lparr> tl_taskId = dq_task r, tl_planId = dq_planId r, tl_plan = plan, tl_deviceId = dn_device s,
                  tl_leaseToken = token, tl_attempt = dq_attempt r + 1, tl_leasedAt = a, tl_expiresAt = e \<rparr>" "tokenPattern token"
      by (auto simp: poll_commit_def rbind_Inr_iff checked_token_def split: if_split_asm)
    with False Some show ?thesis by (intro leased) auto
  qed
qed

lemma acknowledge_effect:
  obtains (none) "qs_dispatches (snd (acknowledge_task h iso_text sid token taskId now st)) = qs_dispatches st"
    "qs_results (snd (acknowledge_task h iso_text sid token taskId now st)) = qs_results st"
  | (marked) p v where "qs_dispatches (snd (acknowledge_task h iso_text sid token taskId now st))
       = update_where p (\<lambda>r. r\<lparr>dq_ackAt := Some v\<rparr>) (qs_dispatches st)"
    "qs_results (snd (acknowledge_task h iso_text sid token taskId now st)) = qs_results st"
proof (cases "queue_session h sid now st")
  case (Pair r st1)
  note same = queue_session_cases [OF Pair]
  show ?thesis
  proof (cases r)
    case (Inl e) with Pair same show ?thesis by (intro none) (simp_all add: acknowledge_task_def)
  next
    case (Inr s)
    show ?thesis
    proof (cases "task_row st1 s taskId")
      case None with Pair Inr same show ?thesis by (intro none) (simp_all add: acknowledge_task_def)
    next
      case (Some row)
      show ?thesis
      proof (cases "(if truthy (dq_ackAt row) then Inr (text_or_null (dq_ackAt row)) else toISOString iso_text now) :: timestamp result")
        case (Inl e) with Pair \<open>r = Inr s\<close> Some same show ?thesis
          by (intro none) (simp_all add: acknowledge_task_def del: split_paired_All)
      next
        case (Inr v)
        show ?thesis
        proof (cases "dq_leaseToken row \<noteq> Some token \<or> \<not> truthy (dq_leaseExpires row) \<or> past (ph_date h) (text_or_null (dq_leaseExpires row)) now")
          case True with Pair \<open>r = Inr s\<close> Some same show ?thesis by (intro none) (simp_all add: acknowledge_task_def)
        next
          case False with Pair \<open>r = Inr s\<close> Some Inr same show ?thesis
            by (intro marked [of "\<lambda>r. dispatch_key r = (dn_tenant s, taskId) \<and> dq_ackAt r = None" v]) (simp_all add: acknowledge_task_def)
        qed
      qed
    qed
  qed
qed

lemma submit_effect:
  obtains (refused) e where "fst (submitResult h sid input now st) = Inl e"
    "qs_dispatches (snd (submitResult h sid input now st)) = qs_dispatches st" "qs_results (snd (submitResult h sid input now st)) = qs_results st"
  | (accepted) s row st1 v st2 where "queue_session h sid now st = (Inr s, st1)" "task_row st1 s (plan_text input ''taskId'') = Some row"
      "truthy (dq_ackAt row)" "validateResult (ph_date h) input = Inr ()" "record_result s input st1 = Inr (v, st2)"
      "submitResult h sid input now st = (Inr v, st2)"
proof (cases "queue_session h sid now st")
  case (Pair r st1)
  note same = queue_session_cases [OF Pair]
  show ?thesis
  proof (cases r)
    case (Inl e) with Pair same show ?thesis by (intro refused [of e]) (simp_all add: submitResult_def)
  next
    case (Inr s)
    let ?body = "case task_row st1 s (plan_text input ''taskId'') of
              None \<Rightarrow> throw ''result is outside the acknowledged lease scope''
            | Some row \<Rightarrow>
                if \<not> truthy (dq_ackAt row) \<or> js_get input ''planId'' \<noteq> JStr (dq_planId row)
                   \<or> js_get input ''deviceId'' \<noteq> JStr (dn_device s)
                then throw ''result is outside the acknowledged lease scope''
                else rbind (validateResult (ph_date h) input) (\<lambda>_. record_result s input st1)"
    have submit: "submitResult h sid input now st = (case ?body of Inl e \<Rightarrow> (Inl e, st1) | Inr (x, st2) \<Rightarrow> (Inr x, st2))"
      using Pair Inr by (simp add: submitResult_def)
    show ?thesis
    proof (cases ?body)
      case (Inl e) with same show ?thesis by (intro refused [of e]) (simp_all add: submit)
    next
      case (Inr x)
      then obtain v st2 where x: "x = (v, st2)" by (cases x)
      with Inr obtain row where "task_row st1 s (plan_text input ''taskId'') = Some row" "truthy (dq_ackAt row)"
        "validateResult (ph_date h) input = Inr ()" "record_result s input st1 = Inr (v, st2)"
        by (auto simp: rbind_Inr_iff split: option.split_asm if_split_asm)
      with Pair \<open>r = Inr s\<close> Inr x show ?thesis by (intro accepted [of s st1 row v st2]) (simp_all add: submit)
    qed
  qed
qed

lemma record_result_Inr:
  assumes "record_result s input st = Inr (v, st')"
  defines "k \<equiv> (dn_tenant s, plan_text input ''taskId'')"
  obtains (repeated) x where "lookup result_key (qs_results st) k = Some x" "st' = st" "stringify v = Some (rr_json x)"
  | (recorded) x where "lookup result_key (qs_results st) k = None" "result_key x = k" "stringify v = Some (rr_json x)"
      "qs_results st' = qs_results st @ [x]" "qs_tables st' = qs_tables st"
      "qs_dispatches st' = update_where (\<lambda>r. dispatch_key r = k) (\<lambda>r. r\<lparr>dq_state := final_state (plan_text input ''outcome'')\<rparr>) (qs_dispatches st)"
proof (cases "lookup result_key (qs_results st) k")
  case (Some x)
  with assms show ?thesis by (intro repeated [of x]) (auto simp: record_result_def Let_def stringify_js_of_json split: if_split_asm)
next
  case None
  show ?thesis
  proof (cases "stringify (scoped_result s input)")
    case None with \<open>lookup result_key (qs_results st) k = None\<close> assms show ?thesis by (simp add: record_result_def Let_def)
  next
    case (Some j)
    with None assms show ?thesis
      by (intro recorded [of "\<lparr> rr_tenant = dn_tenant s, rr_task = plan_text input ''taskId'', rr_json = j,
            rr_completedAt = plan_text input ''completedAt'' \<rparr>"]) (auto simp: record_result_def Let_def result_key_def)
  qed
qed

lemma settled_kept:
  assumes "result_settled st x" "qs_dispatches st' = update_where p f (qs_dispatches st)"
    and "\<And>r. dispatch_key (f r) = dispatch_key r"
    and "\<And>r. r \<in> set (qs_dispatches st) \<Longrightarrow> p r \<Longrightarrow> dq_state r \<in> set terminal_states \<Longrightarrow> dq_state (f r) \<in> set terminal_states"
  shows "result_settled st' x"
proof -
  from assms(1) obtain r where r: "dispatch_at st (result_key x) = Some r" "dq_state r \<in> set terminal_states"
    by (auto simp: result_settled_def)
  moreover have "r \<in> set (qs_dispatches st)" using r(1) by (auto simp: dispatch_at_def dest: lookup_SomeD)
  moreover have "dispatch_at st' (result_key x) = map_option (\<lambda>r. if p r then f r else r) (dispatch_at st (result_key x))"
    using assms(2,3) by (simp add: dispatch_at_def lookup_update_where)
  ultimately show ?thesis using assms(4) by (auto simp: result_settled_def)
qed

lemma queue_inv_update:
  assumes inv: "queue_inv st" and ds: "qs_dispatches st' = update_where p f (qs_dispatches st)" and rs: "qs_results st' = qs_results st"
    and same: "\<And>r. same_task r (f r)"
    and state: "\<And>r. r \<in> set (qs_dispatches st) \<Longrightarrow> p r \<Longrightarrow> dq_state r \<in> set terminal_states \<Longrightarrow> dq_state (f r) \<in> set terminal_states"
  shows "queue_inv st'"
proof -
  have key: "dispatch_key (f r) = dispatch_key r" for r using same by (simp add: same_task_def)
  have "map dispatch_key (qs_dispatches st') = map dispatch_key (qs_dispatches st)" unfolding ds by (rule update_where_keeps_map) (rule key)
  moreover have "row_effect_free (f r) = row_effect_free r" for r
    using same [of r] by (simp add: same_task_def row_effect_free_def dispatch_key_def)
  then have "\<forall>r\<in>set (qs_dispatches st'). row_effect_free r" using inv by (auto simp: ds queue_inv_def update_where_def)
  moreover have "\<forall>x\<in>set (qs_results st'). result_settled st' x"
    using inv settled_kept [OF _ ds key state] by (auto simp: queue_inv_def rs)
  ultimately show ?thesis using inv by (simp add: queue_inv_def rs)
qed

lemma queue_inv_same:
  "queue_inv st \<Longrightarrow> qs_dispatches st' = qs_dispatches st \<Longrightarrow> qs_results st' = qs_results st \<Longrightarrow> queue_inv st'"
  by (simp add: queue_inv_def result_settled_def dispatch_at_def)

lemma queue_inv_added:
  assumes inv: "queue_inv st" and new: "dispatch_at st (dispatch_key r) = None" "row_effect_free r"
  shows "queue_inv (st\<lparr>qs_dispatches := qs_dispatches st @ [r]\<rparr>)"
proof -
  let ?st = "st\<lparr>qs_dispatches := qs_dispatches st @ [r]\<rparr>"
  have "result_settled ?st x" if "x \<in> set (qs_results st)" for x
  proof -
    from inv that obtain y where "dispatch_at st (result_key x) = Some y" "dq_state y \<in> set terminal_states"
      by (auto simp: queue_inv_def result_settled_def)
    moreover from this(1) have "dispatch_at ?st (result_key x) = Some y" by (simp add: dispatch_at_def lookup_append)
    ultimately show ?thesis by (auto simp: result_settled_def)
  qed
  moreover have "dispatch_key r \<notin> dispatch_key ` set (qs_dispatches st)" using new(1) by (simp add: dispatch_at_def lookup_None_iff)
  ultimately show ?thesis using inv new(2) by (simp add: queue_inv_def)
qed

text \<open>Results are only added.\<close>

definition keeps_results :: "queue_store \<Rightarrow> queue_store \<Rightarrow> bool" where
  "keeps_results st st' \<longleftrightarrow> (\<exists>xs. qs_results st' = qs_results st @ xs)"

lemma keeps_results_refl [simp]: "qs_results st' = qs_results st \<Longrightarrow> keeps_results st st'"
  by (simp add: keeps_results_def)

lemma record_result_keeps:
  assumes inv: "queue_inv st" and row: "task_row st s (plan_text input ''taskId'') = Some row"
    and valid: "validateResult date_ms input = Inr ()" and commit: "record_result s input st = Inr (v, st')"
  shows "queue_inv st' \<and> keeps_results st st'"
  using commit
proof (cases rule: record_result_Inr)
  case (repeated x) with inv show ?thesis by simp
next
  case (recorded x)
  let ?k = "(dn_tenant s, plan_text input ''taskId'')"
  let ?f = "\<lambda>r. r\<lparr>dq_state := final_state (plan_text input ''outcome'')\<rparr>"
  have key: "dispatch_key (?f r) = dispatch_key r" for r by (simp add: dispatch_key_def)
  note final = outcome_terminal [OF valid]
  have "queue_inv (st'\<lparr>qs_results := qs_results st\<rparr>)"
    by (rule queue_inv_update [OF inv, where f = ?f and p = "\<lambda>r. dispatch_key r = ?k"])
      (use recorded(6) final in \<open>auto simp: same_task_def dispatch_key_def\<close>)
  moreover have "result_settled st' x"
    using task_row_at(1) [OF inv row] recorded(2,6) final key
    by (auto simp: result_settled_def dispatch_at_def lookup_update_where dest: lookup_SomeD)
  moreover have "result_key x \<notin> result_key ` set (qs_results st)" using recorded(1,2) by (simp add: lookup_None_iff)
  ultimately show ?thesis
    using recorded(4) by (auto simp: queue_inv_def keeps_results_def result_settled_def dispatch_at_def)
qed

lemma queue_exec_keeps:
  assumes inv: "queue_inv st"
  shows "queue_inv (queue_exec h iso_text oper st) \<and> keeps_results st (queue_exec h iso_text oper st)"
proof (cases oper)
  case (EnqueueOp mode d now)
  show ?thesis
  proof (cases "enqueue_dispatch h mode d now st")
    case (Inl e) with EnqueueOp inv show ?thesis by simp
  next
    case (Inr x)
    then obtain d' st' where x: "enqueue_dispatch h mode d now st = Inr (d', st')" by (cases x) simp
    then show ?thesis
    proof (cases rule: enqueue_dispatch_Inr)
      case existing with x EnqueueOp inv show ?thesis by simp
    next
      case (added r)
      with queue_inv_added [OF inv added(2,3)] x EnqueueOp show ?thesis by simp
    qed
  qed
next
  case (SessionOp sid now)
  have "qs_dispatches (snd (queue_session h sid now st)) = qs_dispatches st \<and> qs_results (snd (queue_session h sid now st)) = qs_results st"
    by (rule queue_session_cases [OF prod.collapse [symmetric]])
  then have "queue_inv (snd (queue_session h sid now st)) \<and> keeps_results st (snd (queue_session h sid now st))"
    using queue_inv_same [OF inv] by simp
  then show ?thesis unfolding SessionOp by simp
next
  case (PollCommitOp s taskId plan now ttl token)
  show ?thesis
  proof (cases "poll_commit h iso_text s taskId plan now ttl token st")
    case (Inl e) with PollCommitOp inv show ?thesis by simp
  next
    case (Inr x)
    then obtain l st' where x: "poll_commit h iso_text s taskId plan now ttl token st = Inr (l, st')" by (cases x) simp
    then show ?thesis
    proof (cases rule: poll_commit_Inr)
      case kept with x PollCommitOp inv show ?thesis by simp
    next
      case (leased r a e)
      note at = task_row_at [OF inv leased(1)]
      have "queue_inv st'"
      proof (rule queue_inv_update [OF inv])
        show "qs_dispatches st' = update_where (\<lambda>x. dispatch_key x = (dn_tenant s, dq_task r)) (leased_row token a e) (qs_dispatches st)"
          using leased(6) by simp
        show "same_task x (leased_row token a e x)" for x by (simp add: same_task_def leased_row_def dispatch_key_def)
        show "dq_state (leased_row token a e x) \<in> set terminal_states"
          if "x \<in> set (qs_dispatches st)" "dispatch_key x = (dn_tenant s, dq_task r)" "dq_state x \<in> set terminal_states" for x
        proof -
          from at(2) have "dq_task r = taskId" by (simp add: dispatch_key_def)
          with that(2) have "x = r" by (intro dispatch_at_unique [OF inv at(1) that(1)]) simp
          with that(3) leased(2) show ?thesis by (auto simp: terminal_states_def)
        qed
      qed (simp add: leased(6))
      with x PollCommitOp leased(6) show ?thesis by simp
    qed
  qed
next
  case (AcknowledgeOp sid token taskId now)
  show ?thesis
  proof (cases rule: acknowledge_effect [of h iso_text sid token taskId now st])
    case none with AcknowledgeOp inv show ?thesis by (auto intro: queue_inv_same)
  next
    case (marked p v)
    have "queue_inv (snd (acknowledge_task h iso_text sid token taskId now st))"
      by (rule queue_inv_update [OF inv marked(1,2)]) (simp_all add: same_task_def dispatch_key_def)
    with AcknowledgeOp marked(2) show ?thesis by simp
  qed
next
  case (SubmitOp sid input now)
  show ?thesis
  proof (cases rule: submit_effect [of h sid input now st])
    case refused with SubmitOp inv show ?thesis by (auto intro: queue_inv_same)
  next
    case (accepted s row st1 v st2)
    have "queue_inv st1" "qs_results st1 = qs_results st" using queue_session_cases [OF accepted(1)] inv by (auto intro: queue_inv_same)
    with record_result_keeps [OF _ accepted(2,4,5)] accepted(6) SubmitOp show ?thesis by (auto simp: keeps_results_def)
  qed
next
  case (TablesOp oper) with inv show ?thesis by (auto intro: queue_inv_same)
qed

interpretation queue_history: step_history "queue_exec h iso_text" queue_inv keeps_results for h iso_text
  by unfold_locales (use queue_exec_keeps in blast, auto simp: keeps_results_def)

lemma queue_run_keeps: "queue_inv st \<Longrightarrow> queue_inv (queue_run h iso_text ops st) \<and> keeps_results st (queue_run h iso_text ops st)"
  unfolding queue_run_def by (rule queue_history.run_keeps)

lemma poll_commit_lease:
  assumes "poll_commit h iso_text s taskId plan now ttl token st = Inr (Some l, st')"
  shows "tl_plan l = plan \<and> tl_taskId l = taskId \<and> tl_deviceId l = dn_device s"
  using assms
proof (cases rule: poll_commit_Inr)
  case kept
  then obtain r where "task_row st s taskId = Some r" "l = lease_of r plan" by auto
  then show ?thesis by (auto simp: task_row_def lease_of_def dest: find_SomeD)
next
  case (leased r a e)
  then show ?thesis by (auto simp: task_row_def dest: find_SomeD)
qed

lemma poll_tasks_lease:
  assumes "poll_tasks h iso_text world sid now ttl token st = (Inr (Some l), st')"
  obtains s st1 row where "queue_session h sid now st = (Inr s, st1)" "next_dispatch st1 s = Some row"
    "verifySignedExecutionPlan h (js_of_json (dq_plan row)) now = Inr (tl_plan l)"
    "tl_taskId l = dq_task row" "tl_deviceId l = dn_device s" "tl_plan l = js_of_json (dq_plan row)"
proof -
  from assms obtain s st1 row plan where s: "queue_session h sid now st = (Inr s, st1)" "next_dispatch st1 s = Some row"
      "verifySignedExecutionPlan h (js_of_json (dq_plan row)) now = Inr plan"
    by (auto simp: poll_tasks_def Let_def split: sum.split_asm prod.split_asm option.split_asm)
  have plan: "plan = js_of_json (dq_plan row)" using verifySignedExecutionPlan_Inr(1) [OF s(3)] .
  have "dq_device row = dn_device s" using s(2) by (auto simp: next_dispatch_def dest!: first_by_Some(1))
  moreover have "l = lease_of row plan \<or> (\<exists>st2. poll_commit h iso_text s (dq_task row) plan now ttl token (world st1) = Inr (Some l, st2))"
    using assms s by (auto simp: poll_tasks_def Let_def split: sum.split_asm prod.split_asm if_split_asm)
  ultimately have "tl_plan l = plan \<and> tl_taskId l = dq_task row \<and> tl_deviceId l = dn_device s"
    using poll_commit_lease by (auto simp: lease_of_def)
  with s plan show thesis by (intro that [of s st1 row]) simp_all
qed

lemma queue_session_active:
  assumes "queue_session h sid now st = (Inr s, st1)"
  shows "dn_state s = ''active''" "\<not> past (ph_date h) (dn_expiresAt s) now" "dn_id s = sid" "s \<in> set (tb_sessions (qs_tables st))" "st1 = st"
  using assms
  by (auto simp: queue_session_def activeSession_def dest: find_SomeD split: option.split_asm if_split_asm)

text \<open>C10. A poll delivers a task only to an active, unexpired session, for the device of that
session, with a plan that verifies at the time of the poll (its digest, its signature, its period) and that
has no allowed effect, no grant of an approval and the scope of the session. Other calls may run while the
poll awaits the verifier.\<close>

theorem poll_delivers_signed_plan:
  assumes inv: "queue_inv st" and polled: "poll_tasks h iso_text world sid now ttl token st = (Inr (Some l), st')"
  shows "\<exists>s\<in>set (tb_sessions (qs_tables st)). dn_id s = sid \<and> dn_state s = ''active'' \<and> \<not> past (ph_date h) (dn_expiresAt s) now
    \<and> tl_deviceId l = dn_device s \<and> verifySignedExecutionPlan h (tl_plan l) now = Inr (tl_plan l)
    \<and> effect_free (tl_plan l) (dn_tenant s) (dn_user s) (dn_device s)"
proof -
  from polled obtain s st1 row where s: "queue_session h sid now st = (Inr s, st1)" "next_dispatch st1 s = Some row"
      "verifySignedExecutionPlan h (js_of_json (dq_plan row)) now = Inr (tl_plan l)"
      "tl_deviceId l = dn_device s" "tl_plan l = js_of_json (dq_plan row)" by (rule poll_tasks_lease)
  note active = queue_session_active [OF s(1)]
  have row: "row \<in> set (qs_dispatches st1)" "dq_tenant row = dn_tenant s" "dq_user row = dn_user s" "dq_device row = dn_device s"
    using s(2) by (auto simp: next_dispatch_def dest!: first_by_Some(1))
  with inv have "row_effect_free row" by (simp add: queue_inv_def active(5))
  with row s active show ?thesis by (auto simp: row_effect_free_def)
qed

lemma settled_not_polled:
  assumes inv: "queue_inv st" and x: "x \<in> set (qs_results st)" and next_row: "next_dispatch st s = Some row"
  shows "(dn_tenant s, dq_task row) \<noteq> result_key x"
proof
  assume k: "(dn_tenant s, dq_task row) = result_key x"
  from next_row have row: "row \<in> set (qs_dispatches st)" "dispatch_key row = result_key x" "dq_state row \<in> {''queued'', ''leased''}"
    by (auto simp: next_dispatch_def dispatch_key_def simp flip: k dest!: first_by_Some(1))
  from inv x obtain r where r: "dispatch_at st (result_key x) = Some r" "dq_state r \<in> set terminal_states"
    by (auto simp: queue_inv_def result_settled_def)
  from dispatch_at_unique [OF inv r(1) row(1,2)] row(3) r(2) show False by (auto simp: terminal_states_def)
qed

lemma submit_stores:
  assumes inv: "queue_inv st" and submit: "submitResult h sid input now st = (Inr v, st1)" "queue_session h sid now st = (Inr s, st0)"
  shows "queue_inv st1 \<and> keeps_results st st1 \<and>
    (\<exists>x\<in>set (qs_results st1). result_key x = (dn_tenant s, plan_text input ''taskId'') \<and> stringify v = Some (rr_json x))"
proof (cases rule: submit_effect [of h sid input now st])
  case refused with submit show ?thesis by simp
next
  case (accepted s' row st0' v' st2)
  with submit have eq: "s' = s" "v' = v" "st2 = st1" "st0' = st0" by auto
  note inv0 = queue_inv_same [OF inv] queue_session_cases [OF submit(2)]
  have inv0: "queue_inv st0" using inv0 by blast
  note row = accepted(2,4,5) [unfolded eq]
  from row(3) have "\<exists>x\<in>set (qs_results st1). result_key x = (dn_tenant s, plan_text input ''taskId'') \<and> stringify v = Some (rr_json x)"
    by (cases rule: record_result_Inr) (auto dest: lookup_SomeD)
  with record_result_keeps [OF inv0 row] queue_session_cases [OF submit(2)] show ?thesis by (simp add: keeps_results_def)
qed

text \<open>C3. A device records one result per task. After a submission that answers, whatever calls follow
on the queue (polls with others in between, acknowledgements, further submissions, sessions opened and
closed), a later submission for the same task that answers gives the very same result, and no poll delivers
that task again. The hypothesis is the invariant of the queue.\<close>

theorem result_immutable:
  assumes inv: "queue_inv st"
    and submit: "submitResult h sid input now st = (Inr v, st1)" "fst (queue_session h sid now st) = Inr s"
  shows "(\<forall>later sid' input' now' v' s'.
      fst (queue_session h sid' now' (queue_run h iso_text later st1)) = Inr s' \<and> dn_tenant s' = dn_tenant s
      \<and> plan_text input' ''taskId'' = plan_text input ''taskId''
      \<and> fst (submitResult h sid' input' now' (queue_run h iso_text later st1)) = Inr v' \<longrightarrow> stringify v' = stringify v)
    \<and> (\<forall>later others sid' now' ttl token l s'.
      fst (poll_tasks h iso_text others sid' now' ttl token (queue_run h iso_text later st1)) = Inr (Some l)
      \<and> fst (queue_session h sid' now' (queue_run h iso_text later st1)) = Inr s'
      \<longrightarrow> (dn_tenant s', tl_taskId l) \<noteq> (dn_tenant s, plan_text input ''taskId''))"
proof -
  let ?k = "(dn_tenant s, plan_text input ''taskId'')"
  from submit(2) obtain st0 where st0: "queue_session h sid now st = (Inr s, st0)" by (metis prod.collapse)
  from submit_stores [OF inv submit(1) st0] obtain x where inv1: "queue_inv st1"
    and x: "x \<in> set (qs_results st1)" "result_key x = ?k" "stringify v = Some (rr_json x)" by blast
  have later: "queue_inv (queue_run h iso_text ops st1) \<and> x \<in> set (qs_results (queue_run h iso_text ops st1))" for ops
    using queue_run_keeps [OF inv1, of h iso_text ops] x(1) by (auto simp: keeps_results_def)
  have "\<forall>later sid' input' now' v' s'.
      fst (queue_session h sid' now' (queue_run h iso_text later st1)) = Inr s' \<and> dn_tenant s' = dn_tenant s
      \<and> plan_text input' ''taskId'' = plan_text input ''taskId''
      \<and> fst (submitResult h sid' input' now' (queue_run h iso_text later st1)) = Inr v' \<longrightarrow> stringify v' = stringify v"
  proof (intro allI impI, elim conjE)
    fix ops sid' input' now' v' s'
    let ?st = "queue_run h iso_text ops st1"
    assume "fst (queue_session h sid' now' ?st) = Inr s'" "fst (submitResult h sid' input' now' ?st) = Inr v'"
      and same: "dn_tenant s' = dn_tenant s" "plan_text input' ''taskId'' = plan_text input ''taskId''"
    then obtain st2 st3 where "submitResult h sid' input' now' ?st = (Inr v', st2)" "queue_session h sid' now' ?st = (Inr s', st3)"
      by (metis prod.collapse)
    from submit_stores [OF _ this] later [of ops] same obtain y where
      y: "y \<in> set (qs_results st2)" "result_key y = ?k" "stringify v' = Some (rr_json y)" "x \<in> set (qs_results st2)" "queue_inv st2"
      by (auto simp: keeps_results_def)
    from y(5) have "distinct (map result_key (qs_results st2))" by (simp add: queue_inv_def)
    with y(1,2,4) x(2) have "y = x" by (metis inj_onD distinct_map)
    with y(3) x(3) show "stringify v' = stringify v" by simp
  qed
  moreover have "\<forall>later others sid' now' ttl token l s'.
      fst (poll_tasks h iso_text others sid' now' ttl token (queue_run h iso_text later st1)) = Inr (Some l)
      \<and> fst (queue_session h sid' now' (queue_run h iso_text later st1)) = Inr s'
      \<longrightarrow> (dn_tenant s', tl_taskId l) \<noteq> (dn_tenant s, plan_text input ''taskId'')"
  proof (intro allI impI, elim conjE)
    fix ops others sid' now' ttl token l s'
    let ?st = "queue_run h iso_text ops st1"
    assume a: "fst (poll_tasks h iso_text others sid' now' ttl token ?st) = Inr (Some l)" "fst (queue_session h sid' now' ?st) = Inr s'"
    then obtain st2 where "poll_tasks h iso_text others sid' now' ttl token ?st = (Inr (Some l), st2)" by (metis prod.collapse)
    then obtain s'' st3 row where polled: "queue_session h sid' now' ?st = (Inr s'', st3)" "next_dispatch st3 s'' = Some row" "tl_taskId l = dq_task row"
      by (rule poll_tasks_lease)
    with a(2) queue_session_active(5) [OF polled(1)] have "s'' = s'" "st3 = ?st" by simp_all
    with settled_not_polled [of ?st x s' row] later [of ops] polled(2,3) x(2) show "(dn_tenant s', tl_taskId l) \<noteq> ?k" by auto
  qed
  ultimately show ?thesis by (rule conjI)
qed

section \<open>Witnesses\<close>

definition quiet_envelope :: jval where
  "quiet_envelope = obj
     [(''schemaVersion'', JNum (Fin 1)), (''tenantId'', JStr ''test.a''), (''userId'', JStr ''u''), (''deviceId'', JStr ''d''),
      (''agentId'', JStr ''a''), (''runId'', JStr ''r''), (''actionId'', JStr ''x''),
      (''blueprint'', obj [(''id'', JStr ''b''), (''version'', JStr ''1.0.0''), (''digest'', sample_digest)]),
      (''program'', obj
        [(''role'', JStr ''r''), (''goals'', JArr [JStr ''g'']), (''graph'', obj [(''nodes'', JArr []), (''edges'', JArr [])]),
         (''modelPolicy'', obj [(''allowed'', JArr [JStr ''m'']), (''preferred'', JNull)])]),
      (''capabilities'', JArr []), (''context'', JArr []), (''workspaceGrants'', JArr []), (''approvalGrants'', JArr []),
      (''allowedEffects'', JArr []), (''idempotencyKey'', JStr ''k''), (''deadline'', JStr ''t9''),
      (''executorRequirement'', obj [(''protocolVersions'', JArr [JStr ''p'']), (''capabilities'', JArr []),
         (''allowedExecutors'', JArr [JStr ''z'']), (''preferredExecutors'', JArr [])]),
      (''continuity'', obj [(''midActionSwitchAllowed'', JBool False)]),
      (''plan'', obj [(''digest'', sample_digest), (''signature'', JStr ''s''), (''keyId'', JStr ''k'')])]"

definition quiet_plan :: jval where
  "quiet_plan = obj
     [(''schemaVersion'', JNum (Fin 1)), (''planId'', JStr ''p1''), (''issuedAt'', JStr ''t0''), (''expiresAt'', JStr ''t9''),
      (''keyId'', JStr ''k''), (''algorithm'', JStr ''ed25519''), (''payloadDigest'', sample_digest), (''signature'', JStr ''s''),
      (''envelope'', quiet_envelope)]"

definition sample_host :: plan_host where
  "sample_host = \<lparr> ph_date = device_date, ph_num = (\<lambda>q. ''1''), ph_sha = (\<lambda>t. replicate 64 (CHR ''0'')),
     ph_verify = (\<lambda>keyId digest signature. keyId = ''k'' \<and> signature = ''s'') \<rparr>"

lemma quiet_graph_acyclic: "check_acyclic (adjacency [] []) ''execution program graph contains a cycle'' = Inr ()"
  by code_simp

lemma quiet_program_checked: "check_program (\<lambda>q. ''1'') quiet_envelope = Inr ()"
  by (simp add: check_program_def Let_def quiet_envelope_def obj_def check_defs ids_of_def pattern_defs
      check_purpose_def check_model_policy_def quiet_graph_acyclic require_def)

lemma quiet_envelope_checked: "envelope_checks device_date (\<lambda>q. ''1'') quiet_envelope = Inr ()"
  unfolding envelope_checks_def Let_def all_of_ok
proof (intro conjI quiet_program_checked)
qed (simp_all add: quiet_envelope_def obj_def check_defs ids_of_def pattern_defs sample_digest_def scope_fields_def
    device_date_def check_executor_requirement_def Let_def sample_hex)

lemma quiet_digest: "contentDigest (\<lambda>q. ''1'') (\<lambda>t. replicate 64 (CHR ''0'')) (without_field ''plan'' quiet_envelope)
    = Inr (''sha256:'' @ replicate 64 (CHR ''0''))"
  by code_simp

lemma quiet_plan_verified: "verifySignedExecutionPlan sample_host quiet_plan 0 = Inr quiet_plan"
proof -
  have "validateExecutionEnvelope device_date (\<lambda>q. ''1'') quiet_envelope = Inr quiet_envelope"
    by (simp add: validateExecutionEnvelope_def quiet_envelope_checked)
  moreover have "js_get quiet_plan ''envelope'' = quiet_envelope" by code_simp
  moreover have "js_get quiet_plan ''schemaVersion'' = JNum (Fin 1)" "js_get quiet_plan ''algorithm'' = JStr ''ed25519''"
    "js_get quiet_plan ''planId'' = JStr ''p1''" "js_get quiet_plan ''payloadDigest'' = sample_digest" "js_get quiet_plan ''issuedAt'' = JStr ''t0''"
    "js_get quiet_plan ''expiresAt'' = JStr ''t9''" "js_get quiet_plan ''keyId'' = JStr ''k''" "js_get quiet_plan ''signature'' = JStr ''s''"
    "js_get (js_get quiet_envelope ''plan'') ''digest'' = sample_digest" "js_get (js_get quiet_envelope ''plan'') ''keyId'' = JStr ''k''"
    "js_get (js_get quiet_envelope ''plan'') ''signature'' = JStr ''s''" by code_simp+
  moreover have "id_part ''p1''" "digestPattern (js_string sample_digest)" by code_simp+
  moreover have "device_date ''t0'' = Some 0" "device_date ''t9'' = Some 9000" by code_simp+
  ultimately show ?thesis
    by (simp add: verifySignedExecutionPlan_def plan_text_def plan_envelope_def valid_id_def valid_time_def require_def sample_host_def
        executionEnvelopePayloadDigest_def quiet_digest sample_digest_def)
qed

definition quiet_json :: json where
  "quiet_json = (case stringify quiet_plan of Some j \<Rightarrow> j | None \<Rightarrow> Null)"

definition quiet_row :: dispatch_row where
  "quiet_row =
     \<lparr> dq_tenant = ''test.a'', dq_task = ''task1'', dq_user = ''u'', dq_device = ''d'', dq_planId = ''p1'', dq_plan = quiet_json,
       dq_key = ''k'', dq_state = ''queued'', dq_createdAt = ''t0'', dq_leaseToken = None, dq_attempt = 0, dq_leasedAt = None,
       dq_leaseExpires = None, dq_ackAt = None \<rparr>"

definition one_queued :: queue_store where
  "one_queued = \<lparr> qs_tables = sample_tables, qs_dispatches = [quiet_row], qs_results = [] \<rparr>"

lemma quiet_round_trip: "js_of_json quiet_json = quiet_plan"
  by code_simp

lemma quiet_effect_free: "effect_free quiet_plan ''test.a'' ''u'' ''d''"
  by code_simp

lemma one_queued_inv: "queue_inv one_queued"
  by (simp add: queue_inv_def one_queued_def row_effect_free_def quiet_row_def quiet_round_trip quiet_effect_free)

definition first_lease_of_task :: task_lease where
  "first_lease_of_task =
     \<lparr> tl_taskId = ''task1'', tl_planId = ''p1'', tl_plan = quiet_plan, tl_deviceId = ''d'', tl_leaseToken = ''lease1'', tl_attempt = 1,
       tl_leasedAt = ''t0'', tl_expiresAt = ''t9'' \<rparr>"

lemma sample_session_active:
  "queue_session sample_host ''s0'' 0 one_queued = (Inr (hd (tb_sessions sample_tables)), one_queued)"
  by (simp add: queue_session_def activeSession_def one_queued_def sample_tables_def past_def sample_host_def device_date_def)

lemma sample_polled:
  "\<exists>st'. poll_tasks sample_host device_iso (\<lambda>st. st) ''s0'' 0 (Fin 9000) ''lease1'' one_queued = (Inr (Some first_lease_of_task), st')"
proof -
  have next_row: "next_dispatch one_queued (hd (tb_sessions sample_tables)) = Some quiet_row"
    by (simp add: next_dispatch_def one_queued_def quiet_row_def sample_tables_def first_by_def)
  have row: "task_row one_queued (hd (tb_sessions sample_tables)) ''task1'' = Some quiet_row"
    by (simp add: task_row_def one_queued_def quiet_row_def sample_tables_def)
  have "checked_token ''lease'' ''lease1'' = Inr ''lease1''" by code_simp
  moreover have "positive (Fin 9000) ''lease ttl'' = Inr ()" "int_num (Fin 9000) = 9000" by code_simp+
  moreover have "\<not> held (ph_date sample_host) quiet_row 0" by (simp add: held_def truthy_def quiet_row_def)
  ultimately show ?thesis
    using next_row row
    by (simp add: poll_tasks_def sample_session_active Let_def quiet_row_def quiet_round_trip quiet_plan_verified poll_commit_def truthy_def
        toISOString_def device_iso_def first_lease_of_task_def sample_tables_def)
qed

theorem poll_delivers_signed_plan_witness:
  "effect_free (tl_plan first_lease_of_task) ''test.a'' ''u'' ''d''
   \<and> verifySignedExecutionPlan sample_host (tl_plan first_lease_of_task) 0 = Inr (tl_plan first_lease_of_task)"
proof -
  from sample_polled obtain st' where
    "poll_tasks sample_host device_iso (\<lambda>st. st) ''s0'' 0 (Fin 9000) ''lease1'' one_queued = (Inr (Some first_lease_of_task), st')" ..
  from poll_delivers_signed_plan [OF one_queued_inv this] show ?thesis
    by (auto simp: one_queued_def sample_tables_def)
qed

definition one_accepted :: queue_store where
  "one_accepted = one_queued\<lparr>qs_dispatches :=
     [quiet_row\<lparr>dq_state := ''leased'', dq_leaseToken := Some ''lease1'', dq_attempt := 1, dq_leasedAt := Some ''t0'',
        dq_leaseExpires := Some ''t9'', dq_ackAt := Some ''t0''\<rparr>]\<rparr>"

definition sample_result :: jval where
  "sample_result = obj [(''deviceId'', JStr ''d''), (''taskId'', JStr ''task1''), (''planId'', JStr ''p1''), (''outcome'', JStr ''succeeded''),
     (''summaryCode'', JStr ''done''), (''artifactDigests'', JArr []), (''completedAt'', JStr ''t0'')]"

lemma one_accepted_inv: "queue_inv one_accepted"
  by (simp add: queue_inv_def one_accepted_def one_queued_def row_effect_free_def quiet_row_def quiet_round_trip quiet_effect_free)

lemma sample_submitted:
  "fst (submitResult sample_host ''s0'' sample_result 0 one_accepted) = Inr (scoped_result (hd (tb_sessions sample_tables)) sample_result)"
  "fst (queue_session sample_host ''s0'' 0 one_accepted) = Inr (hd (tb_sessions sample_tables))"
  by code_simp+

theorem result_immutable_witness:
  "\<exists>v st1. submitResult sample_host ''s0'' sample_result 0 one_accepted = (Inr v, st1)
     \<and> \<not> (\<exists>v'. fst (submitResult sample_host ''s0'' (with_field ''outcome'' (JStr ''failed'') sample_result) 0 st1) = Inr v' \<and> stringify v' \<noteq> stringify v)"
proof -
  from sample_submitted(1) obtain st1 where st1:
    "submitResult sample_host ''s0'' sample_result 0 one_accepted = (Inr (scoped_result (hd (tb_sessions sample_tables)) sample_result), st1)"
    by (metis prod.collapse)
  note immutable = result_immutable [where iso_text = device_iso, OF one_accepted_inv st1 sample_submitted(2), THEN conjunct1]
  have "st1 = snd (submitResult sample_host ''s0'' sample_result 0 one_accepted)" by (simp add: st1)
  moreover have "fst (queue_session sample_host ''s0'' 0 (snd (submitResult sample_host ''s0'' sample_result 0 one_accepted))) = Inr (hd (tb_sessions sample_tables))"
    "plan_text (with_field ''outcome'' (JStr ''failed'') sample_result) ''taskId'' = plan_text sample_result ''taskId''" by code_simp+
  ultimately show ?thesis using st1 immutable [rule_format, where later = "[]"] by (fastforce simp: queue_run_def)
qed

end
