(* ===== verification/Client_Journal.thy ===== *)
theory Client_Journal
  imports Device_Dispatch
begin

text \<open>
  The journal of runs on a device (client-runtime/inactive-run-journal.ts): checkpoints sealed with a
  digest, their state machine, and the restoration of a journal after a restart. The \<open>Map\<close> of runs is
  the list of its values in insertion order. Fields of a lease that are constants of its type
  (schemaVersion, externalWritesEnabled) are left out; a structured clone of a JSON value is the value.
\<close>

section \<open>Checkpoints\<close>

record run_checkpoint =
  ck_schemaVersion :: jnum
  ck_taskId :: string
  ck_deviceId :: string
  ck_plan :: jval
  ck_executorId :: string
  ck_contextDigest :: string
  ck_state :: string
  ck_revision :: jnum
  ck_result :: jval
  ck_effectMode :: string
  ck_externalWrites :: bool
  ck_updatedAt :: timestamp
  ck_digest :: string

definition run_states :: "string list" where
  "run_states = [''leased'', ''accepted'', ''running'', ''paused'', ''completed-pending-sync'', ''synced'', ''cancelled'']"

definition payload :: "run_checkpoint \<Rightarrow> jval" where
  "payload c = JObj ObjectProto
     [(''schemaVersion'', JNum (ck_schemaVersion c)), (''taskId'', JStr (ck_taskId c)), (''deviceId'', JStr (ck_deviceId c)),
      (''plan'', ck_plan c), (''executorId'', JStr (ck_executorId c)), (''normalizedContextDigest'', JStr (ck_contextDigest c)),
      (''state'', JStr (ck_state c)), (''revision'', JNum (ck_revision c)), (''result'', ck_result c),
      (''effectMode'', JStr (ck_effectMode c)), (''externalWritesEnabled'', JBool (ck_externalWrites c)),
      (''updatedAt'', JStr (ck_updatedAt c))]"

definition checkpointDigest :: "plan_host \<Rightarrow> run_checkpoint \<Rightarrow> string result" where
  "checkpointDigest h c = contentDigest (ph_num h) (ph_sha h) (payload c)"

definition seal :: "plan_host \<Rightarrow> run_checkpoint \<Rightarrow> run_checkpoint result" where
  "seal h c = rbind (checkpointDigest h c) (\<lambda>d. Inr (c\<lparr>ck_digest := d\<rparr>))"

type_synonym journal = "run_checkpoint list"

definition run_of :: "journal \<Rightarrow> string \<Rightarrow> run_checkpoint option" where
  "run_of j taskId = lookup ck_taskId j taskId"

definition local_run :: "journal \<Rightarrow> string \<Rightarrow> run_checkpoint result" where
  "local_run j taskId = (case run_of j taskId of None \<Rightarrow> throw ''local run is unavailable'' | Some c \<Rightarrow> Inr c)"

definition set_run :: "run_checkpoint \<Rightarrow> journal \<Rightarrow> journal" where
  "set_run c j = (if run_of j (ck_taskId c) = None then j @ [c] else update_where (\<lambda>x. ck_taskId x = ck_taskId c) (\<lambda>_. c) j)"

definition next_revision :: "jnum \<Rightarrow> jnum" where
  "next_revision n = (case n of Fin q \<Rightarrow> Fin (q + 1) | m \<Rightarrow> m)"

definition replace_run :: "plan_host \<Rightarrow> run_checkpoint \<Rightarrow> run_checkpoint \<Rightarrow> journal \<Rightarrow> (run_checkpoint \<times> journal) result" where
  "replace_run h current patched j =
     rbind (seal h (patched\<lparr>ck_revision := next_revision (ck_revision current)\<rparr>)) (\<lambda>c. Inr (c, set_run c j))"

section \<open>Operations\<close>

definition new_run :: "task_lease \<Rightarrow> string \<Rightarrow> string \<Rightarrow> timestamp \<Rightarrow> run_checkpoint" where
  "new_run l executorId contextDigest updatedAt =
     \<lparr> ck_schemaVersion = Fin 1, ck_taskId = tl_taskId l, ck_deviceId = tl_deviceId l, ck_plan = tl_plan l, ck_executorId = executorId,
       ck_contextDigest = contextDigest, ck_state = ''leased'', ck_revision = Fin 1, ck_result = JNull,
       ck_effectMode = ''recording-sink'', ck_externalWrites = False, ck_updatedAt = updatedAt, ck_digest = [] \<rparr>"

definition check_lease :: "plan_host \<Rightarrow> task_lease \<Rightarrow> int \<Rightarrow> unit result" where
  "check_lease h l now =
     rbind (require (\<not> blank (tl_taskId l)) ''local run lease is invalid'') (\<lambda>_.
     rbind (require (tl_leaseToken l \<noteq> [] \<and> tl_attempt l \<le> 9007199254740991 \<and> 1 \<le> tl_attempt l
                \<and> ph_date h (tl_leasedAt l) \<noteq> None \<and> \<not> past (ph_date h) (tl_expiresAt l) now)
              ''local run lease is expired or incomplete'') (\<lambda>_.
     rbind (require (js_get (tl_plan l) ''planId'' = JStr (tl_planId l)
                \<and> js_get (plan_envelope (tl_plan l)) ''deviceId'' = JStr (tl_deviceId l))
              ''local run lease scope does not match its plan'') (\<lambda>_.
     rbind (require (\<not> has_effects (tl_plan l)) ''inactive local run accepts no-effect plans only'') (\<lambda>_.
     rbind (verifySignedExecutionPlan h (tl_plan l) now) (\<lambda>_. Inr ())))))"

definition adapter_of :: "plan_host \<Rightarrow> string \<Rightarrow> jval \<Rightarrow> adapter_input result" where
  "adapter_of h executorId plan =
     toExecutorAdapterInput (ph_date h) (ph_num h) (ph_sha h) (JStr executorId) (plan_envelope plan)"

definition acceptLease ::
  "plan_host \<Rightarrow> (int \<Rightarrow> timestamp) \<Rightarrow> task_lease \<Rightarrow> string \<Rightarrow> int \<Rightarrow> journal \<Rightarrow> (run_checkpoint \<times> journal) result" where
  "acceptLease h iso_text l executorId now j =
     rbind (check_lease h l now) (\<lambda>_.
     rbind (adapter_of h executorId (tl_plan l)) (\<lambda>adapter.
     case run_of j (tl_taskId l) of
       Some existing \<Rightarrow>
         if js_get (ck_plan existing) ''planId'' \<noteq> JStr (tl_planId l) \<or> ck_deviceId existing \<noteq> tl_deviceId l
            \<or> ck_executorId existing \<noteq> executorId
         then throw ''local run task already belongs to another plan, device or executor''
         else Inr (existing, j)
     | None \<Rightarrow>
         rbind (toISOString iso_text now) (\<lambda>at_text.
         rbind (seal h (new_run l executorId (ai_normalizedContextDigest adapter) at_text)) (\<lambda>c.
         Inr (c, set_run c j)))))"

text \<open>A step of the state machine: its source states, its refusal and what it sets.\<close>

definition step_run ::
  "plan_host \<Rightarrow> (int \<Rightarrow> timestamp) \<Rightarrow> string \<Rightarrow> int \<Rightarrow> (run_checkpoint \<Rightarrow> bool) \<Rightarrow> string \<Rightarrow> string \<Rightarrow> journal \<Rightarrow>
   (run_checkpoint \<times> journal) result" where
  "step_run h iso_text taskId now allowed refusal state j =
     rbind (local_run j taskId) (\<lambda>current.
     rbind (require (allowed current) refusal) (\<lambda>_.
     rbind (toISOString iso_text now) (\<lambda>at_text.
     replace_run h current (current\<lparr>ck_state := state, ck_updatedAt := at_text\<rparr>) j)))"

definition begin_run :: "plan_host \<Rightarrow> (int \<Rightarrow> timestamp) \<Rightarrow> string \<Rightarrow> int \<Rightarrow> journal \<Rightarrow> (run_checkpoint \<times> journal) result" where
  "begin_run h iso_text taskId now =
     step_run h iso_text taskId now (\<lambda>c. ck_state c \<in> {''accepted'', ''paused''}) ''local run cannot begin from its current state'' ''running''"

definition markLeaseAcknowledged :: "plan_host \<Rightarrow> (int \<Rightarrow> timestamp) \<Rightarrow> string \<Rightarrow> int \<Rightarrow> journal \<Rightarrow> (run_checkpoint \<times> journal) result" where
  "markLeaseAcknowledged h iso_text taskId now =
     step_run h iso_text taskId now (\<lambda>c. ck_state c = ''leased'') ''only a leased local task can be acknowledged'' ''accepted''"

definition pause_run :: "plan_host \<Rightarrow> (int \<Rightarrow> timestamp) \<Rightarrow> string \<Rightarrow> int \<Rightarrow> journal \<Rightarrow> (run_checkpoint \<times> journal) result" where
  "pause_run h iso_text taskId now =
     step_run h iso_text taskId now (\<lambda>c. ck_state c = ''running'') ''only a running local task can pause'' ''paused''"

record run_output =
  ro_outcome :: string
  ro_summaryCode :: string
  ro_artifactDigests :: "string list"

definition result_object :: "run_checkpoint \<Rightarrow> run_output \<Rightarrow> timestamp \<Rightarrow> jval" where
  "result_object c out completedAt = JObj ObjectProto
     [(''taskId'', JStr (ck_taskId c)), (''deviceId'', JStr (ck_deviceId c)), (''planId'', js_get (ck_plan c) ''planId''),
      (''outcome'', JStr (ro_outcome out)), (''summaryCode'', JStr (ro_summaryCode out)),
      (''artifactDigests'', JArr (map JStr (ro_artifactDigests out))), (''completedAt'', JStr completedAt)]"

definition completePendingSync ::
  "plan_host \<Rightarrow> (int \<Rightarrow> timestamp) \<Rightarrow> string \<Rightarrow> run_output \<Rightarrow> int \<Rightarrow> journal \<Rightarrow> (run_checkpoint \<times> journal) result" where
  "completePendingSync h iso_text taskId out now j =
     rbind (local_run j taskId) (\<lambda>current.
     rbind (require (ck_state current = ''running'') ''only a running local task can complete'') (\<lambda>_.
     rbind (require (ro_summaryCode out \<noteq> [] \<and> \<not> unsafeEvidence (ro_summaryCode out) \<and> list_all digestPattern (ro_artifactDigests out))
              ''local result must be privacy bounded'') (\<lambda>_.
     rbind (toISOString iso_text now) (\<lambda>at_text.
     replace_run h current
       (current\<lparr>ck_state := ''completed-pending-sync'', ck_result := result_object current out at_text, ck_updatedAt := at_text\<rparr>) j))))"

definition markSynced :: "plan_host \<Rightarrow> (int \<Rightarrow> timestamp) \<Rightarrow> string \<Rightarrow> int \<Rightarrow> journal \<Rightarrow> (run_checkpoint \<times> journal) result" where
  "markSynced h iso_text taskId now =
     step_run h iso_text taskId now (\<lambda>c. ck_state c = ''completed-pending-sync'' \<and> ck_result c \<noteq> JNull)
       ''only a pending local result can be marked synced'' ''synced''"

definition resultForSync :: "string \<Rightarrow> journal \<Rightarrow> jval result" where
  "resultForSync taskId j =
     rbind (local_run j taskId) (\<lambda>current.
     if ck_result current = JNull \<or> ck_state current \<notin> {''completed-pending-sync'', ''synced''} then throw ''local result is not ready for sync''
     else Inr (ck_result current))"

section \<open>Restoration\<close>

definition result_bound :: "plan_host \<Rightarrow> run_checkpoint \<Rightarrow> bool" where
  "result_bound h c =
     (let r = ck_result c; summary = plan_text r ''summaryCode'' in
      js_get r ''taskId'' = JStr (ck_taskId c) \<and> js_get r ''deviceId'' = JStr (ck_deviceId c)
      \<and> js_get r ''planId'' = js_get (ck_plan c) ''planId''
      \<and> summary \<noteq> [] \<and> \<not> unsafeEvidence summary \<and> list_all digestPattern (texts_of (js_get r ''artifactDigests''))
      \<and> ph_date h (plan_text r ''completedAt'') \<noteq> None)"

text \<open>A plan whose result is there is verified at the time of its issue, any other at the time of the restart.\<close>

definition verification_time :: "plan_host \<Rightarrow> run_checkpoint \<Rightarrow> int \<Rightarrow> int" where
  "verification_time h c now =
     (if ck_result c = JNull then now
      else (case ph_date h (plan_text (ck_plan c) ''issuedAt'') of Some t \<Rightarrow> t | None \<Rightarrow> now))"

definition check_checkpoint :: "plan_host \<Rightarrow> run_checkpoint \<Rightarrow> journal \<Rightarrow> int \<Rightarrow> unit result" where
  "check_checkpoint h c j now =
     rbind (if ck_schemaVersion c \<noteq> Fin 1 \<or> ck_externalWrites c \<or> ck_effectMode c \<noteq> ''recording-sink''
            then throw ''local run checkpoint integrity failed''
            else rbind (checkpointDigest h c) (\<lambda>d. require (ck_digest c = d) ''local run checkpoint integrity failed'')) (\<lambda>_.
     rbind (require (run_of j (ck_taskId c) = None) ''duplicate local run checkpoint'') (\<lambda>_.
     rbind (require (\<not> has_effects (ck_plan c) \<and> js_get (plan_envelope (ck_plan c)) ''deviceId'' = JStr (ck_deviceId c))
              ''restored local run is outside the inactive boundary'') (\<lambda>_.
     rbind (require (ck_state c \<in> set run_states \<and> safe_integer (ck_revision c) \<and> 1 \<le> int_num (ck_revision c)
                \<and> ph_date h (ck_updatedAt c) \<noteq> None)
              ''restored local run state is invalid'') (\<lambda>_.
     rbind (require ((ck_state c \<in> {''completed-pending-sync'', ''synced''}) = (ck_result c \<noteq> JNull))
              ''restored local run result state is inconsistent'') (\<lambda>_.
     rbind (require (ck_result c = JNull \<or> result_bound h c) ''restored local result is invalid'') (\<lambda>_.
     rbind (verifySignedExecutionPlan h (ck_plan c) (verification_time h c now)) (\<lambda>_.
     rbind (adapter_of h (ck_executorId c) (ck_plan c)) (\<lambda>adapter.
     require (ai_normalizedContextDigest adapter = ck_contextDigest c) ''restored local run context drifted''))))))))"

definition restore_one :: "plan_host \<Rightarrow> (int \<Rightarrow> timestamp) \<Rightarrow> int \<Rightarrow> run_checkpoint \<Rightarrow> journal \<Rightarrow> journal result" where
  "restore_one h iso_text now c j =
     rbind (check_checkpoint h c j now) (\<lambda>_.
     rbind (if ck_state c = ''running''
            then rbind (toISOString iso_text now) (\<lambda>at_text.
                   seal h (c\<lparr>ck_state := ''paused'', ck_revision := next_revision (ck_revision c), ck_updatedAt := at_text\<rparr>))
            else Inr c) (\<lambda>restored.
     Inr (set_run restored j)))"

definition restore_journal :: "plan_host \<Rightarrow> (int \<Rightarrow> timestamp) \<Rightarrow> run_checkpoint list \<Rightarrow> int \<Rightarrow> journal result" where
  "restore_journal h iso_text values now = fold_result (restore_one h iso_text now) values []"

section \<open>Sequences of steps\<close>

datatype journal_op =
    AcceptOp task_lease string int
  | BeginOp string int
  | AckOp string int
  | PauseOp string int
  | CompleteOp string run_output int
  | SyncOp string int
  | RestartOp int

fun journal_exec :: "plan_host \<Rightarrow> (int \<Rightarrow> timestamp) \<Rightarrow> journal_op \<Rightarrow> journal \<Rightarrow> journal" where
  "journal_exec h iso_text (AcceptOp l executorId now) j = (case acceptLease h iso_text l executorId now j of Inl _ \<Rightarrow> j | Inr (_, j') \<Rightarrow> j')"
| "journal_exec h iso_text (BeginOp t now) j = (case begin_run h iso_text t now j of Inl _ \<Rightarrow> j | Inr (_, j') \<Rightarrow> j')"
| "journal_exec h iso_text (AckOp t now) j = (case markLeaseAcknowledged h iso_text t now j of Inl _ \<Rightarrow> j | Inr (_, j') \<Rightarrow> j')"
| "journal_exec h iso_text (PauseOp t now) j = (case pause_run h iso_text t now j of Inl _ \<Rightarrow> j | Inr (_, j') \<Rightarrow> j')"
| "journal_exec h iso_text (CompleteOp t out now) j = (case completePendingSync h iso_text t out now j of Inl _ \<Rightarrow> j | Inr (_, j') \<Rightarrow> j')"
| "journal_exec h iso_text (SyncOp t now) j = (case markSynced h iso_text t now j of Inl _ \<Rightarrow> j | Inr (_, j') \<Rightarrow> j')"
| "journal_exec h iso_text (RestartOp now) j = (case restore_journal h iso_text j now of Inl _ \<Rightarrow> j | Inr j' \<Rightarrow> j')"

definition journal_run :: "plan_host \<Rightarrow> (int \<Rightarrow> timestamp) \<Rightarrow> journal_op list \<Rightarrow> journal \<Rightarrow> journal" where
  "journal_run h iso_text ops j = fold (journal_exec h iso_text) ops j"

section \<open>Lemmas\<close>

text \<open>The edges of the state machine, and a checkpoint as the next one of another.\<close>

definition run_edges :: "(string \<times> string) list" where
  "run_edges = [(''leased'', ''accepted''), (''accepted'', ''running''), (''paused'', ''running''), (''running'', ''paused''),
     (''running'', ''completed-pending-sync''), (''completed-pending-sync'', ''synced'')]"

definition same_run :: "run_checkpoint \<Rightarrow> run_checkpoint \<Rightarrow> bool" where
  "same_run c c' \<longleftrightarrow>
     ck_schemaVersion c' = ck_schemaVersion c \<and> ck_taskId c' = ck_taskId c \<and> ck_deviceId c' = ck_deviceId c \<and> ck_plan c' = ck_plan c
     \<and> ck_executorId c' = ck_executorId c \<and> ck_contextDigest c' = ck_contextDigest c \<and> ck_effectMode c' = ck_effectMode c
     \<and> ck_externalWrites c' = ck_externalWrites c"

definition successor :: "plan_host \<Rightarrow> run_checkpoint \<Rightarrow> run_checkpoint \<Rightarrow> bool" where
  "successor h c c' \<longleftrightarrow>
     same_run c c' \<and> ck_revision c' = next_revision (ck_revision c) \<and> checkpointDigest h c' = Inr (ck_digest c')
     \<and> ph_date h (ck_updatedAt c') \<noteq> None \<and> (ck_state c, ck_state c') \<in> set run_edges
     \<and> (if ck_state c' = ''completed-pending-sync'' then ck_result c' \<noteq> JNull \<and> result_bound h c' else ck_result c' = ck_result c)"

text \<open>What a sound journal holds of every run, whatever the time.\<close>

definition run_ok :: "plan_host \<Rightarrow> run_checkpoint \<Rightarrow> bool" where
  "run_ok h c \<longleftrightarrow>
     ck_schemaVersion c = Fin 1 \<and> \<not> ck_externalWrites c \<and> ck_effectMode c = ''recording-sink''
     \<and> checkpointDigest h c = Inr (ck_digest c) \<and> \<not> has_effects (ck_plan c)
     \<and> js_get (plan_envelope (ck_plan c)) ''deviceId'' = JStr (ck_deviceId c)
     \<and> ck_state c \<in> set run_states \<and> (\<exists>n\<ge>1. ck_revision c = Fin (of_int n)) \<and> ph_date h (ck_updatedAt c) \<noteq> None
     \<and> (ck_state c \<in> {''completed-pending-sync'', ''synced''}) = (ck_result c \<noteq> JNull)
     \<and> (ck_result c = JNull \<or> result_bound h c) \<and> (\<exists>t. verifySignedExecutionPlan h (ck_plan c) t = Inr (ck_plan c))
     \<and> (\<exists>a. adapter_of h (ck_executorId c) (ck_plan c) = Inr a \<and> ai_normalizedContextDigest a = ck_contextDigest c)"

definition journal_ok :: "plan_host \<Rightarrow> journal \<Rightarrow> bool" where
  "journal_ok h j \<longleftrightarrow> distinct (map ck_taskId j) \<and> (\<forall>c\<in>set j. run_ok h c)"

definition kept_or_next :: "plan_host \<Rightarrow> run_checkpoint \<Rightarrow> run_checkpoint \<Rightarrow> bool" where
  "kept_or_next h c c' \<longleftrightarrow> c' = c \<or> successor h c c'"

lemma successor_ok:
  assumes "run_ok h c" "successor h c c'"
  shows "run_ok h c'"
proof -
  from assms(1) obtain n where n: "1 \<le> n" "ck_revision c = Fin (of_int n)" by (auto simp: run_ok_def)
  have "ck_revision c' = Fin (of_int (n + 1))" using assms(2) n by (simp add: successor_def next_revision_def)
  with n(1) have rev: "\<exists>m\<ge>1. ck_revision c' = Fin (of_int m)" by (intro exI [of _ "n + 1"]) simp
  have state: "ck_state c' \<in> set run_states" using assms(2) by (auto simp: successor_def run_edges_def run_states_def)
  have res: "(ck_state c' \<in> {''completed-pending-sync'', ''synced''}) = (ck_result c' \<noteq> JNull) \<and> (ck_result c' = JNull \<or> result_bound h c')"
  proof (cases "ck_state c' = ''completed-pending-sync''")
    case True with assms(2) show ?thesis by (simp add: successor_def)
  next
    case False
    with assms(2) have r: "ck_result c' = ck_result c" by (simp add: successor_def)
    from assms(2) have "result_bound h c' = result_bound h c" if "ck_result c' = ck_result c"
      using that by (simp add: result_bound_def successor_def same_run_def)
    with r False assms show ?thesis by (auto simp: run_ok_def successor_def run_edges_def)
  qed
  show ?thesis
    using assms rev state res unfolding run_ok_def successor_def same_run_def by simp
qed

lemma map_result_ok_iff: "ok (map_result f xs) \<longleftrightarrow> (\<forall>x\<in>set xs. ok (f x))"
proof (induction xs)
  case (Cons x xs)
  then show ?case by (cases "f x"; cases "map_result f xs") auto
qed simp

lemma canonical_object_ok:
  assumes "list_all (\<lambda>kv. snd kv \<noteq> JUndefined) kvs"
  shows "ok (canonical_json num_text (JObj p kvs)) \<longleftrightarrow> (\<forall>kv\<in>set kvs. ok (canonical_json num_text (snd kv)))"
proof -
  let ?f = "\<lambda>kv. rbind (canonical_json num_text (snd kv)) (\<lambda>t. Inr (quoted (fst kv) @ '':'' @ t))"
  have "ok (canonical_json num_text (JObj p kvs)) \<longleftrightarrow> ok (map_result ?f (sort_key fst kvs))"
    using assms by (auto simp: list_ex_iff list_all_iff rbind_Inr_iff)
  also have "\<dots> \<longleftrightarrow> (\<forall>kv\<in>set kvs. ok (?f kv))" by (simp add: map_result_ok_iff)
  also have "\<dots> \<longleftrightarrow> (\<forall>kv\<in>set kvs. ok (canonical_json num_text (snd kv)))" by (simp add: rbind_Inr_iff)
  finally show ?thesis .
qed

lemma canonical_not_undefined: "ok (canonical_json num_text v) \<Longrightarrow> v \<noteq> JUndefined"
  by auto

text \<open>Whether a checkpoint can be sealed depends on its plan and its result only.\<close>

lemma sealable:
  assumes "ck_schemaVersion c = Fin 1" "finite_num (ck_revision c)"
  shows "ok (checkpointDigest h c) \<longleftrightarrow> ok (canonical_json (ph_num h) (ck_plan c)) \<and> ok (canonical_json (ph_num h) (ck_result c))"
proof (cases "ck_plan c = JUndefined \<or> ck_result c = JUndefined")
  case True
  then show ?thesis by (auto simp: checkpointDigest_def contentDigest_def payload_def rbind_Inr_iff)
next
  case False
  then have "ok (canonical_json (ph_num h) (payload c)) \<longleftrightarrow> (\<forall>kv\<in>set (case payload c of JObj _ kvs \<Rightarrow> kvs | _ \<Rightarrow> []). ok (canonical_json (ph_num h) (snd kv)))"
    unfolding payload_def jval.case by (intro canonical_object_ok) simp
  with assms show ?thesis
    by (cases "ck_revision c") (auto simp: checkpointDigest_def contentDigest_def rbind_Inr_iff payload_def)
qed

lemma seal_Inr: "seal h c = Inr c' \<longleftrightarrow> (\<exists>d. checkpointDigest h c = Inr d \<and> c' = c\<lparr>ck_digest := d\<rparr>)"
  by (auto simp: seal_def rbind_Inr_iff)

lemma digest_ignored [simp]: "checkpointDigest h (c\<lparr>ck_digest := d\<rparr>) = checkpointDigest h c"
  by (simp add: checkpointDigest_def payload_def)

lemma verify_at_issue:
  assumes "verifySignedExecutionPlan h v t = Inr w"
  obtains a where "ph_date h (plan_text v ''issuedAt'') = Some a" "verifySignedExecutionPlan h v a = Inr v" "a \<le> t"
  using assms by (auto simp: verifySignedExecutionPlan_def rbind_Inr_iff valid_time_def require_def split: option.split_asm if_split_asm)

text \<open>The text of a date reads back as some date.\<close>

definition clock_ok :: "plan_host \<Rightarrow> (int \<Rightarrow> timestamp) \<Rightarrow> bool" where
  "clock_ok h iso_text \<longleftrightarrow> (\<forall>t. \<bar>t\<bar> \<le> 8640000000000000 \<longrightarrow> ph_date h (iso_text t) \<noteq> None)"

lemma toISOString_Inr: "toISOString iso_text t = Inr s \<longleftrightarrow> \<bar>t\<bar> \<le> 8640000000000000 \<and> s = iso_text t"
  by (auto simp: toISOString_def)

definition moves :: "plan_host \<Rightarrow> journal \<Rightarrow> journal \<Rightarrow> bool" where
  "moves h j j' \<longleftrightarrow> (\<exists>j1 new. list_all2 (kept_or_next h) j j1 \<and> j' = j1 @ new \<and> (\<forall>c\<in>set new. run_ok h c)) \<and> distinct (map ck_taskId j')"

lemma kept_or_next_task: "kept_or_next h c c' \<Longrightarrow> ck_taskId c' = ck_taskId c"
  by (auto simp: kept_or_next_def successor_def same_run_def)

lemma moves_refl: "distinct (map ck_taskId j) \<Longrightarrow> moves h j j"
  unfolding moves_def by (intro conjI exI [of _ j] exI [of _ "[]"]) (auto simp: kept_or_next_def list_all2_same)

lemma list_all2_right: "list_all2 P xs ys \<Longrightarrow> y \<in> set ys \<Longrightarrow> \<exists>x\<in>set xs. P x y"
  by (induction rule: list_all2_induct) auto

lemma moves_ok:
  assumes "journal_ok h j" "moves h j j'"
  shows "journal_ok h j'"
proof -
  from assms(2) obtain j1 new where j1: "list_all2 (kept_or_next h) j j1" "j' = j1 @ new" "\<forall>c\<in>set new. run_ok h c" "distinct (map ck_taskId j')"
    by (auto simp: moves_def)
  have "run_ok h c" if "c \<in> set j1" for c
    using list_all2_right [OF j1(1) that] assms(1) successor_ok by (auto simp: kept_or_next_def journal_ok_def)
  with j1 show ?thesis by (auto simp: journal_ok_def)
qed

lemma run_of_set_run: "run_of (set_run c j) (ck_taskId c) = Some c"
proof (cases "run_of j (ck_taskId c)")
  case None then show ?thesis by (simp add: set_run_def run_of_def lookup_append)
next
  case (Some y)
  then have "find (\<lambda>x. ck_taskId x = ck_taskId c) (update_where (\<lambda>x. ck_taskId x = ck_taskId c) (\<lambda>_. c) j) = Some c"
    by (induction j) (auto simp: run_of_def lookup_def split: if_split_asm)
  with Some show ?thesis by (simp add: set_run_def run_of_def lookup_def)
qed

lemma set_run_new:
  assumes "journal_ok h j" "run_of j (ck_taskId c) = None" "run_ok h c"
  shows "moves h j (set_run c j)"
proof -
  from assms(2) have "set_run c j = j @ [c]" "ck_taskId c \<notin> ck_taskId ` set j"
    by (simp_all add: set_run_def run_of_def lookup_None_iff)
  with assms show ?thesis
    unfolding moves_def by (intro conjI exI [of _ j] exI [of _ "[c]"]) (auto simp: kept_or_next_def list_all2_same journal_ok_def)
qed

lemma set_run_next:
  assumes "journal_ok h j" "run_of j t = Some c" "successor h c c'"
  shows "moves h j (set_run c' j)"
proof -
  from assms(1) have ids: "distinct (map ck_taskId j)" by (simp add: journal_ok_def)
  from assms(2,3) have task: "ck_taskId c' = t" "ck_taskId c = t" "c \<in> set j"
    by (auto simp: successor_def same_run_def run_of_def dest: lookup_SomeD)
  then have upd: "set_run c' j = update_where (\<lambda>x. ck_taskId x = t) (\<lambda>_. c') j" using assms(2) by (simp add: set_run_def)
  have "kept_or_next h x (if ck_taskId x = t then c' else x)" if "x \<in> set j" for x
  proof (cases "ck_taskId x = t")
    case True
    with ids that task have "x = c" by (metis inj_onD distinct_map)
    with assms(3) True show ?thesis by (simp add: kept_or_next_def)
  qed (simp add: kept_or_next_def)
  then have "list_all2 (kept_or_next h) j (set_run c' j)"
    by (simp add: upd update_where_def list_all2_conv_all_nth)
  moreover have "map ck_taskId (set_run c' j) = map ck_taskId j" unfolding upd update_where_def using task by auto
  ultimately show ?thesis using ids unfolding moves_def by (intro conjI exI [of _ "set_run c' j"] exI [of _ "[]"]) simp_all
qed

lemma replace_successor:
  assumes "journal_ok h j" "clock_ok h iso_text" "\<bar>now\<bar> \<le> 8640000000000000" "run_of j t = Some c"
    and "replace_run h c (c\<lparr>ck_state := state, ck_result := r, ck_updatedAt := iso_text now\<rparr>) j = Inr (c', j')"
    and "(ck_state c, state) \<in> set run_edges"
    and "if state = ''completed-pending-sync'' then r \<noteq> JNull \<and> result_bound h (c\<lparr>ck_result := r\<rparr>) else r = ck_result c"
  shows "moves h j j' \<and> successor h c c' \<and> run_of j' t = Some c' \<and> ck_state c' = state"
proof -
  from assms(5) obtain d where d: "checkpointDigest h (c\<lparr>ck_state := state, ck_result := r, ck_updatedAt := iso_text now, ck_revision := next_revision (ck_revision c)\<rparr>) = Inr d"
      "c' = c\<lparr>ck_state := state, ck_result := r, ck_updatedAt := iso_text now, ck_revision := next_revision (ck_revision c), ck_digest := d\<rparr>"
      "j' = set_run c' j"
    by (auto simp: replace_run_def rbind_Inr_iff seal_Inr)
  have bound: "result_bound h c' = result_bound h (c\<lparr>ck_result := r\<rparr>)" by (simp add: d(2) result_bound_def)
  from d have "checkpointDigest h c' = Inr (ck_digest c')" by simp
  with assms d(2) bound have "successor h c c'" by (auto simp: successor_def same_run_def clock_ok_def)
  moreover have "run_of j' t = Some c'"
    using run_of_set_run [of c' j] assms(4) d(2,3) by (auto simp: run_of_def dest: lookup_SomeD)
  ultimately show ?thesis using set_run_next [OF assms(1,4)] d by simp
qed

lemma step_run_moves:
  assumes "journal_ok h j" "clock_ok h iso_text" "step_run h iso_text t now allowed refusal state j = Inr (c', j')"
    and "\<And>c. allowed c \<Longrightarrow> (ck_state c, state) \<in> set run_edges" "state \<noteq> ''completed-pending-sync''"
  shows "moves h j j' \<and> run_of j' t = Some c' \<and> ck_state c' = state \<and> (\<exists>c. run_of j t = Some c \<and> allowed c \<and> successor h c c')"
proof -
  from assms(3) obtain c where c: "run_of j t = Some c" "allowed c" "\<bar>now\<bar> \<le> 8640000000000000"
      "replace_run h c (c\<lparr>ck_state := state, ck_updatedAt := iso_text now\<rparr>) j = Inr (c', j')"
    by (auto simp: step_run_def local_run_def rbind_Inr_iff toISOString_Inr require_def split: option.split_asm if_split_asm)
  from c(4) have "replace_run h c (c\<lparr>ck_state := state, ck_result := ck_result c, ck_updatedAt := iso_text now\<rparr>) j = Inr (c', j')" by simp
  from replace_successor [OF assms(1,2) c(3,1) this] assms(4) [OF c(2)] assms(5) c(1,2) show ?thesis by simp
qed

lemma begin_run_moves:
  assumes "journal_ok h j" "clock_ok h iso_text" "begin_run h iso_text t now j = Inr (c', j')"
  shows "moves h j j' \<and> run_of j' t = Some c' \<and> ck_state c' = ''running'' \<and> (\<exists>c. run_of j t = Some c \<and> successor h c c')"
  using step_run_moves [OF assms(1,2) assms(3) [unfolded begin_run_def]] by (auto simp: run_edges_def)

lemma markLeaseAcknowledged_moves:
  assumes "journal_ok h j" "clock_ok h iso_text" "markLeaseAcknowledged h iso_text t now j = Inr (c', j')"
  shows "moves h j j' \<and> run_of j' t = Some c' \<and> ck_state c' = ''accepted'' \<and> (\<exists>c. run_of j t = Some c \<and> successor h c c')"
  using step_run_moves [OF assms(1,2) assms(3) [unfolded markLeaseAcknowledged_def]] by (auto simp: run_edges_def)

lemma pause_run_moves:
  assumes "journal_ok h j" "clock_ok h iso_text" "pause_run h iso_text t now j = Inr (c', j')"
  shows "moves h j j' \<and> run_of j' t = Some c' \<and> ck_state c' = ''paused'' \<and> (\<exists>c. run_of j t = Some c \<and> successor h c c')"
  using step_run_moves [OF assms(1,2) assms(3) [unfolded pause_run_def]] by (auto simp: run_edges_def)

lemma markSynced_moves:
  assumes "journal_ok h j" "clock_ok h iso_text" "markSynced h iso_text t now j = Inr (c', j')"
  shows "moves h j j' \<and> run_of j' t = Some c' \<and> ck_state c' = ''synced'' \<and> (\<exists>c. run_of j t = Some c \<and> successor h c c')"
  using step_run_moves [OF assms(1,2) assms(3) [unfolded markSynced_def]] by (auto simp: run_edges_def)

lemma completePendingSync_moves:
  assumes "journal_ok h j" "clock_ok h iso_text" "completePendingSync h iso_text t out now j = Inr (c', j')"
  shows "moves h j j' \<and> run_of j' t = Some c' \<and> ck_state c' = ''completed-pending-sync'' \<and> (\<exists>c. run_of j t = Some c \<and> successor h c c')"
proof -
  from assms(3) obtain c where c: "run_of j t = Some c" "ck_state c = ''running''" "\<bar>now\<bar> \<le> 8640000000000000"
      "ro_summaryCode out \<noteq> []" "\<not> unsafeEvidence (ro_summaryCode out)" "list_all digestPattern (ro_artifactDigests out)"
      "replace_run h c (c\<lparr>ck_state := ''completed-pending-sync'', ck_result := result_object c out (iso_text now), ck_updatedAt := iso_text now\<rparr>) j = Inr (c', j')"
    by (auto simp: completePendingSync_def local_run_def rbind_Inr_iff toISOString_Inr require_def split: option.split_asm if_split_asm)
  have "texts_of (JArr (map JStr xs)) = xs" for xs by (simp add: texts_of_def items_of_def o_def)
  then have "result_bound h (c\<lparr>ck_result := result_object c out (iso_text now)\<rparr>)"
    using c(3-6) assms(2) by (simp add: result_bound_def result_object_def plan_text_def Let_def clock_ok_def)
  with replace_successor [OF assms(1,2) c(3,1,7)] c(1,2) show ?thesis by (simp add: run_edges_def result_object_def)
qed

lemma acceptLease_moves:
  assumes "journal_ok h j" "clock_ok h iso_text" "acceptLease h iso_text l executorId now j = Inr (c, j')"
  shows "moves h j j' \<and> run_of j' (tl_taskId l) = Some c \<and> ck_executorId c = executorId \<and> ck_deviceId c = tl_deviceId l
    \<and> js_get (ck_plan c) ''planId'' = JStr (tl_planId l)"
proof -
  from assms(3) obtain a where lease: "check_lease h l now = Inr ()" and a: "adapter_of h executorId (tl_plan l) = Inr a"
    by (auto simp: acceptLease_def rbind_Inr_iff)
  from lease have plan: "\<not> has_effects (tl_plan l)" "verifySignedExecutionPlan h (tl_plan l) now = Inr (tl_plan l)"
      "js_get (plan_envelope (tl_plan l)) ''deviceId'' = JStr (tl_deviceId l)" "js_get (tl_plan l) ''planId'' = JStr (tl_planId l)"
    by (auto simp: check_lease_def rbind_Inr_iff require_def dest: verifySignedExecutionPlan_Inr(1) split: if_split_asm)
  show ?thesis
  proof (cases "run_of j (tl_taskId l)")
    case (Some e)
    with assms lease a have "c = e" "j' = j" "ck_executorId c = executorId" "ck_deviceId c = tl_deviceId l" "js_get (ck_plan c) ''planId'' = JStr (tl_planId l)"
      by (auto simp: acceptLease_def split: if_split_asm)
    with Some assms(1) show ?thesis by (auto simp: journal_ok_def intro: moves_refl)
  next
    case None
    let ?c = "new_run l executorId (ai_normalizedContextDigest a) (iso_text now)"
    from None assms(3) lease a obtain d where d: "\<bar>now\<bar> \<le> 8640000000000000" "checkpointDigest h ?c = Inr d" "c = ?c\<lparr>ck_digest := d\<rparr>" "j' = set_run c j"
      by (auto simp: acceptLease_def rbind_Inr_iff seal_Inr toISOString_Inr)
    have rev: "ck_revision c = Fin (of_int 1)" by (simp add: d(3) new_run_def)
    have "checkpointDigest h c = Inr (ck_digest c)" using d(2,3) by simp
    then have ok: "run_ok h c"
      unfolding run_ok_def
      using plan a assms(2) d rev
      by (auto simp: new_run_def run_states_def clock_ok_def)
    have task: "ck_taskId c = tl_taskId l" by (simp add: d(3) new_run_def)
    with None set_run_new [OF assms(1) _ ok] d(4) have "moves h j j'" by simp
    moreover have "run_of j' (tl_taskId l) = Some c" using None task d(4) by (simp add: set_run_def run_of_def lookup_append)
    ultimately show ?thesis using plan(4) by (simp add: d(3) new_run_def)
  qed
qed

section \<open>A restart\<close>

definition after_restart :: "plan_host \<Rightarrow> run_checkpoint \<Rightarrow> run_checkpoint \<Rightarrow> bool" where
  "after_restart h c c' \<longleftrightarrow> (if ck_state c = ''running'' then successor h c c' \<and> ck_state c' = ''paused'' else c' = c)"

lemma check_checkpoint_of_ok:
  assumes "run_ok h c" "run_of j (ck_taskId c) = None" "safe_integer (ck_revision c)"
    and "ck_result c = JNull \<Longrightarrow> verifySignedExecutionPlan h (ck_plan c) now = Inr (ck_plan c)"
  shows "check_checkpoint h c j now = Inr ()"
proof -
  from assms(1) obtain n where n: "1 \<le> n" "ck_revision c = Fin (of_int n)" by (auto simp: run_ok_def)
  have "int_num (Fin (of_int n)) = n" by simp
  with n have revision: "1 \<le> int_num (ck_revision c)" by simp
  from assms(1) obtain t where "verifySignedExecutionPlan h (ck_plan c) t = Inr (ck_plan c)" by (auto simp: run_ok_def)
  then obtain a where "ph_date h (plan_text (ck_plan c) ''issuedAt'') = Some a" "verifySignedExecutionPlan h (ck_plan c) a = Inr (ck_plan c)"
    by (rule verify_at_issue)
  with assms(4) have "verifySignedExecutionPlan h (ck_plan c) (verification_time h c now) = Inr (ck_plan c)"
    by (simp add: verification_time_def)
  with assms(1-3) revision show ?thesis by (auto simp: check_checkpoint_def run_ok_def require_def)
qed

lemma check_checkpoint_Inr:
  assumes "check_checkpoint h c j now = Inr ()"
  shows "run_of j (ck_taskId c) = None" "verifySignedExecutionPlan h (ck_plan c) (verification_time h c now) = Inr (ck_plan c)"
  using assms by (auto simp: check_checkpoint_def rbind_Inr_iff require_def dest: verifySignedExecutionPlan_Inr(1) split: if_split_asm)

lemma restore_one_Inr:
  assumes "run_ok h c" "clock_ok h iso_text" "restore_one h iso_text now c j = Inr j'"
  obtains c' where "j' = j @ [c']" "after_restart h c c'" "check_checkpoint h c j now = Inr ()"
proof -
  from assms(3) have ok: "check_checkpoint h c j now = Inr ()" by (auto simp: restore_one_def rbind_Inr_iff)
  note new = check_checkpoint_Inr(1) [OF this]
  show thesis
  proof (cases "ck_state c = ''running''")
    case False
    with assms(3) have "j' = set_run c j" by (auto simp: restore_one_def rbind_Inr_iff)
    with new ok False show ?thesis by (intro that [of c]) (simp_all add: set_run_def after_restart_def)
  next
    case True
    let ?c = "c\<lparr>ck_state := ''paused'', ck_revision := next_revision (ck_revision c), ck_updatedAt := iso_text now\<rparr>"
    from True assms(3) obtain d where d: "checkpointDigest h ?c = Inr d" "j' = set_run (?c\<lparr>ck_digest := d\<rparr>) j" "\<bar>now\<bar> \<le> 8640000000000000"
      by (auto simp: restore_one_def rbind_Inr_iff seal_Inr toISOString_Inr)
    have "checkpointDigest h (?c\<lparr>ck_digest := d\<rparr>) = Inr d" using d(1) by simp
    with True assms(2) d(3) have "successor h c (?c\<lparr>ck_digest := d\<rparr>)"
      by (auto simp: successor_def same_run_def run_edges_def clock_ok_def)
    with d new ok True show ?thesis by (intro that [of "?c\<lparr>ck_digest := d\<rparr>"]) (simp_all add: set_run_def after_restart_def)
  qed
qed

lemma restore_fold:
  assumes "\<forall>c\<in>set values. run_ok h c" "clock_ok h iso_text" "fold_result (restore_one h iso_text now) values acc = Inr j"
  shows "\<exists>j1. j = acc @ j1 \<and> list_all2 (after_restart h) values j1"
  using assms
proof (induction "values" arbitrary: acc)
  case (Cons c cs)
  then obtain acc' where acc': "restore_one h iso_text now c acc = Inr acc'" "fold_result (restore_one h iso_text now) cs acc' = Inr j"
    by (auto split: sum.split_asm)
  obtain c' where "acc' = acc @ [c']" "after_restart h c c'"
    by (rule restore_one_Inr [OF _ Cons.prems(2) acc'(1)]) (use Cons.prems(1) in auto)
  with Cons.IH [OF _ Cons.prems(2) acc'(2)] Cons.prems(1) show ?case by force
qed simp

lemma after_restart_kept: "after_restart h c c' \<Longrightarrow> kept_or_next h c c'"
  by (simp add: after_restart_def kept_or_next_def split: if_split_asm)

lemma restore_journal_moves:
  assumes "journal_ok h j" "clock_ok h iso_text" "restore_journal h iso_text j now = Inr j'"
  shows "list_all2 (after_restart h) j j'" "moves h j j'"
proof -
  from restore_fold [OF _ assms(2) assms(3) [unfolded restore_journal_def]] assms(1)
  show restarted: "list_all2 (after_restart h) j j'" by (auto simp: journal_ok_def)
  then have "list_all2 (kept_or_next h) j j'" by (rule list_all2_mono) (rule after_restart_kept)
  moreover from this have "map ck_taskId j' = map ck_taskId j"
    by (induction rule: list_all2_induct) (auto dest: kept_or_next_task)
  ultimately show "moves h j j'" using assms(1) by (auto simp: moves_def journal_ok_def)
qed

lemma restore_one_succeeds:
  assumes "run_ok h c" "run_of j (ck_taskId c) = None" "safe_integer (ck_revision c)" "\<bar>now\<bar> \<le> 8640000000000000"
    and "ck_result c = JNull \<Longrightarrow> verifySignedExecutionPlan h (ck_plan c) now = Inr (ck_plan c)"
  shows "ok (restore_one h iso_text now c j)"
proof -
  let ?c = "c\<lparr>ck_state := ''paused'', ck_revision := next_revision (ck_revision c), ck_updatedAt := iso_text now\<rparr>"
  from assms(1) have "ck_schemaVersion c = Fin 1" "finite_num (ck_revision c)" "ok (checkpointDigest h c)" by (auto simp: run_ok_def)
  then have "ok (checkpointDigest h ?c)"
    using sealable [of c h] sealable [of ?c h] by (auto simp: next_revision_def split: jnum.split)
  then have "ok (seal h ?c)" by (auto simp: seal_def rbind_Inr_iff)
  with check_checkpoint_of_ok [OF assms(1-3,5)] assms(4) show ?thesis
    by (auto simp: restore_one_def rbind_Inr_iff toISOString_Inr)
qed

lemma restore_fold_succeeds:
  assumes "\<forall>c\<in>set values. run_ok h c \<and> safe_integer (ck_revision c)
      \<and> (ck_result c = JNull \<longrightarrow> verifySignedExecutionPlan h (ck_plan c) now = Inr (ck_plan c))"
    and "clock_ok h iso_text" "\<bar>now\<bar> \<le> 8640000000000000" "distinct (map ck_taskId (acc @ values))"
  shows "ok (fold_result (restore_one h iso_text now) values acc)"
  using assms
proof (induction "values" arbitrary: acc)
  case (Cons c cs)
  from Cons.prems(4) have "run_of acc (ck_taskId c) = None" by (auto simp: run_of_def lookup_None_iff)
  with Cons.prems have "ok (restore_one h iso_text now c acc)" by (intro restore_one_succeeds) auto
  then obtain acc' where acc': "restore_one h iso_text now c acc = Inr acc'" ..
  obtain c' where c': "acc' = acc @ [c']" "after_restart h c c'"
    by (rule restore_one_Inr [OF _ Cons.prems(2) acc']) (use Cons.prems(1) in auto)
  have "ck_taskId c' = ck_taskId c" using kept_or_next_task [OF after_restart_kept [OF c'(2)]] .
  with c'(1) Cons.prems have "ok (fold_result (restore_one h iso_text now) cs acc')" by (intro Cons.IH) auto
  with acc' show ?case by simp
qed simp

section \<open>Properties\<close>

lemma journal_exec_moves:
  assumes "journal_ok h j" "clock_ok h iso_text"
  shows "moves h j (journal_exec h iso_text oper j)"
proof -
  have "moves h j j" using assms(1) by (intro moves_refl) (simp add: journal_ok_def)
  then show ?thesis
    using acceptLease_moves [OF assms] begin_run_moves [OF assms] markLeaseAcknowledged_moves [OF assms] pause_run_moves [OF assms]
      completePendingSync_moves [OF assms] markSynced_moves [OF assms] restore_journal_moves(2) [OF assms]
    by (cases oper) (auto split: sum.split)
qed

text \<open>How far a run got: the work on it is never undone.\<close>

definition run_later :: "run_checkpoint \<Rightarrow> run_checkpoint \<Rightarrow> bool" where
  "run_later c c' \<longleftrightarrow>
     same_run c c' \<and> num_le (ck_revision c) (ck_revision c') \<and> (ck_revision c' = ck_revision c \<longrightarrow> c' = c)
     \<and> (ck_result c \<noteq> JNull \<longrightarrow> ck_result c' = ck_result c) \<and> (ck_state c = ''synced'' \<longrightarrow> c' = c)"

lemma num_le_refl_Fin: "num_le (Fin a) (Fin b) \<longleftrightarrow> a \<le> b"
  by simp

lemma run_later_trans:
  assumes "run_later a b" "run_later b c" "run_ok h a" "run_ok h b" "run_ok h c"
  shows "run_later a c"
proof -
  from assms(3-5) obtain n m k where "ck_revision a = Fin (of_int n)" "ck_revision b = Fin (of_int m)" "ck_revision c = Fin (of_int k)"
    by (auto simp: run_ok_def)
  with assms(1,2) show ?thesis by (auto simp: run_later_def same_run_def)
qed

lemma successor_later:
  assumes "run_ok h c" "successor h c c'"
  shows "run_later c c'"
proof -
  from assms(1) obtain n where n: "ck_revision c = Fin (of_int n)" by (auto simp: run_ok_def)
  have "ck_result c = JNull" if "ck_state c' = ''completed-pending-sync''"
    using assms that by (auto simp: successor_def run_edges_def run_ok_def)
  with assms n show ?thesis by (auto simp: run_later_def successor_def next_revision_def run_edges_def)
qed

lemma run_later_refl: "run_ok h c \<Longrightarrow> run_later c c"
  by (auto simp: run_later_def same_run_def run_ok_def)

lemma moves_run:
  assumes "journal_ok h j" "moves h j j'" "run_of j t = Some c"
  shows "\<exists>c'. run_of j' t = Some c' \<and> run_later c c' \<and> run_ok h c' \<and> run_ok h c"
proof -
  from assms(2) obtain j1 new where j1: "list_all2 (kept_or_next h) j j1" "j' = j1 @ new" "distinct (map ck_taskId j')"
    by (auto simp: moves_def)
  from assms(3) have c: "c \<in> set j" "ck_taskId c = t" by (auto simp: run_of_def dest: lookup_SomeD)
  with assms(1) have ok: "run_ok h c" by (simp add: journal_ok_def)
  from c(1) obtain i where i: "i < length j" "j ! i = c" by (auto simp: in_set_conv_nth)
  then have next_c: "kept_or_next h c (j1 ! i)" "j1 ! i \<in> set j'" using j1(1,2) by (auto simp: list_all2_conv_all_nth)
  then have "run_of j' t = Some (j1 ! i)"
    unfolding run_of_def using j1(3) c(2) kept_or_next_task by (intro lookupI) auto
  with next_c(1) ok show ?thesis
    using successor_later [OF ok] successor_ok [OF ok] run_later_refl [OF ok] by (auto simp: kept_or_next_def)
qed

definition runs_later :: "journal \<Rightarrow> journal \<Rightarrow> bool" where
  "runs_later j j' \<longleftrightarrow> (\<forall>t c. run_of j t = Some c \<longrightarrow> (\<exists>c'. run_of j' t = Some c' \<and> run_later c c'))"

lemma run_of_ok: "journal_ok h j \<Longrightarrow> run_of j t = Some c \<Longrightarrow> run_ok h c"
  by (auto simp: journal_ok_def run_of_def dest: lookup_SomeD)

interpretation journal_history: step_history "journal_exec h iso_text" "\<lambda>j. journal_ok h j \<and> clock_ok h iso_text" runs_later for h iso_text
proof unfold_locales
  fix j oper assume j: "journal_ok h j \<and> clock_ok h iso_text"
  then have moved: "moves h j (journal_exec h iso_text oper j)" using journal_exec_moves by blast
  with j show "(journal_ok h (journal_exec h iso_text oper j) \<and> clock_ok h iso_text) \<and> runs_later j (journal_exec h iso_text oper j)"
    using moves_ok moves_run unfolding runs_later_def by blast
next
  fix a b c assume inv: "journal_ok h a \<and> clock_ok h iso_text" "journal_ok h b \<and> clock_ok h iso_text" "journal_ok h c \<and> clock_ok h iso_text"
    and rel: "runs_later a b" "runs_later b c"
  show "runs_later a c"
    unfolding runs_later_def
  proof (intro allI impI)
    fix t x assume x: "run_of a t = Some x"
    with rel obtain y z where "run_of b t = Some y" "run_later x y" "run_of c t = Some z" "run_later y z" unfolding runs_later_def by meson
    with x inv show "\<exists>z. run_of c t = Some z \<and> run_later x z" using run_later_trans run_of_ok by meson
  qed
qed (auto simp: runs_later_def intro: run_later_refl run_of_ok)

lemma journal_run_ok: "journal_ok h j \<Longrightarrow> clock_ok h iso_text \<Longrightarrow> journal_ok h (journal_run h iso_text ops j)"
  using journal_history.run_keeps unfolding journal_run_def by blast

lemma empty_journal_ok: "journal_ok h []"
  by (simp add: journal_ok_def)

text \<open>C13. The checkpoints of a journal restore it. Whatever steps led to the journal, and as long as
revisions are safe integers and the plans of the runs without a result are still valid at the restart,
restore accepts all of its checkpoints; each run is what it was, a running one is paused with the next
revision and sealed again.\<close>

theorem restart_preserves_runs:
  assumes "clock_ok h iso_text" "\<bar>now\<bar> \<le> 8640000000000000"
    and j: "j = journal_run h iso_text ops []"
    and "\<forall>c\<in>set j. safe_integer (ck_revision c)
      \<and> (ck_result c = JNull \<longrightarrow> verifySignedExecutionPlan h (ck_plan c) now = Inr (ck_plan c))"
  shows "\<exists>j'. restore_journal h iso_text j now = Inr j' \<and> list_all2 (after_restart h) j j'"
proof -
  have inv: "journal_ok h j" unfolding j by (rule journal_run_ok [OF empty_journal_ok assms(1)])
  then have "ok (restore_journal h iso_text j now)"
    unfolding restore_journal_def using assms(1,2,4) by (intro restore_fold_succeeds) (auto simp: journal_ok_def)
  with restore_journal_moves(1) [OF inv assms(1)] show ?thesis by blast
qed

lemma fold_result_each: "fold_result f xs s = Inr t \<Longrightarrow> x \<in> set xs \<Longrightarrow> \<exists>u v. f x u = Inr v"
  by (induction xs arbitrary: s) (auto split: sum.split_asm)

lemma verify_not_expired: "verifySignedExecutionPlan h v now = Inr w \<Longrightarrow> ph_date h (plan_text v ''expiresAt'') = Some b \<Longrightarrow> now < b"
  using verifySignedExecutionPlan_Inr(3) by fastforce

text \<open>C30. One run without a result whose plan has expired blocks the restart: restoring any journal
with such a checkpoint is an error, whatever the other checkpoints are, and stays one at every later
time.\<close>

theorem expired_run_blocks_restart:
  assumes "c \<in> set j" "ck_result c = JNull" "ph_date h (plan_text (ck_plan c) ''expiresAt'') = Some b" "b \<le> now"
  shows "\<exists>e. restore_journal h iso_text j now = Inl e"
proof (rule ccontr)
  assume "\<not> ?thesis"
  then obtain j' where "restore_journal h iso_text j now = Inr j'" by (metis sumE)
  then obtain u v where "restore_one h iso_text now c u = Inr v"
    unfolding restore_journal_def using fold_result_each assms(1) by metis
  then have "check_checkpoint h c u now = Inr ()" by (auto simp: restore_one_def rbind_Inr_iff)
  from check_checkpoint_Inr(2) [OF this] assms(2-4) verify_not_expired show False by (fastforce simp: verification_time_def)
qed

text \<open>C17. The history of a local run only goes forward. Whatever steps follow, the run is still in
the journal, for the same plan, device and executor; its revision has not fallen and an equal revision is
the same checkpoint; a result once there stays; a synced run does not change any more.\<close>

theorem run_never_undone:
  assumes "clock_ok h iso_text"
    and "run_of (journal_run h iso_text ops []) t = Some c"
  shows "\<exists>c'. run_of (journal_run h iso_text (ops @ rest) []) t = Some c' \<and> run_later c c'"
proof -
  have "journal_ok h [] \<and> clock_ok h iso_text" using empty_journal_ok assms(1) by blast
  from journal_history.run_extended [OF this] assms(2) show ?thesis by (simp add: journal_run_def runs_later_def)
qed

section \<open>Witnesses\<close>

definition zero_digest :: string where
  "zero_digest = ''sha256:'' @ replicate 64 (CHR ''0'')"

definition sample_run :: "string \<Rightarrow> rat \<Rightarrow> run_checkpoint" where
  "sample_run state n =
     \<lparr> ck_schemaVersion = Fin 1, ck_taskId = ''task1'', ck_deviceId = ''d'', ck_plan = quiet_plan, ck_executorId = ''z'',
       ck_contextDigest = zero_digest, ck_state = state, ck_revision = Fin n, ck_result = JNull, ck_effectMode = ''recording-sink'',
       ck_externalWrites = False, ck_updatedAt = ''t0'', ck_digest = zero_digest \<rparr>"

lemma sample_clock_ok: "clock_ok sample_host device_iso"
  by (simp add: clock_ok_def sample_host_def device_iso_def device_date_def)

lemma quiet_plan_canonical: "ok (canonical_json (ph_num sample_host) quiet_plan)"
proof -
  have "(case canonical_json (ph_num sample_host) quiet_plan of Inl _ \<Rightarrow> False | Inr _ \<Rightarrow> True)" by code_simp
  then show ?thesis by (simp split: sum.split_asm)
qed

lemma sample_digest_of:
  assumes "ck_schemaVersion c = Fin 1" "finite_num (ck_revision c)" "ck_plan c = quiet_plan" "ck_result c = JNull"
  shows "checkpointDigest sample_host c = Inr zero_digest"
proof -
  have "ok (checkpointDigest sample_host c)" using sealable [OF assms(1,2)] quiet_plan_canonical assms(3,4) by simp
  then show ?thesis by (auto simp: checkpointDigest_def contentDigest_def rbind_Inr_iff sample_host_def zero_digest_def)
qed

lemma sample_adapter: "\<exists>a. adapter_of sample_host ''z'' quiet_plan = Inr a \<and> ai_normalizedContextDigest a = zero_digest"
proof -
  have "validateExecutionEnvelope device_date (\<lambda>q. ''1'') quiet_envelope = Inr quiet_envelope"
    by (simp add: validateExecutionEnvelope_def quiet_envelope_checked)
  moreover have "plan_envelope quiet_plan = quiet_envelope" by code_simp
  moreover have "contentDigest (\<lambda>q. ''1'') (\<lambda>t. replicate 64 (CHR ''0'')) quiet_envelope = Inr zero_digest" by code_simp
  moreover have "check_identifier (JStr ''z'') ''executorId'' = Inr ()" by code_simp
  ultimately show ?thesis by (simp add: adapter_of_def toExecutorAdapterInput_def sample_host_def)
qed

lemma sample_accepted: "acceptLease sample_host device_iso first_lease_of_task ''z'' 0 [] = Inr (sample_run ''leased'' 1, [sample_run ''leased'' 1])"
proof -
  from sample_adapter obtain a where a: "adapter_of sample_host ''z'' quiet_plan = Inr a" "ai_normalizedContextDigest a = zero_digest" by blast
  have plan: "js_get quiet_plan ''planId'' = JStr ''p1''" "js_get (plan_envelope quiet_plan) ''deviceId'' = JStr ''d''" "\<not> has_effects quiet_plan"
    "\<not> blank ''task1''" by code_simp+
  have "check_lease sample_host first_lease_of_task 0 = Inr ()"
    using plan quiet_plan_verified
    by (simp add: check_lease_def first_lease_of_task_def require_def past_def) (simp add: sample_host_def device_date_def)
  with a show ?thesis
    by (simp add: acceptLease_def first_lease_of_task_def run_of_def toISOString_def device_iso_def seal_def sample_digest_of new_run_def
        set_run_def sample_run_def)
qed

lemma sample_step:
  assumes "allowed (sample_run state n)"
  shows "step_run sample_host device_iso ''task1'' 0 allowed refusal state' [sample_run state n]
    = Inr (sample_run state' (n + 1), [sample_run state' (n + 1)])"
proof -
  have task: "ck_taskId (sample_run x m) = ''task1''" "ck_revision (sample_run x m) = Fin m" for x m by (simp_all add: sample_run_def)
  have "seal sample_host (sample_run state n\<lparr>ck_state := state', ck_updatedAt := ''t0'', ck_revision := Fin (n + 1)\<rparr>) = Inr (sample_run state' (n + 1))"
    by (simp add: seal_def sample_digest_of sample_run_def)
  with assms task show ?thesis
    by (simp add: step_run_def local_run_def run_of_def require_def toISOString_def device_iso_def replace_run_def next_revision_def set_run_def)
qed

definition sample_history :: "journal_op list" where
  "sample_history = [AcceptOp first_lease_of_task ''z'' 0, AckOp ''task1'' 0, BeginOp ''task1'' 0]"

lemma sample_journal: "journal_run sample_host device_iso sample_history [] = [sample_run ''running'' 3]"
proof -
  have "markLeaseAcknowledged sample_host device_iso ''task1'' 0 [sample_run ''leased'' 1] = Inr (sample_run ''accepted'' 2, [sample_run ''accepted'' 2])"
    unfolding markLeaseAcknowledged_def by (subst sample_step) (simp_all add: sample_run_def)
  moreover have "begin_run sample_host device_iso ''task1'' 0 [sample_run ''accepted'' 2] = Inr (sample_run ''running'' 3, [sample_run ''running'' 3])"
    unfolding begin_run_def by (subst sample_step) (simp_all add: sample_run_def)
  ultimately show ?thesis by (simp add: journal_run_def sample_history_def sample_accepted)
qed

theorem restart_preserves_runs_witness:
  "\<exists>c'. restore_journal sample_host device_iso [sample_run ''running'' 3] 0 = Inr [c'] \<and> ck_state c' = ''paused''
    \<and> successor sample_host (sample_run ''running'' 3) c'"
proof -
  have "safe_integer (ck_revision (sample_run ''running'' 3))" by code_simp
  then have "\<forall>c\<in>set [sample_run ''running'' 3]. safe_integer (ck_revision c)
      \<and> (ck_result c = JNull \<longrightarrow> verifySignedExecutionPlan sample_host (ck_plan c) 0 = Inr (ck_plan c))"
    using quiet_plan_verified by (simp add: sample_run_def)
  from restart_preserves_runs [OF sample_clock_ok _ sample_journal [symmetric] this]
  obtain j' where "restore_journal sample_host device_iso [sample_run ''running'' 3] 0 = Inr j'"
    "list_all2 (after_restart sample_host) [sample_run ''running'' 3] j'" by auto
  then show ?thesis by (auto simp: list_all2_Cons1 after_restart_def sample_run_def)
qed

theorem expired_run_blocks_restart_witness: "\<exists>e. restore_journal sample_host device_iso [sample_run ''accepted'' 2] 9000 = Inl e"
proof -
  have "ph_date sample_host (plan_text (ck_plan (sample_run ''accepted'' 2)) ''expiresAt'') = Some 9000" by code_simp
  from expired_run_blocks_restart [OF _ _ this] show ?thesis by (simp add: sample_run_def)
qed

theorem run_never_undone_witness:
  "\<exists>c'. run_of (journal_run sample_host device_iso (sample_history @ [PauseOp ''task1'' 0]) []) ''task1'' = Some c'
    \<and> run_later (sample_run ''running'' 3) c'"
proof -
  have "run_of (journal_run sample_host device_iso sample_history []) ''task1'' = Some (sample_run ''running'' 3)"
    by (simp add: sample_journal run_of_def) (simp add: sample_run_def)
  from run_never_undone [OF sample_clock_ok this] show ?thesis .
qed

end
