(* ===== verification/Client_State.thy ===== *)
theory Client_State
  imports Client_Journal Workspace_Policy
begin

text \<open>
  The durable state of a device (client-runtime/sqlite-client-state.ts): its enrolled identity, the
  matters taken in, the enrollment with the control plane, workspaces, executor reports, installed
  capabilities with their selection, and the checkpoints of runs. Objects of a fixed type are records,
  and compared as such where the code compares their texts (the order of their keys is not modelled);
  the plan and the result of a checkpoint go through JSON. \<open>realpath\<close>, SHA-256 and dates are parameters.
\<close>

section \<open>Rows\<close>

record identity_row =
  ir_tenant :: string
  ir_user :: string
  ir_device :: string
  ir_identity :: device_identity
  ir_keyRef :: string

record matter_row =
  mt_id :: string
  mt_tenant :: string
  mt_user :: string
  mt_fingerprint :: string
  mt_status :: string
  mt_title :: string
  mt_summary :: string
  mt_priority :: int
  mt_tags :: "string list"
  mt_dueAt :: "timestamp option"
  mt_createdAt :: timestamp
  mt_updatedAt :: timestamp

record intake_row =
  nt_tenant :: string
  nt_user :: string
  nt_key :: string
  nt_digest :: string
  nt_matter :: string
  nt_recordedAt :: timestamp

record enrollment_row =
  en_requestId :: string
  en_deviceId :: string
  en_userCode :: string
  en_pollTokenRef :: string
  en_state :: string
  en_expiresAt :: timestamp
  en_pollAfter :: int
  en_updatedAt :: timestamp

record workspace_row =
  wk_handle :: string
  wk_root :: path
  wk_access :: string
  wk_grantId :: string
  wk_expiresAt :: timestamp

record capability_snapshot =
  cp_capabilityId :: string
  cp_version :: string
  cp_artifactDigest :: string
  cp_deviceId :: string
  cp_installation :: string
  cp_loading :: string
  cp_authorization :: string
  cp_execution :: string
  cp_effects :: string
  cp_updatedAt :: timestamp

record selection_row =
  sl_capabilityId :: string
  sl_current :: string
  sl_previous :: "string option"
  sl_updatedAt :: timestamp

record client_store =
  cs_identity :: "identity_row option"
  cs_matters :: "matter_row list"
  cs_intakes :: "intake_row list"
  cs_enrollment :: "enrollment_row option"
  cs_workspaces :: "workspace_row list"
  cs_reports :: "executor_report list"
  cs_capabilities :: "capability_snapshot list"
  cs_selections :: "selection_row list"
  cs_checkpoints :: "run_checkpoint list"

section \<open>Identity\<close>

definition identity_of :: "(string \<Rightarrow> int option) \<Rightarrow> identity_row \<Rightarrow> device_identity result" where
  "identity_of date_ms row =
     rbind (require (referencePattern (ir_keyRef row)) ''persisted local key reference is invalid'') (\<lambda>_.
     rbind (validateDeviceIdentity date_ms (ir_identity row)) (\<lambda>identity.
     rbind (require (di_tenantId identity = ir_tenant row \<and> di_userId identity = ir_user row \<and> di_deviceId identity = ir_device row)
              ''persisted local device identity drifted'') (\<lambda>_.
     Inr identity)))"

definition requireIdentity :: "(string \<Rightarrow> int option) \<Rightarrow> client_store \<Rightarrow> device_identity result" where
  "requireIdentity date_ms st =
     (case cs_identity st of None \<Rightarrow> throw ''local client is not enrolled'' | Some row \<Rightarrow> identity_of date_ms row)"

definition enroll :: "(string \<Rightarrow> int option) \<Rightarrow> device_identity \<Rightarrow> string \<Rightarrow> client_store \<Rightarrow> (device_identity \<times> client_store) result" where
  "enroll date_ms identityInput privateKeyRef st =
     rbind (validateDeviceIdentity date_ms identityInput) (\<lambda>identity.
     rbind (require (referencePattern privateKeyRef) ''inactive client enrollment requires an opaque local key reference'') (\<lambda>_.
     case cs_identity st of
       Some existing \<Rightarrow>
         rbind (identity_of date_ms existing) (\<lambda>v.
         if v \<noteq> identity \<or> ir_keyRef existing \<noteq> privateKeyRef then throw ''local device enrollment is immutable'' else Inr (v, st))
     | None \<Rightarrow>
         Inr (identity, st\<lparr>cs_identity := Some \<lparr> ir_tenant = di_tenantId identity, ir_user = di_userId identity,
           ir_device = di_deviceId identity, ir_identity = identity, ir_keyRef = privateKeyRef \<rparr>\<rparr>)))"

definition localEnrollment :: "(string \<Rightarrow> int option) \<Rightarrow> client_store \<Rightarrow> (device_identity \<times> string) result" where
  "localEnrollment date_ms st =
     (case cs_identity st of
        None \<Rightarrow> throw ''local client is not enrolled''
      | Some row \<Rightarrow>
          if \<not> referencePattern (ir_keyRef row) then throw ''local client is not enrolled''
          else rbind (identity_of date_ms row) (\<lambda>identity. Inr (identity, ir_keyRef row)))"

section \<open>Matters taken in\<close>

record intake_input =
  ii_tenantId :: string
  ii_userId :: string
  ii_sourceId :: string
  ii_idempotencyKey :: string
  ii_title :: string
  ii_summary :: string
  ii_priority :: jnum
  ii_tags :: "string list"
  ii_dueAt :: "timestamp option"
  ii_existingMatterId :: "string option"








definition matter_patched :: "intake_input \<Rightarrow> timestamp \<Rightarrow> matter_row \<Rightarrow> matter_row" where
  "matter_patched input at_text m =
     m\<lparr>mt_title := ii_title input, mt_summary := ii_summary input, mt_priority := int_num (ii_priority input),
       mt_tags := ii_tags input, mt_dueAt := ii_dueAt input, mt_updatedAt := at_text\<rparr>"





section \<open>Enrollment with the control plane\<close>

record enrollment_request =
  eq_requestId :: string
  eq_userCode :: string
  eq_verificationPath :: string
  eq_expiresAt :: timestamp
  eq_pollAfterSeconds :: jnum

definition upper_hex :: "char \<Rightarrow> bool" where
  "upper_hex c = (digit_char c \<or> (65 \<le> (of_char c :: nat) \<and> (of_char c :: nat) \<le> 70))"

definition requestIdPattern :: "string \<Rightarrow> bool" where
  "requestIdPattern s = (starts_with ''enrollment.'' s \<and> length s = 43 \<and> list_all hex_char (drop 11 s))"

definition userCodePattern :: "string \<Rightarrow> bool" where
  "userCodePattern s =
     (let parts = split_on (CHR ''-'') s in length parts = 4 \<and> list_all (\<lambda>p. length p = 4 \<and> list_all upper_hex p) parts)"

definition enrollment_states :: "string list" where
  "enrollment_states = [''pending'', ''approved-cleanup-pending'', ''approved'', ''expired-cleanup-pending'', ''expired'']"

definition deviceEnrollment :: "(string \<Rightarrow> int option) \<Rightarrow> client_store \<Rightarrow> enrollment_row option result" where
  "deviceEnrollment date_ms st =
     rbind (requireIdentity date_ms st) (\<lambda>identity.
     case cs_enrollment st of
       None \<Rightarrow> Inr None
     | Some e \<Rightarrow>
         if en_deviceId e \<noteq> di_deviceId identity \<or> \<not> requestIdPattern (en_requestId e) \<or> \<not> userCodePattern (en_userCode e)
            \<or> \<not> referencePattern (en_pollTokenRef e) \<or> en_state e \<notin> set enrollment_states \<or> en_pollAfter e \<noteq> 5
            \<or> date_ms (en_expiresAt e) = None \<or> date_ms (en_updatedAt e) = None
         then throw ''persisted local device enrollment is invalid'' else Inr (Some e))"

text \<open>A statement outside a transaction, then a read of what it wrote: the write stays when the read throws.\<close>

definition after_write :: "(client_store \<Rightarrow> 'b result) \<Rightarrow> client_store result \<Rightarrow> client_store \<Rightarrow> 'b result \<times> client_store" where
  "after_write read w st = (case w of Inl e \<Rightarrow> (Inl e, st) | Inr st1 \<Rightarrow> (read st1, st1))"

definition pending_write ::
  "(string \<Rightarrow> int option) \<Rightarrow> (int \<Rightarrow> timestamp) \<Rightarrow> enrollment_request \<Rightarrow> string \<Rightarrow> int \<Rightarrow> client_store \<Rightarrow> client_store result" where
  "pending_write date_ms iso_text request pollTokenRef now st =
     rbind (requireIdentity date_ms st) (\<lambda>identity.
     rbind (require (requestIdPattern (eq_requestId request) \<and> userCodePattern (eq_userCode request) \<and> referencePattern pollTokenRef
                \<and> eq_verificationPath request = ''/devices/activate'' \<and> eq_pollAfterSeconds request = Fin 5
                \<and> \<not> past date_ms (eq_expiresAt request) now)
              ''local device enrollment request is invalid'') (\<lambda>_.
     rbind (deviceEnrollment date_ms st) (\<lambda>existing.
     if existing \<noteq> None then throw ''local device enrollment already exists''
     else rbind (toISOString iso_text now) (\<lambda>at_text.
       Inr (st\<lparr>cs_enrollment := Some \<lparr> en_requestId = eq_requestId request, en_deviceId = di_deviceId identity,
         en_userCode = eq_userCode request, en_pollTokenRef = pollTokenRef, en_state = ''pending'', en_expiresAt = eq_expiresAt request,
         en_pollAfter = 5, en_updatedAt = at_text \<rparr>\<rparr>)))))"

definition savePendingDeviceEnrollment ::
  "(string \<Rightarrow> int option) \<Rightarrow> (int \<Rightarrow> timestamp) \<Rightarrow> enrollment_request \<Rightarrow> string \<Rightarrow> int \<Rightarrow> client_store \<Rightarrow>
   enrollment_row option result \<times> client_store" where
  "savePendingDeviceEnrollment date_ms iso_text request pollTokenRef now st =
     after_write (deviceEnrollment date_ms) (pending_write date_ms iso_text request pollTokenRef now st) st"

definition enrollment_edges :: "string \<Rightarrow> string list" where
  "enrollment_edges state =
     (if state = ''pending'' then [''approved-cleanup-pending'', ''expired-cleanup-pending'']
      else if state = ''approved-cleanup-pending'' then [''approved'']
      else if state = ''expired-cleanup-pending'' then [''expired''] else [])"

definition advance_write ::
  "(string \<Rightarrow> int option) \<Rightarrow> (int \<Rightarrow> timestamp) \<Rightarrow> string \<Rightarrow> string \<Rightarrow> int \<Rightarrow> client_store \<Rightarrow> client_store result" where
  "advance_write date_ms iso_text requestId state now st =
     rbind (deviceEnrollment date_ms st) (\<lambda>current.
     case current of
       None \<Rightarrow> throw ''local device enrollment is unavailable''
     | Some e \<Rightarrow>
         rbind (require (en_requestId e = requestId) ''local device enrollment is unavailable'') (\<lambda>_.
         rbind (require (state \<in> set (enrollment_edges (en_state e))) ''local device enrollment transition is invalid'') (\<lambda>_.
         rbind (toISOString iso_text now) (\<lambda>at_text.
         Inr (st\<lparr>cs_enrollment := map_option (\<lambda>r. r\<lparr>en_state := state, en_updatedAt := at_text\<rparr>) (cs_enrollment st)\<rparr>)))))"

definition advanceDeviceEnrollment ::
  "(string \<Rightarrow> int option) \<Rightarrow> (int \<Rightarrow> timestamp) \<Rightarrow> string \<Rightarrow> string \<Rightarrow> int \<Rightarrow> client_store \<Rightarrow>
   enrollment_row option result \<times> client_store" where
  "advanceDeviceEnrollment date_ms iso_text requestId state now st =
     after_write (deviceEnrollment date_ms) (advance_write date_ms iso_text requestId state now st) st"

definition clearExpiredDeviceEnrollment :: "(string \<Rightarrow> int option) \<Rightarrow> client_store \<Rightarrow> client_store result" where
  "clearExpiredDeviceEnrollment date_ms st =
     rbind (deviceEnrollment date_ms st) (\<lambda>current.
     case current of
       None \<Rightarrow> throw ''only a fully cleaned expired device enrollment can be cleared''
     | Some e \<Rightarrow>
         if en_state e \<noteq> ''expired'' then throw ''only a fully cleaned expired device enrollment can be cleared''
         else Inr (st\<lparr>cs_enrollment := None\<rparr>))"

section \<open>Workspaces\<close>

definition handlePattern :: "string \<Rightarrow> bool" where
  "handlePattern s = (starts_with ''workspace:'' s \<and> token_tail (drop 10 s))"

definition localIdPattern :: "string \<Rightarrow> bool" where
  "localIdPattern s =
     (s \<noteq> [] \<and> length s \<le> 128 \<and> (lower_letter (hd s) \<or> digit_char (hd s)) \<and> list_all (\<lambda>c. id_char c \<or> c = CHR ''/'') s)"

text \<open>\<open>INSERT OR IGNORE\<close> into a table whose handle and whose root are unique.\<close>

definition insert_workspace :: "workspace_row \<Rightarrow> workspace_row list \<Rightarrow> workspace_row list" where
  "insert_workspace r rows = (if \<exists>x\<in>set rows. wk_handle x = wk_handle r \<or> wk_root x = wk_root r then rows else rows @ [r])"

definition registerWorkspace ::
  "(string \<Rightarrow> int option) \<Rightarrow> (path \<Rightarrow> path result) \<Rightarrow> path \<Rightarrow> string \<Rightarrow> string \<Rightarrow> string \<Rightarrow> string \<Rightarrow> timestamp \<Rightarrow> client_store \<Rightarrow> client_store result" where
  "registerWorkspace date_ms realpath cwd handle base access grantId expiresAt st =
     rbind (requireIdentity date_ms st) (\<lambda>_.
     rbind (require (handlePattern handle \<and> localIdPattern grantId \<and> access \<in> {''read'', ''read-write''} \<and> date_ms expiresAt \<noteq> None)
              ''local workspace grant is invalid'') (\<lambda>_.
     rbind (create_policy realpath cwd [base]) (\<lambda>roots.
     rbind (authorizeExisting realpath cwd roots base) (\<lambda>canonical.
     let row = \<lparr> wk_handle = handle, wk_root = canonical, wk_access = access, wk_grantId = grantId, wk_expiresAt = expiresAt \<rparr> in
     case find (\<lambda>r. wk_handle r = handle) (cs_workspaces st) of
       Some existing \<Rightarrow>
         if existing \<noteq> row then throw ''local workspace handle is immutable''
         else Inr (st\<lparr>cs_workspaces := insert_workspace row (cs_workspaces st)\<rparr>)
     | None \<Rightarrow> Inr (st\<lparr>cs_workspaces := insert_workspace row (cs_workspaces st)\<rparr>)))))"

text \<open>A stored root is an absolute text; \<open>path_of\<close> writes it for the policy that resolves it again.\<close>

definition path_of :: "path \<Rightarrow> string" where
  "path_of p = ''/'' @ join ''/'' p"

definition resolveWorkspace ::
  "(string \<Rightarrow> int option) \<Rightarrow> (path \<Rightarrow> path result) \<Rightarrow> path \<Rightarrow> string \<Rightarrow> int \<Rightarrow> client_store \<Rightarrow> (path \<times> string \<times> string) result" where
  "resolveWorkspace date_ms realpath cwd handle now st =
     rbind (require (handlePattern handle) ''workspace handle is invalid'') (\<lambda>_.
     case find (\<lambda>r. wk_handle r = handle) (cs_workspaces st) of
       None \<Rightarrow> throw ''workspace grant is unavailable or expired''
     | Some row \<Rightarrow>
         if past date_ms (wk_expiresAt row) now then throw ''workspace grant is unavailable or expired''
         else
           rbind (realpath (wk_root row)) (\<lambda>currentRoot.
           rbind (require (currentRoot = wk_root row) ''workspace root identity changed after authorization'') (\<lambda>_.
           rbind (create_policy realpath cwd [path_of (wk_root row)]) (\<lambda>roots.
           rbind (authorizeExisting realpath cwd roots (path_of (wk_root row))) (\<lambda>canonicalRoot.
           Inr (canonicalRoot, wk_access row, wk_grantId row))))))"

section \<open>Reports and installed capabilities\<close>

definition upsert_by :: "('r \<Rightarrow> 'k) \<Rightarrow> 'r \<Rightarrow> 'r list \<Rightarrow> 'r list" where
  "upsert_by key r rows = (if \<exists>x\<in>set rows. key x = key r then map (\<lambda>x. if key x = key r then r else x) rows else rows @ [r])"

definition saveExecutorReport :: "(string \<Rightarrow> int option) \<Rightarrow> executor_report \<Rightarrow> client_store \<Rightarrow> (executor_report \<times> client_store) result" where
  "saveExecutorReport date_ms reportInput st =
     rbind (requireIdentity date_ms st) (\<lambda>identity.
     rbind (validateExecutorCapabilityReport date_ms reportInput) (\<lambda>report.
     rbind (require (er_deviceId report = di_deviceId identity) ''executor report belongs to another device'') (\<lambda>_.
     Inr (report, st\<lparr>cs_reports := upsert_by er_executorId report (cs_reports st)\<rparr>))))"

definition isInactiveSnapshot :: "(string \<Rightarrow> int option) \<Rightarrow> capability_snapshot \<Rightarrow> device_identity \<Rightarrow> bool" where
  "isInactiveSnapshot date_ms s identity =
     (localIdPattern (cp_capabilityId s) \<and> versionPattern (cp_version s) \<and> digestPattern (cp_artifactDigest s)
      \<and> date_ms (cp_updatedAt s) \<noteq> None \<and> cp_deviceId s = di_deviceId identity \<and> cp_installation s = ''installed''
      \<and> cp_loading s = ''unloaded'' \<and> cp_authorization s = ''unauthorized'' \<and> cp_execution s = ''stopped'' \<and> cp_effects s = ''disabled'')"

definition capability_key :: "capability_snapshot \<Rightarrow> string \<times> string" where
  "capability_key s = (cp_capabilityId s, cp_version s)"

definition saveInactiveCapability ::
  "(string \<Rightarrow> int option) \<Rightarrow> capability_snapshot \<Rightarrow> client_store \<Rightarrow> (capability_snapshot \<times> client_store) result" where
  "saveInactiveCapability date_ms s st =
     rbind (requireIdentity date_ms st) (\<lambda>identity.
     rbind (require (isInactiveSnapshot date_ms s identity) ''client accepts installed-inactive capability state only'') (\<lambda>_.
     case lookup capability_key (cs_capabilities st) (capability_key s) of
       Some existing \<Rightarrow> if existing \<noteq> s then throw ''inactive capability state is immutable'' else Inr (s, st)
     | None \<Rightarrow> Inr (s, st\<lparr>cs_capabilities := cs_capabilities st @ [s]\<rparr>)))"

definition inactiveCapability ::
  "(string \<Rightarrow> int option) \<Rightarrow> string \<Rightarrow> string \<Rightarrow> client_store \<Rightarrow> capability_snapshot option result" where
  "inactiveCapability date_ms capabilityId version st =
     rbind (requireIdentity date_ms st) (\<lambda>identity.
     rbind (require (localIdPattern capabilityId \<and> versionPattern version) ''inactive capability identity is invalid'') (\<lambda>_.
     case lookup capability_key (cs_capabilities st) (capabilityId, version) of
       None \<Rightarrow> Inr None
     | Some s \<Rightarrow>
         if \<not> isInactiveSnapshot date_ms s identity then throw ''persisted inactive capability state drifted'' else Inr (Some s)))"

definition inactiveCapabilities :: "(string \<Rightarrow> int option) \<Rightarrow> client_store \<Rightarrow> capability_snapshot list result" where
  "inactiveCapabilities date_ms st =
     rbind (requireIdentity date_ms st) (\<lambda>_.
     map_result (\<lambda>row. rbind (inactiveCapability date_ms (cp_capabilityId row) (cp_version row) st) (\<lambda>found.
         case found of None \<Rightarrow> throw ''persisted inactive capability index drifted'' | Some s \<Rightarrow> Inr s))
       (sort_key capability_key (cs_capabilities st)))"

definition installed :: "(string \<Rightarrow> int option) \<Rightarrow> string \<Rightarrow> string option \<Rightarrow> client_store \<Rightarrow> unit result" where
  "installed date_ms capabilityId version st =
     (case version of
        None \<Rightarrow> Inr ()
      | Some v \<Rightarrow>
          rbind (inactiveCapability date_ms capabilityId v st) (\<lambda>found.
          require (found \<noteq> None) ''persisted inactive capability selection drifted''))"

definition inactiveCapabilitySelection ::
  "(string \<Rightarrow> int option) \<Rightarrow> string \<Rightarrow> client_store \<Rightarrow> selection_row option result" where
  "inactiveCapabilitySelection date_ms capabilityId st =
     rbind (requireIdentity date_ms st) (\<lambda>_.
     rbind (require (localIdPattern capabilityId) ''inactive capability identity is invalid'') (\<lambda>_.
     case lookup sl_capabilityId (cs_selections st) capabilityId of
       None \<Rightarrow> Inr None
     | Some row \<Rightarrow>
         rbind (require (versionPattern (sl_current row) \<and> (case sl_previous row of None \<Rightarrow> True | Some v \<Rightarrow> versionPattern v)
                    \<and> date_ms (sl_updatedAt row) \<noteq> None)
                  ''persisted inactive capability selection drifted'') (\<lambda>_.
         rbind (installed date_ms capabilityId (Some (sl_current row)) st) (\<lambda>_.
         rbind (installed date_ms capabilityId (sl_previous row) st) (\<lambda>_.
         Inr (Some row))))))"

text \<open>The foreign keys of the table of selections.\<close>

definition references_ok :: "client_store \<Rightarrow> bool" where
  "references_ok st = list_all (\<lambda>r. (\<exists>s\<in>set (cs_capabilities st). capability_key s = (sl_capabilityId r, sl_current r))
     \<and> (case sl_previous r of None \<Rightarrow> True | Some v \<Rightarrow> \<exists>s\<in>set (cs_capabilities st). capability_key s = (sl_capabilityId r, v)))
     (cs_selections st)"

text \<open>The writes of a selection and of a rollback; choosing the current version again writes nothing, and
  reading it once more gives what was read.\<close>

definition select_write ::
  "(string \<Rightarrow> int option) \<Rightarrow> (int \<Rightarrow> timestamp) \<Rightarrow> string \<Rightarrow> string \<Rightarrow> int \<Rightarrow> client_store \<Rightarrow> client_store result" where
  "select_write date_ms iso_text capabilityId version now st =
     rbind (inactiveCapability date_ms capabilityId version st) (\<lambda>selected.
     rbind (require (selected \<noteq> None) ''only an installed inactive capability version can be selected'') (\<lambda>_.
     rbind (inactiveCapabilitySelection date_ms capabilityId st) (\<lambda>current.
     if map_option sl_current current = Some version then Inr st
     else rbind (toISOString iso_text now) (\<lambda>at_text.
       Inr (st\<lparr>cs_selections := upsert_by sl_capabilityId
         \<lparr> sl_capabilityId = capabilityId, sl_current = version, sl_previous = map_option sl_current current, sl_updatedAt = at_text \<rparr>
         (cs_selections st)\<rparr>)))))"

definition selectInactiveCapability ::
  "(string \<Rightarrow> int option) \<Rightarrow> (int \<Rightarrow> timestamp) \<Rightarrow> string \<Rightarrow> string \<Rightarrow> int \<Rightarrow> client_store \<Rightarrow>
   selection_row option result \<times> client_store" where
  "selectInactiveCapability date_ms iso_text capabilityId version now st =
     after_write (inactiveCapabilitySelection date_ms capabilityId) (select_write date_ms iso_text capabilityId version now st) st"

definition rollback_write ::
  "(string \<Rightarrow> int option) \<Rightarrow> (int \<Rightarrow> timestamp) \<Rightarrow> string \<Rightarrow> int \<Rightarrow> client_store \<Rightarrow> client_store result" where
  "rollback_write date_ms iso_text capabilityId now st =
     rbind (inactiveCapabilitySelection date_ms capabilityId st) (\<lambda>current.
     case current of
       None \<Rightarrow> throw ''inactive capability has no rollback version''
     | Some c \<Rightarrow>
         (case sl_previous c of
            None \<Rightarrow> throw ''inactive capability has no rollback version''
          | Some previous \<Rightarrow>
              rbind (inactiveCapability date_ms capabilityId previous st) (\<lambda>target.
              rbind (require (target \<noteq> None) ''inactive capability rollback target is not installed'') (\<lambda>_.
              rbind (toISOString iso_text now) (\<lambda>at_text.
              Inr (st\<lparr>cs_selections := update_where (\<lambda>r. sl_capabilityId r = capabilityId)
                (\<lambda>r. r\<lparr>sl_current := previous, sl_previous := Some (sl_current c), sl_updatedAt := at_text\<rparr>) (cs_selections st)\<rparr>))))))"

definition rollbackInactiveCapability ::
  "(string \<Rightarrow> int option) \<Rightarrow> (int \<Rightarrow> timestamp) \<Rightarrow> string \<Rightarrow> int \<Rightarrow> client_store \<Rightarrow>
   selection_row option result \<times> client_store" where
  "rollbackInactiveCapability date_ms iso_text capabilityId now st =
     after_write (inactiveCapabilitySelection date_ms capabilityId) (rollback_write date_ms iso_text capabilityId now st) st"

definition unselect_version :: "string \<Rightarrow> string \<Rightarrow> timestamp \<Rightarrow> selection_row option \<Rightarrow> selection_row list \<Rightarrow> selection_row list" where
  "unselect_version capabilityId version at_text selection rows =
     (case selection of
        None \<Rightarrow> rows
      | Some s \<Rightarrow>
          if sl_current s = version then
            (case sl_previous s of
               Some previous \<Rightarrow> update_where (\<lambda>r. sl_capabilityId r = capabilityId)
                 (\<lambda>r. r\<lparr>sl_current := previous, sl_previous := None, sl_updatedAt := at_text\<rparr>) rows
             | None \<Rightarrow> filter (\<lambda>r. sl_capabilityId r \<noteq> capabilityId) rows)
          else if sl_previous s = Some version then
            update_where (\<lambda>r. sl_capabilityId r = capabilityId) (\<lambda>r. r\<lparr>sl_previous := None, sl_updatedAt := at_text\<rparr>) rows
          else rows)"

text \<open>A removal is a transaction; the selection is read again after its commit.\<close>

definition remove_write ::
  "(string \<Rightarrow> int option) \<Rightarrow> (int \<Rightarrow> timestamp) \<Rightarrow> string \<Rightarrow> string \<Rightarrow> int \<Rightarrow> client_store \<Rightarrow>
   (capability_snapshot \<times> client_store) result" where
  "remove_write date_ms iso_text capabilityId version now st =
     rbind (inactiveCapability date_ms capabilityId version st) (\<lambda>found.
     case found of
       None \<Rightarrow> throw ''inactive capability version is not installed''
     | Some removed \<Rightarrow>
         rbind (inactiveCapabilitySelection date_ms capabilityId st) (\<lambda>selection.
         rbind (toISOString iso_text now) (\<lambda>at_text.
         let st1 = st\<lparr>cs_selections := unselect_version capabilityId version at_text selection (cs_selections st),
                      cs_capabilities := filter (\<lambda>s. capability_key s \<noteq> (capabilityId, version)) (cs_capabilities st)\<rparr> in
         if \<not> references_ok st1 then Inl (ConstraintError ''FOREIGN KEY constraint failed'')
         else Inr (removed, st1))))"

definition removeInactiveCapability ::
  "(string \<Rightarrow> int option) \<Rightarrow> (int \<Rightarrow> timestamp) \<Rightarrow> string \<Rightarrow> string \<Rightarrow> int \<Rightarrow> client_store \<Rightarrow>
   (capability_snapshot \<times> selection_row option) result \<times> client_store" where
  "removeInactiveCapability date_ms iso_text capabilityId version now st =
     (case remove_write date_ms iso_text capabilityId version now st of
        Inl e \<Rightarrow> (Inl e, st)
      | Inr (removed, st1) \<Rightarrow>
          (rbind (inactiveCapabilitySelection date_ms capabilityId st1) (\<lambda>after. Inr (removed, after)), st1))"

section \<open>Checkpoints and the projection\<close>

definition json_copy :: "jval \<Rightarrow> jval" where
  "json_copy v = (case stringify v of Some j \<Rightarrow> js_of_json j | None \<Rightarrow> JUndefined)"

definition stored_run :: "run_checkpoint \<Rightarrow> run_checkpoint" where
  "stored_run c = c\<lparr>ck_plan := json_copy (ck_plan c), ck_result := json_copy (ck_result c)\<rparr>"

definition saveRunCheckpoint ::
  "plan_host \<Rightarrow> (int \<Rightarrow> timestamp) \<Rightarrow> run_checkpoint \<Rightarrow> int \<Rightarrow> client_store \<Rightarrow> client_store result" where
  "saveRunCheckpoint h iso_text c now st =
     rbind (requireIdentity (ph_date h) st) (\<lambda>identity.
     rbind (require (ck_deviceId c = di_deviceId identity) ''run checkpoint belongs to another device'') (\<lambda>_.
     rbind (restore_journal h iso_text [c] now) (\<lambda>_.
     case lookup ck_taskId (cs_checkpoints st) (ck_taskId c) of
       None \<Rightarrow> Inr (st\<lparr>cs_checkpoints := cs_checkpoints st @ [stored_run c]\<rparr>)
     | Some existing \<Rightarrow>
         if ck_revision existing = ck_revision c \<and> ck_digest existing = ck_digest c then Inr st
         else if num_le (ck_revision c) (ck_revision existing) then throw ''run checkpoint revision must advance monotonically''
         else Inr (st\<lparr>cs_checkpoints := upsert_by ck_taskId (stored_run c) (cs_checkpoints st)\<rparr>))))"

definition restoreRunJournal :: "plan_host \<Rightarrow> (int \<Rightarrow> timestamp) \<Rightarrow> int \<Rightarrow> client_store \<Rightarrow> journal result" where
  "restoreRunJournal h iso_text now st =
     rbind (requireIdentity (ph_date h) st) (\<lambda>_.
     restore_journal h iso_text (sort_key ck_taskId (cs_checkpoints st)) now)"

record cloud_projection =
  cj_identity :: device_identity
  cj_executorReports :: "executor_report list"
  cj_workspaceHandleCount :: nat
  cj_installedCapabilityCount :: nat
  cj_pendingResultCount :: nat

definition cloudProjection :: "(string \<Rightarrow> int option) \<Rightarrow> (int \<Rightarrow> timestamp) \<Rightarrow> int \<Rightarrow> client_store \<Rightarrow> cloud_projection result" where
  "cloudProjection date_ms iso_text now st =
     rbind (requireIdentity date_ms st) (\<lambda>identity.
     rbind (toISOString iso_text now) (\<lambda>at_text.
     rbind (map_result (validateExecutorCapabilityReport date_ms)
              (sort_key er_executorId (filter (\<lambda>r. at_text < er_expiresAt r) (cs_reports st)))) (\<lambda>reports.
     Inr \<lparr> cj_identity = identity, cj_executorReports = reports,
           cj_workspaceHandleCount = length (filter (\<lambda>w. at_text < wk_expiresAt w) (cs_workspaces st)),
           cj_installedCapabilityCount = length (cs_capabilities st),
           cj_pendingResultCount = length (filter (\<lambda>c. ck_state c = ''completed-pending-sync'') (cs_checkpoints st)) \<rparr>)))"

section \<open>Installed capabilities and their selection\<close>

datatype capability_op =
    SaveCapability capability_snapshot
  | SelectCapability string string int
  | RollbackCapability string int
  | RemoveCapability string string int

fun capability_exec :: "(string \<Rightarrow> int option) \<Rightarrow> (int \<Rightarrow> timestamp) \<Rightarrow> capability_op \<Rightarrow> client_store \<Rightarrow> client_store" where
  "capability_exec date_ms iso_text (SaveCapability s) st = (case saveInactiveCapability date_ms s st of Inl _ \<Rightarrow> st | Inr (_, st') \<Rightarrow> st')"
| "capability_exec date_ms iso_text (SelectCapability i v now) st =
     snd (selectInactiveCapability date_ms iso_text i v now st)"
| "capability_exec date_ms iso_text (RollbackCapability i now) st =
     snd (rollbackInactiveCapability date_ms iso_text i now st)"
| "capability_exec date_ms iso_text (RemoveCapability i v now) st =
     snd (removeInactiveCapability date_ms iso_text i v now st)"

definition capability_run :: "(string \<Rightarrow> int option) \<Rightarrow> (int \<Rightarrow> timestamp) \<Rightarrow> capability_op list \<Rightarrow> client_store \<Rightarrow> client_store" where
  "capability_run date_ms iso_text ops st = fold (capability_exec date_ms iso_text) ops st"

definition selection_ok :: "(string \<Rightarrow> int option) \<Rightarrow> client_store \<Rightarrow> selection_row \<Rightarrow> bool" where
  "selection_ok date_ms st r \<longleftrightarrow>
     localIdPattern (sl_capabilityId r) \<and> date_ms (sl_updatedAt r) \<noteq> None
     \<and> (sl_capabilityId r, sl_current r) \<in> capability_key ` set (cs_capabilities st)
     \<and> (case sl_previous r of None \<Rightarrow> True
        | Some v \<Rightarrow> v \<noteq> sl_current r \<and> (sl_capabilityId r, v) \<in> capability_key ` set (cs_capabilities st))"

definition capabilities_ok :: "(string \<Rightarrow> int option) \<Rightarrow> device_identity \<Rightarrow> client_store \<Rightarrow> bool" where
  "capabilities_ok date_ms identity st \<longleftrightarrow>
     requireIdentity date_ms st = Inr identity
     \<and> distinct (map capability_key (cs_capabilities st)) \<and> distinct (map sl_capabilityId (cs_selections st))
     \<and> (\<forall>s\<in>set (cs_capabilities st). isInactiveSnapshot date_ms s identity)
     \<and> (\<forall>r\<in>set (cs_selections st). selection_ok date_ms st r)"

lemma identity_kept [simp]:
  "requireIdentity date_ms (st\<lparr>cs_capabilities := x\<rparr>) = requireIdentity date_ms st"
  "requireIdentity date_ms (st\<lparr>cs_selections := y\<rparr>) = requireIdentity date_ms st"
  by (simp_all add: requireIdentity_def)

lemma upsert_by_set: "x \<in> set (upsert_by key r rows) \<Longrightarrow> x = r \<or> (x \<in> set rows \<and> key x \<noteq> key r)"
  by (auto simp: upsert_by_def split: if_split_asm)

lemma upsert_by_keys: "distinct (map key rows) \<Longrightarrow> distinct (map key (upsert_by key r rows))"
proof (cases "\<exists>x\<in>set rows. key x = key r")
  case True
  then have "map key (upsert_by key r rows) = map key rows" by (auto simp: upsert_by_def)
  then show "distinct (map key rows) \<Longrightarrow> ?thesis" by simp
qed (auto simp: upsert_by_def)

lemma snapshot_patterns:
  "isInactiveSnapshot date_ms s identity \<Longrightarrow> localIdPattern (cp_capabilityId s) \<and> versionPattern (cp_version s)"
  by (simp add: isInactiveSnapshot_def)

lemma inactiveCapability_ok:
  assumes "capabilities_ok date_ms identity st"
  shows "inactiveCapability date_ms i v st =
    (if localIdPattern i \<and> versionPattern v then Inr (lookup capability_key (cs_capabilities st) (i, v)) else throw ''inactive capability identity is invalid'')"
proof -
  have "isInactiveSnapshot date_ms s identity" if "lookup capability_key (cs_capabilities st) (i, v) = Some s" for s
    using assms lookup_SomeD [OF that] by (simp add: capabilities_ok_def)
  with assms show ?thesis
    by (auto simp: inactiveCapability_def capabilities_ok_def require_def split: option.split)
qed

lemma installed_ok:
  assumes "capabilities_ok date_ms identity st" "\<And>v. version = Some v \<Longrightarrow> (i, v) \<in> capability_key ` set (cs_capabilities st)"
  shows "installed date_ms i version st = Inr ()"
proof (cases version)
  case (Some v)
  with assms(2) obtain s where s: "s \<in> set (cs_capabilities st)" "capability_key s = (i, v)" by auto
  with assms(1) snapshot_patterns have "localIdPattern i \<and> versionPattern v"
    by (auto simp: capabilities_ok_def capability_key_def)
  moreover have "lookup capability_key (cs_capabilities st) (i, v) \<noteq> None" using s by (auto simp: lookup_None_iff simp flip: s(2))
  ultimately show ?thesis using Some by (simp add: installed_def inactiveCapability_ok [OF assms(1)] require_def)
qed (simp add: installed_def)

lemma selection_reads:
  assumes "capabilities_ok date_ms identity st" "localIdPattern i"
  shows "inactiveCapabilitySelection date_ms i st = Inr (lookup sl_capabilityId (cs_selections st) i)"
proof (cases "lookup sl_capabilityId (cs_selections st) i")
  case None with assms show ?thesis by (simp add: inactiveCapabilitySelection_def capabilities_ok_def require_def)
next
  case (Some r)
  from lookup_SomeD [OF Some] have r: "r \<in> set (cs_selections st)" "sl_capabilityId r = i" by blast+
  with assms(1) have ok: "selection_ok date_ms st r" by (simp add: capabilities_ok_def)
  have pattern: "versionPattern v" if "(i, v) \<in> capability_key ` set (cs_capabilities st)" for v
    using that assms(1) snapshot_patterns by (auto simp: capabilities_ok_def capability_key_def)
  have "installed date_ms i (Some (sl_current r)) st = Inr ()" "installed date_ms i (sl_previous r) st = Inr ()"
    using ok r(2) by (auto simp: selection_ok_def intro!: installed_ok [OF assms(1)])
  moreover have "versionPattern (sl_current r)" "case sl_previous r of None \<Rightarrow> True | Some v \<Rightarrow> versionPattern v"
    using ok r(2) pattern by (auto simp: selection_ok_def split: option.splits)
  ultimately show ?thesis
    using Some ok assms by (simp add: inactiveCapabilitySelection_def capabilities_ok_def selection_ok_def require_def)
qed

lemma selection_reads_Inr:
  assumes "capabilities_ok date_ms identity st" "inactiveCapabilitySelection date_ms i st = Inr s"
  shows "s = lookup sl_capabilityId (cs_selections st) i" "localIdPattern i"
proof -
  show "localIdPattern i" using assms(2) by (auto simp: inactiveCapabilitySelection_def rbind_Inr_iff require_def split: if_split_asm)
  with selection_reads [OF assms(1)] assms(2) show "s = lookup sl_capabilityId (cs_selections st) i" by simp
qed

lemma inactiveCapability_Inr:
  assumes "capabilities_ok date_ms identity st" "inactiveCapability date_ms i v st = Inr (Some s)"
  shows "(i, v) \<in> capability_key ` set (cs_capabilities st)" "localIdPattern i"
  using assms(2) inactiveCapability_ok [OF assms(1), of i v] by (auto dest!: lookup_SomeD intro: rev_image_eqI split: if_split_asm)

lemma selections_replaced:
  assumes ok: "capabilities_ok date_ms identity st" and ids: "distinct (map sl_capabilityId rows)"
    and each: "\<And>r. r \<in> set rows \<Longrightarrow> selection_ok date_ms st r"
  shows "capabilities_ok date_ms identity (st\<lparr>cs_selections := rows\<rparr>)"
proof -
  have "selection_ok date_ms (st\<lparr>cs_selections := rows\<rparr>) r = selection_ok date_ms st r" for r
    by (simp add: selection_ok_def cong: option.case_cong)
  with assms show ?thesis by (simp add: capabilities_ok_def)
qed

lemma selection_of_ok:
  "capabilities_ok date_ms identity st \<Longrightarrow> lookup sl_capabilityId (cs_selections st) i = Some r \<Longrightarrow>
     selection_ok date_ms st r \<and> sl_capabilityId r = i"
  by (auto simp: capabilities_ok_def dest: lookup_SomeD)

lemma save_keeps:
  assumes "capabilities_ok date_ms identity st" "saveInactiveCapability date_ms s st = Inr (s', st')"
  shows "capabilities_ok date_ms identity st'"
proof (cases "lookup capability_key (cs_capabilities st) (capability_key s)")
  case (Some x) with assms show ?thesis by (auto simp: saveInactiveCapability_def rbind_Inr_iff split: if_split_asm)
next
  case None
  with assms have st': "st' = st\<lparr>cs_capabilities := cs_capabilities st @ [s]\<rparr>" "isInactiveSnapshot date_ms s identity"
    by (auto simp: saveInactiveCapability_def rbind_Inr_iff require_def capabilities_ok_def split: if_split_asm)
  from None have "capability_key s \<notin> capability_key ` set (cs_capabilities st)" by (simp add: lookup_None_iff)
  moreover have "selection_ok date_ms st' r" if "selection_ok date_ms st r" for r
    using that unfolding st'(1) by (auto simp: selection_ok_def split: option.splits)
  ultimately show ?thesis using assms(1) st' by (simp add: capabilities_ok_def)
qed

text \<open>Every text \<open>toISOString\<close> writes is one \<open>Date.parse\<close> reads.\<close>

definition dates_parse :: "(string \<Rightarrow> int option) \<Rightarrow> (int \<Rightarrow> timestamp) \<Rightarrow> bool" where
  "dates_parse date_ms iso_text \<longleftrightarrow> (\<forall>t. \<bar>t\<bar> \<le> 8640000000000000 \<longrightarrow> date_ms (iso_text t) \<noteq> None)"

lemma dates_parseD: "dates_parse date_ms iso_text \<Longrightarrow> \<bar>t\<bar> \<le> 8640000000000000 \<Longrightarrow> date_ms (iso_text t) \<noteq> None"
  by (simp add: dates_parse_def)

lemma select_keeps:
  assumes ok: "capabilities_ok date_ms identity st" and clock: "dates_parse date_ms iso_text"
    and call: "select_write date_ms iso_text i v now st = Inr st'"
  shows "capabilities_ok date_ms identity st'"
proof -
  from call obtain s current where s: "inactiveCapability date_ms i v st = Inr (Some s)" "inactiveCapabilitySelection date_ms i st = Inr current"
    by (auto simp: select_write_def rbind_Inr_iff require_def split: if_split_asm)
  note i = inactiveCapability_Inr [OF ok s(1)] and current = selection_reads_Inr [OF ok s(2)]
  show ?thesis
  proof (cases "map_option sl_current current = Some v")
    case True with call s ok show ?thesis by (auto simp: select_write_def require_def)
  next
    case False
    let ?row = "\<lparr> sl_capabilityId = i, sl_current = v, sl_previous = map_option sl_current current, sl_updatedAt = iso_text now \<rparr>"
    from False call s have "st' = st\<lparr>cs_selections := upsert_by sl_capabilityId ?row (cs_selections st)\<rparr> \<and> \<bar>now\<bar> \<le> 8640000000000000"
      by (cases current) (auto simp: select_write_def rbind_Inr_iff toISOString_Inr require_def)
    then have st': "st' = st\<lparr>cs_selections := upsert_by sl_capabilityId ?row (cs_selections st)\<rparr>" "\<bar>now\<bar> \<le> 8640000000000000" by blast+
    have "selection_ok date_ms st ?row"
    proof (cases current)
      case None with i dates_parseD [OF clock st'(2)] show ?thesis by (simp add: selection_ok_def)
    next
      case (Some x)
      with selection_of_ok [OF ok] current(1) have "selection_ok date_ms st x" "sl_capabilityId x = i" by auto
      with i dates_parseD [OF clock st'(2)] False Some show ?thesis by (simp add: selection_ok_def)
    qed
    then show ?thesis
      unfolding st'(1) using ok
      by (intro selections_replaced upsert_by_keys) (auto simp: capabilities_ok_def dest!: upsert_by_set)
  qed
qed

lemma selections_updated:
  assumes ok: "capabilities_ok date_ms identity st" and row: "lookup sl_capabilityId (cs_selections st) i = Some r"
    and new: "selection_ok date_ms st (f r)" "sl_capabilityId (f r) = i" and key: "\<And>x. sl_capabilityId (f x) = sl_capabilityId x"
  shows "capabilities_ok date_ms identity (st\<lparr>cs_selections := update_where (\<lambda>x. sl_capabilityId x = i) f (cs_selections st)\<rparr>)"
proof (rule selections_replaced [OF ok])
  from ok have ids: "distinct (map sl_capabilityId (cs_selections st))" by (simp add: capabilities_ok_def)
  then show "distinct (map sl_capabilityId (update_where (\<lambda>x. sl_capabilityId x = i) f (cs_selections st)))"
    by (simp add: update_where_keeps_map [of sl_capabilityId f] key)
  fix y
  assume "y \<in> set (update_where (\<lambda>x. sl_capabilityId x = i) f (cs_selections st))"
  then obtain x where x: "x \<in> set (cs_selections st)" "y = (if sl_capabilityId x = i then f x else x)" by (auto simp: update_where_def)
  show "selection_ok date_ms st y"
  proof (cases "sl_capabilityId x = i")
    case True
    with lookupI [OF ids x(1)] row have "x = r" by simp
    with x(2) True new show ?thesis by simp
  next
    case False with x ok show ?thesis by (simp add: capabilities_ok_def)
  qed
qed

lemma rollback_keeps:
  assumes ok: "capabilities_ok date_ms identity st" and clock: "dates_parse date_ms iso_text"
    and call: "rollback_write date_ms iso_text i now st = Inr st'"
  shows "capabilities_ok date_ms identity st'"
proof -
  from call obtain c previous where c: "inactiveCapabilitySelection date_ms i st = Inr (Some c)" "sl_previous c = Some previous"
      "\<bar>now\<bar> \<le> 8640000000000000"
      "st' = st\<lparr>cs_selections := update_where (\<lambda>r. sl_capabilityId r = i)
         (\<lambda>r. r\<lparr>sl_current := previous, sl_previous := Some (sl_current c), sl_updatedAt := iso_text now\<rparr>) (cs_selections st)\<rparr>"
    by (auto simp: rollback_write_def rbind_Inr_iff toISOString_Inr require_def split: option.split_asm if_split_asm)
  from selection_reads_Inr(1) [OF ok c(1)] have row: "lookup sl_capabilityId (cs_selections st) i = Some c" by simp
  from selection_of_ok [OF ok row] c(2) dates_parseD [OF clock c(3)] show ?thesis
    unfolding c(4) by (intro selections_updated [OF ok row]) (auto simp: selection_ok_def)
qed

lemma capabilities_filtered:
  assumes ok: "capabilities_ok date_ms identity st"
    and unused: "\<forall>r\<in>set (cs_selections st). (sl_capabilityId r, sl_current r) \<noteq> k \<and> (case sl_previous r of None \<Rightarrow> True | Some v \<Rightarrow> (sl_capabilityId r, v) \<noteq> k)"
  shows "capabilities_ok date_ms identity (st\<lparr>cs_capabilities := filter (\<lambda>s. capability_key s \<noteq> k) (cs_capabilities st)\<rparr>)"
proof -
  have "selection_ok date_ms (st\<lparr>cs_capabilities := filter (\<lambda>s. capability_key s \<noteq> k) (cs_capabilities st)\<rparr>) r"
    if "r \<in> set (cs_selections st)" for r
  proof -
    from that ok have "selection_ok date_ms st r" by (simp add: capabilities_ok_def)
    with that unused show ?thesis by (auto simp: selection_ok_def split: option.splits)
  qed
  with ok show ?thesis by (simp add: capabilities_ok_def distinct_map_filter)
qed

lemma unselect_ok:
  assumes ok: "capabilities_ok date_ms identity st" and date: "date_ms at_text \<noteq> None"
    and rows_def: "rows = unselect_version i v at_text (lookup sl_capabilityId (cs_selections st) i) (cs_selections st)"
  shows "capabilities_ok date_ms identity (st\<lparr>cs_selections := rows\<rparr>)
    \<and> (\<forall>r\<in>set rows. (sl_capabilityId r, sl_current r) \<noteq> (i, v) \<and> (case sl_previous r of None \<Rightarrow> True | Some u \<Rightarrow> (sl_capabilityId r, u) \<noteq> (i, v)))"
proof (cases "lookup sl_capabilityId (cs_selections st) i")
  case None
  then have "\<forall>r\<in>set (cs_selections st). sl_capabilityId r \<noteq> i" by (auto simp: lookup_None_iff)
  with ok None show ?thesis by (auto simp: rows_def unselect_version_def split: option.split)
next
  case (Some s)
  from selection_of_ok [OF ok Some] have s: "selection_ok date_ms st s" "sl_capabilityId s = i" by blast+
  have only: "r = s" if "r \<in> set (cs_selections st)" "sl_capabilityId r = i" for r
    using that Some ok lookupI [of sl_capabilityId "cs_selections st" r i] by (simp add: capabilities_ok_def)
  consider (current) p where "sl_current s = v" "sl_previous s = Some p" | (last_one) "sl_current s = v" "sl_previous s = None"
    | (previous) "sl_current s \<noteq> v" "sl_previous s = Some v" | (neither) "sl_current s \<noteq> v" "sl_previous s \<noteq> Some v" by fastforce
  then show ?thesis
  proof cases
    case current
    let ?f = "\<lambda>r. r\<lparr>sl_current := p, sl_previous := None, sl_updatedAt := at_text\<rparr>"
    have rows: "rows = update_where (\<lambda>r. sl_capabilityId r = i) ?f (cs_selections st)" using Some current by (simp add: rows_def unselect_version_def)
    have "p \<noteq> v" using s(1) current by (auto simp: selection_ok_def)
    moreover have "capabilities_ok date_ms identity (st\<lparr>cs_selections := rows\<rparr>)"
      unfolding rows using s current date by (intro selections_updated [OF ok Some]) (auto simp: selection_ok_def)
    ultimately show ?thesis by (auto simp: rows update_where_def split: option.split)
  next
    case last_one
    then have rows: "rows = filter (\<lambda>r. sl_capabilityId r \<noteq> i) (cs_selections st)" using Some by (simp add: rows_def unselect_version_def)
    then have "capabilities_ok date_ms identity (st\<lparr>cs_selections := rows\<rparr>)"
      using ok by (intro selections_replaced) (auto simp: capabilities_ok_def distinct_map_filter)
    with rows show ?thesis by (auto split: option.split)
  next
    case previous
    let ?f = "\<lambda>r. r\<lparr>sl_previous := None, sl_updatedAt := at_text\<rparr>"
    have rows: "rows = update_where (\<lambda>r. sl_capabilityId r = i) ?f (cs_selections st)" using Some previous by (simp add: rows_def unselect_version_def)
    have "capabilities_ok date_ms identity (st\<lparr>cs_selections := rows\<rparr>)"
      unfolding rows using s previous date by (intro selections_updated [OF ok Some]) (auto simp: selection_ok_def)
    moreover have "\<forall>r\<in>set rows. (sl_capabilityId r, sl_current r) \<noteq> (i, v)
        \<and> (case sl_previous r of None \<Rightarrow> True | Some u \<Rightarrow> (sl_capabilityId r, u) \<noteq> (i, v))"
      unfolding rows update_where_def using only previous by (auto split: option.split)
    ultimately show ?thesis by blast
  next
    case neither
    then have rows: "rows = cs_selections st" using Some by (simp add: rows_def unselect_version_def split: option.split)
    have "\<forall>r\<in>set rows. (sl_capabilityId r, sl_current r) \<noteq> (i, v) \<and> (case sl_previous r of None \<Rightarrow> True | Some u \<Rightarrow> (sl_capabilityId r, u) \<noteq> (i, v))"
      unfolding rows using only neither by (auto split: option.split)
    with ok rows show ?thesis by simp
  qed
qed

lemma references_of_ok: "capabilities_ok date_ms identity st \<Longrightarrow> references_ok st"
  unfolding references_ok_def list_all_iff capabilities_ok_def selection_ok_def by (fastforce split: option.splits)

lemma remove_works:
  assumes ok: "capabilities_ok date_ms identity st" and clock: "dates_parse date_ms iso_text"
    and there: "lookup capability_key (cs_capabilities st) (i, v) \<noteq> None" "localIdPattern i" "versionPattern v" "\<bar>now\<bar> \<le> 8640000000000000"
  shows "\<exists>x st'. removeInactiveCapability date_ms iso_text i v now st = (Inr x, st') \<and> capabilities_ok date_ms identity st'
    \<and> lookup capability_key (cs_capabilities st') (i, v) = None"
proof -
  let ?rows = "unselect_version i v (iso_text now) (lookup sl_capabilityId (cs_selections st) i) (cs_selections st)"
  let ?st = "st\<lparr>cs_selections := ?rows, cs_capabilities := filter (\<lambda>s. capability_key s \<noteq> (i, v)) (cs_capabilities st)\<rparr>"
  from unselect_ok [OF ok dates_parseD [OF clock there(4)] refl] have rows: "capabilities_ok date_ms identity (st\<lparr>cs_selections := ?rows\<rparr>)"
    "\<forall>r\<in>set ?rows. (sl_capabilityId r, sl_current r) \<noteq> (i, v) \<and> (case sl_previous r of None \<Rightarrow> True | Some u \<Rightarrow> (sl_capabilityId r, u) \<noteq> (i, v))" by blast+
  from capabilities_filtered [OF rows(1), of "(i, v)"] rows(2) have ok': "capabilities_ok date_ms identity ?st" by simp
  moreover have "lookup capability_key (cs_capabilities ?st) (i, v) = None" by (auto simp: lookup_None_iff)
  moreover have "inactiveCapabilitySelection date_ms i ?st = Inr (lookup sl_capabilityId ?rows i)" using selection_reads [OF ok' there(2)] by simp
  moreover obtain s where "inactiveCapability date_ms i v st = Inr (Some s)" using there by (auto simp: inactiveCapability_ok [OF ok])
  ultimately show ?thesis
    using selection_reads [OF ok there(2)] references_of_ok [OF ok'] there(4)
    by (simp add: removeInactiveCapability_def remove_write_def toISOString_def)
qed

lemma remove_keeps:
  assumes ok: "capabilities_ok date_ms identity st" and clock: "dates_parse date_ms iso_text"
    and call: "remove_write date_ms iso_text i v now st = Inr (x, st')"
  shows "capabilities_ok date_ms identity st'"
proof -
  from call obtain s where "inactiveCapability date_ms i v st = Inr (Some s)" and now: "\<bar>now\<bar> \<le> 8640000000000000"
    by (auto simp: remove_write_def rbind_Inr_iff toISOString_Inr split: option.split_asm)
  then have "lookup capability_key (cs_capabilities st) (i, v) \<noteq> None" "localIdPattern i" "versionPattern v"
    by (auto simp: inactiveCapability_ok [OF ok] split: if_split_asm)
  from remove_works [OF ok clock this now] call show ?thesis by (auto simp: removeInactiveCapability_def)
qed

lemma capability_exec_keeps:
  assumes "capabilities_ok date_ms identity st" "dates_parse date_ms iso_text"
  shows "capabilities_ok date_ms identity (capability_exec date_ms iso_text oper st)"
  using assms(1) save_keeps [OF assms(1)] select_keeps [OF assms] rollback_keeps [OF assms] remove_keeps [OF assms]
  by (cases oper)
    (auto simp: selectInactiveCapability_def rollbackInactiveCapability_def removeInactiveCapability_def after_write_def split: sum.split)

interpretation capability_history: step_history "capability_exec date_ms iso_text"
  "\<lambda>st. capabilities_ok date_ms identity st \<and> dates_parse date_ms iso_text" "\<lambda>st st'. True" for date_ms iso_text identity
  by unfold_locales (auto intro: capability_exec_keeps)

lemma capability_run_keeps:
  assumes "capabilities_ok date_ms identity st" "dates_parse date_ms iso_text"
  shows "capabilities_ok date_ms identity (capability_run date_ms iso_text ops st)"
  using capability_history.run_keeps [of date_ms identity st iso_text ops] assms by (simp add: capability_run_def)

text \<open>C33. Selections stay sound. After any sequence of installs, selections, rollbacks and removals,
the selection of a capability can be read, its current version and its previous one are installed versions
and differ, the foreign keys of the table hold, and every installed version can be removed, which leaves it
uninstalled. The hypotheses: the store starts sound, dates that are written can be read, and the name is
well formed.\<close>

theorem capability_selection_sound:
  assumes ok: "capabilities_ok date_ms identity st" and clock: "dates_parse date_ms iso_text"
    and st': "st' = capability_run date_ms iso_text ops st" and i: "localIdPattern i"
  shows "(\<exists>s. inactiveCapabilitySelection date_ms i st' = Inr s
      \<and> (case s of None \<Rightarrow> True | Some r \<Rightarrow>
           (\<exists>c. inactiveCapability date_ms i (sl_current r) st' = Inr (Some c))
           \<and> (case sl_previous r of None \<Rightarrow> True | Some v \<Rightarrow> v \<noteq> sl_current r \<and> (\<exists>c. inactiveCapability date_ms i v st' = Inr (Some c)))))
    \<and> references_ok st'
    \<and> (\<forall>v now c. inactiveCapability date_ms i v st' = Inr (Some c) \<and> \<bar>now\<bar> \<le> 8640000000000000 \<longrightarrow>
         (\<exists>x st2. removeInactiveCapability date_ms iso_text i v now st' = (Inr x, st2) \<and> inactiveCapability date_ms i v st2 = Inr None))"
proof -
  have ok': "capabilities_ok date_ms identity st'" unfolding st' by (rule capability_run_keeps [OF ok clock])
  have found: "\<exists>c. inactiveCapability date_ms i v st' = Inr (Some c)" if "(i, v) \<in> capability_key ` set (cs_capabilities st')" for v
  proof -
    from that obtain s where s: "s \<in> set (cs_capabilities st')" "capability_key s = (i, v)" by auto
    with ok' have "lookup capability_key (cs_capabilities st') (i, v) = Some s" by (auto simp: capabilities_ok_def intro: lookupI)
    moreover have "versionPattern v" using s ok' snapshot_patterns by (auto simp: capabilities_ok_def capability_key_def)
    ultimately show ?thesis using i by (simp add: inactiveCapability_ok [OF ok'])
  qed
  have one: "\<exists>s. inactiveCapabilitySelection date_ms i st' = Inr s
      \<and> (case s of None \<Rightarrow> True | Some r \<Rightarrow>
           (\<exists>c. inactiveCapability date_ms i (sl_current r) st' = Inr (Some c))
           \<and> (case sl_previous r of None \<Rightarrow> True | Some v \<Rightarrow> v \<noteq> sl_current r \<and> (\<exists>c. inactiveCapability date_ms i v st' = Inr (Some c))))"
  proof (cases "lookup sl_capabilityId (cs_selections st') i")
    case None with selection_reads [OF ok' i] show ?thesis by simp
  next
    case (Some r)
    with selection_of_ok [OF ok' Some] found selection_reads [OF ok' i] show ?thesis
      by (auto simp: selection_ok_def split: option.splits)
  qed
  have two: "\<exists>x st2. removeInactiveCapability date_ms iso_text i v now st' = (Inr x, st2) \<and> inactiveCapability date_ms i v st2 = Inr None"
    if "inactiveCapability date_ms i v st' = Inr (Some c)" "\<bar>now\<bar> \<le> 8640000000000000" for v now c
  proof -
    from that(1) have there: "lookup capability_key (cs_capabilities st') (i, v) \<noteq> None" "versionPattern v"
      by (auto simp: inactiveCapability_ok [OF ok'] split: if_split_asm)
    from remove_works [OF ok' clock there(1) i there(2) that(2)] obtain x st2 where
      "removeInactiveCapability date_ms iso_text i v now st' = (Inr x, st2)" "capabilities_ok date_ms identity st2"
      "lookup capability_key (cs_capabilities st2) (i, v) = None" by blast
    with i there(2) show ?thesis by (auto simp: inactiveCapability_ok)
  qed
  from one references_of_ok [OF ok'] two show ?thesis by blast
qed

section \<open>Matters: a repeated intake changes nothing\<close>

text \<open>Other intakes may come between; receipts and matters are never removed.\<close>

definition matter_key :: "matter_row \<Rightarrow> string \<times> string \<times> string" where
  "matter_key m = (mt_id m, mt_tenant m, mt_user m)"





lemma patched_key [simp]: "matter_key (matter_patched input at_text m) = matter_key m"
  by (simp add: matter_key_def matter_patched_def)











section \<open>Witnesses\<close>

definition sample_client :: client_store where
  "sample_client =
     \<lparr> cs_identity = Some \<lparr> ir_tenant = ''test.a'', ir_user = ''u'', ir_device = ''d'', ir_identity = sample_identity, ir_keyRef = ''secret:k'' \<rparr>,
       cs_matters = [], cs_intakes = [], cs_enrollment = None, cs_workspaces = [], cs_reports = [], cs_capabilities = [], cs_selections = [],
       cs_checkpoints = [] \<rparr>"

definition sample_snapshot :: "string \<Rightarrow> capability_snapshot" where
  "sample_snapshot v =
     \<lparr> cp_capabilityId = ''cap'', cp_version = v, cp_artifactDigest = ''sha256:'' @ replicate 64 (CHR ''a''), cp_deviceId = ''d'',
       cp_installation = ''installed'', cp_loading = ''unloaded'', cp_authorization = ''unauthorized'', cp_execution = ''stopped'',
       cp_effects = ''disabled'', cp_updatedAt = ''t0'' \<rparr>"

definition sample_changes :: "capability_op list" where
  "sample_changes =
     [SaveCapability (sample_snapshot ''1.0.0''), SelectCapability ''cap'' ''1.0.0'' 0, SaveCapability (sample_snapshot ''2.0.0'')]"


lemma device_dates_parse: "dates_parse device_date device_iso"
  by (simp add: dates_parse_def device_date_def device_iso_def)

lemma sample_client_reads: "requireIdentity device_date sample_client = Inr sample_identity" by code_simp

theorem capability_selection_sound_witness:
  "\<exists>x st2. removeInactiveCapability device_date device_iso ''cap'' ''1.0.0'' 1000 (capability_run device_date device_iso sample_changes sample_client)
      = (Inr x, st2) \<and> inactiveCapability device_date ''cap'' ''1.0.0'' st2 = Inr None"
proof -
  have rows: "capabilities_ok device_date sample_identity sample_client"
    using sample_client_reads by (simp add: capabilities_ok_def sample_client_def)
  have there: "inactiveCapability device_date ''cap'' ''1.0.0'' (capability_run device_date device_iso sample_changes sample_client)
      = Inr (Some (sample_snapshot ''1.0.0''))" by code_simp
  have name: "localIdPattern ''cap''" by code_simp
  have now: "\<bar>1000 :: int\<bar> \<le> 8640000000000000" by simp
  note sound = capability_selection_sound [OF rows device_dates_parse refl name, of sample_changes, THEN conjunct2, THEN conjunct2]
  show ?thesis by (rule sound [rule_format, OF conjI [OF there now]])
qed


end
