(* ===== verification/Client_Cycle.thy ===== *)
theory Client_Cycle
  imports Client_State Device_Dispatch
begin

text \<open>
  One cycle of a device (client-runtime/inactive-client-cycle.ts): it opens a session with the control plane,
  resumes a run it has accepted or else polls for a lease, accepts it, has the selected executor run it and
  submits the result, saving a checkpoint after every step. The control plane, the executors and whatever
  they change are parameters over a world \<open>'w\<close>; the device's own state is the store of Client_State. The last
  section puts the modelled control plane of Device_Sessions and Device_Dispatch in the place of the server.
\<close>

section \<open>Actions on the world and on the state of the device\<close>

type_synonym ('w, 'a) act = "'w \<times> client_store \<Rightarrow> 'a result \<times> ('w \<times> client_store)"

definition act_bind :: "('w, 'a) act \<Rightarrow> ('a \<Rightarrow> ('w, 'b) act) \<Rightarrow> ('w, 'b) act" where
  "act_bind m f s = (case m s of (Inl e, s1) \<Rightarrow> (Inl e, s1) | (Inr x, s1) \<Rightarrow> f x s1)"

definition act_catch :: "('w, 'a) act \<Rightarrow> (js_error \<Rightarrow> ('w, 'a) act) \<Rightarrow> ('w, 'a) act" where
  "act_catch m handler s = (case m s of (Inl e, s1) \<Rightarrow> handler e s1 | (Inr x, s1) \<Rightarrow> (Inr x, s1))"

definition computed :: "'a result \<Rightarrow> ('w, 'a) act" where
  "computed r s = (r, s)"

definition remote :: "('w \<Rightarrow> 'a result \<times> 'w) \<Rightarrow> ('w, 'a) act" where
  "remote f s = (let (r, w) = f (fst s) in (r, (w, snd s)))"

definition local_read :: "(client_store \<Rightarrow> 'a result) \<Rightarrow> ('w, 'a) act" where
  "local_read f s = (f (snd s), s)"

definition local_write :: "(client_store \<Rightarrow> client_store result) \<Rightarrow> ('w, unit) act" where
  "local_write f s = (case f (snd s) of Inl e \<Rightarrow> (Inl e, s) | Inr st \<Rightarrow> (Inr (), (fst s, st)))"

section \<open>Ports\<close>

record 'w device_server =
  sv_challenge :: "string \<Rightarrow> string \<Rightarrow> string \<Rightarrow> int \<Rightarrow> 'w \<Rightarrow> challenge_row result \<times> 'w"
  sv_open :: "device_proof \<Rightarrow> int \<Rightarrow> 'w \<Rightarrow> device_session result \<times> 'w"
  sv_poll :: "string \<Rightarrow> int \<Rightarrow> 'w \<Rightarrow> task_lease option result \<times> 'w"
  sv_acknowledge :: "string \<Rightarrow> string \<Rightarrow> string \<Rightarrow> int \<Rightarrow> 'w \<Rightarrow> task_ack result \<times> 'w"
  sv_submit :: "string \<Rightarrow> jval \<Rightarrow> int \<Rightarrow> 'w \<Rightarrow> jval result \<times> 'w"

type_synonym 'w executor_port = "string \<times> (adapter_input \<Rightarrow> 'w \<Rightarrow> run_output result \<times> 'w)"

record 'w cycle_env =
  ce_host :: plan_host
  ce_iso :: "int \<Rightarrow> timestamp"
  ce_signer :: device_signer
  ce_server :: "'w device_server"
  ce_now :: int

record cycle_receipt =
  rc_state :: string
  rc_sessionId :: string
  rc_taskId :: "string option"
  rc_planId :: "string option"
  rc_executorId :: "string option"
  rc_checkpointDigest :: "string option"
  rc_executorInvoked :: bool

definition empty_receipt :: "string \<Rightarrow> cycle_receipt" where
  "empty_receipt sessionId =
     \<lparr> rc_state = ''online-empty'', rc_sessionId = sessionId, rc_taskId = None, rc_planId = None, rc_executorId = None,
       rc_checkpointDigest = None, rc_executorInvoked = False \<rparr>"

definition run_receipt :: "string \<Rightarrow> string \<Rightarrow> run_checkpoint \<Rightarrow> bool \<Rightarrow> cycle_receipt" where
  "run_receipt state sessionId c invoked =
     \<lparr> rc_state = state, rc_sessionId = sessionId, rc_taskId = Some (ck_taskId c), rc_planId = Some (plan_text (ck_plan c) ''planId''),
       rc_executorId = Some (ck_executorId c), rc_checkpointDigest = Some (ck_digest c), rc_executorInvoked = invoked \<rparr>"

section \<open>The steps the cycles share\<close>

definition save_run :: "'w cycle_env \<Rightarrow> run_checkpoint \<Rightarrow> ('w, unit) act" where
  "save_run env c = local_write (saveRunCheckpoint (ce_host env) (ce_iso env) c (ce_now env))"

definition open_device :: "'w cycle_env \<Rightarrow> ('w, device_identity \<times> string) act" where
  "open_device env =
     act_bind (local_read (localEnrollment (ph_date (ce_host env)))) (\<lambda>(identity, ref).
     act_bind (remote (sv_challenge (ce_server env) (di_tenantId identity) (di_userId identity) (di_deviceId identity) (ce_now env))) (\<lambda>challenge.
     act_bind (computed (signDeviceSessionChallenge (ph_date (ce_host env)) (ce_signer env) identity ref challenge)) (\<lambda>device_proof.
     act_bind (remote (sv_open (ce_server env) device_proof (ce_now env))) (\<lambda>session.
     act_bind (computed (require (dn_tenant session = di_tenantId identity \<and> dn_user session = di_userId identity
                  \<and> dn_device session = di_deviceId identity \<and> dn_state session = ''active'')
                ''device session scope does not match local enrollment'')) (\<lambda>_.
     computed (Inr (identity, dn_id session)))))))"

text \<open>A lease is accepted: the executor that meets the plan, the journal, the acknowledgement between two checkpoints.\<close>

definition select_for :: "'w cycle_env \<Rightarrow> device_identity \<Rightarrow> task_lease \<Rightarrow> string \<Rightarrow> ('w, executor_selection) act" where
  "select_for env identity l refusal =
     act_bind (computed (require (tl_deviceId l = di_deviceId identity) refusal)) (\<lambda>_.
     act_bind (local_read (cloudProjection (ph_date (ce_host env)) (ce_iso env) (ce_now env))) (\<lambda>projection.
     computed (negotiateExecutor (ph_date (ce_host env)) (js_get (plan_envelope (tl_plan l)) ''executorRequirement'')
       (cj_executorReports projection) (ce_now env))))"

definition take_lease :: "'w cycle_env \<Rightarrow> string \<Rightarrow> task_lease \<Rightarrow> string \<Rightarrow> journal \<Rightarrow> ('w, run_checkpoint \<times> journal) act" where
  "take_lease env sessionId l executorId j =
     act_bind (computed (acceptLease (ce_host env) (ce_iso env) l executorId (ce_now env) j)) (\<lambda>(checkpoint, j1).
     act_bind (save_run env checkpoint) (\<lambda>_.
     act_bind (remote (sv_acknowledge (ce_server env) sessionId (tl_leaseToken l) (tl_taskId l) (ce_now env))) (\<lambda>ack.
     act_bind (computed (require (tk_planId ack = tl_planId l \<and> tk_deviceId ack = tl_deviceId l) ''device lease acknowledgement drifted'')) (\<lambda>_.
     act_bind (computed (markLeaseAcknowledged (ce_host env) (ce_iso env) (tl_taskId l) (ce_now env) j1)) (\<lambda>(accepted, j2).
     act_bind (save_run env accepted) (\<lambda>_.
     computed (Inr (accepted, j2))))))))"

section \<open>The cycle that only accepts\<close>

definition runInactiveClientCycle :: "'w cycle_env \<Rightarrow> ('w, cycle_receipt) act" where
  "runInactiveClientCycle env =
     act_bind (computed (require (\<bar>ce_now env\<bar> \<le> 8640000000000000) ''inactive client cycle timestamp is invalid'')) (\<lambda>_.
     act_bind (open_device env) (\<lambda>(identity, sessionId).
     act_bind (remote (sv_poll (ce_server env) sessionId (ce_now env))) (\<lambda>polled.
     case polled of
       None \<Rightarrow> computed (Inr (empty_receipt sessionId))
     | Some l \<Rightarrow>
         act_bind (select_for env identity l ''device lease is outside the inactive client scope'') (\<lambda>selection.
         act_bind (local_read (restoreRunJournal (ce_host env) (ce_iso env) (ce_now env))) (\<lambda>j.
         act_bind (take_lease env sessionId l (xs_executorId selection) j) (\<lambda>(accepted, _).
         computed (Inr ((run_receipt ''lease-accepted-inactive'' sessionId accepted False)
           \<lparr>rc_taskId := Some (tl_taskId l), rc_planId := Some (tl_planId l), rc_executorId := Some (xs_executorId selection)\<rparr>))))))))"

section \<open>The cycle that executes\<close>

definition executor_index :: "'w executor_port list \<Rightarrow> unit result" where
  "executor_index executors =
     require (list_all id_part (map fst executors) \<and> distinct (map fst executors)) ''client executors must have unique safe ids''"

text \<open>An accepted or paused run: begun, executed, completed; a failure pauses it again and is thrown on.\<close>

definition execute_run :: "'w cycle_env \<Rightarrow> 'w executor_port list \<Rightarrow> string \<Rightarrow> journal \<Rightarrow> run_checkpoint \<Rightarrow> ('w, run_checkpoint \<times> journal) act" where
  "execute_run env executors taskId j checkpoint =
     (case map_of executors (ck_executorId checkpoint) of
        None \<Rightarrow> computed (throw ''selected executor is unavailable for local resume'')
      | Some executor \<Rightarrow>
          act_bind (computed (begin_run (ce_host env) (ce_iso env) taskId (ce_now env) j)) (\<lambda>(begun, j1).
          act_bind (save_run env begun) (\<lambda>_.
          act_bind
            (act_catch
              (act_bind (computed (adapter_of (ce_host env) (ck_executorId begun) (ck_plan begun))) (\<lambda>adapter.
               act_bind (remote (executor adapter)) (\<lambda>out.
               computed (completePendingSync (ce_host env) (ce_iso env) taskId out (ce_now env) j1))))
              (\<lambda>e. act_bind (computed (pause_run (ce_host env) (ce_iso env) taskId (ce_now env) j1)) (\<lambda>(paused, _).
                   act_bind (save_run env paused) (\<lambda>_. computed (Inl e))))) (\<lambda>(completed, j2).
          act_bind (save_run env completed) (\<lambda>_.
          computed (Inr (completed, j2)))))))"

definition sync_run :: "'w cycle_env \<Rightarrow> string \<Rightarrow> string \<Rightarrow> journal \<Rightarrow> run_checkpoint \<Rightarrow> bool \<Rightarrow> ('w, cycle_receipt) act" where
  "sync_run env sessionId taskId j checkpoint invoked =
     act_bind (computed (require (ck_state checkpoint = ''completed-pending-sync'') ''local execution is not ready to synchronize'')) (\<lambda>_.
     act_bind (computed (resultForSync taskId j)) (\<lambda>result.
     act_bind (remote (sv_submit (ce_server env) sessionId result (ce_now env))) (\<lambda>accepted.
     act_bind (computed (require (js_get accepted ''taskId'' = JStr taskId \<and> js_get accepted ''planId'' = js_get (ck_plan checkpoint) ''planId''
                  \<and> js_get accepted ''deviceId'' = JStr (ck_deviceId checkpoint)) ''device result acknowledgement drifted'')) (\<lambda>_.
     act_bind (computed (markSynced (ce_host env) (ce_iso env) taskId (ce_now env) j)) (\<lambda>(synced, _).
     act_bind (save_run env synced) (\<lambda>_.
     computed (Inr ((run_receipt ''result-synced'' sessionId synced invoked)\<lparr>rc_taskId := Some taskId\<rparr>))))))))"

definition resumeNoEffectRun :: "'w cycle_env \<Rightarrow> 'w executor_port list \<Rightarrow> string \<Rightarrow> journal \<Rightarrow> string \<Rightarrow> ('w, cycle_receipt) act" where
  "resumeNoEffectRun env executors sessionId j taskId =
     (case run_of j taskId of
        None \<Rightarrow> computed (throw ''local execution checkpoint disappeared'')
      | Some checkpoint \<Rightarrow>
          if ck_state checkpoint \<in> {''accepted'', ''paused''}
          then act_bind (execute_run env executors taskId j checkpoint) (\<lambda>(completed, j2). sync_run env sessionId taskId j2 completed True)
          else sync_run env sessionId taskId j checkpoint False)"

definition pending_run :: "journal \<Rightarrow> run_checkpoint option" where
  "pending_run j = find (\<lambda>c. ck_state c \<in> {''accepted'', ''paused'', ''completed-pending-sync''}) j"

text \<open>After the session is open: the run that waits, or else a new lease.\<close>

definition next_run :: "'w cycle_env \<Rightarrow> 'w executor_port list \<Rightarrow> device_identity \<Rightarrow> string \<Rightarrow> journal \<Rightarrow> ('w, cycle_receipt) act" where
  "next_run env executors identity sessionId j =
     act_bind (remote (sv_poll (ce_server env) sessionId (ce_now env))) (\<lambda>polled.
     case polled of
       None \<Rightarrow>
         if \<exists>c\<in>set j. ck_state c = ''leased'' then computed (throw ''leased local task requires server acknowledgement reconciliation'')
         else computed (Inr (empty_receipt sessionId))
     | Some l \<Rightarrow>
         act_bind (select_for env identity l ''device lease is outside the no-effect client scope'') (\<lambda>selection.
         act_bind (take_lease env sessionId l (xs_executorId selection) j) (\<lambda>(_, j2).
         resumeNoEffectRun env executors sessionId j2 (tl_taskId l))))"

definition continue_cycle :: "'w cycle_env \<Rightarrow> 'w executor_port list \<Rightarrow> device_identity \<Rightarrow> string \<Rightarrow> ('w, cycle_receipt) act" where
  "continue_cycle env executors identity sessionId =
     act_bind (local_read (restoreRunJournal (ce_host env) (ce_iso env) (ce_now env))) (\<lambda>j.
     case pending_run j of
       Some c \<Rightarrow> resumeNoEffectRun env executors sessionId j (ck_taskId c)
     | None \<Rightarrow> next_run env executors identity sessionId j)"

definition runNoEffectClientExecutionCycle :: "'w cycle_env \<Rightarrow> 'w executor_port list \<Rightarrow> ('w, cycle_receipt) act" where
  "runNoEffectClientExecutionCycle env executors =
     act_bind (computed (require (\<bar>ce_now env\<bar> \<le> 8640000000000000) ''client execution cycle timestamp is invalid'')) (\<lambda>_.
     act_bind (computed (executor_index executors)) (\<lambda>_.
     act_bind (open_device env) (\<lambda>(identity, sessionId).
     continue_cycle env executors identity sessionId)))"

section \<open>What a cycle keeps\<close>

lemma act_bind_Inr: "act_bind m f s = (Inr y, s') \<longleftrightarrow> (\<exists>x s1. m s = (Inr x, s1) \<and> f x s1 = (Inr y, s'))"
  by (auto simp: act_bind_def split: prod.split sum.split)

lemma computed_Inr: "computed r s = (Inr y, s') \<longleftrightarrow> r = Inr y \<and> s' = s"
  by (auto simp: computed_def)

lemma remote_Inr: "remote f s = (Inr y, s') \<longleftrightarrow> f (fst s) = (Inr y, fst s') \<and> snd s' = snd s"
  by (cases s'; cases "f (fst s)") (auto simp: remote_def)

lemma read_Inr: "local_read f s = (Inr y, s') \<longleftrightarrow> f (snd s) = Inr y \<and> s' = s"
  by (auto simp: local_read_def)

lemma save_Inr: "save_run env c s = (Inr u, s') \<longleftrightarrow>
    saveRunCheckpoint (ce_host env) (ce_iso env) c (ce_now env) (snd s) = Inr (snd s') \<and> fst s' = fst s"
  by (cases s') (auto simp: save_run_def local_write_def split: sum.split)

lemma require_Inr: "require P refusal = Inr u \<longleftrightarrow> P"
  by (simp add: require_def)

lemmas act_simps = act_bind_Inr computed_Inr remote_Inr read_Inr save_Inr require_Inr

text \<open>A run the device knows stays known, and its checkpoint is the same or one of a higher revision.\<close>

definition advanced :: "run_checkpoint \<Rightarrow> run_checkpoint \<Rightarrow> bool" where
  "advanced c c' \<longleftrightarrow> (\<exists>n. ck_revision c' = Fin n \<and> (\<forall>m. ck_revision c = Fin m \<longrightarrow> m < n))"

definition runs_kept :: "client_store \<Rightarrow> client_store \<Rightarrow> bool" where
  "runs_kept st st' \<longleftrightarrow>
     (\<exists>rows. st' = st\<lparr>cs_checkpoints := rows\<rparr>)
     \<and> (\<forall>t c. lookup ck_taskId (cs_checkpoints st) t = Some c \<longrightarrow>
          (\<exists>c'. lookup ck_taskId (cs_checkpoints st') t = Some c' \<and> (c' = c \<or> advanced c c')))"

lemma runs_kept_refl: "runs_kept st st"
  unfolding runs_kept_def by (metis client_store.surjective client_store.update_convs(9))

lemma advanced_trans: "advanced a b \<Longrightarrow> advanced b c \<Longrightarrow> advanced a c"
  by (fastforce simp: advanced_def)

lemma runs_kept_trans:
  assumes "runs_kept a b" "runs_kept b c"
  shows "runs_kept a c"
proof -
  from assms obtain r1 r2 where "b = a\<lparr>cs_checkpoints := r1\<rparr>" "c = b\<lparr>cs_checkpoints := r2\<rparr>" unfolding runs_kept_def by blast
  then have "c = a\<lparr>cs_checkpoints := r2\<rparr>" by simp
  moreover have "\<exists>z. lookup ck_taskId (cs_checkpoints c) t = Some z \<and> (z = x \<or> advanced x z)"
    if "lookup ck_taskId (cs_checkpoints a) t = Some x" for t x
  proof -
    from assms(1) that obtain y where y: "lookup ck_taskId (cs_checkpoints b) t = Some y" "y = x \<or> advanced x y"
      unfolding runs_kept_def by blast
    from assms(2) y(1) obtain z where "lookup ck_taskId (cs_checkpoints c) t = Some z" "z = y \<or> advanced y z"
      unfolding runs_kept_def by blast
    with y(2) advanced_trans show ?thesis by blast
  qed
  ultimately show ?thesis unfolding runs_kept_def by blast
qed

lemma lookup_replaced:
  "k \<noteq> key r \<Longrightarrow> lookup key (map (\<lambda>x. if key x = key r then r else x) rows) k = lookup key rows k"
  "\<exists>x\<in>set rows. key x = key r \<Longrightarrow> lookup key (map (\<lambda>x. if key x = key r then r else x) rows) (key r) = Some r"
  by (induction rows) (auto simp: lookup_def)

lemma lookup_upsert_by: "lookup key (upsert_by key r rows) k = (if k = key r then Some r else lookup key rows k)"
proof (cases "\<exists>x\<in>set rows. key x = key r")
  case True then show ?thesis by (simp add: upsert_by_def lookup_replaced)
next
  case False
  then have "lookup key rows (key r) = None" by (auto simp: lookup_None_iff)
  moreover have "lookup key [r] k = (if k = key r then Some r else None)" by (simp add: lookup_def)
  ultimately show ?thesis using False by (simp add: upsert_by_def lookup_append split: option.split)
qed

lemma restored_revision:
  assumes "restore_journal h iso_text [c] now = Inr j"
  shows "\<exists>n. ck_revision c = Fin n"
proof -
  from assms have "check_checkpoint h c [] now = Inr ()" by (auto simp: restore_journal_def restore_one_def rbind_Inr_iff split: sum.split_asm)
  then have "safe_integer (ck_revision c)" by (auto simp: check_checkpoint_def rbind_Inr_iff require_def split: if_split_asm)
  then show ?thesis by (cases "ck_revision c") auto
qed

lemma save_keeps_runs:
  assumes "saveRunCheckpoint h iso_text c now st = Inr st'"
  shows "runs_kept st st' \<and> (\<exists>x. lookup ck_taskId (cs_checkpoints st') (ck_taskId c) = Some x \<and> ck_revision x = ck_revision c \<and> ck_digest x = ck_digest c)"
proof -
  have same: "ck_taskId (stored_run c) = ck_taskId c" "ck_revision (stored_run c) = ck_revision c" "ck_digest (stored_run c) = ck_digest c"
    by (simp_all add: stored_run_def)
  from assms obtain j where "restore_journal h iso_text [c] now = Inr j" by (auto simp: saveRunCheckpoint_def rbind_Inr_iff)
  then obtain n where n: "ck_revision c = Fin n" using restored_revision by blast
  from assms consider
      (first) "lookup ck_taskId (cs_checkpoints st) (ck_taskId c) = None" "st' = st\<lparr>cs_checkpoints := cs_checkpoints st @ [stored_run c]\<rparr>"
    | (again) x where "lookup ck_taskId (cs_checkpoints st) (ck_taskId c) = Some x" "ck_revision x = ck_revision c" "ck_digest x = ck_digest c" "st' = st"
    | (newer) x where "lookup ck_taskId (cs_checkpoints st) (ck_taskId c) = Some x" "\<not> num_le (ck_revision c) (ck_revision x)"
        "st' = st\<lparr>cs_checkpoints := upsert_by ck_taskId (stored_run c) (cs_checkpoints st)\<rparr>"
    by (auto simp: saveRunCheckpoint_def rbind_Inr_iff split: option.split_asm if_split_asm)
  then show ?thesis
  proof cases
    case first
    have "lookup ck_taskId [stored_run c] t = (if t = ck_taskId c then Some (stored_run c) else None)" for t by (simp add: lookup_def same)
    then have "lookup ck_taskId (cs_checkpoints st') t = (case lookup ck_taskId (cs_checkpoints st) t of Some y \<Rightarrow> Some y
        | None \<Rightarrow> if t = ck_taskId c then Some (stored_run c) else None)" for t
      using first(2) by (simp add: lookup_append split: option.split)
    with first same show ?thesis unfolding runs_kept_def by auto
  next
    case (again x) with runs_kept_refl show ?thesis by blast
  next
    case (newer x)
    have "advanced x (stored_run c)" using newer(2) n same by (auto simp: advanced_def)
    then show ?thesis using newer same unfolding runs_kept_def by (auto simp: lookup_upsert_by)
  qed
qed

definition act_keeps :: "('w, 'a) act \<Rightarrow> bool" where
  "act_keeps m \<longleftrightarrow> (\<forall>s. runs_kept (snd s) (snd (snd (m s))))"

lemma keeps_bind: "act_keeps m \<Longrightarrow> (\<And>x. act_keeps (f x)) \<Longrightarrow> act_keeps (act_bind m f)"
  unfolding act_keeps_def act_bind_def by (auto split: prod.split sum.split) (metis runs_kept_trans snd_conv)+

lemma keeps_catch: "act_keeps m \<Longrightarrow> (\<And>e. act_keeps (f e)) \<Longrightarrow> act_keeps (act_catch m f)"
  unfolding act_keeps_def act_catch_def by (auto split: prod.split sum.split) (metis runs_kept_trans snd_conv)+

lemma keeps_computed: "act_keeps (computed r)"
  by (simp add: act_keeps_def computed_def runs_kept_refl)

lemma keeps_remote: "act_keeps (remote f)"
  by (simp add: act_keeps_def remote_def runs_kept_refl split: prod.split)

lemma keeps_read: "act_keeps (local_read f)"
  by (simp add: act_keeps_def local_read_def runs_kept_refl)

lemma keeps_save: "act_keeps (save_run env c)"
  using save_keeps_runs by (auto simp: act_keeps_def save_run_def local_write_def runs_kept_refl split: sum.split)

lemma keeps_pair: "(\<And>a b. act_keeps (f a b)) \<Longrightarrow> act_keeps (case p of (a, b) \<Rightarrow> f a b)"
  by (simp split: prod.split)

lemma keeps_option: "act_keeps a \<Longrightarrow> (\<And>x. act_keeps (f x)) \<Longrightarrow> act_keeps (case o1 of None \<Rightarrow> a | Some x \<Rightarrow> f x)"
  by (simp split: option.split)

lemma keeps_if: "act_keeps a \<Longrightarrow> act_keeps b \<Longrightarrow> act_keeps (if P then a else b)"
  by simp

lemmas keeps_intros = keeps_bind keeps_catch keeps_computed keeps_remote keeps_read keeps_save keeps_pair keeps_option keeps_if

lemma keeps_open: "act_keeps (open_device env)"
  unfolding open_device_def by (intro keeps_intros)

lemma keeps_select: "act_keeps (select_for env identity l refusal)"
  unfolding select_for_def by (intro keeps_intros)

lemma keeps_take: "act_keeps (take_lease env sid l i j)"
  unfolding take_lease_def by (intro keeps_intros)

lemma keeps_resume: "act_keeps (resumeNoEffectRun env executors sid j t)"
  unfolding resumeNoEffectRun_def execute_run_def sync_run_def by (intro keeps_intros)

lemma keeps_continue: "act_keeps (continue_cycle env executors identity sid)"
  unfolding continue_cycle_def next_run_def by (intro keeps_intros keeps_select keeps_take keeps_resume)

theorem cycle_keeps_runs:
  "runs_kept (snd s) (snd (snd (runNoEffectClientExecutionCycle env executors s)))
   \<and> runs_kept (snd s) (snd (snd (runInactiveClientCycle env s)))"
proof -
  have "act_keeps (runNoEffectClientExecutionCycle env executors)"
    unfolding runNoEffectClientExecutionCycle_def by (intro keeps_intros keeps_open keeps_continue)
  moreover have "act_keeps (runInactiveClientCycle env)"
    unfolding runInactiveClientCycle_def by (intro keeps_intros keeps_open keeps_select keeps_take)
  ultimately show ?thesis unfolding act_keeps_def by blast
qed

section \<open>What a synchronised run means\<close>

lemma sync_run_Inr:
  assumes "sync_run env sid t j c invoked s = (Inr r, s')"
  obtains run w1 v w2 where "ck_state c = ''completed-pending-sync''" "sv_submit (ce_server env) sid (ck_result run) (ce_now env) w1 = (Inr v, w2)"
    "fst s = w1" "fst s' = w2" "js_get v ''taskId'' = JStr t" "ck_taskId run = t" "ck_state run = ''synced''" "rc_sessionId r = sid"
    "rc_taskId r = Some t" "rc_checkpointDigest r = Some (ck_digest run)" "rc_executorInvoked r = invoked"
    "saveRunCheckpoint (ce_host env) (ce_iso env) run (ce_now env) (snd s) = Inr (snd s')"
proof -
  from assms obtain result v s2 run j2 where
    st: "ck_state c = ''completed-pending-sync''" and result: "resultForSync t j = Inr result"
    and sub: "sv_submit (ce_server env) sid result (ce_now env) (fst s) = (Inr v, fst s2)" "snd s2 = snd s" and v: "js_get v ''taskId'' = JStr t"
    and marked: "markSynced (ce_host env) (ce_iso env) t (ce_now env) j = Inr (run, j2)"
    and saved: "saveRunCheckpoint (ce_host env) (ce_iso env) run (ce_now env) (snd s2) = Inr (snd s')" "fst s' = fst s2"
    and r: "r = (run_receipt ''result-synced'' sid run invoked)\<lparr>rc_taskId := Some t\<rparr>"
    unfolding sync_run_def act_simps by (force split: prod.split_asm simp: act_simps)
  from result obtain current where current: "run_of j t = Some current" "ck_result current = result"
    by (auto simp: resultForSync_def local_run_def rbind_Inr_iff split: option.split_asm if_split_asm)
  then have task: "ck_taskId current = t" by (auto simp: run_of_def dest: lookup_SomeD)
  from marked current(1) have "ck_taskId run = t" "ck_state run = ''synced''" "ck_result run = result"
    using task current(2) by (auto simp: markSynced_def step_run_def local_run_def rbind_Inr_iff replace_run_def seal_def require_def
        split: if_split_asm)
  with st sub v saved r that show ?thesis by (fastforce simp: run_receipt_def)
qed

lemma resume_synced:
  assumes "resumeNoEffectRun env executors sid j t s = (Inr r, s')"
  shows "\<exists>j1 c invoked s1. sync_run env sid t j1 c invoked s1 = (Inr r, s')"
proof -
  from assms obtain c where "run_of j t = Some c" by (auto simp: resumeNoEffectRun_def computed_Inr split: option.split_asm)
  with assms show ?thesis
    by (cases "ck_state c \<in> {''accepted'', ''paused''}") (fastforce simp: resumeNoEffectRun_def act_bind_Inr)+
qed

lemma cycle_resumes:
  assumes "runNoEffectClientExecutionCycle env executors s = (Inr r, s')" "rc_state r = ''result-synced''"
  shows "\<exists>sid j t s1. resumeNoEffectRun env executors sid j t s1 = (Inr r, s')"
  using assms
  by (fastforce simp: runNoEffectClientExecutionCycle_def continue_cycle_def next_run_def act_bind_Inr computed_Inr empty_receipt_def
      split: option.split_asm if_split_asm)

theorem synced_run_submitted:
  assumes "runNoEffectClientExecutionCycle env executors s = (Inr r, s')" "rc_state r = ''result-synced''"
  shows "\<exists>t (run :: run_checkpoint) x w v. rc_taskId r = Some t \<and> rc_checkpointDigest r = Some (ck_digest run)
    \<and> ck_taskId run = t \<and> ck_state run = ''synced''
    \<and> lookup ck_taskId (cs_checkpoints (snd s')) t = Some x \<and> ck_revision x = ck_revision run \<and> ck_digest x = ck_digest run
    \<and> sv_submit (ce_server env) (rc_sessionId r) (ck_result run) (ce_now env) w = (Inr v, fst s') \<and> js_get v ''taskId'' = JStr t"
proof -
  from cycle_resumes [OF assms] resume_synced obtain sid t j c invoked s1 where "sync_run env sid t j c invoked s1 = (Inr r, s')" by blast
  then obtain run w1 v w2 where x: "sv_submit (ce_server env) sid (ck_result run) (ce_now env) w1 = (Inr v, w2)" "fst s' = w2"
    "js_get v ''taskId'' = JStr t" "ck_taskId run = t" "ck_state run = ''synced''" "rc_sessionId r = sid" "rc_taskId r = Some t"
    "rc_checkpointDigest r = Some (ck_digest run)" "saveRunCheckpoint (ce_host env) (ce_iso env) run (ce_now env) (snd s1) = Inr (snd s')"
    by (rule sync_run_Inr)
  from save_keeps_runs [OF x(9)] obtain y where "lookup ck_taskId (cs_checkpoints (snd s')) t = Some y" "ck_revision y = ck_revision run"
    "ck_digest y = ck_digest run" using x(4) by blast
  with x(1-8) have "rc_taskId r = Some t \<and> rc_checkpointDigest r = Some (ck_digest run)
    \<and> ck_taskId run = t \<and> ck_state run = ''synced''
    \<and> lookup ck_taskId (cs_checkpoints (snd s')) t = Some y \<and> ck_revision y = ck_revision run \<and> ck_digest y = ck_digest run
    \<and> sv_submit (ce_server env) (rc_sessionId r) (ck_result run) (ce_now env) w1 = (Inr v, fst s') \<and> js_get v ''taskId'' = JStr t" by simp
  then show ?thesis by blast
qed

section \<open>Work that was accepted comes before new work\<close>

lemma act_bind_cong:
  "m s = m' s \<Longrightarrow> (\<And>x s1. m s = (Inr x, s1) \<Longrightarrow> f x s1 = f' x s1) \<Longrightarrow> act_bind m f s = act_bind m' f' s"
  by (auto simp: act_bind_def split: prod.split sum.split)

lemma open_device_store: "open_device env s = (x, s1) \<Longrightarrow> snd s1 = snd s"
  by (auto simp: open_device_def act_bind_def computed_def remote_def local_read_def split: prod.split_asm sum.split_asm)

theorem accepted_run_first:
  assumes "restoreRunJournal (ce_host env) (ce_iso env) (ce_now env) (snd s) = Inr j" "pending_run j \<noteq> None"
  shows "runNoEffectClientExecutionCycle (env\<lparr>ce_server := (ce_server env)\<lparr>sv_poll := poll, sv_acknowledge := ack\<rparr>\<rparr>) executors s
    = runNoEffectClientExecutionCycle env executors s"
proof -
  let ?env = "env\<lparr>ce_server := (ce_server env)\<lparr>sv_poll := poll, sv_acknowledge := ack\<rparr>\<rparr>"
  obtain c where c: "pending_run j = Some c" using assms(2) by blast
  have saves: "save_run ?env = save_run env" by (intro ext) (simp add: save_run_def)
  have syncs: "sync_run ?env = sync_run env" by (intro ext) (simp add: sync_run_def saves)
  have runs: "execute_run ?env = execute_run env" by (intro ext) (simp add: execute_run_def saves cong: option.case_cong)
  have same: "open_device ?env = open_device env" "resumeNoEffectRun ?env = resumeNoEffectRun env"
    by (intro ext, simp add: open_device_def) (intro ext, simp add: resumeNoEffectRun_def syncs runs split: option.split)
  have continued: "continue_cycle ?env executors identity sid s3 = continue_cycle env executors identity sid s3" if "snd s3 = snd s" for identity sid s3
    using assms(1) c that same(2) by (simp add: continue_cycle_def act_bind_def local_read_def)
  show ?thesis
    unfolding runNoEffectClientExecutionCycle_def same(1)
    by (intro act_bind_cong) (auto simp: computed_Inr continued dest!: open_device_store)
qed


section \<open>The control plane behind the port\<close>


text \<open>
  The provider of Device_Sessions and Device_Dispatch as that server. Its world is the queue with the number
  of calls so far; \<open>tk\<close> gives the tokens of a call, \<open>others\<close> what other clients did before it, \<open>verifying\<close>
  and \<open>meanwhile\<close> what they do while it verifies a proof or a plan. The periods are the defaults of the provider.
\<close>

record control_config =
  cc_mode :: tenant_mode
  cc_verify :: "string \<Rightarrow> string \<Rightarrow> string \<Rightarrow> string \<Rightarrow> bool"
  cc_token :: "nat \<Rightarrow> string \<Rightarrow> string"
  cc_others :: "nat \<Rightarrow> queue_store \<Rightarrow> queue_store"
  cc_verifying :: "nat \<Rightarrow> device_tables \<Rightarrow> device_tables"
  cc_meanwhile :: "nat \<Rightarrow> queue_store \<Rightarrow> queue_store"

definition served :: "control_config \<Rightarrow> (nat \<Rightarrow> queue_store \<Rightarrow> 'a result \<times> queue_store) \<Rightarrow> queue_store \<times> nat \<Rightarrow> 'a result \<times> (queue_store \<times> nat)" where
  "served cc f w = (let (r, q) = f (snd w) (cc_others cc (snd w) (fst w)) in (r, (q, Suc (snd w))))"

definition on_tables :: "(device_tables \<Rightarrow> 'a result \<times> device_tables) \<Rightarrow> queue_store \<Rightarrow> 'a result \<times> queue_store" where
  "on_tables f q = (let (r, tables) = f (qs_tables q) in (r, q\<lparr>qs_tables := tables\<rparr>))"

definition control_plane :: "plan_host \<Rightarrow> (int \<Rightarrow> timestamp) \<Rightarrow> control_config \<Rightarrow> (queue_store \<times> nat) device_server" where
  "control_plane h iso_text cc =
     \<lparr> sv_challenge = (\<lambda>tenant user device now. served cc (\<lambda>n. on_tables (issueChallenge iso_text (cc_mode cc) tenant user device now (Fin 60000)
         (cc_token cc n ''challenge'') (cc_token cc n ''nonce'')))),
       sv_open = (\<lambda>pf now. served cc (\<lambda>n. on_tables (openSession (ph_date h) iso_text (cc_verify cc) (cc_verifying cc n) pf now (Fin 300000)
         (cc_token cc n ''session'')))),
       sv_poll = (\<lambda>sid now. served cc (\<lambda>n. poll_tasks h iso_text (cc_meanwhile cc n) sid now (Fin 60000) (cc_token cc n ''lease''))),
       sv_acknowledge = (\<lambda>sid leaseToken taskId now. served cc (\<lambda>n. acknowledge_task h iso_text sid leaseToken taskId now)),
       sv_submit = (\<lambda>sid r now. served cc (\<lambda>n. submitResult h sid r now)) \<rparr>"





section \<open>Witnesses\<close>

definition sample_done :: run_checkpoint where
  "sample_done = (sample_run ''completed-pending-sync'' 4)\<lparr>ck_result := sample_result\<rparr>"

definition sample_synced :: run_checkpoint where
  "sample_synced = (sample_run ''synced'' 5)\<lparr>ck_result := sample_result\<rparr>"

definition sample_waiting :: client_store where
  "sample_waiting = sample_client\<lparr>cs_checkpoints := [sample_done]\<rparr>"

definition sample_control :: control_config where
  "sample_control =
     \<lparr> cc_mode = TestOnly, cc_verify = device_proof_verify sample_ed25519,
       cc_token = (\<lambda>n label. if label = ''challenge'' then ''c2'' else if label = ''nonce'' then ''n2'' else ''s1''),
       cc_others = (\<lambda>n q. q), cc_verifying = (\<lambda>n t. t), cc_meanwhile = (\<lambda>n q. q) \<rparr>"

definition sample_env :: "(queue_store \<times> nat) cycle_env" where
  "sample_env = \<lparr> ce_host = sample_host, ce_iso = device_iso, ce_signer = sample_signer,
     ce_server = control_plane sample_host device_iso sample_control, ce_now = 0 \<rparr>"

definition sample_start :: "(queue_store \<times> nat) \<times> client_store" where
  "sample_start = ((one_accepted\<lparr>qs_tables := enrolled_tables\<rparr>, 0), sample_waiting)"

lemma sample_enrollment: "localEnrollment device_date sample_waiting = Inr (sample_identity, ''secret:k'')"
  by code_simp

definition sample_served :: "queue_store" where
  "sample_served = fst (fst (snd (open_device sample_env sample_start)))"

lemma sample_serving: "open_device sample_env sample_start = (Inr (sample_identity, ''s1''), ((sample_served, 2), sample_waiting))"
proof -
  have "fst (open_device sample_env sample_start) = Inr (sample_identity, ''s1'')" "snd (fst (snd (open_device sample_env sample_start))) = 2"
    by code_simp+
  moreover have "snd (snd (open_device sample_env sample_start)) = sample_waiting"
    by (rule open_device_store [where env = sample_env and s = sample_start, unfolded sample_start_def snd_conv, folded sample_start_def]) (rule surjective_pairing)
  ultimately show ?thesis unfolding sample_served_def by (metis prod.collapse)
qed

lemma sample_submits: "\<exists>v q. submitResult sample_host ''s1'' sample_result 0 sample_served = (Inr v, q) \<and> js_get v ''taskId'' = JStr ''task1''
    \<and> js_get v ''planId'' = JStr ''p1'' \<and> js_get v ''deviceId'' = JStr ''d''"
proof -
  have "(case fst (submitResult sample_host ''s1'' sample_result 0 sample_served) of Inl _ \<Rightarrow> False
    | Inr v \<Rightarrow> js_get v ''taskId'' = JStr ''task1'' \<and> js_get v ''planId'' = JStr ''p1'' \<and> js_get v ''deviceId'' = JStr ''d'')"
    by code_simp
  then show ?thesis by (cases "submitResult sample_host ''s1'' sample_result 0 sample_served") (auto split: sum.split_asm)
qed
lemma sample_result_canonical: "ok (canonical_json (ph_num sample_host) sample_result)"
proof -
  have "(case canonical_json (ph_num sample_host) sample_result of Inl _ \<Rightarrow> False | Inr _ \<Rightarrow> True)" by code_simp
  then show ?thesis by (simp split: sum.split_asm)
qed

lemma finished_digest:
  assumes "ck_schemaVersion c = Fin 1" "finite_num (ck_revision c)" "ck_plan c = quiet_plan" "ck_result c = sample_result"
  shows "checkpointDigest sample_host c = Inr zero_digest"
proof -
  have "ok (checkpointDigest sample_host c)" using sealable [OF assms(1,2)] quiet_plan_canonical sample_result_canonical assms(3,4) by simp
  then show ?thesis by (auto simp: checkpointDigest_def contentDigest_def rbind_Inr_iff sample_host_def zero_digest_def)
qed

text \<open>The two finished checkpoints: waiting for the server, and delivered.\<close>

lemma finished_ok:
  assumes "c \<in> {sample_done, sample_synced}"
  shows "run_ok sample_host c"
proof -
  have fields: "ck_schemaVersion c = Fin 1" "\<not> ck_externalWrites c" "ck_effectMode c = ''recording-sink''" "ck_plan c = quiet_plan"
    "ck_deviceId c = ''d''" "ck_taskId c = ''task1''" "ck_result c = sample_result" "ck_executorId c = ''z''" "ck_contextDigest c = zero_digest"
    "ck_digest c = zero_digest" "ck_updatedAt c = ''t0''" "ck_revision c = Fin 4 \<or> ck_revision c = Fin 5"
    "ck_state c \<in> {''completed-pending-sync'', ''synced''}"
    using assms by (auto simp: sample_done_def sample_synced_def sample_run_def)
  then have "checkpointDigest sample_host c = Inr (ck_digest c)" by (intro finished_digest [THEN trans]) auto
  moreover have "\<exists>n\<ge>1. ck_revision c = Fin (of_int n)" using fields(12) by (auto intro: exI [of _ 4] exI [of _ 5])
  moreover have "result_bound sample_host c"
  proof -
    have "js_get sample_result ''taskId'' = JStr ''task1''" "js_get sample_result ''deviceId'' = JStr ''d''"
      "js_get sample_result ''planId'' = js_get quiet_plan ''planId''" "plan_text sample_result ''summaryCode'' = ''done''"
      "\<not> unsafeEvidence ''done''" "texts_of (js_get sample_result ''artifactDigests'') = []"
      "ph_date sample_host (plan_text sample_result ''completedAt'') = Some 0" by code_simp+
    with fields show ?thesis by (simp add: result_bound_def)
  qed
  moreover have "\<not> has_effects quiet_plan" "js_get (plan_envelope quiet_plan) ''deviceId'' = JStr ''d''" "sample_result \<noteq> JNull"
    "ph_date sample_host ''t0'' = Some 0" by code_simp+
  moreover have "set run_states \<supseteq> {''completed-pending-sync'', ''synced''}" by (simp add: run_states_def)
  ultimately show ?thesis
    using fields sample_adapter quiet_plan_verified unfolding run_ok_def by auto
qed

lemma finished_restored:
  assumes "c \<in> {sample_done, sample_synced}"
  shows "restore_journal sample_host device_iso [c] 0 = Inr [c]"
proof -
  have "safe_integer (ck_revision c)" "ck_result c \<noteq> JNull" "ck_state c \<noteq> ''running''"
    using assms by (auto simp: sample_done_def sample_synced_def sample_run_def sample_result_def obj_def)
  then have "check_checkpoint sample_host c [] 0 = Inr ()"
    using check_checkpoint_of_ok [OF finished_ok [OF assms]] by (simp add: run_of_def lookup_def)
  then show ?thesis using \<open>ck_state c \<noteq> ''running''\<close> by (simp add: restore_journal_def restore_one_def set_run_def run_of_def lookup_def)
qed

lemma sample_marked: "markSynced sample_host device_iso ''task1'' 0 [sample_done] = Inr (sample_synced, [sample_synced])"
proof -
  have "sample_result \<noteq> JNull" by code_simp
  moreover have "seal sample_host (sample_done\<lparr>ck_state := ''synced'', ck_updatedAt := ''t0'', ck_revision := Fin 5\<rparr>) = Inr sample_synced"
    by (simp add: seal_def finished_digest sample_done_def sample_synced_def sample_run_def)
  ultimately show ?thesis
    by (simp add: markSynced_def step_run_def local_run_def run_of_def lookup_def require_def toISOString_def device_iso_def replace_run_def
        next_revision_def set_run_def sample_done_def sample_synced_def sample_run_def)
qed

lemma sample_saved: "\<exists>st. saveRunCheckpoint sample_host device_iso sample_synced 0 sample_waiting = Inr st"
proof -
  have "requireIdentity device_date sample_waiting = Inr sample_identity" by code_simp
  moreover have "ck_deviceId sample_synced = di_deviceId sample_identity" by code_simp
  moreover have "lookup ck_taskId (cs_checkpoints sample_waiting) (ck_taskId sample_synced) = Some sample_done" by code_simp
  moreover have "\<not> num_le (ck_revision sample_synced) (ck_revision sample_done)" "ck_revision sample_done \<noteq> ck_revision sample_synced" by code_simp+
  moreover have "ph_date sample_host = device_date" by (simp add: sample_host_def)
  ultimately show ?thesis using finished_restored [of sample_synced] by (simp add: saveRunCheckpoint_def require_def)
qed

lemma sample_restored: "restoreRunJournal sample_host device_iso 0 sample_waiting = Inr [sample_done]"
proof -
  have "requireIdentity device_date sample_waiting = Inr sample_identity" by code_simp
  then show ?thesis using finished_restored [of sample_done] by (simp add: restoreRunJournal_def sample_waiting_def sample_host_def)
qed

lemma sample_pending: "pending_run [sample_done] = Some sample_done"
  by (simp add: pending_run_def sample_done_def sample_run_def)

lemma sample_cycle: "\<exists>r s'. runNoEffectClientExecutionCycle sample_env [] sample_start = (Inr r, s') \<and> rc_state r = ''result-synced''"
proof -
  from sample_submits obtain v q where v: "submitResult sample_host ''s1'' sample_result 0 sample_served = (Inr v, q)"
    "js_get v ''taskId'' = JStr ''task1''" "js_get v ''planId'' = JStr ''p1''" "js_get v ''deviceId'' = JStr ''d''" by blast
  from sample_saved obtain st where st: "saveRunCheckpoint sample_host device_iso sample_synced 0 sample_waiting = Inr st" by blast
  have run: "run_of [sample_done] ''task1'' = Some sample_done" by (simp add: run_of_def lookup_def sample_done_def sample_run_def)
  have state: "ck_state sample_done = ''completed-pending-sync''" "ck_result sample_done = sample_result" "ck_deviceId sample_done = ''d''"
    "ck_plan sample_done = quiet_plan" "ck_taskId sample_done = ''task1''" by (simp_all add: sample_done_def sample_run_def)
  have plan: "js_get quiet_plan ''planId'' = JStr ''p1''" "sample_result \<noteq> JNull" by code_simp+
  have sub: "sv_submit (ce_server sample_env) ''s1'' sample_result 0 (sample_served, 2) = (Inr v, (q, 3))"
    using v(1) by (simp add: sample_env_def control_plane_def served_def sample_control_def)
  have env: "ce_host sample_env = sample_host" "ce_iso sample_env = device_iso" "ce_now sample_env = 0" by (simp_all add: sample_env_def)
  have "resultForSync ''task1'' [sample_done] = Inr sample_result"
    using run state plan(2) by (simp add: resultForSync_def local_run_def)
  then have "sync_run sample_env ''s1'' ''task1'' [sample_done] sample_done False ((sample_served, 2), sample_waiting)
      = (Inr ((run_receipt ''result-synced'' ''s1'' sample_synced False)\<lparr>rc_taskId := Some ''task1''\<rparr>), ((q, 3), st))"
    using state plan v(2-4) sub st sample_marked
    by (simp add: sync_run_def act_bind_def computed_def remote_def save_run_def local_write_def require_def env)
  then have "continue_cycle sample_env [] sample_identity ''s1'' ((sample_served, 2), sample_waiting)
      = (Inr ((run_receipt ''result-synced'' ''s1'' sample_synced False)\<lparr>rc_taskId := Some ''task1''\<rparr>), ((q, 3), st))"
    using sample_restored sample_pending run state
    by (simp add: continue_cycle_def act_bind_def local_read_def resumeNoEffectRun_def env)
  then show ?thesis
    using sample_serving by (simp add: runNoEffectClientExecutionCycle_def act_bind_def computed_def require_def env executor_index_def run_receipt_def)
qed

theorem synced_run_submitted_witness:
  "\<exists>r s'. runNoEffectClientExecutionCycle sample_env [] sample_start = (Inr r, s') \<and> (\<exists>t x. rc_taskId r = Some t
     \<and> lookup ck_taskId (cs_checkpoints (snd s')) t = Some x \<and> rc_checkpointDigest r = Some (ck_digest x))"
proof -
  from sample_cycle obtain r s' where r: "runNoEffectClientExecutionCycle sample_env [] sample_start = (Inr r, s')" "rc_state r = ''result-synced''"
    by blast
  from synced_run_submitted [OF r] r(1) show ?thesis by metis
qed


theorem accepted_run_first_witness:
  "runNoEffectClientExecutionCycle (sample_env\<lparr>ce_server := (ce_server sample_env)\<lparr>sv_poll := \<lambda>sid now w. (throw ''no poll'', w),
      sv_acknowledge := \<lambda>sid l t now w. (throw ''no lease'', w)\<rparr>\<rparr>) [] sample_start
   = runNoEffectClientExecutionCycle sample_env [] sample_start"
proof -
  have "restoreRunJournal (ce_host sample_env) (ce_iso sample_env) (ce_now sample_env) (snd sample_start) = Inr [sample_done]"
    using sample_restored by (simp add: sample_env_def sample_start_def)
  moreover have "pending_run [sample_done] \<noteq> None" by (simp add: sample_pending)
  ultimately show ?thesis by (rule accepted_run_first)
qed

end
