(* ===== verification/Client_Worker.thy ===== *)
theory Client_Worker
  imports Client_State
begin

text \<open>
  The worker of an installed client (client-runtime/no-effect-client-worker.ts): a pass refreshes the reports
  on the executors when they are old and runs one execution cycle; when it is over the next one is scheduled.
  The event loop is a step relation: the calls of \<open>start\<close> and \<open>stop\<close>, the ends of what a pass awaits, the
  \<open>finally\<close> behind a pass, the continuation of a \<open>stop\<close> and a timer may come in any order. The client and the
  clock are parameters: how a call ends is part of the step, and None is a clock that gives no date. The
  passes under way and the timers pending at the host are lists, so that overlapping ones could be told.
  A caller awaits its \<open>stop\<close> before it calls \<open>start\<close> again (client-runtime/installed-client-process.ts closes after it).
\<close>

section \<open>Settings\<close>

record client_worker_config =
  wf_workspacePath :: string
  wf_cycleIntervalMs :: int
  wf_discoveryIntervalMs :: int

definition object_keys :: "jval \<Rightarrow> string list" where
  "object_keys v = (case v of JObj _ kvs \<Rightarrow> map fst kvs | _ \<Rightarrow> [])"

definition config_keys :: "string list" where
  "config_keys = [''schemaVersion'', ''enabled'', ''workspacePath'', ''cycleIntervalMs'', ''discoveryIntervalMs'', ''externalWritesEnabled'']"

definition in_range :: "jval \<Rightarrow> int \<Rightarrow> int \<Rightarrow> bool" where
  "in_range v lo hi = (case v of JNum n \<Rightarrow> safe_integer n \<and> lo \<le> int_num n \<and> int_num n \<le> hi | _ \<Rightarrow> False)"

definition exactConfig :: "path \<Rightarrow> jval \<Rightarrow> unit result" where
  "exactConfig cwd value =
     require
       (join '','' (sort (object_keys value)) = join '','' (sort config_keys)
        \<and> js_get value ''schemaVersion'' = JNum (Fin 1) \<and> js_get value ''enabled'' = JBool True
        \<and> js_get value ''externalWritesEnabled'' = JBool False
        \<and> (case js_get value ''workspacePath'' of JStr p \<Rightarrow> isAbsolute p \<and> path_of (resolve cwd p) = p | _ \<Rightarrow> False)
        \<and> in_range (js_get value ''cycleIntervalMs'') 5000 300000
        \<and> in_range (js_get value ''discoveryIntervalMs'') 30000 3600000)
       ''client worker config is invalid''"

datatype worker_state = WStopped | WRunning | WStopping | WDegraded

datatype worker_pass = Discovering int | Executing int | PassOver

text \<open>
  \<open>wr_timer\<close> is the handle the worker keeps, \<open>wr_pending\<close> the timers the host still holds and \<open>wr_handles\<close> how
  many it gave out; \<open>wr_stops\<close> are the calls of \<open>stop\<close> that wait, with whether there was a pass to wait for.
\<close>

record client_worker =
  wr_config :: client_worker_config
  wr_state :: worker_state
  wr_passCount :: nat
  wr_lastPassAt :: "timestamp option"
  wr_lastDiscoveryAt :: "timestamp option"
  wr_lastReceiptState :: "string option"
  wr_lastFailure :: bool
  wr_timer :: "nat option"
  wr_pending :: "nat list"
  wr_handles :: nat
  wr_inFlight :: bool
  wr_passes :: "worker_pass list"
  wr_stops :: "bool list"

definition config_of :: "jval \<Rightarrow> client_worker_config" where
  "config_of value =
     \<lparr> wf_workspacePath = js_string (js_get value ''workspacePath''),
       wf_cycleIntervalMs = (case js_get value ''cycleIntervalMs'' of JNum n \<Rightarrow> int_num n | _ \<Rightarrow> 0),
       wf_discoveryIntervalMs = (case js_get value ''discoveryIntervalMs'' of JNum n \<Rightarrow> int_num n | _ \<Rightarrow> 0) \<rparr>"

text \<open>\<open>canonical\<close> is what \<open>realpath\<close> gives, \<open>directory\<close> what \<open>lstat\<close> says: a directory that is no symbolic link.\<close>

definition create_client_worker :: "path \<Rightarrow> (string \<Rightarrow> string result) \<Rightarrow> (string \<Rightarrow> bool result) \<Rightarrow> jval \<Rightarrow> client_worker result" where
  "create_client_worker cwd canonical directory value =
     rbind (exactConfig cwd value) (\<lambda>_.
     let config = config_of value in
     rbind (canonical (wf_workspacePath config)) (\<lambda>p.
     rbind (directory (wf_workspacePath config)) (\<lambda>d.
     rbind (require (p = wf_workspacePath config \<and> d) ''client worker workspace must be a canonical directory'') (\<lambda>_.
     Inr \<lparr> wr_config = config, wr_state = WStopped, wr_passCount = 0, wr_lastPassAt = None, wr_lastDiscoveryAt = None,
           wr_lastReceiptState = None, wr_lastFailure = False, wr_timer = None, wr_pending = [], wr_handles = 0,
           wr_inFlight = False, wr_passes = [], wr_stops = [] \<rparr>))))"

section \<open>A pass\<close>

definition discovery_due :: "(string \<Rightarrow> int option) \<Rightarrow> int \<Rightarrow> client_worker \<Rightarrow> bool" where
  "discovery_due date_ms now w =
     (case wr_lastDiscoveryAt w of
        None \<Rightarrow> True
      | Some t \<Rightarrow> (case date_ms t of None \<Rightarrow> False | Some d \<Rightarrow> wf_discoveryIntervalMs (wr_config w) \<le> now - d))"

text \<open>The body of a pass up to its first \<open>await\<close>; a \<open>Date\<close> out of the range of dates is no date either.\<close>

definition begin_pass :: "(string \<Rightarrow> int option) \<Rightarrow> int option \<Rightarrow> client_worker \<Rightarrow> worker_pass \<times> client_worker" where
  "begin_pass date_ms clock w =
     (case Option.bind clock (\<lambda>t. if \<bar>t\<bar> \<le> 8640000000000000 then Some t else None) of
        None \<Rightarrow> (PassOver, w\<lparr>wr_state := WDegraded, wr_lastFailure := True\<rparr>)
      | Some now \<Rightarrow> (if discovery_due date_ms now w then Discovering now else Executing now, w))"

definition launchPass :: "(string \<Rightarrow> int option) \<Rightarrow> int option \<Rightarrow> client_worker \<Rightarrow> client_worker" where
  "launchPass date_ms clock w =
     (if wr_state w \<notin> {WRunning, WDegraded} \<or> wr_inFlight w then w
      else (let (pass, w1) = begin_pass date_ms clock w in w1\<lparr>wr_passes := wr_passes w1 @ [pass], wr_inFlight := True\<rparr>))"

definition start_worker :: "(string \<Rightarrow> int option) \<Rightarrow> int option \<Rightarrow> client_worker \<Rightarrow> client_worker result" where
  "start_worker date_ms clock w =
     (if wr_state w \<noteq> WStopped then throw ''client worker is already started''
      else Inr (launchPass date_ms clock (w\<lparr>wr_state := WRunning\<rparr>)))"

text \<open>The two ends of a pass: the receipt of the cycle, or whatever threw.\<close>

definition pass_succeeds :: "(int \<Rightarrow> timestamp) \<Rightarrow> int \<Rightarrow> string \<Rightarrow> client_worker \<Rightarrow> client_worker" where
  "pass_succeeds iso_text now receipt w =
     (let w1 = w\<lparr>wr_passCount := Suc (wr_passCount w), wr_lastPassAt := Some (iso_text now), wr_lastReceiptState := Some receipt,
                 wr_lastFailure := False\<rparr> in
      if wr_state w1 = WDegraded then w1\<lparr>wr_state := WRunning\<rparr> else w1)"

definition pass_fails :: "(int \<Rightarrow> timestamp) \<Rightarrow> int \<Rightarrow> client_worker \<Rightarrow> client_worker" where
  "pass_fails iso_text now w =
     (let w1 = w\<lparr>wr_passCount := Suc (wr_passCount w), wr_lastPassAt := Some (iso_text now), wr_lastFailure := True\<rparr> in
      if wr_state w1 \<noteq> WStopping then w1\<lparr>wr_state := WDegraded\<rparr> else w1)"

text \<open>What follows the pass at position \<open>i\<close>: the discovery it awaited, the cycle it awaited, its \<open>finally\<close>.\<close>

definition discovery_ends :: "(int \<Rightarrow> timestamp) \<Rightarrow> nat \<Rightarrow> int \<Rightarrow> bool \<Rightarrow> client_worker \<Rightarrow> client_worker" where
  "discovery_ends iso_text i now found w =
     (if found then w\<lparr>wr_lastDiscoveryAt := Some (iso_text now), wr_passes := (wr_passes w)[i := Executing now]\<rparr>
      else (let w1 = pass_fails iso_text now w in w1\<lparr>wr_passes := (wr_passes w1)[i := PassOver]\<rparr>))"

definition cycle_ends :: "(int \<Rightarrow> timestamp) \<Rightarrow> nat \<Rightarrow> int \<Rightarrow> string option \<Rightarrow> client_worker \<Rightarrow> client_worker" where
  "cycle_ends iso_text i now receipt w =
     (let w1 = (case receipt of Some r \<Rightarrow> pass_succeeds iso_text now r w | None \<Rightarrow> pass_fails iso_text now w) in
      w1\<lparr>wr_passes := (wr_passes w1)[i := PassOver]\<rparr>)"

definition remove_at :: "nat \<Rightarrow> 'a list \<Rightarrow> 'a list" where
  "remove_at i xs = take i xs @ drop (Suc i) xs"

definition pass_finally :: "nat \<Rightarrow> client_worker \<Rightarrow> client_worker" where
  "pass_finally i w =
     (let w1 = w\<lparr>wr_inFlight := False, wr_passes := remove_at i (wr_passes w)\<rparr> in
      if wr_state w1 \<notin> {WRunning, WDegraded} then w1
      else w1\<lparr>wr_timer := Some (wr_handles w1), wr_pending := wr_pending w1 @ [wr_handles w1], wr_handles := Suc (wr_handles w1)\<rparr>)"

definition worker_timer_fires :: "(string \<Rightarrow> int option) \<Rightarrow> int option \<Rightarrow> nat \<Rightarrow> client_worker \<Rightarrow> client_worker" where
  "worker_timer_fires date_ms clock handle w =
     launchPass date_ms clock (w\<lparr>wr_pending := removeAll handle (wr_pending w), wr_timer := None\<rparr>)"

section \<open>Stop\<close>

definition stop_worker :: "client_worker \<Rightarrow> client_worker" where
  "stop_worker w =
     (if wr_state w = WStopped then w
      else (let w1 = (case wr_timer w of
                None \<Rightarrow> w | Some h \<Rightarrow> w\<lparr>wr_pending := removeAll h (wr_pending w), wr_timer := None\<rparr>) in
            w1\<lparr>wr_state := WStopping, wr_stops := wr_stops w1 @ [wr_inFlight w1]\<rparr>))"

definition stop_continues :: "nat \<Rightarrow> client_worker \<Rightarrow> client_worker" where
  "stop_continues i w = w\<lparr>wr_state := WStopped, wr_stops := remove_at i (wr_stops w)\<rparr>"

section \<open>The event loop\<close>

inductive worker_step :: "(string \<Rightarrow> int option) \<Rightarrow> (int \<Rightarrow> timestamp) \<Rightarrow> client_worker \<Rightarrow> client_worker \<Rightarrow> bool"
  for date_ms :: "string \<Rightarrow> int option" and iso_text :: "int \<Rightarrow> timestamp" where
  call_start: "wr_stops w = [] \<Longrightarrow> start_worker date_ms clock w = Inr w' \<Longrightarrow> worker_step date_ms iso_text w w'"
| call_stop: "worker_step date_ms iso_text w (stop_worker w)"
| discovery: "i < length (wr_passes w) \<Longrightarrow> wr_passes w ! i = Discovering now \<Longrightarrow> worker_step date_ms iso_text w (discovery_ends iso_text i now found w)"
| cycle: "i < length (wr_passes w) \<Longrightarrow> wr_passes w ! i = Executing now \<Longrightarrow> worker_step date_ms iso_text w (cycle_ends iso_text i now receipt w)"
| pass_done: "i < length (wr_passes w) \<Longrightarrow> wr_passes w ! i = PassOver \<Longrightarrow> worker_step date_ms iso_text w (pass_finally i w)"
| timer_due: "h \<in> set (wr_pending w) \<Longrightarrow> worker_step date_ms iso_text w (worker_timer_fires date_ms clock h w)"
| stopped: "i < length (wr_stops w) \<Longrightarrow> wr_stops w ! i \<longrightarrow> \<not> wr_inFlight w \<Longrightarrow> worker_step date_ms iso_text w (stop_continues i w)"

inductive worker_reachable :: "(string \<Rightarrow> int option) \<Rightarrow> (int \<Rightarrow> timestamp) \<Rightarrow> client_worker \<Rightarrow> client_worker \<Rightarrow> bool"
  for date_ms :: "string \<Rightarrow> int option" and iso_text :: "int \<Rightarrow> timestamp" and w0 :: client_worker where
  initially: "worker_reachable date_ms iso_text w0 w0"
| further: "worker_reachable date_ms iso_text w0 w \<Longrightarrow> worker_step date_ms iso_text w w' \<Longrightarrow> worker_reachable date_ms iso_text w0 w'"

section \<open>The invariant\<close>

text \<open>The report on the executors a pass runs with was made less than the configured interval before.\<close>

definition fresh :: "(string \<Rightarrow> int option) \<Rightarrow> int \<Rightarrow> timestamp option \<Rightarrow> int \<Rightarrow> bool" where
  "fresh date_ms interval discovered now \<longleftrightarrow> (\<exists>t d. discovered = Some t \<and> date_ms t = Some d \<and> now - d < interval)"

definition pass_ok :: "(string \<Rightarrow> int option) \<Rightarrow> int \<Rightarrow> timestamp option \<Rightarrow> worker_pass \<Rightarrow> bool" where
  "pass_ok date_ms interval discovered p \<longleftrightarrow>
     (case p of Discovering now \<Rightarrow> \<bar>now\<bar> \<le> 8640000000000000 | Executing now \<Rightarrow> fresh date_ms interval discovered now | PassOver \<Rightarrow> True)"

definition worker_ok :: "(string \<Rightarrow> int option) \<Rightarrow> client_worker \<Rightarrow> bool" where
  "worker_ok date_ms w \<longleftrightarrow>
     0 < wf_discoveryIntervalMs (wr_config w)
     \<and> length (wr_passes w) = (if wr_inFlight w then 1 else 0)
     \<and> list_all (pass_ok date_ms (wf_discoveryIntervalMs (wr_config w)) (wr_lastDiscoveryAt w)) (wr_passes w)
     \<and> wr_pending w = (case wr_timer w of None \<Rightarrow> [] | Some h \<Rightarrow> [h])
     \<and> (case wr_lastDiscoveryAt w of None \<Rightarrow> True | Some t \<Rightarrow> date_ms t \<noteq> None)
     \<and> (case wr_state w of
          WStopped \<Rightarrow> \<not> wr_inFlight w \<and> wr_timer w = None
        | WStopping \<Rightarrow> wr_timer w = None \<and> wr_stops w \<noteq> [] \<and> (False \<in> set (wr_stops w) \<longrightarrow> \<not> wr_inFlight w)
        | _ \<Rightarrow> wr_stops w = [] \<and> wr_inFlight w = (wr_timer w = None))"

definition dates_exact :: "(string \<Rightarrow> int option) \<Rightarrow> (int \<Rightarrow> timestamp) \<Rightarrow> bool" where
  "dates_exact date_ms iso_text \<longleftrightarrow> (\<forall>t. \<bar>t\<bar> \<le> 8640000000000000 \<longrightarrow> date_ms (iso_text t) = Some t)"

lemma created_ok:
  assumes "create_client_worker cwd canonical directory value = Inr w"
  shows "worker_ok date_ms w \<and> wf_discoveryIntervalMs (wr_config w) \<le> 3600000"
proof -
  from assms have "exactConfig cwd value = Inr ()" by (simp add: create_client_worker_def rbind_Inr_iff)
  then have "in_range (js_get value ''discoveryIntervalMs'') 30000 3600000" by (simp add: exactConfig_def require_def split: if_split_asm)
  then have "0 < wf_discoveryIntervalMs (config_of value)" "wf_discoveryIntervalMs (config_of value) \<le> 3600000"
    by (auto simp: config_of_def in_range_def split: jval.split_asm)
  then show ?thesis
    using assms by (auto simp: create_client_worker_def rbind_Inr_iff worker_ok_def Let_def)
qed

lemma over_ok [simp]: "pass_ok date_ms interval discovered PassOver"
  by (simp add: pass_ok_def)

lemma begun_ok:
  assumes "0 < wf_discoveryIntervalMs (wr_config w)" "case wr_lastDiscoveryAt w of None \<Rightarrow> True | Some t \<Rightarrow> date_ms t \<noteq> None"
  shows "pass_ok date_ms (wf_discoveryIntervalMs (wr_config w)) (wr_lastDiscoveryAt w) (fst (begin_pass date_ms clock w))"
  using assms
  by (auto simp: begin_pass_def pass_ok_def fresh_def discovery_due_def bind_eq_Some_conv split: option.split option.split_asm if_split_asm)

lemma begun_worker: "snd (begin_pass date_ms clock w) = w \<or> snd (begin_pass date_ms clock w) = w\<lparr>wr_state := WDegraded, wr_lastFailure := True\<rparr>"
  by (simp add: begin_pass_def split: option.split)

lemma launched_ok:
  assumes "0 < wf_discoveryIntervalMs (wr_config w)" "wr_passes w = []" "\<not> wr_inFlight w" "wr_timer w = None" "wr_pending w = []"
    "case wr_lastDiscoveryAt w of None \<Rightarrow> True | Some t \<Rightarrow> date_ms t \<noteq> None" "wr_state w \<in> {WRunning, WDegraded}" "wr_stops w = []"
  shows "worker_ok date_ms (launchPass date_ms clock w) \<and> wr_config (launchPass date_ms clock w) = wr_config w"
proof -
  obtain pass w1 where b: "begin_pass date_ms clock w = (pass, w1)" by fastforce
  with begun_ok [OF assms(1,6)] have pass: "pass_ok date_ms (wf_discoveryIntervalMs (wr_config w)) (wr_lastDiscoveryAt w) pass" by (metis fst_conv)
  have launch: "launchPass date_ms clock w = w1\<lparr>wr_passes := wr_passes w1 @ [pass], wr_inFlight := True\<rparr>"
    using assms(3,7) b by (simp add: launchPass_def)
  from b begun_worker have "w1 = w \<or> w1 = w\<lparr>wr_state := WDegraded, wr_lastFailure := True\<rparr>" by (metis snd_conv)
  then show ?thesis
  proof
    assume "w1 = w" with assms pass show ?thesis unfolding launch by (cases "wr_state w") (simp_all add: worker_ok_def)
  next
    assume "w1 = w\<lparr>wr_state := WDegraded, wr_lastFailure := True\<rparr>" with assms pass show ?thesis unfolding launch by (simp add: worker_ok_def)
  qed
qed

lemma one_pass:
  assumes "worker_ok date_ms w" "i < length (wr_passes w)"
  shows "i = 0" "wr_inFlight w" "wr_passes w = [wr_passes w ! i]"
    "pass_ok date_ms (wf_discoveryIntervalMs (wr_config w)) (wr_lastDiscoveryAt w) (wr_passes w ! i)"
proof -
  from assms show flight: "wr_inFlight w" by (simp add: worker_ok_def split: if_split_asm)
  with assms(1) obtain p where p: "wr_passes w = [p]" by (auto simp: worker_ok_def length_Suc_conv)
  with assms(2) show i: "i = 0" by simp
  show "wr_passes w = [wr_passes w ! i]" by (simp add: p i)
  show "pass_ok date_ms (wf_discoveryIntervalMs (wr_config w)) (wr_lastDiscoveryAt w) (wr_passes w ! i)"
    using assms(1) by (simp add: p i worker_ok_def)
qed

lemma pass_end_ok:
  assumes w: "worker_ok date_ms w" "wr_inFlight w"
    and w': "w' = w\<lparr>wr_passes := [PassOver], wr_state := state, wr_passCount := n, wr_lastPassAt := a, wr_lastReceiptState := r, wr_lastFailure := f\<rparr>"
    and state: "state = wr_state w \<or> (wr_state w \<in> {WRunning, WDegraded} \<and> state \<in> {WRunning, WDegraded})"
  shows "worker_ok date_ms w' \<and> wr_config w' = wr_config w"
  using assms by (auto simp: worker_ok_def split: worker_state.splits)

lemma in_flight_state: "worker_ok date_ms w \<Longrightarrow> wr_inFlight w \<Longrightarrow> wr_state w \<in> {WRunning, WDegraded, WStopping}"
  by (cases "wr_state w") (auto simp: worker_ok_def)

lemma discovery_ends_ok:
  assumes "worker_ok date_ms w" "dates_exact date_ms iso_text" "i < length (wr_passes w)" "wr_passes w ! i = Discovering now"
  shows "worker_ok date_ms (discovery_ends iso_text i now found w) \<and> wr_config (discovery_ends iso_text i now found w) = wr_config w"
proof -
  note p = one_pass [OF assms(1,3), unfolded assms(4)]
  from p(4) have now: "date_ms (iso_text now) = Some now" using assms(2) by (simp add: pass_ok_def dates_exact_def)
  show ?thesis
  proof (cases found)
    case True
    with assms(1) now p(1,2,3) show ?thesis
      by (auto simp: discovery_ends_def worker_ok_def pass_ok_def fresh_def split: worker_state.splits)
  next
    case False
    with p(1,3) have "discovery_ends iso_text i now found w = w\<lparr>wr_passes := [PassOver],
        wr_state := if wr_state w \<noteq> WStopping then WDegraded else wr_state w, wr_passCount := Suc (wr_passCount w),
        wr_lastPassAt := Some (iso_text now), wr_lastReceiptState := wr_lastReceiptState w, wr_lastFailure := True\<rparr>"
      by (auto simp: discovery_ends_def pass_fails_def Let_def)
    from pass_end_ok [OF assms(1) p(2) this] show ?thesis using in_flight_state [OF assms(1) p(2)] by auto
  qed
qed

lemma cycle_ends_ok:
  assumes "worker_ok date_ms w" "i < length (wr_passes w)" "wr_passes w ! i = Executing now"
  shows "worker_ok date_ms (cycle_ends iso_text i now receipt w) \<and> wr_config (cycle_ends iso_text i now receipt w) = wr_config w"
proof -
  note p = one_pass [OF assms(1,2), unfolded assms(3)]
  show ?thesis
  proof (cases receipt)
    case None
    with p(1,3) have "cycle_ends iso_text i now receipt w = w\<lparr>wr_passes := [PassOver],
        wr_state := if wr_state w \<noteq> WStopping then WDegraded else wr_state w, wr_passCount := Suc (wr_passCount w),
        wr_lastPassAt := Some (iso_text now), wr_lastReceiptState := wr_lastReceiptState w, wr_lastFailure := True\<rparr>"
      by (auto simp: cycle_ends_def pass_fails_def Let_def)
    from pass_end_ok [OF assms(1) p(2) this] show ?thesis using in_flight_state [OF assms(1) p(2)] by auto
  next
    case (Some r)
    with p(1,3) have "cycle_ends iso_text i now receipt w = w\<lparr>wr_passes := [PassOver],
        wr_state := if wr_state w = WDegraded then WRunning else wr_state w, wr_passCount := Suc (wr_passCount w),
        wr_lastPassAt := Some (iso_text now), wr_lastReceiptState := Some r, wr_lastFailure := False\<rparr>"
      by (auto simp: cycle_ends_def pass_succeeds_def Let_def)
    from pass_end_ok [OF assms(1) p(2) this] show ?thesis by auto
  qed
qed

lemma pass_finally_ok:
  assumes "worker_ok date_ms w" "i < length (wr_passes w)"
  shows "worker_ok date_ms (pass_finally i w) \<and> wr_config (pass_finally i w) = wr_config w"
  using one_pass [OF assms] assms(1)
  by (cases "wr_state w") (auto simp: pass_finally_def worker_ok_def remove_at_def Let_def)

lemma stop_worker_ok:
  assumes "worker_ok date_ms w"
  shows "worker_ok date_ms (stop_worker w) \<and> wr_config (stop_worker w) = wr_config w"
  using assms by (auto simp: stop_worker_def worker_ok_def Let_def split: option.splits worker_state.splits)

lemma worker_step_ok:
  assumes "worker_step date_ms iso_text w w'" "worker_ok date_ms w" "dates_exact date_ms iso_text"
  shows "worker_ok date_ms w' \<and> wr_config w' = wr_config w"
  using assms(1)
proof cases
  case (call_start clock)
  then show ?thesis using assms(2) launched_ok [of "w\<lparr>wr_state := WRunning\<rparr>" date_ms clock]
    by (auto simp: start_worker_def worker_ok_def split: if_split_asm)
next
  case call_stop with stop_worker_ok [OF assms(2)] show ?thesis by simp
next
  case discovery with discovery_ends_ok [OF assms(2,3)] show ?thesis by simp
next
  case cycle with cycle_ends_ok [OF assms(2)] show ?thesis by simp
next
  case pass_done with pass_finally_ok [OF assms(2)] show ?thesis by simp
next
  case (timer_due h clock)
  with assms(2) have h: "wr_timer w = Some h" "wr_pending w = [h]" by (auto simp: worker_ok_def split: option.splits)
  with assms(2) have "wr_state w \<in> {WRunning, WDegraded}" "\<not> wr_inFlight w" "wr_stops w = []"
    by (cases "wr_state w"; auto simp: worker_ok_def)+
  with h assms(2) timer_due show ?thesis
    using launched_ok [of "w\<lparr>wr_pending := [], wr_timer := None\<rparr>" date_ms clock] by (auto simp: worker_timer_fires_def worker_ok_def)
next
  case (stopped i)
  then show ?thesis using assms(2)
    by (auto simp: stop_continues_def worker_ok_def in_set_conv_nth split: worker_state.splits)
qed

lemma worker_reachable_ok:
  assumes "worker_reachable date_ms iso_text w0 w" "worker_ok date_ms w0" "dates_exact date_ms iso_text"
  shows "worker_ok date_ms w \<and> wr_config w = wr_config w0"
  using assms(1) by induction (use assms(2,3) worker_step_ok in auto)

section \<open>One owner, and a stop that ends\<close>


text \<open>What a stop still waits for: the awaits left of the pass under way, and the calls of \<open>stop\<close> to answer.\<close>

definition pass_rest :: "worker_pass \<Rightarrow> nat" where
  "pass_rest p = (case p of Discovering _ \<Rightarrow> 3 | Executing _ \<Rightarrow> 2 | PassOver \<Rightarrow> 1)"

definition stop_rest :: "client_worker \<Rightarrow> nat" where
  "stop_rest w = sum_list (map pass_rest (wr_passes w)) + length (wr_stops w)"

lemma stopping_still:
  assumes "worker_ok date_ms w" "wr_state w = WStopping"
  shows "wr_timer w = None" "wr_pending w = []" "wr_stops w \<noteq> []" "False \<in> set (wr_stops w) \<Longrightarrow> \<not> wr_inFlight w"
  using assms by (simp_all add: worker_ok_def)

lemma stopping_progress:
  assumes "worker_ok date_ms w" "wr_state w = WStopping"
  shows "\<exists>w'. worker_step date_ms iso_text w w' \<and> w' \<noteq> stop_worker w"
proof (cases "wr_inFlight w")
  case True
  with assms(1) obtain p where p: "wr_passes w = [p]" by (auto simp: worker_ok_def length_Suc_conv)
  have rest: "wr_passes (stop_worker w) = [p]" using p by (simp add: stop_worker_def Let_def split: option.split)
  consider now where "p = Discovering now" | now where "p = Executing now" | "p = PassOver" by (cases p) auto
  then show ?thesis
  proof cases
    case (1 now)
    then have "worker_step date_ms iso_text w (discovery_ends iso_text 0 now True w)" using p by (intro worker_step.discovery) simp_all
    moreover have "wr_passes (discovery_ends iso_text 0 now True w) = [Executing now]" using p by (simp add: discovery_ends_def)
    ultimately show ?thesis using rest 1 by fastforce
  next
    case (2 now)
    then have "worker_step date_ms iso_text w (cycle_ends iso_text 0 now None w)" using p by (intro worker_step.cycle) simp_all
    moreover have "wr_passes (cycle_ends iso_text 0 now None w) = [PassOver]" using p by (simp add: cycle_ends_def pass_fails_def Let_def)
    ultimately show ?thesis using rest 2 by fastforce
  next
    case 3
    then have "worker_step date_ms iso_text w (pass_finally 0 w)" using p by (intro worker_step.pass_done) simp_all
    moreover have "wr_passes (pass_finally 0 w) = []" using p by (simp add: pass_finally_def remove_at_def Let_def)
    ultimately show ?thesis using rest by fastforce
  qed
next
  case False
  with stopping_still(3) [OF assms] have "worker_step date_ms iso_text w (stop_continues 0 w)" by (intro worker_step.stopped) simp_all
  moreover have "wr_state (stop_continues 0 w) = WStopped" "wr_state (stop_worker w) \<noteq> WStopped"
    using assms(2) by (simp_all add: stop_continues_def stop_worker_def Let_def split: option.split)
  ultimately show ?thesis by metis
qed

lemma stopping_decreases:
  assumes ok: "worker_ok date_ms w" "wr_state w = WStopping" and step: "worker_step date_ms iso_text w w'"
  shows "w' = stop_worker w \<or> (stop_rest w' < stop_rest w \<and> wr_state w' \<in> {WStopping, WStopped})"
  using step
proof cases
  case call_stop then show ?thesis by simp
next
  case (discovery i now found)
  from one_pass [OF ok(1) discovery(2)] discovery show ?thesis
    by (cases found) (auto simp: discovery_ends_def pass_fails_def stop_rest_def pass_rest_def Let_def ok(2))
next
  case (cycle i now receipt)
  from one_pass [OF ok(1) cycle(2)] cycle show ?thesis
    by (cases receipt) (auto simp: cycle_ends_def pass_fails_def pass_succeeds_def stop_rest_def pass_rest_def Let_def ok(2))
next
  case (pass_done i)
  from one_pass [OF ok(1) pass_done(2)] pass_done show ?thesis
    by (auto simp: pass_finally_def remove_at_def stop_rest_def pass_rest_def Let_def ok(2))
next
  case (stopped i)
  then have "stop_rest w' < stop_rest w" by (auto simp: stop_continues_def remove_at_def stop_rest_def)
  with stopped show ?thesis by (simp add: stop_continues_def)
qed (use stopping_still [OF ok] ok(2) in \<open>auto simp: start_worker_def\<close>)

theorem stop_ends:
  assumes "create_client_worker cwd canonical directory value = Inr w0" "dates_exact date_ms iso_text" "worker_reachable date_ms iso_text w0 w"
    and "wr_state w = WStopping"
  shows "(\<exists>w'. worker_step date_ms iso_text w w' \<and> w' \<noteq> stop_worker w)
    \<and> (\<forall>w'. worker_step date_ms iso_text w w' \<longrightarrow>
         w' = stop_worker w \<or> (stop_rest w' < stop_rest w \<and> wr_state w' \<in> {WStopping, WStopped}))
    \<and> stop_rest w \<le> 3 + length (wr_stops w)"
proof -
  from worker_reachable_ok [OF assms(3) _ assms(2)] created_ok [OF assms(1)] have ok: "worker_ok date_ms w" by blast
  have "sum_list (map pass_rest (wr_passes w)) \<le> 3"
  proof (cases "wr_inFlight w")
    case True
    with ok obtain p where "wr_passes w = [p]" by (auto simp: worker_ok_def length_Suc_conv)
    then show ?thesis by (simp add: pass_rest_def split: worker_pass.split)
  next
    case False with ok show ?thesis by (simp add: worker_ok_def)
  qed
  then show ?thesis using stopping_progress [OF ok assms(4)] stopping_decreases [OF ok assms(4)] by (auto simp: stop_rest_def)
qed

section \<open>Witnesses\<close>

text \<open>Dates written in unary, as many strokes as milliseconds, with a sign.\<close>

definition unary_iso :: "int \<Rightarrow> timestamp" where
  "unary_iso t = (if t < 0 then CHR ''-'' # replicate (nat (- t)) (CHR ''1'') else replicate (nat t) (CHR ''1''))"

definition unary_date :: "string \<Rightarrow> int option" where
  "unary_date s = (case s of [] \<Rightarrow> Some 0 | c # cs \<Rightarrow> if c = CHR ''-'' then Some (- int (length cs)) else Some (int (length s)))"

lemma unary_dates: "dates_exact unary_date unary_iso"
proof -
  have "unary_date (unary_iso t) = Some t" for t
  proof (cases "nat t")
    case 0 then show ?thesis by (cases "t = 0") (auto simp: unary_date_def unary_iso_def)
  next
    case (Suc n) then show ?thesis by (auto simp: unary_date_def unary_iso_def)
  qed
  then show ?thesis by (simp add: dates_exact_def)
qed

definition sample_worker_config :: jval where
  "sample_worker_config = JObj ObjectProto
     [(''schemaVersion'', JNum (Fin 1)), (''enabled'', JBool True), (''workspacePath'', JStr ''/work''),
      (''cycleIntervalMs'', JNum (Fin 5000)), (''discoveryIntervalMs'', JNum (Fin 30000)), (''externalWritesEnabled'', JBool False)]"

definition new_worker :: client_worker where
  "new_worker =
     \<lparr> wr_config = \<lparr> wf_workspacePath = ''/work'', wf_cycleIntervalMs = 5000, wf_discoveryIntervalMs = 30000 \<rparr>, wr_state = WStopped,
       wr_passCount = 0, wr_lastPassAt = None, wr_lastDiscoveryAt = None, wr_lastReceiptState = None, wr_lastFailure = False, wr_timer = None,
       wr_pending = [], wr_handles = 0, wr_inFlight = False, wr_passes = [], wr_stops = [] \<rparr>"

definition started_worker :: client_worker where
  "started_worker = new_worker\<lparr>wr_state := WRunning, wr_passes := [Discovering 0], wr_inFlight := True\<rparr>"

lemma sample_created: "create_client_worker [] Inr (\<lambda>_. Inr True) sample_worker_config = Inr new_worker"
  by code_simp

lemma started_reachable: "worker_reachable unary_date unary_iso new_worker started_worker"
proof -
  have "start_worker unary_date (Some 0) new_worker = Inr started_worker"
    by (simp add: start_worker_def launchPass_def begin_pass_def discovery_due_def new_worker_def started_worker_def)
  moreover have "wr_stops new_worker = []" by (simp add: new_worker_def)
  ultimately show ?thesis by (blast intro: worker_reachable.intros worker_step.call_start)
qed


theorem stop_ends_witness:
  "\<exists>w'. worker_step unary_date unary_iso (stop_worker started_worker) w' \<and> w' \<noteq> stop_worker (stop_worker started_worker)"
proof -
  have reached: "worker_reachable unary_date unary_iso new_worker (stop_worker started_worker)"
    by (rule worker_reachable.further [OF started_reachable worker_step.call_stop])
  have state: "wr_state (stop_worker started_worker) = WStopping" by (simp add: stop_worker_def started_worker_def new_worker_def)
  from stop_ends [OF sample_created unary_dates reached state] show ?thesis by blast
qed

end
