(* ===== verification/Spec2Isabelle.thy ===== *)
theory Spec2Isabelle
  imports Js_Prelude Step_History Canonical_Json Channel_Domain Policy_Engine Lease_Queue Event_Store Workflow_Store
    Action_Store Policy_Store Control_Reads Claim_Authorization Workspace_Policy Executor_Router Executor_Worker
    Module_Parse Module_Graph Module_Catalog
    Capability_Checks Capability_Manifest Execution_Envelope
    Wake_Scheduler Workflow_Runtime Lifecycle
    Postgres_Workflow Event_Runtime Durable_State
    Session_Lifecycle Session_Effects Network_Recovery
    Device_Sessions Matter_Lease Signed_Plan Device_Dispatch Client_Journal Client_State
    Client_Cycle Client_Worker
begin

text \<open>
  A verification development for QuarkSelfAI, an assistant that runs on its owner's computers: channels
  deliver events to a durable journal, consumers and workflows turn them into actions and effects, approvals
  and policies decide what may be written, executors carry it out, and a control plane hands signed plans to
  the devices of a user. Paths below are relative to \<^verbatim>\<open>src/src/\<close> unless they begin with
  \<^verbatim>\<open>migrations/\<close>.

  \<^bold>\<open>How the parts interact.\<close> The SQLite store (\<^verbatim>\<open>storage/sqlite.ts\<close>) is the centre. The
  event runtime and the workflow runtime claim due rows under a lease, call the code registered for them, and
  settle or release the row; the durable worker does the same for actions, with the router and the
  single-use capability between it and an executor. The durable state host passes calls on to the store and
  emits a wake when a call makes work due; the wake scheduler turns wakes into runs. The session life cycle
  and network recovery are a workflow and a service on top of this. On the other side the control plane opens
  sessions for devices, queues signed plans and records results; a device keeps its own state and a journal
  of the runs it accepted.

  \<^bold>\<open>How code becomes definitions.\<close> Each theory follows its file: a record per row or interface, a
  definition per method with its guards in the order of the code, an error for every \<^verbatim>\<open>throw\<close>
  (\<open>throw\<close> of a message, \<open>Inl\<close> of a result) and \<open>rbind\<close> for what follows. A transaction
  that throws leaves the store as it was, so it returns a result with the new store; a call that writes before
  it may fail returns its result and the store separately. Where the code awaits, others may act: the model
  takes the store they leave (a function \<open>world\<close>, a list of calls, or separate steps for the parts before
  and after) and the theorems hold for every choice of it. A JavaScript number is \<open>jnum\<close>, an untyped value
  \<open>jval\<close>, a JSON column \<open>json\<close>; a string is a list of bytes, which agrees with the code on the
  patterns and lengths of ASCII text. Clocks, collation, the texts of dates and numbers, SHA-256, Ed25519, \<^verbatim>\<open>realpath\<close>,
  agents, subagents, Codex and command runners are parameters.

  \<^bold>\<open>Foundations.\<close> \<open>Js_Prelude\<close> (results, numbers, dates, text, tables as lists),
  \<open>Step_History\<close> (what runs of steps keep, once for every store),
  \<open>Canonical_Json\<close> (\<^verbatim>\<open>canonicalJson\<close> decides equality of values), \<open>Channel_Domain\<close> (envelopes
  and contracts of \<^verbatim>\<open>domain/\<close>), \<open>Lease_Queue\<close> (the abstract machine of a leased queue and the
  locale \<open>lease_store\<close>, interpreted on events, workflow effects, actions and the PostgreSQL outbox).

  \<^bold>\<open>The store.\<close> \<open>Event_Store\<close>, \<open>Workflow_Store\<close>, \<open>Action_Store\<close>, \<open>Policy_Store\<close> and
  \<open>Control_Reads\<close> model \<^verbatim>\<open>storage/sqlite.ts\<close> with the tables of \<^verbatim>\<open>migrations/sqlite\<close>:
  exclusive claims, exactly-once and conflict-free advances, complete and legal audit trails, approvals that
  are required and final, policies in force only after a safe simulation. \<open>Postgres_Workflow\<close> models the
  workflow half of \<^verbatim>\<open>storage/postgres.ts\<close> with interleaved transactions and shows that its outbox refines
  the same abstract machine. \<open>Durable_State\<close> (\<^verbatim>\<open>storage/service.ts\<close>) shows that work made due wakes
  its runtime in time.

  \<^bold>\<open>Deciding and executing.\<close> \<open>Policy_Engine\<close> (\<^verbatim>\<open>policy/engine.ts\<close>); \<open>Claim_Authorization\<close>,
  \<open>Workspace_Policy\<close>, \<open>Executor_Router\<close> and \<open>Executor_Worker\<close> (\<^verbatim>\<open>execution/\<close>), where the
  worker is verified against the locale \<open>action_port\<close>, interpreted on the SQLite store: writes need
  a capability for exactly that request, the workspace lies below a root, a run ends its claim, a worker that
  lost its lease writes nothing. \<open>Module_Parse\<close>, \<open>Module_Graph\<close>, \<open>Module_Catalog\<close>
  (\<^verbatim>\<open>platform/modules.ts\<close>) and \<open>Capability_Checks\<close>, \<open>Capability_Manifest\<close>,
  \<open>Execution_Envelope\<close> (\<^verbatim>\<open>capability-platform/validation.ts\<close>) state what the validators accept.

  \<^bold>\<open>Running.\<close> \<open>Wake_Scheduler\<close>, \<open>Lifecycle\<close>, \<open>Event_Runtime\<close> and \<open>Workflow_Runtime\<close>
  (\<^verbatim>\<open>runtime/wake-scheduler.ts\<close>, \<^verbatim>\<open>platform/lifecycle.ts\<close>, \<^verbatim>\<open>events/runtime.ts\<close>,
  \<^verbatim>\<open>workflow/runtime.ts\<close>): no wake is lost, start is all or nothing, a run leaves no lease and
  finishes with its effect. \<open>Session_Lifecycle\<close> and \<open>Session_Effects\<close> (\<^verbatim>\<open>session-lifecycle/\<close>):
  nothing is deleted before its retention is over, a session is never stuck, and the adapter admits the
  deletions the workflow requests and no others. \<open>Network_Recovery\<close> (\<^verbatim>\<open>network-recovery/\<close>).

  \<^bold>\<open>Devices.\<close> \<open>Device_Sessions\<close> and \<open>Device_Dispatch\<close>
  (\<^verbatim>\<open>control-plane/sqlite-device-session-provider.ts\<close>): one session per challenge, plans delivered only
  signed, valid and without effects, one immutable result per task. \<open>Matter_Lease\<close>
  (\<^verbatim>\<open>control-plane/sqlite-matter-owner-lease.ts\<close>): ownership moves only from an inactive holder, with a growing
  epoch. \<open>Signed_Plan\<close> (\<^verbatim>\<open>client-runtime/validation.ts\<close>, \<^verbatim>\<open>negotiation.ts\<close>,
  \<^verbatim>\<open>discovery.ts\<close>, \<^verbatim>\<open>plan-signature.ts\<close>, \<^verbatim>\<open>device-identity.ts\<close>), \<open>Client_Journal\<close>
  (\<^verbatim>\<open>inactive-run-journal.ts\<close>) and \<open>Client_State\<close> (\<^verbatim>\<open>sqlite-client-state.ts\<close>) are the device's
  side: the executor negotiated is the first that meets the requirement, a device with its key opens a
  session, histories of runs only go forward and survive a restart, intakes are idempotent, selections sound.
  \<open>Client_Cycle\<close> (\<^verbatim>\<open>inactive-client-cycle.ts\<close>) runs them over
  a server port; its locale \<open>result_sink\<close>, interpreted on the control plane, gives that a result
  marked as synchronised is on record there. \<open>Client_Worker\<close> (\<^verbatim>\<open>no-effect-client-worker.ts\<close>) is the
  worker's event loop as a step relation: its passes never overlap, a stop leaves no timer and ends.

  \<^bold>\<open>Bounds and fuel.\<close> The dispatch of an event to a workflow retries a conflict as often as the code does
  and then fails, so the model recurses on that number. The recovery loop recurses on the stages still open,
  the dependency closure on the modules not yet reached, both with a measure and so total. A timer waits at
  most 2147000000 ms, the recovery scan of the scheduler runs every 600000 ms, back-off doubles at most five
  times (32), as in the code. Dates reach 8640000000000000 ms either way, revisions are compared as numbers and
  the restoration of a journal asks for safe integers. No definition is cut off by fuel of the model's own.

  \<^bold>\<open>Not modelled.\<close> Bodies of HTTP handlers, spawned commands, launchd, keychain and transports; Cordis
  wiring and configuration files; prompts for language models and the readers of their answers; the workflow
  definitions of intake, follow-up and task maintenance, which are texts around the machinery modelled here;
  the Lark and Dida clients; the JavaScript of \<^verbatim>\<open>packages/bridge-compat\<close>; maintenance scripts and audits of the
  predecessor's state; the halves of \<^verbatim>\<open>storage/postgres.ts\<close> outside the workflows, which repeat the
  SQLite operations with the statements of a server. They are input and output around the state that is
  modelled, or wait for third-party services whose behaviour the sources do not fix.
\<close>

end
